(* ===== verification/Prelude.thy ===== *)
theory Prelude
  imports Main "HOL-Library.Word"
begin

text \<open>
  Shared vocabulary of the development: machine integers and byte strings, the error
  values and the three-way outcome of a Go call (a result, an error, a panic), Go's
  string maps with their nil value, and the generic lemmas the component theories use.
\<close>

named_theorems outcome_simps \<open>equations that evaluate sequenced outcomes\<close>
named_theorems store_simps \<open>what a read returns after a write\<close>

section \<open>Integers, bytes, strings\<close>

text \<open>
  Go's fixed-width integers are words of their width: arithmetic wraps, and \<open>sint\<close> reads an
  \<open>int64\<close>. A Go \<open>string\<close> and a \<open>[]byte\<close> are both lists of bytes; where the code distinguishes
  a nil slice from an empty one, the slice is an \<open>option\<close>.
\<close>

type_synonym int64 = "64 word"
type_synonym uint32 = "32 word"
type_synonym uint16 = "16 word"
type_synonym bytes = "char list"

lemma uint32_succ:
  fixes x :: uint32
  assumes "Suc (unat x) < 2 ^ 32"
  shows "unat (x + 1) = Suc (unat x)" "x < x + 1"
  using assms by (simp_all add: unat_word_ariths word_less_nat_alt)

fun le_bytes :: "nat \<Rightarrow> nat \<Rightarrow> bytes" where
  "le_bytes 0 n = []"
| "le_bytes (Suc k) n = char_of (n mod 256) # le_bytes k (n div 256)"

fun le_nat :: "bytes \<Rightarrow> nat" where
  "le_nat [] = 0"
| "le_nat (c # cs) = of_char c + 256 * le_nat cs"

lemma length_le_bytes [simp]: "length (le_bytes k n) = k"
  by (induction k arbitrary: n) auto

lemma le_nat_le_bytes: "le_nat (le_bytes k n) = n mod 256 ^ k"
proof (induction k arbitrary: n)
  case 0
  show ?case by simp
next
  case (Suc k)
  have "n mod (256 * 256 ^ k) = 256 * (n div 256 mod 256 ^ k) + n mod 256"
    by (rule mod_mult2_eq)
  then show ?case by (simp add: Suc.IH)
qed

lemma le_nat_bound: "le_nat cs < 256 ^ length cs"
proof (induction cs)
  case Nil
  show ?case by simp
next
  case (Cons c cs)
  have "of_char c < (256 :: nat)" by simp
  then have "of_char c + 256 * le_nat cs < 256 * (le_nat cs + 1)" by simp
  also have "\<dots> \<le> 256 * 256 ^ length cs"
    using Cons.IH by (intro mult_le_mono) auto
  finally show ?case by simp
qed

lemma le_bytes_le_nat: "le_bytes (length cs) (le_nat cs) = cs"
  by (induction cs) auto

section \<open>Errors and outcomes\<close>

text \<open>
  Go error values: a plain error, a JSON-RPC error of the websocket client with its numeric
  code, the sentinel \<open>context.Canceled\<close>, and an error wrapped by \<open>fmt.Errorf\<close> with \<open>%w\<close>.
\<close>

datatype err = Plain string | Rpc int string | Canceled | Wrapped string err

fun err_msg :: "err \<Rightarrow> string" where
  "err_msg (Plain m) = m"
| "err_msg (Rpc c m) = m"
| "err_msg Canceled = ''context canceled''"
| "err_msg (Wrapped p e) = p @ '': '' @ err_msg e"

text \<open>\<open>errors.As\<close> with a \<open>*wsrpc.Error\<close> target: the code of the innermost RPC error.\<close>

fun rpc_code :: "err \<Rightarrow> int option" where
  "rpc_code (Plain m) = None"
| "rpc_code (Rpc c m) = Some c"
| "rpc_code Canceled = None"
| "rpc_code (Wrapped p e) = rpc_code e"

text \<open>\<open>errors.Is(err, context.Canceled)\<close>.\<close>

fun is_canceled :: "err \<Rightarrow> bool" where
  "is_canceled Canceled = True"
| "is_canceled (Wrapped p e) = is_canceled e"
| "is_canceled _ = False"

text \<open>
  The outcome of a Go call that returns \<open>(value, error)\<close>: a value, an error, or a run-time
  panic (nil dereference, index out of range, write to a nil map).
\<close>

datatype 'a outcome = Ok 'a | Fail err | Panic

fun andThen :: "'a outcome \<Rightarrow> ('a \<Rightarrow> 'b outcome) \<Rightarrow> 'b outcome" where
  "andThen (Ok a) f = f a"
| "andThen (Fail e) f = Fail e"
| "andThen Panic f = Panic"

text \<open>\<open>return fmt.Errorf("...: %w", err)\<close>.\<close>

fun wrapErr :: "string \<Rightarrow> 'a outcome \<Rightarrow> 'a outcome" where
  "wrapErr p (Ok a) = Ok a"
| "wrapErr p (Fail e) = Fail (Wrapped p e)"
| "wrapErr p Panic = Panic"

lemma andThen_eq_Ok [outcome_simps]:
  "andThen m f = Ok b \<longleftrightarrow> (\<exists>a. m = Ok a \<and> f a = Ok b)"
  by (cases m) auto

lemma andThen_eq_Panic [outcome_simps]:
  "andThen m f = Panic \<longleftrightarrow> m = Panic \<or> (\<exists>a. m = Ok a \<and> f a = Panic)"
  by (cases m) auto

lemma wrapErr_eq_Ok [outcome_simps]: "wrapErr p m = Ok a \<longleftrightarrow> m = Ok a"
  by (cases m) auto

lemma wrapErr_eq_Panic [outcome_simps]: "wrapErr p m = Panic \<longleftrightarrow> m = Panic"
  by (cases m) auto

lemma andThen_assoc: "andThen (andThen m f) g = andThen m (\<lambda>a. andThen (f a) g)"
  by (cases m) auto

lemma andThen_Ok_right [simp]: "andThen m Ok = m"
  by (cases m) auto

text \<open>A loop that runs a fallible step on each element and stops at the first failure.\<close>

fun runAll :: "('a \<Rightarrow> 's \<Rightarrow> 's outcome) \<Rightarrow> 'a list \<Rightarrow> 's \<Rightarrow> 's outcome" where
  "runAll f [] s = Ok s"
| "runAll f (x # xs) s = andThen (f x s) (runAll f xs)"

lemma runAll_inv:
  assumes "runAll f xs s = Ok s'" "P s" "\<And>x s s'. x \<in> set xs \<Longrightarrow> P s \<Longrightarrow> f x s = Ok s' \<Longrightarrow> P s'"
  shows "P s'"
  using assms by (induction xs arbitrary: s) (auto simp: outcome_simps)

section \<open>Go maps from strings to strings\<close>

text \<open>
  A \<open>map[string]string\<close> is \<open>None\<close> (nil) or an association list with distinct keys. Go leaves
  the order in which a \<open>range\<close> visits the entries open; the list is the order of one such
  visit, and statements about all lists are statements about all orders.
\<close>

type_synonym gomap = "(string \<times> string) list option"

definition entries :: "gomap \<Rightarrow> (string \<times> string) list" where
  "entries m = (case m of None \<Rightarrow> [] | Some xs \<Rightarrow> xs)"

definition lookup :: "gomap \<Rightarrow> string \<Rightarrow> string option" where
  "lookup m k = map_of (entries m) k"

fun assign :: "'k \<Rightarrow> 'v \<Rightarrow> ('k \<times> 'v) list \<Rightarrow> ('k \<times> 'v) list" where
  "assign k v [] = [(k, v)]"
| "assign k v ((k', v') # xs) = (if k' = k then (k, v) # xs else (k', v') # assign k v xs)"

lemma assign_fresh: "k \<notin> fst ` set xs \<Longrightarrow> assign k v xs = xs @ [(k, v)]"
  by (induction xs) auto

text \<open>\<open>m[k] = v\<close>: a write to a nil map panics.\<close>

fun gomap_set :: "gomap \<Rightarrow> string \<Rightarrow> string \<Rightarrow> gomap outcome" where
  "gomap_set None k v = Panic"
| "gomap_set (Some xs) k v = Ok (Some (assign k v xs))"

text \<open>\<open>for k, v := range src { m[k] = v }\<close>.\<close>

fun gomap_merge :: "gomap \<Rightarrow> (string \<times> string) list \<Rightarrow> gomap outcome" where
  "gomap_merge m [] = Ok m"
| "gomap_merge m ((k, v) # xs) = andThen (gomap_set m k v) (\<lambda>m'. gomap_merge m' xs)"

text \<open>\<open>delete(m, k)\<close>: no effect on a nil map.\<close>

definition gomap_delete :: "gomap \<Rightarrow> string \<Rightarrow> gomap" where
  "gomap_delete m k = map_option (filter (\<lambda>(k', v). k' \<noteq> k)) m"

definition gomap_ok :: "gomap \<Rightarrow> bool" where
  "gomap_ok m \<longleftrightarrow> distinct (map fst (entries m))"

lemma map_of_assign [simp]: "map_of (assign k v xs) = (map_of xs)(k \<mapsto> v)"
  by (induction xs) (auto simp: fun_eq_iff)

lemma set_keys_assign [simp]: "fst ` set (assign k v xs) = insert k (fst ` set xs)"
proof (induction xs)
  case Nil
  show ?case by simp
next
  case (Cons x xs)
  then show ?case by (cases x) (simp add: insert_commute)
qed

lemma distinct_assign: "distinct (map fst xs) \<Longrightarrow> distinct (map fst (assign k v xs))"
  by (induction xs) auto

lemma gomap_merge_Some: "\<exists>ys. gomap_merge (Some xs) kvs = Ok (Some ys)"
  by (induction kvs arbitrary: xs) auto

lemma gomap_merge_lookup:
  "gomap_merge (Some xs) kvs = Ok (Some ys) \<Longrightarrow> distinct (map fst kvs)
   \<Longrightarrow> map_of ys = map_of xs ++ map_of kvs"
proof (induction kvs arbitrary: xs)
  case Nil
  then show ?case by simp
next
  case (Cons kv kvs)
  obtain k v where kv: "kv = (k, v)" by (cases kv)
  from Cons.prems kv have "map_of ys = map_of (assign k v xs) ++ map_of kvs"
    by (intro Cons.IH) auto
  moreover from Cons.prems kv have "k \<notin> dom (map_of kvs)"
    by (simp add: dom_map_of_conv_image_fst)
  ultimately show ?case
    using kv by (auto simp: fun_eq_iff map_add_def domIff split: option.splits)
qed

lemma map_of_gomap_delete: "lookup (gomap_delete m k) = (lookup m)(k := None)"
proof -
  have "map_of (filter (\<lambda>(k', v). k' \<noteq> k) xs) = (map_of xs)(k := None)" for xs :: "(string \<times> string) list"
    by (induction xs) (auto simp: fun_eq_iff)
  then show ?thesis
    by (cases m) (auto simp: gomap_delete_def lookup_def entries_def)
qed

section \<open>Substrings and formatting\<close>

text \<open>\<open>strings.HasPrefix\<close>, \<open>strings.Contains\<close>, and the decimal formatting of \<open>%d\<close>.\<close>

fun hasPrefix :: "string \<Rightarrow> string \<Rightarrow> bool" where
  "hasPrefix s [] = True"
| "hasPrefix [] (p # ps) = False"
| "hasPrefix (c # s) (p # ps) = (c = p \<and> hasPrefix s ps)"

fun contains :: "string \<Rightarrow> string \<Rightarrow> bool" where
  "contains [] sub = (sub = [])"
| "contains (c # s) sub = (hasPrefix (c # s) sub \<or> contains s sub)"

lemma hasPrefix_iff: "hasPrefix s p \<longleftrightarrow> (\<exists>r. s = p @ r)"
  by (induction s p rule: hasPrefix.induct) auto

lemma contains_iff: "contains s sub \<longleftrightarrow> (\<exists>p r. s = p @ sub @ r)"
proof (induction s)
  case Nil
  show ?case by auto
next
  case (Cons c s)
  have "(\<exists>p r. c # s = p @ sub @ r) \<longleftrightarrow> (\<exists>r. c # s = sub @ r) \<or> (\<exists>p r. s = p @ sub @ r)"
    by (metis Cons_eq_append_conv append_Nil)
  then show ?case using Cons.IH by (auto simp: hasPrefix_iff)
qed

fun dec_of_nat :: "nat \<Rightarrow> string" where
  "dec_of_nat n =
     (if n < 10 then [char_of (48 + n)] else dec_of_nat (n div 10) @ [char_of (48 + n mod 10)])"

definition dec_of_int :: "int \<Rightarrow> string" where
  "dec_of_int i = (if i < 0 then CHR ''-'' # dec_of_nat (nat (- i)) else dec_of_nat (nat i))"

definition is_digit :: "char \<Rightarrow> bool" where
  "is_digit c \<longleftrightarrow> 48 \<le> (of_char c :: nat) \<and> (of_char c :: nat) \<le> 57"

definition digit_val :: "char \<Rightarrow> nat" where
  "digit_val c = of_char c - 48"

definition nat_of_dec :: "string \<Rightarrow> nat" where
  "nat_of_dec s = foldl (\<lambda>n c. 10 * n + digit_val c) 0 s"

declare dec_of_nat.simps [simp del]

lemma of_char_digit [simp]: "n < 10 \<Longrightarrow> of_char (char_of (48 + n) :: char) = (48 + n :: nat)"
  by simp

lemma dec_of_nat_digits: "list_all is_digit (dec_of_nat n)"
proof (induction n rule: dec_of_nat.induct)
  case (1 n)
  show ?case
  proof (cases "n < 10")
    case True
    then show ?thesis by (simp add: dec_of_nat.simps [of n] is_digit_def)
  next
    case False
    with "1.IH" show ?thesis
      by (simp add: dec_of_nat.simps [of n]) (simp add: is_digit_def)
  qed
qed

lemma dec_of_nat_not_Nil [simp]: "dec_of_nat n \<noteq> []"
  by (subst dec_of_nat.simps) simp

lemma nat_of_dec_dec_of_nat: "nat_of_dec (dec_of_nat n) = n"
proof (induction n rule: dec_of_nat.induct)
  case (1 n)
  show ?case
  proof (cases "n < 10")
    case True
    then show ?thesis
      by (simp add: dec_of_nat.simps [of n] nat_of_dec_def digit_val_def)
  next
    case False
    with "1.IH" show ?thesis
      by (simp add: dec_of_nat.simps [of n] nat_of_dec_def digit_val_def)
  qed
qed

end
