(* ===== verification/Bolt.thy ===== *)
theory Bolt
  imports Prelude "HOL-Library.Sublist"
begin

text \<open>
  The interface to \<open>go.etcd.io/bbolt\<close>, the key/value store under every database operation.
  bbolt is not part of the repository, so it is a parameter: a record of the operations the
  code calls, with its documented behaviour as the predicate \<open>bolt_ok\<close>. A bucket handle is
  the path of bucket names from the transaction root, or nil. Nothing below fixes an
  implementation; \<open>ref_bolt\<close> is one store that satisfies \<open>bolt_ok\<close>, used by witnesses.
\<close>

section \<open>The operations the code calls\<close>

type_synonym path = "bytes list"
type_synonym handle = "path option"

text \<open>What a key of a bucket holds: a value, or a nested bucket.\<close>

datatype entry = Val bytes | Sub

record 's bolt =
  bk_begin :: "'s \<Rightarrow> err option"
  bk_commit :: "'s \<Rightarrow> err option"
  bk_bucket :: "'s \<Rightarrow> path \<Rightarrow> bytes \<Rightarrow> bool"
  bk_get :: "'s \<Rightarrow> path \<Rightarrow> bytes \<Rightarrow> bytes option"
  bk_put :: "'s \<Rightarrow> path \<Rightarrow> bytes \<Rightarrow> bytes \<Rightarrow> 's outcome"
  bk_delete :: "'s \<Rightarrow> path \<Rightarrow> bytes \<Rightarrow> 's outcome"
  bk_create :: "'s \<Rightarrow> path \<Rightarrow> bytes \<Rightarrow> 's outcome"
  bk_createIf :: "'s \<Rightarrow> path \<Rightarrow> bytes \<Rightarrow> 's outcome"
  bk_deleteBucket :: "'s \<Rightarrow> path \<Rightarrow> bytes \<Rightarrow> 's outcome"
  bk_forEach :: "'s \<Rightarrow> path \<Rightarrow> (bytes \<times> entry) list"

text \<open>
  \<open>db.Update(fn)\<close> and \<open>db.View(fn)\<close>: the state of a failed or panicking update is discarded
  (rolled back), so an update returns only the committed state.
\<close>

definition db_update :: "'s bolt \<Rightarrow> ('s \<Rightarrow> 's outcome) \<Rightarrow> 's \<Rightarrow> 's outcome" where
  "db_update B f s =
     (case bk_begin B s of
        Some e \<Rightarrow> Fail e
      | None \<Rightarrow> andThen (f s) (\<lambda>s'. case bk_commit B s' of Some e \<Rightarrow> Fail e | None \<Rightarrow> Ok s'))"

definition db_view :: "'s bolt \<Rightarrow> ('s \<Rightarrow> 'a outcome) \<Rightarrow> 's \<Rightarrow> 'a outcome" where
  "db_view B f s = (case bk_begin B s of Some e \<Rightarrow> Fail e | None \<Rightarrow> f s)"

text \<open>Calls through a handle: a nil \<open>*bolt.Bucket\<close> is dereferenced and panics.\<close>

fun h_bucket :: "'s bolt \<Rightarrow> 's \<Rightarrow> handle \<Rightarrow> bytes \<Rightarrow> handle outcome" where
  "h_bucket B s None k = Panic"
| "h_bucket B s (Some p) k = Ok (if bk_bucket B s p k then Some (p @ [k]) else None)"

fun h_get :: "'s bolt \<Rightarrow> 's \<Rightarrow> handle \<Rightarrow> bytes \<Rightarrow> bytes option outcome" where
  "h_get B s None k = Panic"
| "h_get B s (Some p) k = Ok (bk_get B s p k)"

fun h_put :: "'s bolt \<Rightarrow> handle \<Rightarrow> bytes \<Rightarrow> bytes \<Rightarrow> 's \<Rightarrow> 's outcome" where
  "h_put B None k v s = Panic"
| "h_put B (Some p) k v s = bk_put B s p k v"

fun h_delete :: "'s bolt \<Rightarrow> handle \<Rightarrow> bytes \<Rightarrow> 's \<Rightarrow> 's outcome" where
  "h_delete B None k s = Panic"
| "h_delete B (Some p) k s = bk_delete B s p k"

fun h_deleteBucket :: "'s bolt \<Rightarrow> handle \<Rightarrow> bytes \<Rightarrow> 's \<Rightarrow> 's outcome" where
  "h_deleteBucket B None k s = Panic"
| "h_deleteBucket B (Some p) k s = bk_deleteBucket B s p k"

fun h_create :: "'s bolt \<Rightarrow> handle \<Rightarrow> bytes \<Rightarrow> 's \<Rightarrow> ('s \<times> handle) outcome" where
  "h_create B None k s = Panic"
| "h_create B (Some p) k s = andThen (bk_create B s p k) (\<lambda>s'. Ok (s', Some (p @ [k])))"

fun h_createIf :: "'s bolt \<Rightarrow> handle \<Rightarrow> bytes \<Rightarrow> 's \<Rightarrow> ('s \<times> handle) outcome" where
  "h_createIf B None k s = Panic"
| "h_createIf B (Some p) k s = andThen (bk_createIf B s p k) (\<lambda>s'. Ok (s', Some (p @ [k])))"

fun h_forEach :: "'s bolt \<Rightarrow> 's \<Rightarrow> handle \<Rightarrow> (bytes \<times> entry) list outcome" where
  "h_forEach B s None = Panic"
| "h_forEach B s (Some p) = Ok (bk_forEach B s p)"

text \<open>A run of \<open>Put\<close> calls on one bucket, each followed by \<open>if err != nil { return err }\<close>.\<close>

fun h_puts :: "'s bolt \<Rightarrow> handle \<Rightarrow> (bytes \<times> bytes) list \<Rightarrow> 's \<Rightarrow> 's outcome" where
  "h_puts B h [] s = Ok s"
| "h_puts B h ((k, v) # kvs) s = andThen (h_put B h k v s) (h_puts B h kvs)"

text \<open>The names of the nested buckets, in the order \<open>ForEachBucket\<close> visits them.\<close>

definition bucketNames :: "(bytes \<times> entry) list \<Rightarrow> bytes list" where
  "bucketNames es = map fst (filter (\<lambda>(k, e). e = Sub) es)"

section \<open>Documented behaviour\<close>

definition ents :: "'s bolt \<Rightarrow> 's \<Rightarrow> path \<Rightarrow> bytes \<Rightarrow> entry option" where
  "ents B s p = map_of (bk_forEach B s p)"

text \<open>A path names the root of the transaction, or a bucket that exists.\<close>

definition is_bkt :: "'s bolt \<Rightarrow> 's \<Rightarrow> path \<Rightarrow> bool" where
  "is_bkt B s p \<longleftrightarrow> p \<noteq> [] \<and> ents B s (butlast p) (last p) = Some Sub"

text \<open>\<open>MaxKeySize\<close> is 32768, \<open>MaxValueSize\<close> is \<open>(1 << 31) - 2\<close>; keys must not be blank.\<close>

definition key_ok :: "bytes \<Rightarrow> bool" where
  "key_ok k \<longleftrightarrow> k \<noteq> [] \<and> length k \<le> 32768"

definition val_ok :: "bytes \<Rightarrow> bool" where
  "val_ok v \<longleftrightarrow> length v \<le> 2147483646"

text \<open>Reads: \<open>Get\<close> is nil for a missing key and for a bucket, \<open>Bucket\<close> is nil for a value.\<close>

definition bolt_reads :: "'s bolt \<Rightarrow> bool" where
  "bolt_reads B \<longleftrightarrow>
     (\<forall>s p. distinct (map fst (bk_forEach B s p))) \<and>
     (\<forall>s p k. bk_get B s p k = (case ents B s p k of Some (Val v) \<Rightarrow> Some v | _ \<Rightarrow> None)) \<and>
     (\<forall>s p k. bk_bucket B s p k \<longleftrightarrow> ents B s p k = Some Sub)"

text \<open>
  \<open>Put\<close> sets the value for a key, never overwrites a nested bucket, and succeeds within the
  documented limits.
\<close>

definition bolt_puts :: "'s bolt \<Rightarrow> bool" where
  "bolt_puts B \<longleftrightarrow>
     (\<forall>s p k v s'. bk_put B s p k v = Ok s' \<longrightarrow>
        ents B s' = (ents B s)(p := (ents B s p)(k \<mapsto> Val v)) \<and> ents B s p k \<noteq> Some Sub) \<and>
     (\<forall>s p k v. is_bkt B s p \<and> key_ok k \<and> val_ok v \<and> ents B s p k \<noteq> Some Sub \<longrightarrow>
        (\<exists>s'. bk_put B s p k v = Ok s')) \<and>
     (\<forall>s p k v. bk_put B s p k v \<noteq> Panic)"

text \<open>\<open>CreateBucket\<close> fails if the key exists; the new bucket is empty.\<close>

definition bolt_creates :: "'s bolt \<Rightarrow> bool" where
  "bolt_creates B \<longleftrightarrow>
     (\<forall>s p k s'. bk_create B s p k = Ok s' \<longrightarrow>
        ents B s' = (ents B s)(p := (ents B s p)(k \<mapsto> Sub), p @ [k] := Map.empty)
        \<and> ents B s p k = None) \<and>
     (\<forall>s p k. (p = [] \<or> is_bkt B s p) \<and> key_ok k \<and> ents B s p k = None \<longrightarrow>
        (\<exists>s'. bk_create B s p k = Ok s')) \<and>
     (\<forall>s p k. bk_create B s p k \<noteq> Panic) \<and>
     (\<forall>s p k. bk_createIf B s p k =
        (case ents B s p k of Some Sub \<Rightarrow> Ok s
         | Some (Val v) \<Rightarrow> Fail (Plain ''incompatible value'')
         | None \<Rightarrow> bk_create B s p k))"

text \<open>
  \<open>Delete\<close> of a missing key does nothing and returns nil; \<open>DeleteBucket\<close> removes the bucket
  and all it holds, and fails if there is no such bucket.
\<close>

definition bolt_deletes :: "'s bolt \<Rightarrow> bool" where
  "bolt_deletes B \<longleftrightarrow>
     (\<forall>s p k s'. bk_delete B s p k = Ok s' \<longrightarrow>
        ents B s' = (ents B s)(p := (ents B s p)(k := None)) \<and> ents B s p k \<noteq> Some Sub) \<and>
     (\<forall>s p k. is_bkt B s p \<and> ents B s p k \<noteq> Some Sub \<longrightarrow> (\<exists>s'. bk_delete B s p k = Ok s')) \<and>
     (\<forall>s p k. bk_delete B s p k \<noteq> Panic) \<and>
     (\<forall>s p k s'. bk_deleteBucket B s p k = Ok s' \<longrightarrow>
        ents B s p k = Some Sub \<and>
        (\<forall>q. ents B s' q = (if q = p then (ents B s p)(k := None)
              else if prefix (p @ [k]) q then Map.empty else ents B s q))) \<and>
     (\<forall>s p k. ents B s p k = Some Sub \<longrightarrow> (\<exists>s'. bk_deleteBucket B s p k = Ok s')) \<and>
     (\<forall>s p k. bk_deleteBucket B s p k \<noteq> Panic)"

definition bolt_ok :: "'s bolt \<Rightarrow> bool" where
  "bolt_ok B \<longleftrightarrow> bolt_reads B \<and> bolt_puts B \<and> bolt_creates B \<and> bolt_deletes B"

text \<open>The database file is open and the disk accepts commits.\<close>

definition disk_ok :: "'s bolt \<Rightarrow> bool" where
  "disk_ok B \<longleftrightarrow> (\<forall>s. bk_begin B s = None \<and> bk_commit B s = None)"

section \<open>Rules for the operations\<close>

lemma get_ents: "bolt_ok B \<Longrightarrow>
    bk_get B s p k = (case ents B s p k of Some (Val v) \<Rightarrow> Some v | _ \<Rightarrow> None)"
  by (simp add: bolt_ok_def bolt_reads_def)

lemma bucket_ents: "bolt_ok B \<Longrightarrow> bk_bucket B s p k \<longleftrightarrow> ents B s p k = Some Sub"
  by (simp add: bolt_ok_def bolt_reads_def)

lemma forEach_distinct: "bolt_ok B \<Longrightarrow> distinct (map fst (bk_forEach B s p))"
  by (simp add: bolt_ok_def bolt_reads_def)

lemma put_ents: "bolt_ok B \<Longrightarrow> bk_put B s p k v = Ok s' \<Longrightarrow>
    ents B s' = (ents B s)(p := (ents B s p)(k \<mapsto> Val v))"
  by (simp add: bolt_ok_def bolt_puts_def)

lemma put_not_Sub: "bolt_ok B \<Longrightarrow> bk_put B s p k v = Ok s' \<Longrightarrow> ents B s p k \<noteq> Some Sub"
  by (simp add: bolt_ok_def bolt_puts_def)

lemma put_succeeds: "bolt_ok B \<Longrightarrow> is_bkt B s p \<Longrightarrow> key_ok k \<Longrightarrow> val_ok v
    \<Longrightarrow> ents B s p k \<noteq> Some Sub \<Longrightarrow> \<exists>s'. bk_put B s p k v = Ok s'"
  by (simp add: bolt_ok_def bolt_puts_def)

lemma put_no_Panic: "bolt_ok B \<Longrightarrow> bk_put B s p k v \<noteq> Panic"
  by (simp add: bolt_ok_def bolt_puts_def)

lemma create_ents: "bolt_ok B \<Longrightarrow> bk_create B s p k = Ok s' \<Longrightarrow>
    ents B s' = (ents B s)(p := (ents B s p)(k \<mapsto> Sub), p @ [k] := Map.empty)"
  by (simp add: bolt_ok_def bolt_creates_def)

lemma create_fresh: "bolt_ok B \<Longrightarrow> bk_create B s p k = Ok s' \<Longrightarrow> ents B s p k = None"
  by (simp add: bolt_ok_def bolt_creates_def)

lemma create_succeeds: "bolt_ok B \<Longrightarrow> p = [] \<or> is_bkt B s p \<Longrightarrow> key_ok k
    \<Longrightarrow> ents B s p k = None \<Longrightarrow> \<exists>s'. bk_create B s p k = Ok s'"
  by (simp add: bolt_ok_def bolt_creates_def)

lemma create_no_Panic: "bolt_ok B \<Longrightarrow> bk_create B s p k \<noteq> Panic"
  by (simp add: bolt_ok_def bolt_creates_def)

lemma createIf_eq: "bolt_ok B \<Longrightarrow> bk_createIf B s p k =
    (case ents B s p k of Some Sub \<Rightarrow> Ok s | Some (Val v) \<Rightarrow> Fail (Plain ''incompatible value'')
     | None \<Rightarrow> bk_create B s p k)"
  by (simp add: bolt_ok_def bolt_creates_def)

lemma delete_ents: "bolt_ok B \<Longrightarrow> bk_delete B s p k = Ok s' \<Longrightarrow>
    ents B s' = (ents B s)(p := (ents B s p)(k := None))"
  by (simp add: bolt_ok_def bolt_deletes_def)

lemma delete_succeeds: "bolt_ok B \<Longrightarrow> is_bkt B s p \<Longrightarrow> ents B s p k \<noteq> Some Sub
    \<Longrightarrow> \<exists>s'. bk_delete B s p k = Ok s'"
  by (simp add: bolt_ok_def bolt_deletes_def)

lemma delete_no_Panic: "bolt_ok B \<Longrightarrow> bk_delete B s p k \<noteq> Panic"
  by (simp add: bolt_ok_def bolt_deletes_def)

lemma deleteBucket_ents: "bolt_ok B \<Longrightarrow> bk_deleteBucket B s p k = Ok s' \<Longrightarrow>
    ents B s' q = (if q = p then (ents B s p)(k := None)
      else if prefix (p @ [k]) q then Map.empty else ents B s q)"
  unfolding bolt_ok_def bolt_deletes_def by blast

lemma deleteBucket_exists: "bolt_ok B \<Longrightarrow> bk_deleteBucket B s p k = Ok s' \<Longrightarrow>
    ents B s p k = Some Sub"
  unfolding bolt_ok_def bolt_deletes_def by blast

lemma deleteBucket_succeeds: "bolt_ok B \<Longrightarrow> ents B s p k = Some Sub
    \<Longrightarrow> \<exists>s'. bk_deleteBucket B s p k = Ok s'"
  unfolding bolt_ok_def bolt_deletes_def by blast

lemma deleteBucket_no_Panic: "bolt_ok B \<Longrightarrow> bk_deleteBucket B s p k \<noteq> Panic"
  unfolding bolt_ok_def bolt_deletes_def by blast

lemmas bolt_no_Panic = put_no_Panic create_no_Panic delete_no_Panic deleteBucket_no_Panic

lemma set_bucketNames: "bolt_ok B \<Longrightarrow>
    k \<in> set (bucketNames (bk_forEach B s p)) \<longleftrightarrow> ents B s p k = Some Sub"
  by (force simp: bucketNames_def ents_def forEach_distinct map_of_eq_Some_iff)

lemma distinct_bucketNames: "bolt_ok B \<Longrightarrow> distinct (bucketNames (bk_forEach B s p))"
  unfolding bucketNames_def by (rule distinct_map_filter) (rule forEach_distinct)

lemma db_update_Ok: "db_update B f s = Ok s' \<longleftrightarrow>
    bk_begin B s = None \<and> f s = Ok s' \<and> bk_commit B s' = None"
  by (auto simp: db_update_def outcome_simps split: option.splits)

lemma db_update_Panic: "db_update B f s = Panic \<longleftrightarrow> bk_begin B s = None \<and> f s = Panic"
  by (auto simp: db_update_def outcome_simps split: option.splits)

lemma db_view_Ok: "db_view B f s = Ok a \<longleftrightarrow> bk_begin B s = None \<and> f s = Ok a"
  by (auto simp: db_view_def split: option.splits)

lemma db_view_Panic: "db_view B f s = Panic \<longleftrightarrow> bk_begin B s = None \<and> f s = Panic"
  by (auto simp: db_view_def split: option.splits)

lemma disk_ok_update: "disk_ok B \<Longrightarrow> db_update B f s = f s"
  by (cases "f s") (auto simp: disk_ok_def db_update_def)

lemma disk_ok_view: "disk_ok B \<Longrightarrow> db_view B f s = f s"
  by (auto simp: disk_ok_def db_view_def)

text \<open>A run of writes leaves the last value written under each key, and no other bucket.\<close>

lemma h_puts_ents: "bolt_ok B \<Longrightarrow> h_puts B (Some p) kvs s = Ok s' \<Longrightarrow>
    ents B s' = (ents B s)(p := ents B s p ++ map_of (rev (map (\<lambda>(k, v). (k, Val v)) kvs)))"
proof (induction kvs arbitrary: s)
  case Nil
  then show ?case by simp
next
  case (Cons kv kvs)
  obtain k v where kv: "kv = (k, v)" by (cases kv)
  with Cons.prems obtain s1 where s1: "bk_put B s p k v = Ok s1" "h_puts B (Some p) kvs s1 = Ok s'"
    by (auto simp: outcome_simps)
  have "ents B s' = (ents B s1)(p := ents B s1 p ++ map_of (rev (map (\<lambda>(k, v). (k, Val v)) kvs)))"
    using s1(2) Cons.prems(1) by (rule Cons.IH[rotated])
  also have "ents B s1 = (ents B s)(p := (ents B s p)(k \<mapsto> Val v))"
    using Cons.prems(1) s1(1) by (rule put_ents)
  finally show ?case
    using kv by (auto simp: fun_eq_iff map_add_def split: option.splits)
qed

lemma h_puts_no_Panic: "bolt_ok B \<Longrightarrow> h_puts B (Some p) kvs s \<noteq> Panic"
  by (induction kvs arbitrary: s) (auto simp: outcome_simps bolt_no_Panic)

lemma is_bkt_put: "bolt_ok B \<Longrightarrow> bk_put B s p k v = Ok s' \<Longrightarrow> is_bkt B s' q \<longleftrightarrow> is_bkt B s q"
  using put_ents[of B s p k v s'] put_not_Sub[of B s p k v s'] by (auto simp: is_bkt_def)

lemma h_puts_succeeds:
  assumes "bolt_ok B" "is_bkt B s p"
    and "\<And>k v. (k, v) \<in> set kvs \<Longrightarrow> key_ok k \<and> val_ok v \<and> ents B s p k \<noteq> Some Sub"
  shows "\<exists>s'. h_puts B (Some p) kvs s = Ok s'"
  using assms(2,3)
proof (induction kvs arbitrary: s)
  case Nil
  then show ?case by simp
next
  case (Cons kv kvs)
  obtain k v where kv: "kv = (k, v)" by (cases kv)
  have "key_ok k \<and> val_ok v \<and> ents B s p k \<noteq> Some Sub"
    using Cons.prems(2)[of k v] kv by simp
  with Cons.prems(1) obtain s1 where s1: "bk_put B s p k v = Ok s1"
    using put_succeeds[OF assms(1)] by blast
  have "is_bkt B s1 p"
    using is_bkt_put[OF assms(1) s1] Cons.prems(1) by simp
  moreover have "key_ok k' \<and> val_ok v' \<and> ents B s1 p k' \<noteq> Some Sub" if "(k', v') \<in> set kvs" for k' v'
    using put_ents[OF assms(1) s1] Cons.prems(2)[of k' v'] that by auto
  ultimately obtain s' where "h_puts B (Some p) kvs s1 = Ok s'"
    using Cons.IH by blast
  with kv s1 show ?case by simp
qed

section \<open>A store that satisfies the documented behaviour\<close>

text \<open>
  Entries keyed by bucket path and key, the newest first. It shows that \<open>bolt_ok\<close> and
  \<open>disk_ok\<close> can hold, and witnesses run the model on it.
\<close>

type_synonym flat = "((path \<times> bytes) \<times> entry) list"

definition flat_keys :: "flat \<Rightarrow> path \<Rightarrow> bytes list" where
  "flat_keys s p = remdups (map (snd \<circ> fst) (filter (\<lambda>((q, k), e). q = p) s))"

definition flat_forEach :: "flat \<Rightarrow> path \<Rightarrow> (bytes \<times> entry) list" where
  "flat_forEach s p = map (\<lambda>k. (k, the (map_of s (p, k)))) (flat_keys s p)"

definition flat_is_bkt :: "flat \<Rightarrow> path \<Rightarrow> bool" where
  "flat_is_bkt s p \<longleftrightarrow> p \<noteq> [] \<and> map_of s (butlast p, last p) = Some Sub"

definition flat_put :: "flat \<Rightarrow> path \<Rightarrow> bytes \<Rightarrow> bytes \<Rightarrow> flat outcome" where
  "flat_put s p k v =
     (if flat_is_bkt s p \<and> key_ok k \<and> val_ok v \<and> map_of s (p, k) \<noteq> Some Sub
      then Ok (((p, k), Val v) # s) else Fail (Plain ''put''))"

definition flat_create :: "flat \<Rightarrow> path \<Rightarrow> bytes \<Rightarrow> flat outcome" where
  "flat_create s p k =
     (if (p = [] \<or> flat_is_bkt s p) \<and> key_ok k \<and> map_of s (p, k) = None
      then Ok (((p, k), Sub) # filter (\<lambda>(qk, _). fst qk \<noteq> p @ [k]) s) else Fail (Plain ''create''))"

definition flat_createIf :: "flat \<Rightarrow> path \<Rightarrow> bytes \<Rightarrow> flat outcome" where
  "flat_createIf s p k =
     (case map_of s (p, k) of Some Sub \<Rightarrow> Ok s
      | Some (Val v) \<Rightarrow> Fail (Plain ''incompatible value'')
      | None \<Rightarrow> flat_create s p k)"

definition flat_delete :: "flat \<Rightarrow> path \<Rightarrow> bytes \<Rightarrow> flat outcome" where
  "flat_delete s p k =
     (if flat_is_bkt s p \<and> map_of s (p, k) \<noteq> Some Sub
      then Ok (filter (\<lambda>(qk, _). qk \<noteq> (p, k)) s) else Fail (Plain ''delete''))"

definition flat_deleteBucket :: "flat \<Rightarrow> path \<Rightarrow> bytes \<Rightarrow> flat outcome" where
  "flat_deleteBucket s p k =
     (if map_of s (p, k) = Some Sub
      then Ok (filter (\<lambda>(qk, _). qk \<noteq> (p, k) \<and> \<not> prefix (p @ [k]) (fst qk)) s)
      else Fail (Plain ''bucket not found''))"

definition ref_bolt :: "flat bolt" where
  "ref_bolt = \<lparr>bk_begin = (\<lambda>_. None), bk_commit = (\<lambda>_. None),
     bk_bucket = (\<lambda>s p k. map_of s (p, k) = Some Sub),
     bk_get = (\<lambda>s p k. case map_of s (p, k) of Some (Val v) \<Rightarrow> Some v | _ \<Rightarrow> None),
     bk_put = flat_put, bk_delete = flat_delete, bk_create = flat_create,
     bk_createIf = flat_createIf, bk_deleteBucket = flat_deleteBucket,
     bk_forEach = flat_forEach\<rparr>"

lemma flat_ents: "ents ref_bolt s p k = map_of s (p, k)"
proof -
  have keys: "set (flat_keys s p) = {k. map_of s (p, k) \<noteq> None}"
    by (auto simp: flat_keys_def map_of_eq_None_iff image_iff)
       (metis fst_conv)
  have "map_of (map (\<lambda>k. (k, f k)) ks) k = (if k \<in> set ks then Some (f k) else None)"
    for ks :: "bytes list" and f :: "bytes \<Rightarrow> entry"
    by (induction ks) auto
  then show ?thesis
    using keys by (auto simp: ents_def ref_bolt_def flat_forEach_def)
qed

lemma map_of_filter_key: "map_of (filter (\<lambda>(qk, e). P qk) s) x = (if P x then map_of s x else None)"
  by (induction s) auto

lemma flat_reads: "bolt_reads ref_bolt"
  unfolding bolt_reads_def flat_ents
  by (auto simp: ref_bolt_def flat_forEach_def flat_keys_def comp_def)

lemma flat_is_bkt_eq: "is_bkt ref_bolt s p = flat_is_bkt s p"
  by (simp add: is_bkt_def flat_is_bkt_def flat_ents)

lemma flat_puts: "bolt_puts ref_bolt"
  unfolding bolt_puts_def flat_is_bkt_eq fun_eq_iff
  by (simp add: flat_ents) (auto simp: ref_bolt_def flat_put_def)

lemma flat_creates: "bolt_creates ref_bolt"
  unfolding bolt_creates_def flat_is_bkt_eq fun_eq_iff
  by (simp add: flat_ents)
     (auto simp: ref_bolt_def flat_create_def flat_createIf_def map_of_filter_key
       split: entry.splits option.splits if_splits)

lemma flat_deletes: "bolt_deletes ref_bolt"
proof -
  have self: "\<not> prefix (p @ [k]) p" for p :: path and k
    by (auto simp: prefix_def)
  show ?thesis
    unfolding bolt_deletes_def flat_is_bkt_eq fun_eq_iff
    by (simp add: flat_ents)
       (auto simp: ref_bolt_def flat_delete_def flat_deleteBucket_def map_of_filter_key self
         split: if_splits)
qed

lemma ref_bolt_ok [simp]: "bolt_ok ref_bolt"
  by (simp add: bolt_ok_def flat_reads flat_puts flat_creates flat_deletes)

lemma ref_disk_ok [simp]: "disk_ok ref_bolt"
  by (simp add: disk_ok_def ref_bolt_def)

end
