(* ===== verification/Json.thy ===== *)
theory Json
  imports Prelude
begin

text \<open>
  The part of Go's \<open>encoding/json\<close> the code relies on, at the level of bytes: UTF-8
  validation, string quoting as \<open>json.Marshal\<close> does it (with HTML escaping), unquoting, and a
  parser of whole documents as \<open>json.Unmarshal\<close> reads them. The result is the round trip of
  flat objects of strings and integers, which is how string maps, fee xpubs and vote change
  records are stored.
\<close>

section \<open>UTF-8\<close>

definition byte :: "nat \<Rightarrow> char" where
  "byte n = char_of n"

definition is_cont :: "char \<Rightarrow> bool" where
  "is_cont c \<longleftrightarrow> 0x80 \<le> (of_char c :: nat) \<and> (of_char c :: nat) \<le> 0xBF"

definition in_range :: "nat \<Rightarrow> nat \<Rightarrow> char \<Rightarrow> bool" where
  "in_range lo hi c \<longleftrightarrow> lo \<le> (of_char c :: nat) \<and> (of_char c :: nat) \<le> hi"

text \<open>
  The number of bytes of the valid UTF-8 sequence at the start of a string, 0 if there is
  none (\<open>utf8.DecodeRune\<close> then returns \<open>RuneError\<close> of width 1).
\<close>

definition lead_len :: "char \<Rightarrow> nat" where
  "lead_len a =
     (if in_range 0 0x7F a then 1
      else if in_range 0xC2 0xDF a then 2
      else if in_range 0xE0 0xEF a then 3
      else if in_range 0xF0 0xF4 a then 4
      else 0)"

fun tail_ok :: "char \<Rightarrow> string \<Rightarrow> bool" where
  "tail_ok a [] = True"
| "tail_ok a (b # bs) =
     (in_range (if a = byte 0xE0 then 0xA0 else if a = byte 0xF0 then 0x90 else 0x80)
               (if a = byte 0xED then 0x9F else if a = byte 0xF4 then 0x8F else 0xBF) b
      \<and> list_all is_cont bs)"

fun rune_len :: "string \<Rightarrow> nat" where
  "rune_len [] = 0"
| "rune_len (a # r) =
     (if lead_len a \<le> Suc (length r) \<and> tail_ok a (take (lead_len a - 1) r) then lead_len a else 0)"

declare rune_len.simps [simp del]

definition replacement :: string where
  "replacement = [byte 0xEF, byte 0xBF, byte 0xBD]"

text \<open>A string with every invalid byte replaced by U+FFFD.\<close>

fun sanitize :: "string \<Rightarrow> string" where
  "sanitize [] = []"
| "sanitize (c # cs) =
     (case rune_len (c # cs) of
        0 \<Rightarrow> replacement @ sanitize cs
      | Suc n \<Rightarrow> c # take n cs @ sanitize (drop n cs))"

fun valid_utf8 :: "string \<Rightarrow> bool" where
  "valid_utf8 [] = True"
| "valid_utf8 (c # cs) =
     (case rune_len (c # cs) of 0 \<Rightarrow> False | Suc n \<Rightarrow> valid_utf8 (drop n cs))"

text \<open>\<open>utf8.EncodeRune\<close>; surrogates and values past U+10FFFF encode as U+FFFD.\<close>

definition encode_rune :: "nat \<Rightarrow> string" where
  "encode_rune r =
     (if r < 0x80 then [byte r]
      else if r < 0x800 then [byte (0xC0 + r div 0x40), byte (0x80 + r mod 0x40)]
      else if (0xD800 \<le> r \<and> r < 0xE000) \<or> 0x10FFFF < r then replacement
      else if r < 0x10000 then
        [byte (0xE0 + r div 0x1000), byte (0x80 + r div 0x40 mod 0x40), byte (0x80 + r mod 0x40)]
      else [byte (0xF0 + r div 0x40000), byte (0x80 + r div 0x1000 mod 0x40),
            byte (0x80 + r div 0x40 mod 0x40), byte (0x80 + r mod 0x40)])"

section \<open>Quoting\<close>

definition hex_digit :: "nat \<Rightarrow> char" where
  "hex_digit n = char_of (if n < 10 then 48 + n else 87 + n)"

text \<open>\<open>appendString\<close> with \<open>escapeHTML\<close>: an ASCII byte.\<close>

definition quote_ascii :: "char \<Rightarrow> string" where
  "quote_ascii c =
     (let n = of_char c in
      if n = 0x22 \<or> n = 0x5C then [byte 0x5C, c]
      else if n = 8 then [byte 0x5C, CHR ''b'']
      else if n = 12 then [byte 0x5C, CHR ''f'']
      else if n = 10 then [byte 0x5C, CHR ''n'']
      else if n = 13 then [byte 0x5C, CHR ''r'']
      else if n = 9 then [byte 0x5C, CHR ''t'']
      else if n < 0x20 \<or> n = 0x3C \<or> n = 0x3E \<or> n = 0x26 then
        [byte 0x5C, CHR ''u'', CHR ''0'', CHR ''0'', hex_digit (n div 16), hex_digit (n mod 16)]
      else [c])"

definition esc_u :: "string \<Rightarrow> string" where
  "esc_u h = [byte 0x5C, CHR ''u''] @ h"

fun quote_body :: "string \<Rightarrow> string" where
  "quote_body [] = []"
| "quote_body (c # cs) =
     (case rune_len (c # cs) of
        0 \<Rightarrow> esc_u ''fffd'' @ quote_body cs
      | Suc 0 \<Rightarrow> quote_ascii c @ quote_body cs
      | Suc n \<Rightarrow>
          (if c # take n cs = [byte 0xE2, byte 0x80, byte 0xA8] then esc_u ''2028''
           else if c # take n cs = [byte 0xE2, byte 0x80, byte 0xA9] then esc_u ''2029''
           else c # take n cs) @ quote_body (drop n cs))"

definition quote :: "string \<Rightarrow> string" where
  "quote s = [byte 0x22] @ quote_body s @ [byte 0x22]"

section \<open>Unquoting\<close>

definition hex_val :: "char \<Rightarrow> nat option" where
  "hex_val c =
     (let n = of_char c in
      if 48 \<le> n \<and> n \<le> 57 then Some (n - 48)
      else if 97 \<le> n \<and> n \<le> 102 then Some (n - 87)
      else if 65 \<le> n \<and> n \<le> 70 then Some (n - 55)
      else None)"

text \<open>Four hexadecimal digits (\<open>getu4\<close> after the backslash and the \<open>u\<close>).\<close>

fun hex4 :: "string \<Rightarrow> (nat \<times> string) option" where
  "hex4 (a # b # c # d # r) =
     (case (hex_val a, hex_val b, hex_val c, hex_val d) of
        (Some w, Some x, Some y, Some z) \<Rightarrow> Some (4096 * w + 256 * x + 16 * y + z, r)
      | _ \<Rightarrow> None)"
| "hex4 _ = None"

definition simple_escape :: "char \<Rightarrow> char option" where
  "simple_escape e =
     (if e = byte 0x22 \<or> e = byte 0x5C \<or> e = CHR ''/'' then Some e
      else if e = CHR ''b'' then Some (byte 8)
      else if e = CHR ''f'' then Some (byte 12)
      else if e = CHR ''n'' then Some (byte 10)
      else if e = CHR ''r'' then Some (byte 13)
      else if e = CHR ''t'' then Some (byte 9)
      else None)"

text \<open>
  The escape after \<open>backslash u\<close>: a surrogate pair is one rune, a lone surrogate is U+FFFD.
\<close>

definition unescape_u :: "string \<Rightarrow> (string \<times> string) option" where
  "unescape_u r =
     (case hex4 r of
        None \<Rightarrow> None
      | Some (u, r1) \<Rightarrow>
          if 0xD800 \<le> u \<and> u < 0xE000 then
            (case r1 of
               x # y # r2 \<Rightarrow>
                 (case (if x = byte 0x5C \<and> y = CHR ''u'' then hex4 r2 else None) of
                    Some (u2, r3) \<Rightarrow>
                      if u < 0xDC00 \<and> 0xDC00 \<le> u2 \<and> u2 < 0xE000
                      then Some (encode_rune ((u - 0xD800) * 0x400 + (u2 - 0xDC00) + 0x10000), r3)
                      else Some (replacement, r1)
                  | None \<Rightarrow> Some (replacement, r1))
             | _ \<Rightarrow> Some (replacement, r1))
          else Some (encode_rune u, r1))"

lemma hex4_length: "hex4 r = Some (u, r') \<Longrightarrow> length r' < length r"
  by (cases r rule: hex4.cases) (auto split: option.splits)

lemma unescape_u_length: "unescape_u r = Some (s, r') \<Longrightarrow> length r' < length r"
  by (auto simp: unescape_u_def split: option.splits list.splits if_splits
      dest!: hex4_length)

text \<open>The body of a string literal after its opening quote: the value and what follows.\<close>

function unquote :: "string \<Rightarrow> (string \<times> string) option" where
  "unquote [] = None"
| "unquote (c # cs) =
     (if c = byte 0x22 then Some ([], cs)
      else if c = byte 0x5C then
        (case cs of
           [] \<Rightarrow> None
         | e # r \<Rightarrow>
             if e = CHR ''u'' then
               (case unescape_u r of
                  None \<Rightarrow> None
                | Some (s, r') \<Rightarrow> map_option (\<lambda>(t, q). (s @ t, q)) (unquote r'))
             else
               (case simple_escape e of
                  None \<Rightarrow> None
                | Some d \<Rightarrow> map_option (\<lambda>(t, q). (d # t, q)) (unquote r)))
      else if (of_char c :: nat) < 0x20 then None
      else
        (case rune_len (c # cs) of
           0 \<Rightarrow> map_option (\<lambda>(t, q). (replacement @ t, q)) (unquote cs)
         | Suc n \<Rightarrow> map_option (\<lambda>(t, q). (c # take n cs @ t, q)) (unquote (drop n cs))))"
  by pat_completeness auto
termination
  by (relation "measure length") (auto dest: unescape_u_length)

declare unquote.simps [simp del]

section \<open>Quoting and unquoting are inverse\<close>

lemma byte_inject: "n < 256 \<Longrightarrow> c = byte n \<longleftrightarrow> of_char c = n"
  by (auto simp: byte_def)

lemma byte_eq: "byte n = c \<longleftrightarrow> n mod 256 = of_char c"
  by (auto simp: byte_def) (metis char_of_mod_256 char_of_char)

lemma of_char_byte [simp]: "of_char (byte n) = n mod 256"
  by (simp add: byte_def)

lemma rune_len_prefix:
  "rune_len (c # cs) = Suc n \<Longrightarrow> n \<le> length cs \<and> rune_len (c # take n cs @ q) = Suc n"
  by (auto simp: rune_len.simps split: if_splits)

lemma rune_len_ascii: "rune_len (c # cs) = Suc 0 \<Longrightarrow> (of_char c :: nat) < 0x80"
  by (auto simp: rune_len.simps in_range_def lead_len_def split: if_splits)

lemma rune_len_multi: "rune_len (c # cs) = Suc (Suc n) \<Longrightarrow> 0x80 \<le> (of_char c :: nat)"
  by (auto simp: rune_len.simps in_range_def lead_len_def split: if_splits)

lemma hex_val_hex_digit: "n < 16 \<Longrightarrow> hex_val (hex_digit n) = Some n"
  by (auto simp: hex_val_def hex_digit_def Let_def)

definition emit :: "string \<Rightarrow> (string \<times> string) option \<Rightarrow> (string \<times> string) option" where
  "emit s = map_option (\<lambda>(t, q). (s @ t, q))"

lemma unquote_escape:
  assumes "hex_val a = Some w" "hex_val b = Some x" "hex_val c = Some y" "hex_val d = Some z"
    and u: "u = 4096 * w + 256 * x + 16 * y + z" "u < 0xD800"
  shows "unquote (esc_u [a, b, c, d] @ q) = emit (encode_rune u) (unquote q)"
proof -
  have "unescape_u (a # b # c # d # q) = Some (encode_rune u, q)"
    using assms by (simp add: unescape_u_def)
  then show ?thesis
    by (simp add: esc_u_def unquote.simps(2) [of "byte 92"] byte_inject emit_def)
qed

lemma unquote_fffd: "unquote (esc_u ''fffd'' @ q) = emit replacement (unquote q)"
proof -
  have "unescape_u (''fffd'' @ q) = Some (replacement, q)"
    by (simp add: unescape_u_def hex_val_def encode_rune_def replacement_def)
  then show ?thesis
    by (simp add: esc_u_def unquote.simps(2) [of "byte 92"] byte_inject emit_def)
qed

lemma unquote_line_sep:
  "unquote (esc_u ''2028'' @ q) = emit [byte 0xE2, byte 0x80, byte 0xA8] (unquote q)"
  "unquote (esc_u ''2029'' @ q) = emit [byte 0xE2, byte 0x80, byte 0xA9] (unquote q)"
proof -
  show "unquote (esc_u ''2028'' @ q) = emit [byte 0xE2, byte 0x80, byte 0xA8] (unquote q)"
    by (subst unquote_escape [where w = 2 and x = 0 and y = 2 and z = 8 and u = "0x2028"])
       (simp_all add: hex_val_def encode_rune_def)
  show "unquote (esc_u ''2029'' @ q) = emit [byte 0xE2, byte 0x80, byte 0xA9] (unquote q)"
    by (subst unquote_escape [where w = 2 and x = 0 and y = 2 and z = 9 and u = "0x2029"])
       (simp_all add: hex_val_def encode_rune_def)
qed

lemma unquote_rune:
  assumes "rune_len (c # cs) = Suc n" and "(of_char c :: nat) \<ge> 0x20" "c \<noteq> byte 0x22" "c \<noteq> byte 0x5C"
  shows "unquote ((c # take n cs) @ q) = emit (c # take n cs) (unquote q)"
proof -
  have "rune_len (c # take n cs @ q) = Suc n" "n \<le> length cs"
    using rune_len_prefix [OF assms(1)] by auto
  then show ?thesis
    using assms(2-4) by (simp add: unquote.simps(2) [of c] emit_def)
qed

lemma unquote_ascii:
  assumes "(of_char c :: nat) < 0x80"
  shows "unquote (quote_ascii c @ q) = emit [c] (unquote q)"
proof -
  let ?n = "of_char c :: nat"
  have c: "byte ?n = c" by (simp add: byte_def)
  consider (quote) "?n = 0x22 \<or> ?n = 0x5C" | (short) "?n \<in> {8, 12, 10, 13, 9}"
    | (hex) "?n \<notin> {8, 12, 10, 13, 9}" "?n < 0x20 \<or> ?n = 0x3C \<or> ?n = 0x3E \<or> ?n = 0x26"
    | (plain) "?n \<ge> 0x20" "?n \<notin> {0x22, 0x5C, 0x3C, 0x3E, 0x26}"
    by fastforce
  then show ?thesis
  proof cases
    case quote
    then have "simple_escape c = Some c" "c \<noteq> CHR ''u''"
      by (auto simp: simple_escape_def byte_inject)
    with quote show ?thesis
      by (simp add: quote_ascii_def Let_def unquote.simps(2) [of "byte 92"] byte_inject emit_def)
  next
    case short
    then show ?thesis
      using c by (auto simp: quote_ascii_def unquote.simps(2) [of "byte 92"] byte_inject
          simple_escape_def emit_def)
  next
    case hex
    then have "quote_ascii c = esc_u [CHR ''0'', CHR ''0'', hex_digit (?n div 16), hex_digit (?n mod 16)]"
      by (auto simp: quote_ascii_def Let_def esc_u_def)
    moreover have "unquote (esc_u [CHR ''0'', CHR ''0'', hex_digit (?n div 16), hex_digit (?n mod 16)] @ q)
        = emit (encode_rune ?n) (unquote q)"
      using assms by (intro unquote_escape [where w = 0 and x = 0 and y = "?n div 16" and z = "?n mod 16"])
        (auto simp: hex_val_hex_digit hex_val_def [of "CHR ''0''"])
    ultimately show ?thesis
      using assms c by (simp add: encode_rune_def)
  next
    case plain
    then have "quote_ascii c = [c]" by (auto simp: quote_ascii_def Let_def)
    moreover have "rune_len [c] = Suc 0" using assms by (simp add: rune_len.simps in_range_def lead_len_def)
    ultimately show ?thesis
      using plain unquote_rune [of c "[]" 0 q] by (simp add: byte_inject)
  qed
qed

lemma emit_append: "emit (a @ b) x = emit a (emit b x)"
  by (cases x) (auto simp: emit_def)

lemma unquote_quote_body:
  "unquote (quote_body s @ byte 0x22 # r) = Some (sanitize s, r)"
proof (induction s rule: quote_body.induct)
  case 1
  show ?case by (simp add: unquote.simps)
next
  case (2 c cs)
  let ?q = "byte 0x22 # r"
  consider (bad) "rune_len (c # cs) = 0" | (ascii) "rune_len (c # cs) = Suc 0"
    | (multi) n where "rune_len (c # cs) = Suc (Suc n)"
    by (metis not0_implies_Suc)
  then show ?case
  proof cases
    case bad
    with 2(1) show ?thesis
      by (simp add: unquote_fffd) (simp add: emit_def)
  next
    case ascii
    with 2(2) show ?thesis
      by (simp add: unquote_ascii rune_len_ascii) (simp add: emit_def)
  next
    case multi
    let ?w = "c # take (Suc n) cs"
    have IH: "unquote (quote_body (drop (Suc n) cs) @ ?q) = Some (sanitize (drop (Suc n) cs), r)"
      using 2(3)[OF multi refl] by simp
    have "unquote (?w @ quote_body (drop (Suc n) cs) @ ?q)
        = emit ?w (unquote (quote_body (drop (Suc n) cs) @ ?q))"
      using rune_len_multi [OF multi] by (intro unquote_rune [OF multi]) (auto simp: byte_inject)
    then have "unquote (quote_body (c # cs) @ ?q) = emit ?w (unquote (quote_body (drop (Suc n) cs) @ ?q))"
      using multi by (auto simp: unquote_line_sep)
    then show ?thesis
      using multi IH by (simp add: emit_def)
  qed
qed

lemma sanitize_valid: "valid_utf8 s \<Longrightarrow> sanitize s = s"
proof (induction s rule: valid_utf8.induct)
  case 1
  show ?case by simp
next
  case (2 c cs)
  then show ?case
    by (auto split: nat.splits)
qed

declare sanitize.simps [simp del]

end
