(* ===== verification/JsonDoc.thy ===== *)
theory JsonDoc
  imports Json "HOL-Library.List_Lexorder" "HOL-Library.Char_ord"
begin

text \<open>
  JSON documents: the values, a parser with the whitespace, number and literal rules of
  \<open>encoding/json\<close>, the encoder of flat objects, and their round trip. The parser takes fuel;
  \<open>json_parse\<close> passes the length of the document plus one, and \<open>jmembers_flat\<close> shows that
  this is enough for every object the encoder writes.
\<close>

section \<open>Documents\<close>

datatype json = JNull | JBool bool | JNum string | JStr string
  | JArr "json list" | JObj "(string \<times> json) list"

definition is_ws :: "char \<Rightarrow> bool" where
  "is_ws c \<longleftrightarrow> c = byte 0x20 \<or> c = byte 9 \<or> c = byte 10 \<or> c = byte 13"

definition skip_ws :: "string \<Rightarrow> string" where
  "skip_ws s = dropWhile is_ws s"

text \<open>A number literal: optional sign, integer part without leading zeros, fraction, exponent.\<close>

definition scan_sign :: "string \<Rightarrow> string \<times> string" where
  "scan_sign s = (case s of c # r \<Rightarrow> if c = CHR ''-'' then ([c], r) else ([], s) | [] \<Rightarrow> ([], []))"

definition scan_int :: "string \<Rightarrow> (string \<times> string) option" where
  "scan_int s =
     (let ds = takeWhile is_digit s
      in if ds = [] then None
         else if hd ds = CHR ''0'' then Some (take 1 s, drop 1 s)
         else Some (ds, drop (length ds) s))"

definition scan_frac :: "string \<Rightarrow> (string \<times> string) option" where
  "scan_frac s =
     (case s of
        c # r \<Rightarrow>
          if c = CHR ''.'' then
            (let ds = takeWhile is_digit r
             in if ds = [] then None else Some (c # ds, drop (length ds) r))
          else Some ([], s)
      | [] \<Rightarrow> Some ([], []))"

definition scan_exp :: "string \<Rightarrow> (string \<times> string) option" where
  "scan_exp s =
     (case s of
        c # r \<Rightarrow>
          if c = CHR ''e'' \<or> c = CHR ''E'' then
            (let sg = (case r of d # _ \<Rightarrow> if d = CHR ''+'' \<or> d = CHR ''-'' then [d] else [] | [] \<Rightarrow> []);
                 ds = takeWhile is_digit (drop (length sg) r)
             in if ds = [] then None else Some (c # sg @ ds, drop (length sg + length ds) r))
          else Some ([], s)
      | [] \<Rightarrow> Some ([], []))"

definition scan_num :: "string \<Rightarrow> (string \<times> string) option" where
  "scan_num s =
     (case scan_sign s of (sg, s1) \<Rightarrow>
      (case scan_int s1 of
         None \<Rightarrow> None
       | Some (ip, s2) \<Rightarrow>
           (case scan_frac s2 of
              None \<Rightarrow> None
            | Some (fp, s3) \<Rightarrow>
                (case scan_exp s3 of
                   None \<Rightarrow> None
                 | Some (ep, s4) \<Rightarrow> Some (sg @ ip @ fp @ ep, s4)))))"

definition scan_literal :: "string \<Rightarrow> (json \<times> string) option" where
  "scan_literal s =
     (if hasPrefix s ''true'' then Some (JBool True, drop 4 s)
      else if hasPrefix s ''false'' then Some (JBool False, drop 5 s)
      else if hasPrefix s ''null'' then Some (JNull, drop 4 s)
      else map_option (\<lambda>(t, q). (JNum t, q)) (scan_num s))"

fun jvalue :: "nat \<Rightarrow> string \<Rightarrow> (json \<times> string) option"
  and jmembers :: "nat \<Rightarrow> string \<Rightarrow> ((string \<times> json) list \<times> string) option"
  and jelems :: "nat \<Rightarrow> string \<Rightarrow> (json list \<times> string) option" where
  "jvalue 0 s = None"
| "jvalue (Suc n) s =
     (case skip_ws s of
        [] \<Rightarrow> None
      | c # r \<Rightarrow>
          if c = CHR ''{'' then
            (case skip_ws r of
               [] \<Rightarrow> None
             | d # r' \<Rightarrow>
                 if d = CHR ''}'' then Some (JObj [], r')
                 else map_option (\<lambda>(ms, q). (JObj ms, q)) (jmembers n (d # r')))
          else if c = CHR ''['' then
            (case skip_ws r of
               [] \<Rightarrow> None
             | d # r' \<Rightarrow>
                 if d = CHR '']'' then Some (JArr [], r')
                 else map_option (\<lambda>(vs, q). (JArr vs, q)) (jelems n (d # r')))
          else if c = byte 0x22 then map_option (\<lambda>(t, q). (JStr t, q)) (unquote r)
          else scan_literal (c # r))"
| "jmembers 0 s = None"
| "jmembers (Suc n) s =
     (case skip_ws s of
        [] \<Rightarrow> None
      | c # r \<Rightarrow>
          if c \<noteq> byte 0x22 then None
          else (case unquote r of
             None \<Rightarrow> None
           | Some (k, q) \<Rightarrow>
               (case skip_ws q of
                  [] \<Rightarrow> None
                | d # q1 \<Rightarrow>
                    if d \<noteq> CHR '':'' then None
                    else (case jvalue n q1 of
                       None \<Rightarrow> None
                     | Some (v, q2) \<Rightarrow>
                         (case skip_ws q2 of
                            [] \<Rightarrow> None
                          | e # q3 \<Rightarrow>
                              if e = CHR '','' then
                                map_option (\<lambda>(ms, q4). ((k, v) # ms, q4)) (jmembers n q3)
                              else if e = CHR ''}'' then Some ([(k, v)], q3)
                              else None)))))"
| "jelems 0 s = None"
| "jelems (Suc n) s =
     (case jvalue n s of
        None \<Rightarrow> None
      | Some (v, q2) \<Rightarrow>
          (case skip_ws q2 of
             [] \<Rightarrow> None
           | e # q3 \<Rightarrow>
               if e = CHR '','' then map_option (\<lambda>(vs, q4). (v # vs, q4)) (jelems n q3)
               else if e = CHR '']'' then Some ([v], q3)
               else None))"

definition json_parse :: "string \<Rightarrow> json option" where
  "json_parse s =
     (case jvalue (Suc (length s)) s of
        None \<Rightarrow> None
      | Some (v, q) \<Rightarrow> if skip_ws q = [] then Some v else None)"

section \<open>Flat objects\<close>

datatype leaf = LStr string | LInt int

fun leaf_text :: "leaf \<Rightarrow> string" where
  "leaf_text (LStr s) = quote s"
| "leaf_text (LInt i) = dec_of_int i"

fun leaf_json :: "leaf \<Rightarrow> json" where
  "leaf_json (LStr s) = JStr (sanitize s)"
| "leaf_json (LInt i) = JNum (dec_of_int i)"

fun members_text :: "(string \<times> leaf) list \<Rightarrow> string" where
  "members_text [] = []"
| "members_text [(k, v)] = quote k @ CHR '':'' # leaf_text v"
| "members_text ((k, v) # kv # kvs) =
     quote k @ CHR '':'' # leaf_text v @ CHR '','' # members_text (kv # kvs)"

definition object_text :: "(string \<times> leaf) list \<Rightarrow> string" where
  "object_text kvs = CHR ''{'' # members_text kvs @ ''}''"

definition object_json :: "(string \<times> leaf) list \<Rightarrow> (string \<times> json) list" where
  "object_json kvs = map (\<lambda>(k, v). (sanitize k, leaf_json v)) kvs"

section \<open>Reading values into Go variables\<close>

text \<open>
  \<open>strconv.ParseInt\<close> and \<open>ParseUint\<close> on a number literal: a fraction or an exponent does not
  fit an integer variable.
\<close>

definition int_of_literal :: "string \<Rightarrow> int option" where
  "int_of_literal t =
     (case t of
        c # r \<Rightarrow>
          if c = CHR ''-'' then
            (if r \<noteq> [] \<and> list_all is_digit r then Some (- int (nat_of_dec r)) else None)
          else (if list_all is_digit t then Some (int (nat_of_dec t)) else None)
      | [] \<Rightarrow> None)"

lemma is_digit_not: "is_digit c \<Longrightarrow> c \<noteq> CHR ''-'' \<and> c \<noteq> CHR ''.'' \<and> c \<noteq> CHR ''e'' \<and> c \<noteq> CHR ''E''
    \<and> c \<noteq> CHR '','' \<and> c \<noteq> CHR ''}'' \<and> \<not> is_ws c \<and> c \<noteq> CHR ''{'' \<and> c \<noteq> CHR ''['' \<and> c \<noteq> byte 0x22
    \<and> c \<noteq> CHR ''t'' \<and> c \<noteq> CHR ''f'' \<and> c \<noteq> CHR ''n''"
  by (auto simp: is_digit_def is_ws_def byte_inject)

lemma dec_of_nat_zero: "hd (dec_of_nat n) = CHR ''0'' \<Longrightarrow> n = 0"
proof (induction n rule: dec_of_nat.induct)
  case (1 n)
  show ?case
  proof (cases "n < 10")
    case True
    then have "hd (dec_of_nat n) = char_of (48 + n)" by (simp add: dec_of_nat.simps [of n])
    with "1.prems" have "char_of (48 + n) = CHR ''0''" by simp
    then have "of_char (char_of (48 + n) :: char) = (of_char (CHR ''0'') :: nat)" by (rule arg_cong)
    with True show ?thesis by simp
  next
    case False
    then have "hd (dec_of_nat n) = hd (dec_of_nat (n div 10))"
      by (simp add: dec_of_nat.simps [of n])
    with "1.prems" False have "n div 10 = 0" using "1.IH" by metis
    with False show ?thesis by simp
  qed
qed

lemma int_of_dec_of_int: "int_of_literal (dec_of_int i) = Some i"
proof (cases "i < 0")
  case True
  then show ?thesis
    by (simp add: int_of_literal_def dec_of_int_def dec_of_nat_digits nat_of_dec_dec_of_nat)
next
  case False
  obtain c r where cr: "dec_of_nat (nat i) = c # r"
    by (metis dec_of_nat_not_Nil neq_Nil_conv)
  with dec_of_nat_digits [of "nat i"] have "c \<noteq> CHR ''-''" by (auto dest: is_digit_not)
  with False cr dec_of_nat_digits [of "nat i"] nat_of_dec_dec_of_nat [of "nat i"] show ?thesis
    by (simp add: int_of_literal_def dec_of_int_def)
qed

definition ends_number :: "char \<Rightarrow> bool" where
  "ends_number c \<longleftrightarrow> c = CHR '','' \<or> c = CHR ''}''"

lemma ends_number_not: "ends_number c \<Longrightarrow> \<not> is_digit c \<and> c \<noteq> CHR ''.'' \<and> c \<noteq> CHR ''e'' \<and> c \<noteq> CHR ''E''
    \<and> \<not> is_ws c"
  by (auto simp: ends_number_def is_digit_def is_ws_def byte_inject)

lemma scan_int_dec: "ends_number c \<Longrightarrow> scan_int (dec_of_nat n @ c # r) = Some (dec_of_nat n, c # r)"
proof -
  assume c: "ends_number c"
  have all: "\<forall>x \<in> set (dec_of_nat n). is_digit x"
    using dec_of_nat_digits [of n] by (simp add: list_all_iff)
  have tw: "takeWhile is_digit (dec_of_nat n @ c # r) = dec_of_nat n"
    using all ends_number_not [OF c] by (simp add: takeWhile_append2)
  show ?thesis
  proof (cases "hd (dec_of_nat n) = CHR ''0''")
    case True
    then have "n = 0" by (rule dec_of_nat_zero)
    then have "dec_of_nat n = [CHR ''0'']" by (simp add: dec_of_nat.simps [of 0] char_of_eq_iff)
    with tw show ?thesis by (simp add: scan_int_def Let_def)
  next
    case False
    with tw show ?thesis by (simp add: scan_int_def Let_def)
  qed
qed

lemma scan_num_dec: "ends_number c \<Longrightarrow> scan_num (dec_of_int i @ c # r) = Some (dec_of_int i, c # r)"
proof -
  assume c: "ends_number c"
  have frac: "scan_frac (c # r) = Some ([], c # r)" and exp: "scan_exp (c # r) = Some ([], c # r)"
    using ends_number_not [OF c] by (auto simp: scan_frac_def scan_exp_def)
  show ?thesis
  proof (cases "i < 0")
    case True
    then show ?thesis
      by (simp add: scan_num_def dec_of_int_def scan_sign_def scan_int_dec [OF c] frac exp)
  next
    case False
    obtain d ds where d: "dec_of_nat (nat i) = d # ds"
      by (metis dec_of_nat_not_Nil neq_Nil_conv)
    with dec_of_nat_digits [of "nat i"] have "d \<noteq> CHR ''-''" by (auto dest: is_digit_not)
    with d have "scan_sign (dec_of_nat (nat i) @ c # r) = ([], dec_of_nat (nat i) @ c # r)"
      by (simp add: scan_sign_def)
    with False show ?thesis
      by (simp add: scan_num_def dec_of_int_def scan_int_dec [OF c] frac exp)
  qed
qed

lemma dec_of_int_head: "\<exists>c r. dec_of_int i = c # r \<and> (is_digit c \<or> c = CHR ''-'')"
proof -
  obtain d ds where d: "dec_of_nat (nat (if i < 0 then - i else i)) = d # ds"
    by (metis dec_of_nat_not_Nil neq_Nil_conv)
  with dec_of_nat_digits [of "nat (if i < 0 then - i else i)"] have "is_digit d" by simp
  with d show ?thesis by (auto simp: dec_of_int_def)
qed

lemma jvalue_leaf:
  assumes "ends_number c"
  shows "jvalue (Suc n) (leaf_text v @ c # r) = Some (leaf_json v, c # r)"
proof (cases v)
  case (LStr s)
  have "\<not> is_ws (byte 0x22)" by (simp add: is_ws_def byte_inject)
  with LStr show ?thesis
    using unquote_quote_body [of s "c # r"]
    by (simp add: quote_def skip_ws_def byte_eq)
next
  case (LInt i)
  obtain d ds where d: "dec_of_int i = d # ds" "is_digit d \<or> d = CHR ''-''"
    using dec_of_int_head by blast
  then have nd: "\<not> is_ws d" "d \<noteq> CHR ''{''" "d \<noteq> CHR ''[''" "d \<noteq> byte 0x22"
      "d \<noteq> CHR ''t''" "d \<noteq> CHR ''f''" "d \<noteq> CHR ''n''"
    by (auto simp: is_digit_def is_ws_def byte_inject)
  have "scan_literal (d # ds @ c # r) = Some (JNum (dec_of_int i), c # r)"
    using scan_num_dec [OF assms, of i r] d(1) nd by (simp add: scan_literal_def)
  with LInt d(1) nd show ?thesis
    by (simp add: skip_ws_def)
qed

text \<open>Enough fuel: one unit more than the number of members, plus one for each value.\<close>

lemma jmembers_flat:
  "kvs \<noteq> [] \<Longrightarrow> Suc (length kvs) \<le> n \<Longrightarrow>
   jmembers n (members_text kvs @ CHR ''}'' # r) = Some (object_json kvs, r)"
proof (induction kvs arbitrary: n rule: members_text.induct)
  case 1
  then show ?case by simp
next
  case (2 k v)
  then obtain m where n: "n = Suc (Suc m)" by (cases n; cases "n - 1") auto
  have ws: "\<not> is_ws (byte 0x22)" "\<not> is_ws (CHR '':'')" "\<not> is_ws (CHR ''}'')"
    by (auto simp: is_ws_def byte_inject)
  have val: "jvalue (Suc m) (leaf_text v @ CHR ''}'' # r) = Some (leaf_json v, CHR ''}'' # r)"
    by (rule jvalue_leaf) (simp add: ends_number_def)
  show ?case
    using unquote_quote_body [of k "CHR '':'' # leaf_text v @ CHR ''}'' # r"] ws val
    by (simp add: n quote_def skip_ws_def object_json_def del: jvalue.simps)
next
  case (3 k v kv kvs)
  then obtain m where n: "n = Suc (Suc m)" by (cases n; cases "n - 1") auto
  let ?t = "members_text (kv # kvs) @ CHR ''}'' # r"
  have ws: "\<not> is_ws (byte 0x22)" "\<not> is_ws (CHR '':'')" "\<not> is_ws (CHR '','')"
    by (auto simp: is_ws_def byte_inject)
  have val: "jvalue (Suc m) (leaf_text v @ CHR '','' # ?t) = Some (leaf_json v, CHR '','' # ?t)"
    by (rule jvalue_leaf) (simp add: ends_number_def)
  have rest: "jmembers (Suc m) ?t = Some (object_json (kv # kvs), r)"
    using 3 n by (intro "3.IH") auto
  have unfold: "members_text ((k, v) # kv # kvs) @ CHR ''}'' # r =
      byte 0x22 # quote_body k @ byte 0x22 # CHR '':'' # leaf_text v @ CHR '','' # ?t"
    by (simp add: quote_def)
  show ?case
    using unquote_quote_body [of k "CHR '':'' # leaf_text v @ CHR '','' # ?t"] ws val rest
    unfolding unfold
    by (simp add: n skip_ws_def object_json_def del: jvalue.simps)
qed

lemma length_members_text: "length kvs \<le> length (members_text kvs)"
  by (induction kvs rule: members_text.induct) auto

theorem json_parse_object: "json_parse (object_text kvs) = Some (JObj (object_json kvs))"
proof (cases kvs)
  case Nil
  then show ?thesis
    by (simp add: json_parse_def object_text_def skip_ws_def is_ws_def byte_inject object_json_def)
next
  case (Cons kv kvs')
  let ?n = "Suc (length (members_text kvs))"
  have "jmembers (Suc ?n) (members_text kvs @ [CHR ''}'']) = Some (object_json kvs, [])"
    using jmembers_flat [of kvs "Suc ?n" "[]"] length_members_text [of kvs] Cons by simp
  moreover have "\<exists>t. members_text kvs = byte 0x22 # t"
    using Cons by (cases kv; cases kvs') (auto simp: quote_def)
  then obtain t where t: "members_text kvs = byte 0x22 # t" by blast
  moreover have "\<not> is_ws (CHR ''{'')" "\<not> is_ws (byte 0x22)" "byte 0x22 \<noteq> CHR ''}''"
    by (auto simp: is_ws_def byte_inject byte_eq)
  ultimately show ?thesis
    by (simp add: json_parse_def object_text_def skip_ws_def)
qed

end
