(* ===== verification/Encoding.thy ===== *)
theory Encoding
  imports JsonDoc
begin

text \<open>
  \<open>database/encoding.go\<close>: the byte encodings of database values, and their round trips. A
  value read from the store is an optional byte string, nil when the key is absent; decoding
  a short or absent integer or flag is a run-time panic, as it is in the code.
\<close>

section \<open>String maps\<close>

fun strings_of :: "(string \<times> json) list \<Rightarrow> (string \<times> string) list \<Rightarrow> (string \<times> string) list outcome" where
  "strings_of [] acc = Ok acc"
| "strings_of ((k, JStr v) # ms) acc = strings_of ms (assign k v acc)"
| "strings_of ((k, JNull) # ms) acc = strings_of ms (assign k [] acc)"
| "strings_of ((k, _) # ms) acc = Fail (Plain ''json: cannot unmarshal value into Go value of type string'')"

text \<open>\<open>json.Unmarshal\<close> into a \<open>map[string]string\<close> variable that is nil before the call.\<close>

definition unmarshal_string_map :: "bytes \<Rightarrow> gomap outcome" where
  "unmarshal_string_map bs =
     (case json_parse bs of
        None \<Rightarrow> Fail (Plain ''invalid character'')
      | Some JNull \<Rightarrow> Ok None
      | Some (JObj ms) \<Rightarrow> andThen (strings_of ms []) (\<lambda>xs. Ok (Some xs))
      | Some _ \<Rightarrow> Fail (Plain ''json: cannot unmarshal value into Go value of type map[string]string''))"

definition bytesToStringMap :: "bytes option \<Rightarrow> gomap outcome" where
  "bytesToStringMap bs =
     (case bs of
        None \<Rightarrow> Ok (Some [])
      | Some b \<Rightarrow>
          andThen (unmarshal_string_map b)
            (\<lambda>stringMap. Ok (if stringMap = None then Some [] else stringMap)))"

text \<open>\<open>json.Marshal\<close> of a map writes the entries sorted by key; a nil map is \<open>null\<close>.\<close>

definition stringMapToBytes :: "gomap \<Rightarrow> bytes" where
  "stringMapToBytes m =
     (case m of
        None \<Rightarrow> ''null''
      | Some xs \<Rightarrow> object_text (map (\<lambda>(k, v). (k, LStr v)) (sort_key fst xs)))"

section \<open>Integers and flags\<close>

definition int64ToBytes :: "int64 \<Rightarrow> bytes" where
  "int64ToBytes i = le_bytes 8 (unat i)"

definition bytesToInt64 :: "bytes option \<Rightarrow> int64 outcome" where
  "bytesToInt64 b =
     (case b of
        None \<Rightarrow> Panic
      | Some bs \<Rightarrow> if length bs < 8 then Panic else Ok (of_nat (le_nat (take 8 bs))))"

definition uint32ToBytes :: "uint32 \<Rightarrow> bytes" where
  "uint32ToBytes i = le_bytes 4 (unat i)"

definition bytesToUint32 :: "bytes option \<Rightarrow> uint32 outcome" where
  "bytesToUint32 b =
     (case b of
        None \<Rightarrow> Panic
      | Some bs \<Rightarrow> if length bs < 4 then Panic else Ok (of_nat (le_nat (take 4 bs))))"

definition bytesToBool :: "bytes option \<Rightarrow> bool outcome" where
  "bytesToBool b =
     (case b of
        None \<Rightarrow> Panic
      | Some bs \<Rightarrow> (case bs of [] \<Rightarrow> Panic | c # _ \<Rightarrow> Ok (c = char_of (1 :: nat))))"

definition boolToBytes :: "bool \<Rightarrow> bytes" where
  "boolToBytes b = (if b then [char_of (1 :: nat)] else [char_of (0 :: nat)])"

section \<open>Round trips\<close>

lemma int64_roundtrip [simp]: "bytesToInt64 (Some (int64ToBytes i)) = Ok i"
proof -
  have "unat i < 256 ^ 8"
    using unsigned_less [of i] by simp
  then show ?thesis
    by (simp add: bytesToInt64_def int64ToBytes_def le_nat_le_bytes)
qed

lemma uint32_roundtrip [simp]: "bytesToUint32 (Some (uint32ToBytes i)) = Ok i"
proof -
  have "unat i < 256 ^ 4"
    using unsigned_less [of i] by simp
  then show ?thesis
    by (simp add: bytesToUint32_def uint32ToBytes_def le_nat_le_bytes)
qed

lemma uint32ToBytes_inject [simp]: "uint32ToBytes i = uint32ToBytes j \<longleftrightarrow> i = j"
  by (metis uint32_roundtrip outcome.inject(1))

lemma length_int64ToBytes [simp]: "length (int64ToBytes i) = 8"
  by (simp add: int64ToBytes_def)

lemma length_uint32ToBytes [simp]: "length (uint32ToBytes i) = 4"
  by (simp add: uint32ToBytes_def)

lemma uint32ToBytes_not_Nil [simp]: "uint32ToBytes i \<noteq> []"
  by (metis length_uint32ToBytes list.size(3) zero_neq_numeral)

lemma bool_roundtrip [simp]: "bytesToBool (Some (boolToBytes b)) = Ok b"
  by (simp add: bytesToBool_def boolToBytes_def)

text \<open>
  A map the codec preserves: its keys are distinct, as in every Go map, and all its strings
  are valid UTF-8. Reading back what was written gives the entries in key order, and an
  empty map for a nil one.
\<close>

definition strmap_ok :: "gomap \<Rightarrow> bool" where
  "strmap_ok m \<longleftrightarrow> gomap_ok m \<and> (\<forall>(k, v) \<in> set (entries m). valid_utf8 k \<and> valid_utf8 v)"

definition stored_map :: "gomap \<Rightarrow> gomap" where
  "stored_map m = Some (sort_key fst (entries m))"

lemma strings_of_fresh:
  "distinct (map fst xs) \<Longrightarrow> fst ` set xs \<inter> fst ` set acc = {} \<Longrightarrow>
   strings_of (map (\<lambda>(k, v). (k, JStr v)) xs) acc = Ok (acc @ xs)"
proof (induction xs arbitrary: acc)
  case Nil
  then show ?case by simp
next
  case (Cons x xs)
  obtain k v where x: "x = (k, v)" by (cases x)
  have "assign k v acc = acc @ [(k, v)]"
    using Cons.prems x by (intro assign_fresh) auto
  with Cons x show ?case by auto
qed

lemma string_map_roundtrip:
  assumes "strmap_ok m"
  shows "bytesToStringMap (Some (stringMapToBytes m)) = Ok (stored_map m)"
proof (cases m)
  case None
  have "json_parse ''null'' = Some JNull"
    by (simp add: json_parse_def skip_ws_def is_ws_def scan_literal_def byte_inject)
  with None show ?thesis
    by (simp add: bytesToStringMap_def stringMapToBytes_def unmarshal_string_map_def stored_map_def
        entries_def)
next
  case (Some xs)
  let ?ys = "sort_key fst xs"
  have valid: "\<forall>(k, v) \<in> set ?ys. valid_utf8 k \<and> valid_utf8 v"
    using assms Some by (simp add: strmap_ok_def entries_def)
  have "object_json (map (\<lambda>(k, v). (k, LStr v)) ?ys) = map (\<lambda>(k, v). (k, JStr v)) ?ys"
    using valid by (auto simp: object_json_def sanitize_valid)
  moreover have "distinct (map fst xs)"
    using assms Some by (simp add: strmap_ok_def gomap_ok_def entries_def)
  then have "distinct (map fst ?ys)"
    by (simp add: distinct_map inj_on_def) 
  ultimately show ?thesis
    using Some strings_of_fresh [of ?ys "[]"]
    by (simp add: bytesToStringMap_def stringMapToBytes_def unmarshal_string_map_def
        json_parse_object stored_map_def entries_def)
qed

lemma map_of_sort_key: "distinct (map fst xs) \<Longrightarrow> map_of (sort_key fst xs) = map_of xs"
proof -
  assume d: "distinct (map fst xs)"
  then have "distinct (map fst (sort_key fst xs))"
    by (simp add: distinct_map inj_on_def)
  with d show ?thesis
    by (intro map_of_eqI) (auto simp: map_of_eq_Some_iff)
qed

lemma stored_map_lookup: "gomap_ok m \<Longrightarrow> lookup (stored_map m) k = lookup m k"
  by (cases m) (simp_all add: lookup_def stored_map_def entries_def gomap_ok_def map_of_sort_key)

lemma stored_map_ok: "strmap_ok m \<Longrightarrow> strmap_ok (stored_map m)"
  by (auto simp: strmap_ok_def stored_map_def entries_def gomap_ok_def distinct_map inj_on_def)

lemma sort_key_sorted: "sorted (map f xs) \<Longrightarrow> sort_key f xs = xs"
  by (induction xs) (auto simp: insort_is_Cons)

lemma stored_map_idem [simp]: "stored_map (stored_map m) = stored_map m"
  by (simp add: stored_map_def entries_def sort_key_sorted)

end
