(* ===== verification/Tickets.thy ===== *)
theory Tickets
  imports Bolt Encoding
begin

text \<open>
  \<open>database/ticket.go\<close> and the bucket names of \<open>database/database.go\<close>: the ticket record, its
  field-by-field encoding in a bucket of its own, and the operations that insert, update,
  delete, look up, filter and count tickets. \<open>tickets\<close> is the abstract content of the ticket
  bucket, a partial map from hashes to tickets, which the operations are shown to implement.
\<close>

section \<open>Keys\<close>

named_theorems key_defs \<open>the byte strings used as keys\<close>

definition vspBktK :: bytes where [key_defs]: "vspBktK = ''vspbkt''"
definition ticketBktK :: bytes where [key_defs]: "ticketBktK = ''ticketbkt''"
definition voteChangeBktK :: bytes where [key_defs]: "voteChangeBktK = ''votechangebkt''"
definition versionK :: bytes where [key_defs]: "versionK = ''version''"
definition xPubBktK :: bytes where [key_defs]: "xPubBktK = ''xpubbkt''"
definition cookieSecretK :: bytes where [key_defs]: "cookieSecretK = ''cookieSecret''"
definition privateKeyK :: bytes where [key_defs]: "privateKeyK = ''privatekey''"
definition altSignAddrBktK :: bytes where [key_defs]: "altSignAddrBktK = ''altsigbkt''"

definition hashK :: bytes where [key_defs]: "hashK = ''Hash''"
definition purchaseHeightK :: bytes where [key_defs]: "purchaseHeightK = ''PurchaseHeight''"
definition commitmentAddressK :: bytes where [key_defs]: "commitmentAddressK = ''CommitmentAddress''"
definition feeAddressXPubIDK :: bytes where [key_defs]: "feeAddressXPubIDK = ''FeeAddressXPubID''"
definition feeAddressIndexK :: bytes where [key_defs]: "feeAddressIndexK = ''FeeAddressIndex''"
definition feeAddressK :: bytes where [key_defs]: "feeAddressK = ''FeeAddress''"
definition feeAmountK :: bytes where [key_defs]: "feeAmountK = ''FeeAmount''"
definition feeExpirationK :: bytes where [key_defs]: "feeExpirationK = ''FeeExpiration''"
definition confirmedK :: bytes where [key_defs]: "confirmedK = ''Confirmed''"
definition votingWIFK :: bytes where [key_defs]: "votingWIFK = ''VotingWIF''"
definition voteChoicesK :: bytes where [key_defs]: "voteChoicesK = ''VoteChoices''"
definition tSpendPolicyK :: bytes where [key_defs]: "tSpendPolicyK = ''TSpendPolicy''"
definition treasuryPolicyK :: bytes where [key_defs]: "treasuryPolicyK = ''TreasuryPolicy''"
definition feeTxHexK :: bytes where [key_defs]: "feeTxHexK = ''FeeTxHex''"
definition feeTxHashK :: bytes where [key_defs]: "feeTxHashK = ''FeeTxHash''"
definition feeTxStatusK :: bytes where [key_defs]: "feeTxStatusK = ''FeeTxStatus''"
definition outcomeK :: bytes where [key_defs]: "outcomeK = ''Outcome''"

section \<open>The ticket record\<close>

text \<open>\<open>FeeStatus\<close> and \<open>TicketOutcome\<close> are string types with named constants.\<close>

definition NoFee :: string where "NoFee = ''none''"
definition FeeReceieved :: string where "FeeReceieved = ''received''"
definition FeeBroadcast :: string where "FeeBroadcast = ''broadcast''"
definition FeeConfirmed :: string where "FeeConfirmed = ''confirmed''"
definition FeeError :: string where "FeeError = ''error''"

definition Expired :: string where "Expired = ''expired''"
definition Missed :: string where "Missed = ''missed''"
definition Voted :: string where "Voted = ''voted''"
definition Revoked :: string where "Revoked = ''revoked''"

lemmas status_defs = NoFee_def FeeReceieved_def FeeBroadcast_def FeeConfirmed_def FeeError_def
lemmas outcome_defs = Expired_def Missed_def Voted_def Revoked_def

record ticket =
  Hash :: string
  PurchaseHeight :: int64
  CommitmentAddress :: string
  FeeAddressXPubID :: uint32
  FeeAddressIndex :: uint32
  FeeAddress :: string
  FeeAmount :: int64
  FeeExpiration :: int64
  Confirmed :: bool
  VotingWIF :: string
  VoteChoices :: gomap
  TSpendPolicy :: gomap
  TreasuryPolicy :: gomap
  FeeTxHex :: string
  FeeTxHash :: string
  FeeTxStatus :: string
  Outcome :: string

text \<open>Go's zero value of the struct.\<close>

definition zeroTicket :: ticket where
  "zeroTicket = \<lparr>Hash = [], PurchaseHeight = 0, CommitmentAddress = [], FeeAddressXPubID = 0,
     FeeAddressIndex = 0, FeeAddress = [], FeeAmount = 0, FeeExpiration = 0, Confirmed = False,
     VotingWIF = [], VoteChoices = None, TSpendPolicy = None, TreasuryPolicy = None,
     FeeTxHex = [], FeeTxHash = [], FeeTxStatus = [], Outcome = []\<rparr>"

text \<open>\<open>TicketList.EarliestPurchaseHeight\<close>: the loop over the list with its accumulator.\<close>

fun earliestLoop :: "int64 \<Rightarrow> ticket list \<Rightarrow> int64" where
  "earliestLoop oldest [] = oldest"
| "earliestLoop oldest (t # ts) =
     (if PurchaseHeight t = 0 then earliestLoop oldest ts
      else if oldest = 0 \<or> sint (PurchaseHeight t) < sint oldest
      then earliestLoop (PurchaseHeight t) ts
      else earliestLoop oldest ts)"

definition EarliestPurchaseHeight :: "ticket list \<Rightarrow> int64" where
  "EarliestPurchaseHeight ts = earliestLoop 0 ts"

text \<open>
  \<open>SortByPurchaseHeight\<close>: highest first. \<open>sort.Slice\<close> is not stable, so the order of tickets
  of one height is its own; this is one of the orders it may produce.
\<close>

definition SortByPurchaseHeight :: "ticket list \<Rightarrow> ticket list" where
  "SortByPurchaseHeight ts = sort_key (\<lambda>t. - sint (PurchaseHeight t)) ts"

text \<open>\<open>FeeExpired\<close>: \<open>now\<close> is the clock in nanoseconds since the epoch.\<close>

definition FeeExpired :: "int \<Rightarrow> ticket \<Rightarrow> bool" where
  "FeeExpired now t \<longleftrightarrow> now > sint (FeeExpiration t) * 1000000000"

section \<open>Encoding in a bucket\<close>

definition ticketFields :: "ticket \<Rightarrow> (bytes \<times> bytes) list" where
  "ticketFields t =
     [(hashK, Hash t), (commitmentAddressK, CommitmentAddress t), (feeAddressK, FeeAddress t),
      (votingWIFK, VotingWIF t), (feeTxHexK, FeeTxHex t), (feeTxHashK, FeeTxHash t),
      (feeTxStatusK, FeeTxStatus t), (outcomeK, Outcome t),
      (purchaseHeightK, int64ToBytes (PurchaseHeight t)),
      (feeAddressIndexK, uint32ToBytes (FeeAddressIndex t)),
      (feeAddressXPubIDK, uint32ToBytes (FeeAddressXPubID t)),
      (feeAmountK, int64ToBytes (FeeAmount t)),
      (feeExpirationK, int64ToBytes (FeeExpiration t)),
      (confirmedK, boolToBytes (Confirmed t)),
      (tSpendPolicyK, stringMapToBytes (TSpendPolicy t)),
      (treasuryPolicyK, stringMapToBytes (TreasuryPolicy t)),
      (voteChoicesK, stringMapToBytes (VoteChoices t))]"

definition putTicketInBucket :: "'s bolt \<Rightarrow> handle \<Rightarrow> ticket \<Rightarrow> 's \<Rightarrow> 's outcome" where
  "putTicketInBucket B bkt t s = h_puts B bkt (ticketFields t) s"

text \<open>\<open>string(b)\<close> of a possibly nil byte slice.\<close>

definition str :: "bytes option \<Rightarrow> string" where
  "str b = (case b of None \<Rightarrow> [] | Some v \<Rightarrow> v)"

text \<open>The body of \<open>getTicketFromBkt\<close> over the bucket's \<open>Get\<close>.\<close>

definition decodeTicket :: "(bytes \<Rightarrow> bytes option) \<Rightarrow> ticket outcome" where
  "decodeTicket get =
     andThen (bytesToInt64 (get purchaseHeightK)) (\<lambda>purchaseHeight.
     andThen (bytesToUint32 (get feeAddressXPubIDK)) (\<lambda>xPubID.
     andThen (bytesToUint32 (get feeAddressIndexK)) (\<lambda>index.
     andThen (bytesToInt64 (get feeAmountK)) (\<lambda>feeAmount.
     andThen (bytesToInt64 (get feeExpirationK)) (\<lambda>feeExpiration.
     andThen (bytesToBool (get confirmedK)) (\<lambda>confirmed.
     andThen (wrapErr ''unmarshal VoteChoices err'' (bytesToStringMap (get voteChoicesK))) (\<lambda>voteChoices.
     andThen (wrapErr ''unmarshal TSpendPolicy err'' (bytesToStringMap (get tSpendPolicyK))) (\<lambda>tSpendPolicy.
     andThen (wrapErr ''unmarshal TreasuryPolicy err'' (bytesToStringMap (get treasuryPolicyK))) (\<lambda>treasuryPolicy.
     Ok \<lparr>Hash = str (get hashK), PurchaseHeight = purchaseHeight,
         CommitmentAddress = str (get commitmentAddressK), FeeAddressXPubID = xPubID,
         FeeAddressIndex = index, FeeAddress = str (get feeAddressK), FeeAmount = feeAmount,
         FeeExpiration = feeExpiration, Confirmed = confirmed, VotingWIF = str (get votingWIFK),
         VoteChoices = voteChoices, TSpendPolicy = tSpendPolicy, TreasuryPolicy = treasuryPolicy,
         FeeTxHex = str (get feeTxHexK), FeeTxHash = str (get feeTxHashK),
         FeeTxStatus = str (get feeTxStatusK), Outcome = str (get outcomeK)\<rparr>)))))))))"

fun getTicketFromBkt :: "'s bolt \<Rightarrow> 's \<Rightarrow> handle \<Rightarrow> ticket outcome" where
  "getTicketFromBkt B s None = Panic"
| "getTicketFromBkt B s (Some p) = decodeTicket (bk_get B s p)"

section \<open>Operations\<close>

text \<open>\<open>tx.Bucket(vspBktK)\<close> and its children.\<close>

definition vspBkt :: "'s bolt \<Rightarrow> 's \<Rightarrow> handle outcome" where
  "vspBkt B s = h_bucket B s (Some []) vspBktK"

definition childBkt :: "'s bolt \<Rightarrow> bytes \<Rightarrow> 's \<Rightarrow> handle outcome" where
  "childBkt B k s = andThen (vspBkt B s) (\<lambda>h. h_bucket B s h k)"

definition InsertNewTicket :: "'s bolt \<Rightarrow> ticket \<Rightarrow> 's \<Rightarrow> 's outcome" where
  "InsertNewTicket B t = db_update B (\<lambda>s.
     andThen (childBkt B ticketBktK s) (\<lambda>ticketBkt.
     andThen (wrapErr ''could not create bucket for ticket'' (h_create B ticketBkt (Hash t) s)) (\<lambda>(s', newTicketBkt).
     wrapErr ''putting ticket in bucket failed'' (putTicketInBucket B newTicketBkt t s'))))"

definition DeleteTicket :: "'s bolt \<Rightarrow> ticket \<Rightarrow> 's \<Rightarrow> 's outcome" where
  "DeleteTicket B t = db_update B (\<lambda>s.
     andThen (childBkt B ticketBktK s) (\<lambda>ticketBkt.
     wrapErr ''could not delete ticket'' (h_deleteBucket B ticketBkt (Hash t) s)))"

definition UpdateTicket :: "'s bolt \<Rightarrow> ticket \<Rightarrow> 's \<Rightarrow> 's outcome" where
  "UpdateTicket B t = db_update B (\<lambda>s.
     andThen (childBkt B ticketBktK s) (\<lambda>ticketBkt.
     andThen (h_bucket B s ticketBkt (Hash t)) (\<lambda>bkt.
     if bkt = None then Fail (Plain (''ticket does not exist with hash '' @ Hash t))
     else putTicketInBucket B bkt t s)))"

definition GetTicketByHash :: "'s bolt \<Rightarrow> string \<Rightarrow> 's \<Rightarrow> (ticket \<times> bool) outcome" where
  "GetTicketByHash B hash = db_view B (\<lambda>s.
     andThen (childBkt B ticketBktK s) (\<lambda>ticketBkt.
     andThen (h_bucket B s ticketBkt hash) (\<lambda>bkt.
     if bkt = None then Ok (zeroTicket, False)
     else andThen (wrapErr ''could not get ticket'' (getTicketFromBkt B s bkt)) (\<lambda>t. Ok (t, True)))))"

text \<open>The loop of \<open>filterTickets\<close>: a callback per nested bucket, appending the matches.\<close>

fun filterLoop :: "'s bolt \<Rightarrow> 's \<Rightarrow> handle \<Rightarrow> (handle \<Rightarrow> bool outcome) \<Rightarrow> bytes list \<Rightarrow> ticket list
    \<Rightarrow> ticket list outcome" where
  "filterLoop B s h f [] tickets = Ok tickets"
| "filterLoop B s h f (k # ks) tickets =
     andThen (h_bucket B s h k) (\<lambda>bkt.
     andThen (f bkt) (\<lambda>match.
     if match then
       andThen (wrapErr ''could not get ticket'' (getTicketFromBkt B s bkt)) (\<lambda>t.
       filterLoop B s h f ks (tickets @ [t]))
     else filterLoop B s h f ks tickets))"

definition filterTickets :: "'s bolt \<Rightarrow> ('s \<Rightarrow> handle \<Rightarrow> bool outcome) \<Rightarrow> 's \<Rightarrow> ticket list outcome" where
  "filterTickets B f = db_view B (\<lambda>s.
     andThen (childBkt B ticketBktK s) (\<lambda>ticketBkt.
     andThen (h_forEach B s ticketBkt) (\<lambda>es.
     filterLoop B s ticketBkt (f s) (bucketNames es) [])))"

definition fieldIs :: "'s bolt \<Rightarrow> bytes \<Rightarrow> string \<Rightarrow> 's \<Rightarrow> handle \<Rightarrow> bool outcome" where
  "fieldIs B k v s h = andThen (h_get B s h k) (\<lambda>b. Ok (str b = v))"

definition isConfirmed :: "'s bolt \<Rightarrow> 's \<Rightarrow> handle \<Rightarrow> bool outcome" where
  "isConfirmed B s h = andThen (h_get B s h confirmedK) bytesToBool"

text \<open>\<open>a && b\<close>: \<open>b\<close> is evaluated only if \<open>a\<close> is true.\<close>

definition andAlso :: "bool outcome \<Rightarrow> bool outcome \<Rightarrow> bool outcome" where
  "andAlso a b = andThen a (\<lambda>x. if x then b else Ok False)"

definition GetUnconfirmedTickets :: "'s bolt \<Rightarrow> 's \<Rightarrow> ticket list outcome" where
  "GetUnconfirmedTickets B = filterTickets B (\<lambda>s h. andThen (isConfirmed B s h) (\<lambda>c. Ok (\<not> c)))"

definition GetPendingFees :: "'s bolt \<Rightarrow> 's \<Rightarrow> ticket list outcome" where
  "GetPendingFees B =
     filterTickets B (\<lambda>s h. andAlso (isConfirmed B s h) (fieldIs B feeTxStatusK FeeReceieved s h))"

definition GetUnconfirmedFees :: "'s bolt \<Rightarrow> 's \<Rightarrow> ticket list outcome" where
  "GetUnconfirmedFees B = filterTickets B (fieldIs B feeTxStatusK FeeBroadcast)"

definition GetVotableTickets :: "'s bolt \<Rightarrow> 's \<Rightarrow> ticket list outcome" where
  "GetVotableTickets B =
     filterTickets B (\<lambda>s h. andAlso (fieldIs B feeTxStatusK FeeConfirmed s h) (fieldIs B outcomeK [] s h))"

definition GetVotedTickets :: "'s bolt \<Rightarrow> 's \<Rightarrow> ticket list outcome" where
  "GetVotedTickets B =
     filterTickets B (\<lambda>s h. andAlso (fieldIs B feeTxStatusK FeeConfirmed s h) (fieldIs B outcomeK Voted s h))"

definition GetRevokedTickets :: "'s bolt \<Rightarrow> 's \<Rightarrow> ticket list outcome" where
  "GetRevokedTickets B = filterTickets B (fieldIs B outcomeK Revoked)"

definition GetMissingPurchaseHeight :: "'s bolt \<Rightarrow> 's \<Rightarrow> ticket list outcome" where
  "GetMissingPurchaseHeight B =
     filterTickets B (\<lambda>s h. andAlso (isConfirmed B s h)
       (andThen (h_get B s h purchaseHeightK) (\<lambda>b. andThen (bytesToInt64 b) (\<lambda>n. Ok (n = 0)))))"

definition GetMissedTickets :: "'s bolt \<Rightarrow> 's \<Rightarrow> ticket list outcome" where
  "GetMissedTickets B = filterTickets B (fieldIs B outcomeK Missed)"

text \<open>The counters of \<open>CountTickets\<close>, in the order they are returned.\<close>

record counts =
  cVoting :: int64
  cVoted :: int64
  cExpired :: int64
  cMissed :: int64

definition countOne :: "string \<Rightarrow> string \<Rightarrow> counts \<Rightarrow> counts" where
  "countOne status outcome c =
     (if status = FeeConfirmed then
        (if outcome = Voted then c\<lparr>cVoted := cVoted c + 1\<rparr>
         else if outcome = Expired then c\<lparr>cExpired := cExpired c + 1\<rparr>
         else if outcome = Missed then c\<lparr>cMissed := cMissed c + 1\<rparr>
         else if outcome = Revoked then c\<lparr>cExpired := cExpired c + 1\<rparr>
         else c\<lparr>cVoting := cVoting c + 1\<rparr>)
      else c)"

fun countLoop :: "'s bolt \<Rightarrow> 's \<Rightarrow> handle \<Rightarrow> bytes list \<Rightarrow> counts \<Rightarrow> counts outcome" where
  "countLoop B s h [] c = Ok c"
| "countLoop B s h (k # ks) c =
     andThen (h_bucket B s h k) (\<lambda>tBkt.
     andThen (h_get B s tBkt feeTxStatusK) (\<lambda>status.
     andThen (h_get B s tBkt outcomeK) (\<lambda>outcome.
     countLoop B s h ks (countOne (str status) (str outcome) c))))"

definition CountTickets :: "'s bolt \<Rightarrow> 's \<Rightarrow> counts outcome" where
  "CountTickets B = db_view B (\<lambda>s.
     andThen (childBkt B ticketBktK s) (\<lambda>ticketBkt.
     andThen (h_forEach B s ticketBkt) (\<lambda>es.
     countLoop B s ticketBkt (bucketNames es) \<lparr>cVoting = 0, cVoted = 0, cExpired = 0, cMissed = 0\<rparr>)))"

end
