(* ===== verification/TicketStore.thy ===== *)
theory TicketStore
  imports Tickets
begin

text \<open>
  What the ticket operations promise: an interface of a store of tickets indexed by hash, the
  abstraction of the ticket bucket, and the proof that the operations of
  \<open>database/ticket.go\<close> provide the interface on every store with bbolt's documented
  behaviour.
\<close>

section \<open>Tickets as stored\<close>

definition ticket_ok :: "ticket \<Rightarrow> bool" where
  "ticket_ok t \<longleftrightarrow> strmap_ok (VoteChoices t) \<and> strmap_ok (TSpendPolicy t) \<and> strmap_ok (TreasuryPolicy t)"

text \<open>Reading a ticket back gives its maps in key order, and an empty map for a nil one.\<close>

definition stored_ticket :: "ticket \<Rightarrow> ticket" where
  "stored_ticket t = t\<lparr>VoteChoices := stored_map (VoteChoices t),
     TSpendPolicy := stored_map (TSpendPolicy t), TreasuryPolicy := stored_map (TreasuryPolicy t)\<rparr>"

lemma stored_ticket_fields [simp]:
  "Hash (stored_ticket t) = Hash t" "PurchaseHeight (stored_ticket t) = PurchaseHeight t"
  "CommitmentAddress (stored_ticket t) = CommitmentAddress t"
  "FeeAddressXPubID (stored_ticket t) = FeeAddressXPubID t"
  "FeeAddressIndex (stored_ticket t) = FeeAddressIndex t" "FeeAddress (stored_ticket t) = FeeAddress t"
  "FeeAmount (stored_ticket t) = FeeAmount t" "FeeExpiration (stored_ticket t) = FeeExpiration t"
  "Confirmed (stored_ticket t) = Confirmed t" "VotingWIF (stored_ticket t) = VotingWIF t"
  "FeeTxHex (stored_ticket t) = FeeTxHex t" "FeeTxHash (stored_ticket t) = FeeTxHash t"
  "FeeTxStatus (stored_ticket t) = FeeTxStatus t" "Outcome (stored_ticket t) = Outcome t"
  "VoteChoices (stored_ticket t) = stored_map (VoteChoices t)"
  "TSpendPolicy (stored_ticket t) = stored_map (TSpendPolicy t)"
  "TreasuryPolicy (stored_ticket t) = stored_map (TreasuryPolicy t)"
  by (simp_all add: stored_ticket_def)

lemma stored_ticket_idem [simp]: "stored_ticket (stored_ticket t) = stored_ticket t"
  by (simp add: stored_ticket_def)

lemma stored_ticket_ok: "ticket_ok t \<Longrightarrow> ticket_ok (stored_ticket t)"
  by (simp add: ticket_ok_def stored_map_ok)

section \<open>The interface of a ticket store\<close>

text \<open>
  \<open>good\<close> is what is assumed of the underlying store, \<open>inv\<close> the invariant of its content and
  \<open>abs\<close> the tickets it holds.
\<close>

locale ticket_db =
  fixes good :: "'b \<Rightarrow> bool"
    and inv :: "'b \<Rightarrow> 's \<Rightarrow> bool"
    and abs :: "'b \<Rightarrow> 's \<Rightarrow> string \<Rightarrow> ticket option"
    and ins :: "'b \<Rightarrow> ticket \<Rightarrow> 's \<Rightarrow> 's outcome"
    and upd :: "'b \<Rightarrow> ticket \<Rightarrow> 's \<Rightarrow> 's outcome"
    and del :: "'b \<Rightarrow> ticket \<Rightarrow> 's \<Rightarrow> 's outcome"
  assumes ins_Ok: "good B \<Longrightarrow> inv B s \<Longrightarrow> ticket_ok t \<Longrightarrow> ins B t s = Ok s' \<Longrightarrow>
      inv B s' \<and> abs B s (Hash t) = None \<and> abs B s' = (abs B s)(Hash t \<mapsto> stored_ticket t)"
    and upd_Ok: "good B \<Longrightarrow> inv B s \<Longrightarrow> ticket_ok t \<Longrightarrow> upd B t s = Ok s' \<Longrightarrow>
      inv B s' \<and> abs B s (Hash t) \<noteq> None \<and> abs B s' = (abs B s)(Hash t \<mapsto> stored_ticket t)"
    and del_Ok: "good B \<Longrightarrow> inv B s \<Longrightarrow> del B t s = Ok s' \<Longrightarrow>
      inv B s' \<and> abs B s (Hash t) \<noteq> None \<and> abs B s' = (abs B s)(Hash t := None)"
    and no_Panic: "good B \<Longrightarrow> inv B s \<Longrightarrow> ins B t s \<noteq> Panic \<and> upd B t s \<noteq> Panic \<and> del B t s \<noteq> Panic"
    and abs_Some: "good B \<Longrightarrow> inv B s \<Longrightarrow> abs B s h = Some t \<Longrightarrow>
      Hash t = h \<and> ticket_ok t \<and> stored_ticket t = t"
begin

text \<open>A property of all stored tickets survives each operation.\<close>

lemma ins_all:
  assumes "good B" "inv B s" "ticket_ok t" "ins B t s = Ok s'"
    and "\<And>h u. abs B s h = Some u \<Longrightarrow> P u" "P (stored_ticket t)"
  shows "abs B s' h = Some u \<Longrightarrow> P u"
  using ins_Ok [OF assms(1-4)] assms(5,6) by (auto split: if_splits)

lemma upd_all:
  assumes "good B" "inv B s" "ticket_ok t" "upd B t s = Ok s'"
    and "\<And>h u. abs B s h = Some u \<Longrightarrow> P u" "P (stored_ticket t)"
  shows "abs B s' h = Some u \<Longrightarrow> P u"
  using upd_Ok [OF assms(1-4)] assms(5,6) by (auto split: if_splits)

lemma del_all:
  assumes "good B" "inv B s" "del B t s = Ok s'" "\<And>h u. abs B s h = Some u \<Longrightarrow> P u"
  shows "abs B s' h = Some u \<Longrightarrow> P u"
  using del_Ok [OF assms(1-3)] assms(4) by (auto split: if_splits)

text \<open>No operation touches a ticket other than its own, and none loses a ticket but delete.\<close>

lemma upd_other:
  assumes "good B" "inv B s" "ticket_ok t" "upd B t s = Ok s'" "h \<noteq> Hash t"
  shows "abs B s' h = abs B s h"
  using upd_Ok [OF assms(1-4)] assms(5) by auto

lemma upd_dom:
  assumes "good B" "inv B s" "ticket_ok t" "upd B t s = Ok s'"
  shows "dom (abs B s') = dom (abs B s)"
  using upd_Ok [OF assms] by auto

text \<open>A ticket once inserted is found by its hash, and cannot be inserted again.\<close>

lemma ins_twice:
  assumes "good B" "inv B s" "ticket_ok t" "ins B t s = Ok s'" "Hash u = Hash t" "ticket_ok u"
  shows "ins B u s' \<noteq> Ok s''"
  using ins_Ok [OF assms(1-4)] ins_Ok [of B s' u s''] assms by auto

end

section \<open>The ticket bucket\<close>

definition ticketPath :: path where
  "ticketPath = [vspBktK, ticketBktK]"

text \<open>The buckets every database of the current version has.\<close>

definition buckets_ok :: "'s bolt \<Rightarrow> 's \<Rightarrow> bool" where
  "buckets_ok B s \<longleftrightarrow> ents B s [] vspBktK = Some Sub \<and> ents B s [vspBktK] ticketBktK = Some Sub \<and>
     ents B s [vspBktK] voteChangeBktK = Some Sub \<and> ents B s [vspBktK] xPubBktK = Some Sub \<and>
     ents B s [vspBktK] altSignAddrBktK = Some Sub"

text \<open>
  The ticket bucket holds buckets only, and each of them decodes to a ticket with the bucket's
  name as hash.
\<close>

definition tickets_wf :: "'s bolt \<Rightarrow> 's \<Rightarrow> bool" where
  "tickets_wf B s \<longleftrightarrow> buckets_ok B s \<and> (\<forall>h v. ents B s ticketPath h \<noteq> Some (Val v)) \<and>
     (\<forall>h. ents B s ticketPath h = Some Sub \<longrightarrow>
        (\<forall>k. ents B s (ticketPath @ [h]) k \<noteq> Some Sub) \<and>
        (\<exists>t. decodeTicket (bk_get B s (ticketPath @ [h])) = Ok t \<and> Hash t = h \<and> ticket_ok t
             \<and> stored_ticket t = t))"

definition tickets :: "'s bolt \<Rightarrow> 's \<Rightarrow> string \<Rightarrow> ticket option" where
  "tickets B s h =
     (if ents B s ticketPath h = Some Sub then
        (case decodeTicket (bk_get B s (ticketPath @ [h])) of Ok t \<Rightarrow> Some t | _ \<Rightarrow> None)
      else None)"

lemma childBkt_ok:
  assumes "bolt_ok B" "ents B s [] vspBktK = Some Sub"
  shows "childBkt B k s = Ok (if ents B s [vspBktK] k = Some Sub then Some [vspBktK, k] else None)"
  using assms by (simp add: childBkt_def vspBkt_def bucket_ents)

lemma ticketBkt_ok: "bolt_ok B \<Longrightarrow> buckets_ok B s \<Longrightarrow> childBkt B ticketBktK s = Ok (Some ticketPath)"
  by (simp add: childBkt_ok buckets_ok_def ticketPath_def)

text \<open>\<open>Get\<close> depends on the content of the bucket only.\<close>

lemma bk_get_cong: "bolt_ok B \<Longrightarrow> ents B s p = ents B s' p \<Longrightarrow> bk_get B s p = bk_get B s' p"
  by (simp add: fun_eq_iff get_ents)

lemma ticketFields_keys: "distinct (map fst (ticketFields t))"
  by (simp add: ticketFields_def key_defs)

lemma ticketFields_key_ok: "(k, v) \<in> set (ticketFields t) \<Longrightarrow> key_ok k"
  by (auto simp: ticketFields_def key_ok_def key_defs)

lemma decode_fields:
  assumes "ticket_ok t" and "\<And>k v. (k, v) \<in> set (ticketFields t) \<Longrightarrow> get k = Some v"
  shows "decodeTicket get = Ok (stored_ticket t)"
proof -
  have get: "get hashK = Some (Hash t)" "get commitmentAddressK = Some (CommitmentAddress t)"
    "get feeAddressK = Some (FeeAddress t)" "get votingWIFK = Some (VotingWIF t)"
    "get feeTxHexK = Some (FeeTxHex t)" "get feeTxHashK = Some (FeeTxHash t)"
    "get feeTxStatusK = Some (FeeTxStatus t)" "get outcomeK = Some (Outcome t)"
    "get purchaseHeightK = Some (int64ToBytes (PurchaseHeight t))"
    "get feeAddressIndexK = Some (uint32ToBytes (FeeAddressIndex t))"
    "get feeAddressXPubIDK = Some (uint32ToBytes (FeeAddressXPubID t))"
    "get feeAmountK = Some (int64ToBytes (FeeAmount t))"
    "get feeExpirationK = Some (int64ToBytes (FeeExpiration t))"
    "get confirmedK = Some (boolToBytes (Confirmed t))"
    "get tSpendPolicyK = Some (stringMapToBytes (TSpendPolicy t))"
    "get treasuryPolicyK = Some (stringMapToBytes (TreasuryPolicy t))"
    "get voteChoicesK = Some (stringMapToBytes (VoteChoices t))"
    by (rule assms(2), simp add: ticketFields_def)+
  have maps: "bytesToStringMap (Some (stringMapToBytes (VoteChoices t))) = Ok (stored_map (VoteChoices t))"
    "bytesToStringMap (Some (stringMapToBytes (TSpendPolicy t))) = Ok (stored_map (TSpendPolicy t))"
    "bytesToStringMap (Some (stringMapToBytes (TreasuryPolicy t))) = Ok (stored_map (TreasuryPolicy t))"
    using assms(1) by (simp_all add: ticket_ok_def string_map_roundtrip)
  show ?thesis
    by (simp add: decodeTicket_def get maps str_def stored_ticket_def)
qed

text \<open>After a ticket is written to a bucket, the bucket decodes to it.\<close>

lemma put_decode:
  assumes "bolt_ok B" "putTicketInBucket B (Some p) t s = Ok s'" "ticket_ok t"
  shows "decodeTicket (bk_get B s' p) = Ok (stored_ticket t)"
proof (rule decode_fields [OF assms(3)])
  fix k v assume kv: "(k, v) \<in> set (ticketFields t)"
  let ?new = "map_of (rev (map (\<lambda>(k, v). (k, Val v)) (ticketFields t)))"
  have "distinct (map fst (rev (map (\<lambda>(k, v). (k, Val v)) (ticketFields t))))"
    using ticketFields_keys [of t] by (simp add: rev_map [symmetric] comp_def case_prod_beta)
  with kv have "?new k = Some (Val v)"
    by (force simp: map_of_eq_Some_iff)
  moreover have "ents B s' p = ents B s p ++ ?new"
    using h_puts_ents [OF assms(1) assms(2)[unfolded putTicketInBucket_def]] by simp
  ultimately show "bk_get B s' p k = Some v"
    using assms(1) by (simp add: get_ents)
qed

lemma put_frame:
  assumes "bolt_ok B" "putTicketInBucket B (Some p) t s = Ok s'" "q \<noteq> p"
  shows "ents B s' q = ents B s q"
  using h_puts_ents [OF assms(1) assms(2)[unfolded putTicketInBucket_def]] assms(3) by simp

lemma put_no_Sub:
  assumes "bolt_ok B" "putTicketInBucket B (Some p) t s = Ok s'" "\<And>k. ents B s p k \<noteq> Some Sub"
  shows "ents B s' p k \<noteq> Some Sub"
proof -
  have "map_of (rev (map (\<lambda>(k, v). (k, Val v)) kvs)) k \<noteq> Some Sub" for kvs
    by (auto dest: map_of_SomeD)
  then show ?thesis
    using h_puts_ents [OF assms(1) assms(2)[unfolded putTicketInBucket_def]] assms(3)
    by (auto simp: map_add_Some_iff)
qed

lemma ticketPath_simps [simp]: "ticketPath \<noteq> []" "ticketPath \<noteq> [vspBktK]" "ticketPath @ [h] \<noteq> [vspBktK]"
  "[vspBktK] \<noteq> ticketPath @ [h]" "[vspBktK] \<noteq> ticketPath" "[] \<noteq> ticketPath"
  by (simp_all add: ticketPath_def)

lemma buckets_ok_frame:
  "buckets_ok B s \<Longrightarrow> ents B s' [] = ents B s [] \<Longrightarrow> ents B s' [vspBktK] = ents B s [vspBktK]
   \<Longrightarrow> buckets_ok B s'"
  by (simp add: buckets_ok_def)

lemma tickets_wfD:
  assumes "tickets_wf B s" "ents B s ticketPath h = Some Sub"
  obtains t where "decodeTicket (bk_get B s (ticketPath @ [h])) = Ok t" "Hash t = h" "ticket_ok t"
    "stored_ticket t = t" "tickets B s h = Some t" "\<And>k. ents B s (ticketPath @ [h]) k \<noteq> Some Sub"
  using assms by (auto simp: tickets_wf_def tickets_def)

lemma tickets_None: "tickets_wf B s \<Longrightarrow> ents B s ticketPath h = None \<longleftrightarrow> tickets B s h = None"
  by (cases "ents B s ticketPath h"; cases "the (ents B s ticketPath h)")
     (auto simp: tickets_def elim: tickets_wfD, simp add: tickets_wf_def)

lemma tickets_dom: "tickets_wf B s \<Longrightarrow> ents B s ticketPath h = Some Sub \<longleftrightarrow> tickets B s h \<noteq> None"
  by (auto simp: tickets_def elim: tickets_wfD)

text \<open>
  A write of one ticket bucket, seen from the abstraction: the shape shared by insert and
  update.
\<close>

lemma tickets_write:
  assumes B: "bolt_ok B" and wf: "tickets_wf B s" and t: "ticket_ok t"
    and s1: "\<And>q. q \<noteq> ticketPath \<Longrightarrow> q \<noteq> ticketPath @ [Hash t] \<Longrightarrow> ents B s1 q = ents B s q"
      "ents B s1 ticketPath = (ents B s ticketPath)(Hash t \<mapsto> Sub)"
      "\<And>k. ents B s1 (ticketPath @ [Hash t]) k \<noteq> Some Sub"
    and put: "putTicketInBucket B (Some (ticketPath @ [Hash t])) t s1 = Ok s'"
  shows "tickets_wf B s' \<and> tickets B s' = (tickets B s)(Hash t \<mapsto> stored_ticket t)"
proof -
  let ?p = "ticketPath @ [Hash t]"
  have path: "ents B s' ticketPath = (ents B s ticketPath)(Hash t \<mapsto> Sub)"
    using put_frame [OF B put] s1(2) by simp
  have frame: "ents B s' q = ents B s q" if "q \<noteq> ticketPath" "q \<noteq> ?p" for q
    using put_frame [OF B put that(2)] s1(1) [OF that] by simp
  have other: "bk_get B s' (ticketPath @ [h]) = bk_get B s (ticketPath @ [h])" if "h \<noteq> Hash t" for h
    using that by (intro bk_get_cong [OF B] frame) auto
  have dec: "decodeTicket (bk_get B s' ?p) = Ok (stored_ticket t)"
    using B put t by (rule put_decode)
  have "buckets_ok B s'"
    using wf frame [of "[]"] frame [of "[vspBktK]"] by (simp add: tickets_wf_def buckets_ok_def)
  moreover have "(\<forall>k. ents B s' (ticketPath @ [h]) k \<noteq> Some Sub) \<and>
      (\<exists>u. decodeTicket (bk_get B s' (ticketPath @ [h])) = Ok u \<and> Hash u = h \<and> ticket_ok u
         \<and> stored_ticket u = u)" if h: "ents B s' ticketPath h = Some Sub" for h
  proof (cases "h = Hash t")
    case True
    with put_no_Sub [OF B put s1(3)] dec t show ?thesis by (simp add: stored_ticket_ok)
  next
    case False
    with h path have "ents B s ticketPath h = Some Sub" by simp
    with wf False show ?thesis
      using frame [of "ticketPath @ [h]"] other by (simp add: tickets_wf_def)
  qed
  moreover have "ents B s' ticketPath h \<noteq> Some (Val v)" for h v
    using wf by (simp add: path tickets_wf_def)
  ultimately have "tickets_wf B s'" by (auto simp: tickets_wf_def)
  moreover have "tickets B s' h = ((tickets B s)(Hash t \<mapsto> stored_ticket t)) h" for h
    using path other dec by (auto simp: tickets_def)
  ultimately show ?thesis by (simp add: fun_eq_iff)
qed

lemma UpdateTicket_Ok:
  assumes B: "bolt_ok B" and wf: "tickets_wf B s" and t: "ticket_ok t" and Ok: "UpdateTicket B t s = Ok s'"
  shows "tickets_wf B s' \<and> tickets B s (Hash t) \<noteq> None \<and>
    tickets B s' = (tickets B s)(Hash t \<mapsto> stored_ticket t)"
proof -
  have bk: "buckets_ok B s" using wf by (simp add: tickets_wf_def)
  from Ok have sub: "ents B s ticketPath (Hash t) = Some Sub"
    and put: "putTicketInBucket B (Some (ticketPath @ [Hash t])) t s = Ok s'"
    by (auto simp: UpdateTicket_def db_update_Ok ticketBkt_ok [OF B bk] bucket_ents [OF B]
        outcome_simps split: if_splits)
  have "ents B s ticketPath = (ents B s ticketPath)(Hash t \<mapsto> Sub)"
    using sub by auto
  moreover have "ents B s (ticketPath @ [Hash t]) k \<noteq> Some Sub" for k
    using wf sub by (simp add: tickets_wf_def)
  ultimately show ?thesis
    using tickets_write [OF B wf t _ _ _ put] tickets_dom [OF wf] sub by auto
qed

lemma InsertNewTicket_Ok:
  assumes B: "bolt_ok B" and wf: "tickets_wf B s" and t: "ticket_ok t" and Ok: "InsertNewTicket B t s = Ok s'"
  shows "tickets_wf B s' \<and> tickets B s (Hash t) = None \<and>
    tickets B s' = (tickets B s)(Hash t \<mapsto> stored_ticket t)"
proof -
  have bk: "buckets_ok B s" using wf by (simp add: tickets_wf_def)
  from Ok obtain s1 where s1: "bk_create B s ticketPath (Hash t) = Ok s1"
    and put: "putTicketInBucket B (Some (ticketPath @ [Hash t])) t s1 = Ok s'"
    by (auto simp: InsertNewTicket_def db_update_Ok ticketBkt_ok [OF B bk] outcome_simps)
  have e: "ents B s1 = (ents B s)(ticketPath := (ents B s ticketPath)(Hash t \<mapsto> Sub),
      ticketPath @ [Hash t] := Map.empty)"
    using B s1 by (rule create_ents)
  have "tickets B s (Hash t) = None"
    using create_fresh [OF B s1] by (simp add: tickets_def)
  moreover have "tickets_wf B s' \<and> tickets B s' = (tickets B s)(Hash t \<mapsto> stored_ticket t)"
    using e by (intro tickets_write [OF B wf t _ _ _ put]) auto
  ultimately show ?thesis by simp
qed

lemma DeleteTicket_Ok:
  assumes B: "bolt_ok B" and wf: "tickets_wf B s" and Ok: "DeleteTicket B t s = Ok s'"
  shows "tickets_wf B s' \<and> tickets B s (Hash t) \<noteq> None \<and> tickets B s' = (tickets B s)(Hash t := None)"
proof -
  have bk: "buckets_ok B s" using wf by (simp add: tickets_wf_def)
  from Ok have del: "bk_deleteBucket B s ticketPath (Hash t) = Ok s'"
    by (auto simp: DeleteTicket_def db_update_Ok ticketBkt_ok [OF B bk] outcome_simps)
  note e = deleteBucket_ents [OF B del]
  have other: "ents B s' (ticketPath @ [h]) = ents B s (ticketPath @ [h])" if "h \<noteq> Hash t" for h
    using that by (simp add: e)
  have path: "ents B s' ticketPath = (ents B s ticketPath)(Hash t := None)"
    by (simp add: e)
  have get: "bk_get B s' (ticketPath @ [h]) = bk_get B s (ticketPath @ [h])" if "h \<noteq> Hash t" for h
    using other [OF that] by (rule bk_get_cong [OF B])
  have "buckets_ok B s'"
    using bk by (rule buckets_ok_frame) (simp_all add: e ticketPath_def)
  then have "tickets_wf B s'"
    using wf other get path by (auto simp: tickets_wf_def)
  moreover have "tickets B s' h = ((tickets B s)(Hash t := None)) h" for h
    using path get by (auto simp: tickets_def)
  ultimately show ?thesis
    using tickets_dom [OF wf] deleteBucket_exists [OF B del] by (auto simp: fun_eq_iff)
qed

lemma ticket_ops_no_Panic:
  assumes B: "bolt_ok B" and wf: "tickets_wf B s"
  shows "InsertNewTicket B t s \<noteq> Panic \<and> UpdateTicket B t s \<noteq> Panic \<and> DeleteTicket B t s \<noteq> Panic"
proof -
  have bk: "buckets_ok B s" using wf by (simp add: tickets_wf_def)
  show ?thesis
    by (auto simp: InsertNewTicket_def UpdateTicket_def DeleteTicket_def db_update_Panic
        ticketBkt_ok [OF B bk] outcome_simps bolt_no_Panic [OF B] putTicketInBucket_def
        h_puts_no_Panic [OF B] split: if_splits)
qed

interpretation tdb: ticket_db bolt_ok tickets_wf tickets InsertNewTicket UpdateTicket DeleteTicket
proof unfold_locales
  fix B :: "'s bolt" and s t s'
  assume "bolt_ok B" "tickets_wf B s" "ticket_ok t" "InsertNewTicket B t s = Ok s'"
  then show "tickets_wf B s' \<and> tickets B s (Hash t) = None \<and>
      tickets B s' = (tickets B s)(Hash t \<mapsto> stored_ticket t)"
    by (rule InsertNewTicket_Ok)
next
  fix B :: "'s bolt" and s t s'
  assume "bolt_ok B" "tickets_wf B s" "ticket_ok t" "UpdateTicket B t s = Ok s'"
  then show "tickets_wf B s' \<and> tickets B s (Hash t) \<noteq> None \<and>
      tickets B s' = (tickets B s)(Hash t \<mapsto> stored_ticket t)"
    by (rule UpdateTicket_Ok)
next
  fix B :: "'s bolt" and s t s'
  assume "bolt_ok B" "tickets_wf B s" "DeleteTicket B t s = Ok s'"
  then show "tickets_wf B s' \<and> tickets B s (Hash t) \<noteq> None \<and>
      tickets B s' = (tickets B s)(Hash t := None)"
    by (rule DeleteTicket_Ok)
next
  fix B :: "'s bolt" and s t
  assume "bolt_ok B" "tickets_wf B s"
  then show "InsertNewTicket B t s \<noteq> Panic \<and> UpdateTicket B t s \<noteq> Panic \<and> DeleteTicket B t s \<noteq> Panic"
    by (rule ticket_ops_no_Panic)
next
  fix B :: "'s bolt" and s h t
  assume "bolt_ok B" and wf: "tickets_wf B s" and t: "tickets B s h = Some t"
  then have "ents B s ticketPath h = Some Sub" by (simp add: tickets_def split: if_splits)
  with wf obtain u where "tickets B s h = Some u" "Hash u = h" "ticket_ok u" "stored_ticket u = u"
    by (rule tickets_wfD)
  with t show "Hash t = h \<and> ticket_ok t \<and> stored_ticket t = t" by simp
qed

text \<open>An operation that leaves the ticket bucket and the others in place changes no ticket.\<close>

lemma tickets_frame:
  assumes B: "bolt_ok B" and wf: "tickets_wf B s" and bk: "buckets_ok B s'"
    and e: "\<And>q. prefix ticketPath q \<Longrightarrow> ents B s' q = ents B s q"
  shows "tickets_wf B s' \<and> tickets B s' = tickets B s"
proof -
  have path: "ents B s' ticketPath = ents B s ticketPath"
    and sub: "ents B s' (ticketPath @ [h]) = ents B s (ticketPath @ [h])" for h
    using e by simp_all
  have get: "bk_get B s' (ticketPath @ [h]) = bk_get B s (ticketPath @ [h])" for h
    using sub by (rule bk_get_cong [OF B])
  show ?thesis
    using wf bk by (simp add: tickets_wf_def tickets_def fun_eq_iff path get sub)
qed

end
