(* ===== verification/JsonStruct.thy ===== *)
theory JsonStruct
  imports JsonDoc
begin

text \<open>
  \<open>json.Unmarshal\<close> into a Go struct. A member sets the field whose tag equals its key, else the
  first field whose tag equals it under case folding; an unknown key is skipped, a later
  duplicate overwrites, \<open>null\<close> leaves a scalar field as it is, and a value of the wrong type
  is reported after the whole object has been read.
\<close>

section \<open>Matching keys to fields\<close>

text \<open>
  \<open>foldName\<close> on the runes that fold to ASCII letters: the lower-case letters, the long s
  (C5 BF) and the Kelvin sign (E2 84 AA). The tags of the code are ASCII.
\<close>

definition upper :: "char \<Rightarrow> char" where
  "upper c = (if 97 \<le> (of_char c :: nat) \<and> (of_char c :: nat) \<le> 122 then char_of (of_char c - 32 :: nat) else c)"

fun fold_name :: "string \<Rightarrow> string" where
  "fold_name [] = []"
| "fold_name (c # cs) =
     (if hasPrefix (c # cs) [byte 0xC5, byte 0xBF] then CHR ''S'' # fold_name (drop 1 cs)
      else if hasPrefix (c # cs) [byte 0xE2, byte 0x84, byte 0xAA] then CHR ''K'' # fold_name (drop 2 cs)
      else upper c # fold_name cs)"

text \<open>A field: its tag and how a JSON value is stored in it, None for a type mismatch.\<close>

type_synonym 'a field = "string \<times> (json \<Rightarrow> 'a \<Rightarrow> 'a option)"

definition field_for :: "'a field list \<Rightarrow> string \<Rightarrow> (json \<Rightarrow> 'a \<Rightarrow> 'a option) option" where
  "field_for fs k =
     (case map_of fs k of
        Some f \<Rightarrow> Some f
      | None \<Rightarrow> map_option snd (List.find (\<lambda>(n, _). fold_name n = fold_name k) fs))"

fun set_fields :: "'a field list \<Rightarrow> (string \<times> json) list \<Rightarrow> 'a \<Rightarrow> bool \<Rightarrow> 'a \<times> bool" where
  "set_fields fs [] x ok = (x, ok)"
| "set_fields fs ((k, v) # ms) x ok =
     (case field_for fs k of
        None \<Rightarrow> set_fields fs ms x ok
      | Some f \<Rightarrow>
          (case f v x of
             None \<Rightarrow> set_fields fs ms x False
           | Some x' \<Rightarrow> set_fields fs ms x' ok))"

definition unmarshal_struct :: "'a field list \<Rightarrow> 'a \<Rightarrow> bytes \<Rightarrow> 'a outcome" where
  "unmarshal_struct fs x bs =
     (case json_parse bs of
        None \<Rightarrow> Fail (Plain ''invalid character'')
      | Some JNull \<Rightarrow> Ok x
      | Some (JObj ms) \<Rightarrow>
          (case set_fields fs ms x True of
             (x', ok) \<Rightarrow> if ok then Ok x' else Fail (Plain ''json: cannot unmarshal value''))
      | Some _ \<Rightarrow> Fail (Plain ''json: cannot unmarshal value''))"

section \<open>Field kinds\<close>

fun str_field :: "(string \<Rightarrow> 'a \<Rightarrow> 'a) \<Rightarrow> json \<Rightarrow> 'a \<Rightarrow> 'a option" where
  "str_field upd (JStr s) x = Some (upd s x)"
| "str_field upd JNull x = Some x"
| "str_field upd _ x = None"

fun bool_field :: "(bool \<Rightarrow> 'a \<Rightarrow> 'a) \<Rightarrow> json \<Rightarrow> 'a \<Rightarrow> 'a option" where
  "bool_field upd (JBool b) x = Some (upd b x)"
| "bool_field upd JNull x = Some x"
| "bool_field upd _ x = None"

text \<open>An integer field of the range \<open>lo..hi\<close>: a literal out of range is a mismatch.\<close>

fun int_field :: "int \<Rightarrow> int \<Rightarrow> (int \<Rightarrow> 'a \<Rightarrow> 'a) \<Rightarrow> json \<Rightarrow> 'a \<Rightarrow> 'a option" where
  "int_field lo hi upd (JNum t) x =
     (case int_of_literal t of
        None \<Rightarrow> None
      | Some i \<Rightarrow> if lo \<le> i \<and> i \<le> hi then Some (upd i x) else None)"
| "int_field lo hi upd JNull x = Some x"
| "int_field lo hi upd _ x = None"

definition uint32_field :: "(uint32 \<Rightarrow> 'a \<Rightarrow> 'a) \<Rightarrow> json \<Rightarrow> 'a \<Rightarrow> 'a option" where
  "uint32_field upd = int_field 0 4294967295 (\<lambda>i. upd (of_int i))"

definition int64_field :: "(int64 \<Rightarrow> 'a \<Rightarrow> 'a) \<Rightarrow> json \<Rightarrow> 'a \<Rightarrow> 'a option" where
  "int64_field upd = int_field (-9223372036854775808) 9223372036854775807 (\<lambda>i. upd (of_int i))"

section \<open>Reading what the encoder wrote\<close>

lemma ascii_valid: "list_all (\<lambda>c. (of_char c :: nat) < 0x80) s \<Longrightarrow> valid_utf8 s"
proof (induction s rule: valid_utf8.induct)
  case 1
  show ?case by simp
next
  case (2 c cs)
  then have "lead_len c = 1" by (simp add: lead_len_def in_range_def)
  then have "rune_len (c # cs) = Suc 0" by (simp add: rune_len.simps)
  with 2 show ?case by simp
qed

text \<open>Every member of the encoded object has a field, and the fields take the values in turn.\<close>

lemma uint32_field_literal [simp]: "uint32_field upd (JNum (dec_of_int (uint i))) x = Some (upd i x)"
proof -
  have "uint i \<le> 4294967295"
    using unsigned_less [of i, where ?'a = int] by simp
  then show ?thesis by (simp add: uint32_field_def int_of_dec_of_int)
qed

lemma int64_field_literal [simp]: "int64_field upd (JNum (dec_of_int (sint i))) x = Some (upd i x)"
proof -
  have "- 9223372036854775808 \<le> sint i" "sint i \<le> 9223372036854775807"
    using sint_range_size [of i] by (simp_all add: word_size)
  then show ?thesis by (simp add: int64_field_def int_of_dec_of_int)
qed

lemma unmarshal_object:
  assumes "set_fields fs (object_json kvs) x True = (x', True)"
  shows "unmarshal_struct fs x (object_text kvs) = Ok x'"
  using assms by (simp add: unmarshal_struct_def json_parse_object)

end
