(* ===== verification/FeeXPub.thy ===== *)
theory FeeXPub
  imports TicketStore JsonStruct
begin

text \<open>
  \<open>database/feexpub.go\<close>: the extended public keys fees are paid to. The keys are stored as JSON
  records under their id; the active one has the highest id. The interface \<open>xpub_store\<close>
  states what rotation and index updates do to the history of keys.
\<close>

section \<open>Records\<close>

record feexpub =
  xID :: uint32
  xKey :: string
  xLastUsedIdx :: uint32
  xRetired :: int64

definition zeroXPub :: feexpub where
  "zeroXPub = \<lparr>xID = 0, xKey = [], xLastUsedIdx = 0, xRetired = 0\<rparr>"

definition marshalXPub :: "feexpub \<Rightarrow> bytes" where
  "marshalXPub x = object_text
     [(''id'', LInt (uint (xID x))), (''key'', LStr (xKey x)),
      (''lastusedidx'', LInt (uint (xLastUsedIdx x))), (''retired'', LInt (sint (xRetired x)))]"

definition xpubFields :: "feexpub field list" where
  "xpubFields =
     [(''id'', uint32_field (\<lambda>i x. x\<lparr>xID := i\<rparr>)), (''key'', str_field (\<lambda>k x. x\<lparr>xKey := k\<rparr>)),
      (''lastusedidx'', uint32_field (\<lambda>i x. x\<lparr>xLastUsedIdx := i\<rparr>)),
      (''retired'', int64_field (\<lambda>i x. x\<lparr>xRetired := i\<rparr>))]"

definition unmarshalXPub :: "bytes \<Rightarrow> feexpub outcome" where
  "unmarshalXPub b = unmarshal_struct xpubFields zeroXPub b"

section \<open>Operations\<close>

definition insertFeeXPub :: "'s bolt \<Rightarrow> feexpub \<Rightarrow> 's \<Rightarrow> 's outcome" where
  "insertFeeXPub B xpub s =
     andThen (vspBkt B s) (\<lambda>vsp.
     andThen (wrapErr ''failed to get xpubbkt bucket'' (h_createIf B vsp xPubBktK s)) (\<lambda>(s', keyBkt).
     wrapErr ''could not store xpub'' (h_put B keyBkt (uint32ToBytes (xID xpub)) (marshalXPub xpub) s')))"

text \<open>The callback of the \<open>ForEach\<close> in \<open>AllXPubs\<close>; a nested bucket is visited with a nil value.\<close>

fun allXPubsLoop :: "(bytes \<times> entry) list \<Rightarrow> (uint32 \<times> feexpub) list \<Rightarrow> (uint32 \<times> feexpub) list outcome" where
  "allXPubsLoop [] xpubs = Ok xpubs"
| "allXPubsLoop ((k, e) # es) xpubs =
     andThen (wrapErr ''could not unmarshal xpub key''
       (unmarshalXPub (case e of Val v \<Rightarrow> v | Sub \<Rightarrow> []))) (\<lambda>xpub.
     andThen (bytesToUint32 (Some k)) (\<lambda>i.
     allXPubsLoop es (assign i xpub xpubs)))"

definition AllXPubs :: "'s bolt \<Rightarrow> 's \<Rightarrow> (uint32 \<times> feexpub) list outcome" where
  "AllXPubs B = db_view B (\<lambda>s.
     andThen (childBkt B xPubBktK s) (\<lambda>bkt.
     if bkt = None then Fail (Plain ''xpubbkt bucket doesn't exist'')
     else andThen (h_forEach B s bkt) (\<lambda>es.
       wrapErr ''error iterating over xpubbkt bucket'' (allXPubsLoop es []))))"

text \<open>The loop over the ids, in the order the map happens to be visited.\<close>

fun highestID :: "uint32 list \<Rightarrow> uint32 \<Rightarrow> uint32" where
  "highestID [] highest = highest"
| "highestID (i # ids) highest = highestID ids (if i > highest then i else highest)"

definition activeXPub :: "(uint32 \<times> feexpub) list \<Rightarrow> feexpub" where
  "activeXPub xpubs =
     (case map_of xpubs (highestID (map fst xpubs) 0) of Some x \<Rightarrow> x | None \<Rightarrow> zeroXPub)"

definition FeeXPub :: "'s bolt \<Rightarrow> 's \<Rightarrow> feexpub outcome" where
  "FeeXPub B s = andThen (AllXPubs B s) (\<lambda>xpubs. Ok (activeXPub xpubs))"

text \<open>\<open>now\<close> is \<open>time.Now().Unix()\<close>.\<close>

definition RetireXPub :: "'s bolt \<Rightarrow> int64 \<Rightarrow> string \<Rightarrow> 's \<Rightarrow> 's outcome" where
  "RetireXPub B now xpub s =
     andThen (AllXPubs B s) (\<lambda>xpubs.
     if list_ex (\<lambda>(_, x). xKey x = xpub) xpubs
     then Fail (Plain ''provided xpub has already been used'')
     else andThen (FeeXPub B s) (\<lambda>cur.
       let current = cur\<lparr>xRetired := now\<rparr> in
       db_update B (\<lambda>s.
         andThen (insertFeeXPub B current s) (\<lambda>s'.
         insertFeeXPub B
           \<lparr>xID = xID current + 1, xKey = xpub, xLastUsedIdx = 0, xRetired = 0\<rparr> s')) s))"

definition SetLastAddressIndex :: "'s bolt \<Rightarrow> uint32 \<Rightarrow> 's \<Rightarrow> 's outcome" where
  "SetLastAddressIndex B idx s =
     andThen (FeeXPub B s) (\<lambda>current. db_update B (insertFeeXPub B (current\<lparr>xLastUsedIdx := idx\<rparr>)) s)"

section \<open>The interface of the key store\<close>

locale xpub_store =
  fixes good :: "'b \<Rightarrow> bool"
    and inv :: "'b \<Rightarrow> 's \<Rightarrow> bool"
    and abs :: "'b \<Rightarrow> 's \<Rightarrow> uint32 \<Rightarrow> feexpub option"
    and active :: "'b \<Rightarrow> 's \<Rightarrow> feexpub outcome"
    and retire :: "'b \<Rightarrow> int64 \<Rightarrow> string \<Rightarrow> 's \<Rightarrow> 's outcome"
    and setIdx :: "'b \<Rightarrow> uint32 \<Rightarrow> 's \<Rightarrow> 's outcome"
  assumes abs_ID: "good B \<Longrightarrow> inv B s \<Longrightarrow> abs B s i = Some x \<Longrightarrow> xID x = i"
    and active_Ok: "good B \<Longrightarrow> inv B s \<Longrightarrow>
      \<exists>x. active B s = Ok x \<and> abs B s (xID x) = Some x \<and> (\<forall>i y. abs B s i = Some y \<longrightarrow> i \<le> xID x)"
    and retire_Ok: "good B \<Longrightarrow> inv B s \<Longrightarrow> valid_utf8 k \<Longrightarrow> active B s = Ok x \<Longrightarrow>
      retire B now k s = Ok s' \<Longrightarrow>
      inv B s' \<and> (\<forall>i y. abs B s i = Some y \<longrightarrow> xKey y \<noteq> k) \<and>
      abs B s' = (abs B s)(xID x \<mapsto> x\<lparr>xRetired := now\<rparr>,
        xID x + 1 \<mapsto> \<lparr>xID = xID x + 1, xKey = k, xLastUsedIdx = 0, xRetired = 0\<rparr>)"
    and setIdx_Ok: "good B \<Longrightarrow> inv B s \<Longrightarrow> active B s = Ok x \<Longrightarrow> setIdx B idx s = Ok s' \<Longrightarrow>
      inv B s' \<and> abs B s' = (abs B s)(xID x \<mapsto> x\<lparr>xLastUsedIdx := idx\<rparr>)"
begin

lemma active_unique:
  assumes "good B" "inv B s" "abs B s (xID x) = Some x" "\<And>i y. abs B s i = Some y \<Longrightarrow> i \<le> xID x"
  shows "active B s = Ok x"
proof -
  obtain x' where x': "active B s = Ok x'" "abs B s (xID x') = Some x'"
      "\<And>i y. abs B s i = Some y \<Longrightarrow> i \<le> xID x'"
    using active_Ok [OF assms(1,2)] by blast
  from x'(3) [OF assms(3)] assms(4) [OF x'(2)] have "xID x = xID x'" by simp
  with x' assms(3) show ?thesis by simp
qed

text \<open>After a rotation the new key is active, and the old one is kept, marked retired.\<close>

lemma retire_active:
  assumes "good B" "inv B s" "valid_utf8 k" "active B s = Ok x" "retire B now k s = Ok s'"
    "xID x < xID x + 1"
  shows "active B s' = Ok \<lparr>xID = xID x + 1, xKey = k, xLastUsedIdx = 0, xRetired = 0\<rparr>"
    and "abs B s' (xID x) = Some (x\<lparr>xRetired := now\<rparr>)"
    and "\<And>i. i \<noteq> xID x \<Longrightarrow> abs B s i \<noteq> None \<Longrightarrow> abs B s' i = abs B s i"
proof -
  note r = retire_Ok [OF assms(1-5)]
  have top: "i \<le> xID x" if "abs B s i = Some y" for i y
    using active_Ok [OF assms(1,2)] assms(4) that by auto
  show "active B s' = Ok \<lparr>xID = xID x + 1, xKey = k, xLastUsedIdx = 0, xRetired = 0\<rparr>"
  proof (rule active_unique)
    show "good B" "inv B s'" using assms(1) r by simp_all
    show "i \<le> xID \<lparr>xID = xID x + 1, xKey = k, xLastUsedIdx = 0, xRetired = 0\<rparr>"
      if "abs B s' i = Some y" for i y
      using that r top [of i] assms(6) by (auto split: if_splits)
  qed (use r in simp)
  show "abs B s' (xID x) = Some (x\<lparr>xRetired := now\<rparr>)"
    using r assms(6) by auto
  show "abs B s' i = abs B s i" if "i \<noteq> xID x" "abs B s i \<noteq> None" for i
    using that r top [of i] assms(6) by auto
qed

text \<open>No two ids ever share a key.\<close>

lemma retire_keys_distinct:
  assumes "good B" "inv B s" "valid_utf8 k" "active B s = Ok x" "retire B now k s = Ok s'"
    "xID x < xID x + 1"
    and "\<And>i j y z. abs B s i = Some y \<Longrightarrow> abs B s j = Some z \<Longrightarrow> xKey y = xKey z \<Longrightarrow> i = j"
    and "abs B s' i = Some y" "abs B s' j = Some z" "xKey y = xKey z"
  shows "i = j"
proof -
  have x: "abs B s (xID x) = Some x"
    using active_Ok [OF assms(1,2)] assms(4) by auto
  note r = retire_Ok [OF assms(1-5)]
  have old: "\<exists>u. abs B s l = Some u \<and> xKey u = xKey v \<and> xKey u \<noteq> k"
    if "abs B s' l = Some v" "l \<noteq> xID x + 1" for l v
    using r that x by (cases "l = xID x") auto
  have new: "xKey v = k" if "abs B s' (xID x + 1) = Some v" for v
    using r that by auto
  show ?thesis
  proof (cases "i = xID x + 1 \<or> j = xID x + 1")
    case True
    then show ?thesis using new old assms(8-10) by metis
  next
    case False
    then show ?thesis using old [of i y] old [of j z] assms(7-10) by metis
  qed
qed

lemma setIdx_active:
  assumes "good B" "inv B s" "active B s = Ok x" "setIdx B idx s = Ok s'"
  shows "active B s' = Ok (x\<lparr>xLastUsedIdx := idx\<rparr>)"
proof (rule active_unique)
  note r = setIdx_Ok [OF assms]
  show "good B" "inv B s'" using assms(1) r by simp_all
  show "abs B s' (xID (x\<lparr>xLastUsedIdx := idx\<rparr>)) = Some (x\<lparr>xLastUsedIdx := idx\<rparr>)"
    using r by simp
  show "i \<le> xID (x\<lparr>xLastUsedIdx := idx\<rparr>)" if "abs B s' i = Some y" for i y
    using that r active_Ok [OF assms(1,2)] assms(3) by (auto split: if_splits)
qed

end

section \<open>The xpub bucket\<close>

definition xpubPath :: path where
  "xpubPath = [vspBktK, xPubBktK]"

definition storedXPub :: "feexpub \<Rightarrow> bytes \<times> entry" where
  "storedXPub x = (uint32ToBytes (xID x), Val (marshalXPub x))"

text \<open>Every entry is the record of a key, under its id, and there is one at least.\<close>

definition xpubs_wf :: "'s bolt \<Rightarrow> 's \<Rightarrow> bool" where
  "xpubs_wf B s \<longleftrightarrow> buckets_ok B s \<and> (\<exists>k. ents B s xpubPath k \<noteq> None) \<and>
     (\<forall>k e. ents B s xpubPath k = Some e \<longrightarrow> (\<exists>x. (k, e) = storedXPub x \<and> valid_utf8 (xKey x)))"

definition xpubs :: "'s bolt \<Rightarrow> 's \<Rightarrow> uint32 \<Rightarrow> feexpub option" where
  "xpubs B s i =
     (case ents B s xpubPath (uint32ToBytes i) of
        Some (Val v) \<Rightarrow> (case unmarshalXPub v of Ok x \<Rightarrow> Some x | _ \<Rightarrow> None)
      | _ \<Rightarrow> None)"

lemma marshal_roundtrip: "valid_utf8 (xKey x) \<Longrightarrow> unmarshalXPub (marshalXPub x) = Ok x"
proof -
  assume "valid_utf8 (xKey x)"
  then have key: "sanitize (xKey x) = xKey x" by (rule sanitize_valid)
  have names: "sanitize ''id'' = ''id''" "sanitize ''key'' = ''key''"
    "sanitize ''lastusedidx'' = ''lastusedidx''" "sanitize ''retired'' = ''retired''"
    by (rule sanitize_valid, rule ascii_valid, simp)+
  show ?thesis
    unfolding unmarshalXPub_def marshalXPub_def
    by (rule unmarshal_object, simp add: object_json_def names key)
       (simp add: xpubFields_def field_for_def zeroXPub_def)
qed

lemma xpubs_stored: "ents B s xpubPath (uint32ToBytes i) = Some (Val (marshalXPub x))
    \<Longrightarrow> valid_utf8 (xKey x) \<Longrightarrow> xpubs B s i = Some x"
  by (simp add: xpubs_def marshal_roundtrip)

lemma allXPubsLoop_stored:
  "\<forall>x \<in> set xs. valid_utf8 (xKey x) \<Longrightarrow>
   allXPubsLoop (map storedXPub xs) acc = Ok (foldl (\<lambda>a x. assign (xID x) x a) acc xs)"
  by (induction xs arbitrary: acc) (simp_all add: storedXPub_def marshal_roundtrip)

lemma foldl_assign_fresh:
  "distinct (map xID xs) \<Longrightarrow> xID ` set xs \<inter> fst ` set acc = {} \<Longrightarrow>
   foldl (\<lambda>a x. assign (xID x) x a) acc xs = acc @ map (\<lambda>x. (xID x, x)) xs"
proof (induction xs arbitrary: acc)
  case Nil
  then show ?case by simp
next
  case (Cons x xs)
  have "assign (xID x) x acc = acc @ [(xID x, x)]"
    using Cons.prems by (intro assign_fresh) auto
  with Cons show ?case by auto
qed

text \<open>Reading the bucket gives its keys as a map from ids.\<close>

lemma AllXPubs_list:
  assumes B: "bolt_ok B" and disk: "disk_ok B" and wf: "xpubs_wf B s"
  obtains xs where "AllXPubs B s = Ok (map (\<lambda>x. (xID x, x)) xs)" "distinct (map xID xs)" "xs \<noteq> []"
    "xpubs B s = map_of (map (\<lambda>x. (xID x, x)) xs)" "\<And>x. x \<in> set xs \<Longrightarrow> valid_utf8 (xKey x)"
proof -
  let ?es = "bk_forEach B s xpubPath"
  note d = forEach_distinct [OF B, of s xpubPath]
  have ent: "ents B s xpubPath k = Some e \<longleftrightarrow> (k, e) \<in> set ?es" for k e
    using d by (simp add: ents_def)
  have "\<forall>ke \<in> set ?es. \<exists>x. ke = storedXPub x \<and> valid_utf8 (xKey x)"
    using wf by (auto simp: xpubs_wf_def ent)
  then obtain f where f: "\<And>ke. ke \<in> set ?es \<Longrightarrow> ke = storedXPub (f ke) \<and> valid_utf8 (xKey (f ke))"
    by metis
  define xs where "xs = map f ?es"
  have es: "?es = map storedXPub xs"
    using f by (simp add: xs_def map_idI)
  have valid: "\<forall>x \<in> set xs. valid_utf8 (xKey x)"
    using f by (auto simp: xs_def)
  have "map fst ?es = map uint32ToBytes (map xID xs)"
    by (simp add: es storedXPub_def)
  with d have ids: "distinct (map xID xs)" by (metis distinct_map)
  have "xs \<noteq> []"
    using wf es by (auto simp: xpubs_wf_def ents_def)
  moreover have "AllXPubs B s = Ok (map (\<lambda>x. (xID x, x)) xs)"
    using wf valid ids allXPubsLoop_stored [of xs "[]"] foldl_assign_fresh [of xs "[]"]
    by (simp add: AllXPubs_def disk_ok_view [OF disk] xpubs_wf_def buckets_ok_def childBkt_ok [OF B]
        es [unfolded xpubPath_def])
  moreover have "xpubs B s i = map_of (map (\<lambda>x. (xID x, x)) xs) i" for i
  proof (cases "\<exists>x \<in> set xs. xID x = i")
    case True
    then obtain x where x: "x \<in> set xs" "xID x = i" by blast
    then have "ents B s xpubPath (uint32ToBytes i) = Some (Val (marshalXPub x))"
      by (auto simp: ent es storedXPub_def)
    moreover have "map_of (map (\<lambda>x. (xID x, x)) xs) i = Some x"
      using x ids by (intro map_of_is_SomeI) (auto simp: comp_def)
    ultimately show ?thesis using x valid by (simp add: xpubs_stored)
  next
    case False
    then have "map_of (map (\<lambda>x. (xID x, x)) xs) i = None"
      by (force simp: map_of_eq_None_iff)
    moreover have "ents B s xpubPath (uint32ToBytes i) = None"
      using False by (auto simp: ents_def es storedXPub_def map_of_eq_None_iff)
    ultimately show ?thesis by (simp add: xpubs_def)
  qed
  ultimately show ?thesis
    using that ids valid by (auto simp: fun_eq_iff)
qed

lemma highestID_Max: "highestID ids h = Max (insert h (set ids))"
proof (induction ids arbitrary: h)
  case Nil
  show ?case by simp
next
  case (Cons i ids)
  then show ?case
    by (cases "ids = []") (auto simp: max_def Max_insert insert_commute [of h i])
qed

lemma FeeXPub_Ok:
  assumes "bolt_ok B" "disk_ok B" "xpubs_wf B s"
  obtains x where "FeeXPub B s = Ok x" "xpubs B s (xID x) = Some x" "valid_utf8 (xKey x)"
    "\<And>i y. xpubs B s i = Some y \<Longrightarrow> i \<le> xID x \<and> xID y = i \<and> valid_utf8 (xKey y)"
proof -
  obtain xs where xs: "AllXPubs B s = Ok (map (\<lambda>x. (xID x, x)) xs)" "distinct (map xID xs)" "xs \<noteq> []"
      "xpubs B s = map_of (map (\<lambda>x. (xID x, x)) xs)" "\<And>x. x \<in> set xs \<Longrightarrow> valid_utf8 (xKey x)"
    using AllXPubs_list [OF assms] by blast
  let ?h = "Max (insert 0 (xID ` set xs))"
  have "?h = Max (xID ` set xs)"
    using xs(3) by (simp add: max_def)
  then have "?h \<in> xID ` set xs"
    using xs(3) by (metis List.finite_set Max_in finite_imageI image_is_empty set_empty)
  then obtain x where x: "x \<in> set xs" "xID x = ?h" by auto
  then have look: "xpubs B s ?h = Some x"
    unfolding xs(4) using xs(2) by (intro map_of_is_SomeI) (auto simp: comp_def image_iff)
  have active: "FeeXPub B s = Ok x"
    using look by (simp add: FeeXPub_def xs(1) activeXPub_def highestID_Max comp_def xs(4) image_image)
  have all: "i \<le> xID x \<and> xID y = i \<and> valid_utf8 (xKey y)" if "xpubs B s i = Some y" for i y
    using that xs(5) x unfolding xs(4) by (auto dest!: map_of_SomeD)
  show ?thesis
  proof (rule that [OF active])
    show "xpubs B s (xID x) = Some x" using look x(2) by metis
    show "valid_utf8 (xKey x)" using x(1) by (rule xs(5))
  qed (rule all)
qed

lemma insertFeeXPub_Ok:
  assumes B: "bolt_ok B" and wf: "xpubs_wf B s" and x: "valid_utf8 (xKey x)"
    and Ok: "insertFeeXPub B x s = Ok s'"
  shows "xpubs_wf B s' \<and> xpubs B s' = (xpubs B s)(xID x \<mapsto> x) \<and> (\<forall>q. q \<noteq> xpubPath \<longrightarrow> ents B s' q = ents B s q)"
proof -
  have put: "bk_put B s xpubPath (uint32ToBytes (xID x)) (marshalXPub x) = Ok s'"
    using Ok wf by (auto simp: insertFeeXPub_def vspBkt_def bucket_ents [OF B] createIf_eq [OF B]
        xpubs_wf_def buckets_ok_def outcome_simps xpubPath_def)
  note e = put_ents [OF B put]
  have "xpubs_wf B s'"
    using wf x by (auto simp: xpubs_wf_def buckets_ok_def e xpubPath_def storedXPub_def)
  moreover have "xpubs B s' i = ((xpubs B s)(xID x \<mapsto> x)) i" for i
  proof (cases "i = xID x")
    case True
    with x show ?thesis by (simp add: xpubs_stored e)
  next
    case False
    then show ?thesis by (simp add: xpubs_def e)
  qed
  ultimately show ?thesis by (simp add: e fun_eq_iff)
qed

lemma RetireXPub_Ok:
  assumes B: "bolt_ok B" and disk: "disk_ok B" and wf: "xpubs_wf B s" and k: "valid_utf8 k"
    and act: "FeeXPub B s = Ok x" and Ok: "RetireXPub B now k s = Ok s'"
  shows "xpubs_wf B s' \<and> (\<forall>i y. xpubs B s i = Some y \<longrightarrow> xKey y \<noteq> k) \<and>
    xpubs B s' = (xpubs B s)(xID x \<mapsto> x\<lparr>xRetired := now\<rparr>,
      xID x + 1 \<mapsto> \<lparr>xID = xID x + 1, xKey = k, xLastUsedIdx = 0, xRetired = 0\<rparr>) \<and>
    (\<forall>q. q \<noteq> xpubPath \<longrightarrow> ents B s' q = ents B s q)"
proof -
  let ?new = "\<lparr>xID = xID x + 1, xKey = k, xLastUsedIdx = 0, xRetired = 0\<rparr>"
  obtain xs where xs: "AllXPubs B s = Ok (map (\<lambda>x. (xID x, x)) xs)"
      "xpubs B s = map_of (map (\<lambda>x. (xID x, x)) xs)"
    by (rule AllXPubs_list [OF B disk wf])
  from Ok xs(1) have unused: "\<forall>y \<in> set xs. xKey y \<noteq> k"
    by (auto simp: RetireXPub_def list_ex_iff split: if_splits)
  from Ok xs(1) act have "andThen (insertFeeXPub B (x\<lparr>xRetired := now\<rparr>) s) (insertFeeXPub B ?new) = Ok s'"
    by (auto simp: RetireXPub_def Let_def disk_ok_update [OF disk] split: if_splits)
  then obtain s1 where s1: "insertFeeXPub B (x\<lparr>xRetired := now\<rparr>) s = Ok s1" "insertFeeXPub B ?new s1 = Ok s'"
    by (auto simp: outcome_simps)
  have "valid_utf8 (xKey x)"
    by (rule FeeXPub_Ok [OF B disk wf]) (metis act outcome.inject(1))
  then have r1: "xpubs_wf B s1 \<and> xpubs B s1 = (xpubs B s)(xID x \<mapsto> x\<lparr>xRetired := now\<rparr>) \<and>
      (\<forall>q. q \<noteq> xpubPath \<longrightarrow> ents B s1 q = ents B s q)"
    using insertFeeXPub_Ok [OF B wf _ s1(1)] by simp
  then have r2: "xpubs_wf B s' \<and> xpubs B s' = (xpubs B s1)(xID x + 1 \<mapsto> ?new) \<and>
      (\<forall>q. q \<noteq> xpubPath \<longrightarrow> ents B s' q = ents B s1 q)"
    using insertFeeXPub_Ok [OF B _ _ s1(2)] k by simp
  have fresh: "\<forall>i y. xpubs B s i = Some y \<longrightarrow> xKey y \<noteq> k"
    using unused unfolding xs(2) by (auto dest!: map_of_SomeD)
  have "xpubs B s' = (xpubs B s1)(xID x + 1 \<mapsto> ?new)" using r2 by blast
  also have "xpubs B s1 = (xpubs B s)(xID x \<mapsto> x\<lparr>xRetired := now\<rparr>)" using r1 by blast
  finally show ?thesis using r1 r2 fresh by (metis (no_types, lifting))
qed

lemma SetLastAddressIndex_Ok:
  assumes B: "bolt_ok B" and disk: "disk_ok B" and wf: "xpubs_wf B s"
    and act: "FeeXPub B s = Ok x" and Ok: "SetLastAddressIndex B idx s = Ok s'"
  shows "xpubs_wf B s' \<and> xpubs B s' = (xpubs B s)(xID x \<mapsto> x\<lparr>xLastUsedIdx := idx\<rparr>) \<and>
    (\<forall>q. q \<noteq> xpubPath \<longrightarrow> ents B s' q = ents B s q)"
proof -
  have "insertFeeXPub B (x\<lparr>xLastUsedIdx := idx\<rparr>) s = Ok s'"
    using Ok act by (simp add: SetLastAddressIndex_def disk_ok_update [OF disk])
  moreover have "valid_utf8 (xKey x)"
    using FeeXPub_Ok [OF B disk wf] act by (metis outcome.inject(1))
  ultimately show ?thesis
    using insertFeeXPub_Ok [OF B wf, of "x\<lparr>xLastUsedIdx := idx\<rparr>"] by simp
qed

definition bolt_disk :: "'s bolt \<Rightarrow> bool" where
  "bolt_disk B \<longleftrightarrow> bolt_ok B \<and> disk_ok B"

interpretation xdb: xpub_store bolt_disk xpubs_wf xpubs FeeXPub RetireXPub SetLastAddressIndex
proof unfold_locales
  fix B :: "'s bolt" and s i x
  assume a: "bolt_disk B" "xpubs_wf B s" "xpubs B s i = Some x"
  have "bolt_ok B" "disk_ok B" using a(1) by (auto simp: bolt_disk_def)
  then show "xID x = i"
    by (rule FeeXPub_Ok [OF _ _ a(2)]) (use a(3) in blast)
next
  fix B :: "'s bolt" and s
  assume a: "bolt_disk B" "xpubs_wf B s"
  have "bolt_ok B" "disk_ok B" using a(1) by (auto simp: bolt_disk_def)
  then show "\<exists>x. FeeXPub B s = Ok x \<and> xpubs B s (xID x) = Some x \<and>
      (\<forall>i y. xpubs B s i = Some y \<longrightarrow> i \<le> xID x)"
    by (rule FeeXPub_Ok [OF _ _ a(2)]) blast
next
  fix B :: "'s bolt" and s k x now s'
  assume "bolt_disk B" "xpubs_wf B s" "valid_utf8 k" "FeeXPub B s = Ok x" "RetireXPub B now k s = Ok s'"
  then show "xpubs_wf B s' \<and> (\<forall>i y. xpubs B s i = Some y \<longrightarrow> xKey y \<noteq> k) \<and>
      xpubs B s' = (xpubs B s)(xID x \<mapsto> x\<lparr>xRetired := now\<rparr>,
        xID x + 1 \<mapsto> \<lparr>xID = xID x + 1, xKey = k, xLastUsedIdx = 0, xRetired = 0\<rparr>)"
    using RetireXPub_Ok unfolding bolt_disk_def by metis
next
  fix B :: "'s bolt" and s x idx s'
  assume "bolt_disk B" "xpubs_wf B s" "FeeXPub B s = Ok x" "SetLastAddressIndex B idx s = Ok s'"
  then show "xpubs_wf B s' \<and> xpubs B s' = (xpubs B s)(xID x \<mapsto> x\<lparr>xLastUsedIdx := idx\<rparr>)"
    using SetLastAddressIndex_Ok unfolding bolt_disk_def by metis
qed

end
