(* ===== verification/VoteChange.thy ===== *)
theory VoteChange
  imports TicketStore JsonStruct
begin

text \<open>
  \<open>database/votechange.go\<close>: the bounded log of vote change requests of a ticket. Records have
  serial \<open>uint32\<close> keys; when the log is full the oldest record makes room for the new one. The
  interface \<open>vote_log\<close> states this as a list of the most recent records, oldest first.
\<close>

section \<open>Records\<close>

record votechange =
  vcRequest :: string
  vcRequestSignature :: string
  vcResponse :: string
  vcResponseSignature :: string

definition zeroVoteChange :: votechange where
  "zeroVoteChange = \<lparr>vcRequest = [], vcRequestSignature = [], vcResponse = [], vcResponseSignature = []\<rparr>"

definition marshalVoteChange :: "votechange \<Rightarrow> bytes" where
  "marshalVoteChange r = object_text
     [(''req'', LStr (vcRequest r)), (''reqs'', LStr (vcRequestSignature r)),
      (''rsp'', LStr (vcResponse r)), (''rsps'', LStr (vcResponseSignature r))]"

definition voteChangeFields :: "votechange field list" where
  "voteChangeFields =
     [(''req'', str_field (\<lambda>v r. r\<lparr>vcRequest := v\<rparr>)),
      (''reqs'', str_field (\<lambda>v r. r\<lparr>vcRequestSignature := v\<rparr>)),
      (''rsp'', str_field (\<lambda>v r. r\<lparr>vcResponse := v\<rparr>)),
      (''rsps'', str_field (\<lambda>v r. r\<lparr>vcResponseSignature := v\<rparr>))]"

definition unmarshalVoteChange :: "bytes \<Rightarrow> votechange outcome" where
  "unmarshalVoteChange b = unmarshal_struct voteChangeFields zeroVoteChange b"

section \<open>Operations\<close>

text \<open>The counting \<open>ForEach\<close> of \<open>SaveVoteChange\<close>: number of records, newest and oldest key.\<close>

fun scanKeys :: "(bytes \<times> entry) list \<Rightarrow> int \<times> uint32 \<times> uint32 \<Rightarrow> (int \<times> uint32 \<times> uint32) outcome" where
  "scanKeys [] acc = Ok acc"
| "scanKeys ((k, v) # es) (count, newest, oldest) =
     andThen (bytesToUint32 (Some k)) (\<lambda>key.
     scanKeys es (count + 1, if key > newest then key else newest, if key < oldest then key else oldest))"

text \<open>\<open>maxRecords\<close> is \<open>vdb.maxVoteChangeRecords\<close>; -1 as a \<open>uint32\<close> is \<open>math.MaxUint32\<close>.\<close>

definition SaveVoteChange :: "'s bolt \<Rightarrow> int \<Rightarrow> string \<Rightarrow> votechange \<Rightarrow> 's \<Rightarrow> 's outcome" where
  "SaveVoteChange B maxRecords ticketHash rec = db_update B (\<lambda>s.
     andThen (childBkt B voteChangeBktK s) (\<lambda>vcBkt.
     andThen (wrapErr ''failed to create vote change bucket'' (h_createIf B vcBkt ticketHash s)) (\<lambda>(s1, bkt).
     andThen (h_forEach B s1 bkt) (\<lambda>es.
     andThen (wrapErr ''error iterating over vote change bucket'' (scanKeys es (0, 0, -1)))
       (\<lambda>(count, newest, oldest).
     andThen (if count \<ge> maxRecords
              then wrapErr ''failed to delete old vote change record''
                     (h_delete B bkt (uint32ToBytes oldest) s1)
              else Ok s1) (\<lambda>s2.
     let newKey = (if count > 0 then newest + 1 else 0) in
     wrapErr ''could not store vote change record''
       (h_put B bkt (uint32ToBytes newKey) (marshalVoteChange rec) s2)))))))"

fun voteChangesLoop :: "(bytes \<times> entry) list \<Rightarrow> (uint32 \<times> votechange) list \<Rightarrow> (uint32 \<times> votechange) list outcome" where
  "voteChangesLoop [] records = Ok records"
| "voteChangesLoop ((k, e) # es) records =
     andThen (wrapErr ''could not unmarshal vote change record''
       (unmarshalVoteChange (case e of Val v \<Rightarrow> v | Sub \<Rightarrow> []))) (\<lambda>r.
     andThen (bytesToUint32 (Some k)) (\<lambda>i.
     voteChangesLoop es (assign i r records)))"

definition GetVoteChanges :: "'s bolt \<Rightarrow> string \<Rightarrow> 's \<Rightarrow> (uint32 \<times> votechange) list outcome" where
  "GetVoteChanges B ticketHash = db_view B (\<lambda>s.
     andThen (childBkt B voteChangeBktK s) (\<lambda>vcBkt.
     andThen (h_bucket B s vcBkt ticketHash) (\<lambda>bkt.
     if bkt = None then Ok []
     else andThen (h_forEach B s bkt) (\<lambda>es.
       wrapErr ''error iterating over vote change bucket'' (voteChangesLoop es [])))))"

section \<open>The interface of the log\<close>

text \<open>The last \<open>n\<close> elements of a list.\<close>

definition lastn :: "nat \<Rightarrow> 'a list \<Rightarrow> 'a list" where
  "lastn n xs = drop (length xs - n) xs"

lemma lastn_lastn_append: "lastn n (lastn n xs @ ys) = lastn n (xs @ ys)"
proof (cases "n \<le> length xs")
  case True
  then have "length xs + length ys - n = (length xs - n) + length ys" by simp
  with True show ?thesis by (simp add: lastn_def add.commute)
next
  case False
  then show ?thesis by (simp add: lastn_def)
qed

text \<open>
  \<open>hist\<close> is the log of a ticket, \<open>room B s h\<close> says that serial keys are left, \<open>norm\<close> is the
  record as it is read back.
\<close>

locale vote_log =
  fixes good :: "'b \<Rightarrow> bool"
    and inv :: "'b \<Rightarrow> 's \<Rightarrow> bool"
    and hist :: "'b \<Rightarrow> 's \<Rightarrow> string \<Rightarrow> 'r list"
    and serial :: "'b \<Rightarrow> 's \<Rightarrow> string \<Rightarrow> nat"
    and norm :: "'r \<Rightarrow> 'r"
    and save :: "'b \<Rightarrow> int \<Rightarrow> string \<Rightarrow> 'r \<Rightarrow> 's \<Rightarrow> 's outcome"
  assumes save_Ok: "good B \<Longrightarrow> inv B s \<Longrightarrow> serial B s h < 2 ^ 32 \<Longrightarrow> save B (int n) h r s = Ok s' \<Longrightarrow>
      inv B s' \<and> serial B s' h = Suc (serial B s h) \<and>
      hist B s' h = (if n \<le> length (hist B s h) then tl (hist B s h) else hist B s h) @ [norm r] \<and>
      (\<forall>h'. h' \<noteq> h \<longrightarrow> hist B s' h' = hist B s h' \<and> serial B s' h' = serial B s h')"
begin

lemma save_lastn:
  assumes "good B" "inv B s" "serial B s h < 2 ^ 32" "save B (int n) h r s = Ok s'"
    "1 \<le> n" "length (hist B s h) \<le> n"
  shows "hist B s' h = lastn n (hist B s h @ [norm r])"
  using save_Ok [OF assms(1-4)] assms(5,6)
  by (cases "hist B s h") (auto simp: lastn_def)

text \<open>After any run of saves the log holds exactly the \<open>n\<close> most recent records.\<close>

lemma saves_lastn:
  assumes "good B" "inv B s" "serial B s h + length rs \<le> 2 ^ 32" "runAll (save B (int n) h) rs s = Ok s'"
    "1 \<le> n" "length (hist B s h) \<le> n"
  shows "inv B s' \<and> hist B s' h = lastn n (hist B s h @ map norm rs) \<and>
    (\<forall>h'. h' \<noteq> h \<longrightarrow> hist B s' h' = hist B s h')"
  using assms
proof (induction rs arbitrary: s)
  case Nil
  then show ?case by (simp add: lastn_def)
next
  case (Cons r rs)
  from Cons.prems(4) obtain s1 where s1: "save B (int n) h r s = Ok s1" "runAll (save B (int n) h) rs s1 = Ok s'"
    by (auto simp: outcome_simps)
  have ser: "serial B s h < 2 ^ 32" using Cons.prems(3) by simp
  note step = save_Ok [OF Cons.prems(1,2) ser s1(1)]
  have l1: "hist B s1 h = lastn n (hist B s h @ [norm r])"
    using save_lastn Cons.prems ser s1(1) by blast
  have rest: "inv B s' \<and> hist B s' h = lastn n (hist B s1 h @ map norm rs) \<and>
      (\<forall>h'. h' \<noteq> h \<longrightarrow> hist B s' h' = hist B s1 h')"
    using step l1 Cons.prems s1(2) by (intro Cons.IH) (auto simp: lastn_def)
  have "hist B s' h = lastn n (lastn n (hist B s h @ [norm r]) @ map norm rs)"
    using rest unfolding l1 by simp
  then have "hist B s' h = lastn n (hist B s h @ map norm (r # rs))"
    by (simp add: lastn_lastn_append)
  with rest step show ?case by simp
qed

end

section \<open>The vote change bucket\<close>

definition vcBktPath :: path where
  "vcBktPath = [vspBktK, voteChangeBktK]"

text \<open>A record as \<open>GetVoteChanges\<close> reads it back: invalid UTF-8 is replaced by the encoder.\<close>

definition normVC :: "votechange \<Rightarrow> votechange" where
  "normVC r = \<lparr>vcRequest = sanitize (vcRequest r), vcRequestSignature = sanitize (vcRequestSignature r),
     vcResponse = sanitize (vcResponse r), vcResponseSignature = sanitize (vcResponseSignature r)\<rparr>"

lemma unmarshal_marshal_VC: "unmarshalVoteChange (marshalVoteChange r) = Ok (normVC r)"
proof -
  have names: "sanitize ''req'' = ''req''" "sanitize ''reqs'' = ''reqs''"
    "sanitize ''rsp'' = ''rsp''" "sanitize ''rsps'' = ''rsps''"
    by (rule sanitize_valid, rule ascii_valid, simp)+
  show ?thesis
    unfolding unmarshalVoteChange_def marshalVoteChange_def
    by (rule unmarshal_object, simp add: object_json_def names)
       (simp add: voteChangeFields_def field_for_def zeroVoteChange_def normVC_def)
qed

definition votes_wf :: "'s bolt \<Rightarrow> 's \<Rightarrow> bool" where
  "votes_wf B s \<longleftrightarrow> buckets_ok B s \<and> (\<forall>h v. ents B s vcBktPath h \<noteq> Some (Val v)) \<and>
     (\<forall>h k e. ents B s vcBktPath h = Some Sub \<and> ents B s (vcBktPath @ [h]) k = Some e \<longrightarrow>
        (\<exists>i r. k = uint32ToBytes i \<and> e = Val (marshalVoteChange r)))"

definition voteLog :: "'s bolt \<Rightarrow> 's \<Rightarrow> string \<Rightarrow> uint32 \<Rightarrow> votechange option" where
  "voteLog B s h i =
     (if ents B s vcBktPath h = Some Sub then
        (case ents B s (vcBktPath @ [h]) (uint32ToBytes i) of
           Some (Val v) \<Rightarrow> (case unmarshalVoteChange v of Ok r \<Rightarrow> Some r | _ \<Rightarrow> None)
         | _ \<Rightarrow> None)
      else None)"

definition voteHistory :: "'s bolt \<Rightarrow> 's \<Rightarrow> string \<Rightarrow> votechange list" where
  "voteHistory B s h = map (\<lambda>i. the (voteLog B s h i)) (sorted_list_of_set (dom (voteLog B s h)))"

definition nextSerial :: "'s bolt \<Rightarrow> 's \<Rightarrow> string \<Rightarrow> nat" where
  "nextSerial B s h =
     (if dom (voteLog B s h) = {} then 0 else Suc (unat (Max (dom (voteLog B s h)))))"

definition storedVC :: "uint32 \<times> votechange \<Rightarrow> bytes \<times> entry" where
  "storedVC = (\<lambda>(i, r). (uint32ToBytes i, Val (marshalVoteChange r)))"

lemma vc_entries:
  assumes B: "bolt_ok B" and p: "\<forall>k e. ents B s p k = Some e \<longrightarrow>
      (\<exists>i r. k = uint32ToBytes i \<and> e = Val (marshalVoteChange r))"
  obtains rs where "bk_forEach B s p = map storedVC rs" "distinct (map fst rs)"
proof -
  let ?es = "bk_forEach B s p"
  note d = forEach_distinct [OF B, of s p]
  have "\<exists>ir. ke = storedVC ir" if "ke \<in> set ?es" for ke
  proof -
    obtain k e where ke: "ke = (k, e)" by (cases ke)
    with that d have "ents B s p k = Some e" by (simp add: ents_def)
    with p obtain i r where "k = uint32ToBytes i" "e = Val (marshalVoteChange r)" by blast
    with ke have "ke = storedVC (i, r)" by (simp add: storedVC_def)
    then show ?thesis ..
  qed
  then obtain f where f: "\<And>ke. ke \<in> set ?es \<Longrightarrow> ke = storedVC (f ke)" by metis
  then have es: "?es = map storedVC (map f ?es)"
    by (simp add: map_idI)
  have "map fst ?es = map uint32ToBytes (map fst (map f ?es))"
    by (subst es) (simp add: storedVC_def case_prod_beta)
  with d have "distinct (map fst (map f ?es))" by (metis distinct_map)
  with es show ?thesis by (rule that)
qed

lemma map_of_storedVC:
  "map_of (map storedVC rs) (uint32ToBytes i) = map_option (\<lambda>r. Val (marshalVoteChange r)) (map_of rs i)"
  by (induction rs) (auto simp: storedVC_def)

lemma scanKeys_stored:
  "scanKeys (map storedVC rs) (c, hi, lo) =
    Ok (c + int (length rs), Max (insert hi (fst ` set rs)), Min (insert lo (fst ` set rs)))"
proof (induction rs arbitrary: c hi lo)
  case Nil
  show ?case by simp
next
  case (Cons ir rs)
  obtain i r where ir: "ir = (i, r)" by (cases ir)
  have hi: "Max (insert (if i > hi then i else hi) A) = Max (insert hi (insert i A))"
    and lo: "Min (insert (if i < lo then i else lo) A) = Min (insert lo (insert i A))"
    if "finite A" for A
    using that by (cases "A = {}"; auto simp: max_def min_def insert_commute)+
  show ?case
    by (simp add: ir storedVC_def hi lo Cons.IH [unfolded storedVC_def])
qed

lemma voteLog_entries:
  assumes "ents B s vcBktPath h = Some Sub" "bk_forEach B s (vcBktPath @ [h]) = map storedVC rs"
  shows "voteLog B s h i = map_option normVC (map_of rs i)"
  using assms by (cases "map_of rs i") (simp_all add: voteLog_def ents_def map_of_storedVC unmarshal_marshal_VC)

lemma voteLog_finite:
  assumes B: "bolt_ok B" and wf: "votes_wf B s"
  shows "finite (dom (voteLog B s h))"
proof (cases "ents B s vcBktPath h = Some Sub")
  case True
  then have "\<forall>k e. ents B s (vcBktPath @ [h]) k = Some e \<longrightarrow>
      (\<exists>i r. k = uint32ToBytes i \<and> e = Val (marshalVoteChange r))"
    using wf by (simp add: votes_wf_def)
  then obtain rs where "bk_forEach B s (vcBktPath @ [h]) = map storedVC rs"
    by (rule vc_entries [OF B])
  then have "dom (voteLog B s h) \<subseteq> dom (map_of rs)"
    using voteLog_entries [OF True] by (auto simp: dom_def)
  then show ?thesis using finite_dom_map_of finite_subset by blast
next
  case False
  then show ?thesis by (simp add: voteLog_def dom_def)
qed

lemma vcPath_simps [simp]: "vcBktPath \<noteq> []" "vcBktPath \<noteq> [vspBktK]" "vcBktPath @ [h] \<noteq> [vspBktK]"
  "[vspBktK] \<noteq> vcBktPath @ [h]" "[vspBktK] \<noteq> vcBktPath" "[] \<noteq> vcBktPath"
  by (simp_all add: vcBktPath_def)

text \<open>What a save does to the log, as a map from keys to records.\<close>

lemma SaveVoteChange_log:
  assumes B: "bolt_ok B" and wf: "votes_wf B s" and Ok: "SaveVoteChange B n h r s = Ok s'"
  defines "L \<equiv> voteLog B s h" and "D \<equiv> dom (voteLog B s h)"
  shows "votes_wf B s'" and "finite D"
    and "voteLog B s' h = (if n \<le> int (card D) \<and> D \<noteq> {} then L(Min D := None) else L)
      ((if D = {} then 0 else Max D + 1) \<mapsto> normVC r)"
    and "\<And>h'. h' \<noteq> h \<Longrightarrow> voteLog B s' h' = voteLog B s h'"
    and "\<And>q. \<not> prefix vcBktPath q \<Longrightarrow> ents B s' q = ents B s q"
proof -
  let ?p = "vcBktPath @ [h]"
  have bk: "buckets_ok B s" using wf by (simp add: votes_wf_def)
  have vc: "childBkt B voteChangeBktK s = Ok (Some vcBktPath)"
    using bk by (simp add: childBkt_ok [OF B] buckets_ok_def vcBktPath_def)
  from Ok vc obtain s1 where s1: "bk_createIf B s vcBktPath h = Ok s1"
    by (auto simp: SaveVoteChange_def db_update_Ok outcome_simps)
  have f1: "ents B s1 vcBktPath = (ents B s vcBktPath)(h \<mapsto> Sub) \<and>
      (\<forall>q. q \<noteq> vcBktPath \<and> q \<noteq> ?p \<longrightarrow> ents B s1 q = ents B s q) \<and>
      ents B s1 ?p = (if ents B s vcBktPath h = Some Sub then ents B s ?p else Map.empty)"
    using s1 create_ents [OF B, of s vcBktPath h s1]
    by (auto simp: createIf_eq [OF B] split: option.splits entry.splits)
  have "\<forall>k e. ents B s1 ?p k = Some e \<longrightarrow> (\<exists>i r. k = uint32ToBytes i \<and> e = Val (marshalVoteChange r))"
    using f1 wf by (auto simp: votes_wf_def split: if_splits)
  then obtain rs where rs: "bk_forEach B s1 ?p = map storedVC rs" "distinct (map fst rs)"
    by (rule vc_entries [OF B])
  have L1: "voteLog B s1 h = L"
    unfolding L_def using f1 by (auto simp: voteLog_def fun_eq_iff)
  have Lrs: "L = (\<lambda>i. map_option normVC (map_of rs i))"
    unfolding L1 [symmetric] using voteLog_entries [OF _ rs(1)] f1 by (auto simp: fun_eq_iff)
  have D: "D = fst ` set rs"
    using Lrs unfolding D_def L_def by (auto simp: dom_def map_of_eq_None_iff)
  show fin: "finite D" by (simp add: D)
  have card: "card D = length rs"
    using rs(2) by (metis D distinct_card length_map list.set_map)
  define old where "old = (if D = {} then -1 else Min D)"
  define new where "new = (if D = {} then 0 else Max D + 1)"
  have "Max (insert 0 D) = Max D \<and> Min (insert (-1) D) = Min D" if "D \<noteq> {}"
    using that fin by (simp add: max_absorb2 min_absorb2)
  then have scan: "scanKeys (map storedVC rs) (0, 0, -1) = Ok (int (card D), (if D = {} then 0 else Max D), old)"
    using scanKeys_stored [of rs 0 0 "-1"] by (simp add: card D [symmetric] old_def)
  from Ok vc s1 scan rs(1) obtain s2 where
      del: "(if n \<le> int (card D) then wrapErr ''failed to delete old vote change record''
               (bk_delete B s1 ?p (uint32ToBytes old)) else Ok s1) = Ok s2"
      and put: "bk_put B s2 ?p (uint32ToBytes new) (marshalVoteChange r) = Ok s'"
    using fin by (auto simp: SaveVoteChange_def db_update_Ok outcome_simps Let_def new_def card_gt_0_iff
        cong: if_cong split: if_splits)
  have f2: "ents B s2 = (ents B s1)(?p := (if n \<le> int (card D)
      then (ents B s1 ?p)(uint32ToBytes old := None) else ents B s1 ?p))"
    using del delete_ents [OF B, of s1 ?p "uint32ToBytes old" s2] by (auto simp: outcome_simps split: if_splits)
  have f3: "ents B s' = (ents B s2)(?p := (ents B s2 ?p)(uint32ToBytes new \<mapsto> Val (marshalVoteChange r)))"
    using put by (rule put_ents [OF B])
  have frame: "ents B s' q = ents B s q" if "q \<noteq> vcBktPath" "q \<noteq> ?p" for q
    using that f1 f2 f3 by simp
  have vcs: "ents B s' vcBktPath = (ents B s vcBktPath)(h \<mapsto> Sub)"
    using f1 f2 f3 by simp
  show "ents B s' q = ents B s q" if "\<not> prefix vcBktPath q" for q
    using that by (intro frame) auto
  show other: "voteLog B s' h' = voteLog B s h'" if "h' \<noteq> h" for h'
    using that frame [of "vcBktPath @ [h']"] vcs by (simp add: voteLog_def fun_eq_iff)
  have at: "ents B s' ?p = (if n \<le> int (card D) then (ents B s1 ?p)(uint32ToBytes old := None)
      else ents B s1 ?p)(uint32ToBytes new \<mapsto> Val (marshalVoteChange r))"
    using f2 f3 by simp
  show "voteLog B s' h = (if n \<le> int (card D) \<and> D \<noteq> {} then L(Min D := None) else L)
      ((if D = {} then 0 else Max D + 1) \<mapsto> normVC r)"
  proof
    fix i
    have s1i: "L i = (case ents B s1 ?p (uint32ToBytes i) of
        Some (Val v) \<Rightarrow> (case unmarshalVoteChange v of Ok r \<Rightarrow> Some r | _ \<Rightarrow> None) | _ \<Rightarrow> None)"
      unfolding L1 [symmetric] using f1 by (simp add: voteLog_def)
    have "D = {} \<Longrightarrow> L i = None" by (auto simp: D_def L_def)
    moreover have "voteLog B s' h i = (if i = new then Some (normVC r)
        else if n \<le> int (card D) \<and> i = old then None else L i)"
    proof -
      have "ents B s' ?p (uint32ToBytes i) = (if i = new then Some (Val (marshalVoteChange r))
          else if n \<le> int (card D) \<and> i = old then None else ents B s1 ?p (uint32ToBytes i))"
        by (simp add: at)
      then show ?thesis
        unfolding voteLog_def s1i using vcs by (simp add: unmarshal_marshal_VC)
    qed
    ultimately show "voteLog B s' h i = ((if n \<le> int (card D) \<and> D \<noteq> {} then L(Min D := None) else L)
        ((if D = {} then 0 else Max D + 1) \<mapsto> normVC r)) i"
      unfolding new_def [symmetric] by (cases "D = {}") (auto simp: old_def)
  qed
  have "(\<exists>i r. k = uint32ToBytes i \<and> e = Val (marshalVoteChange r))"
    if "ents B s' vcBktPath h' = Some Sub" "ents B s' (vcBktPath @ [h']) k = Some e" for h' k e
  proof (cases "h' = h")
    case True
    with that(2) at f1 wf show ?thesis
      by (auto simp: votes_wf_def split: if_splits)
  next
    case False
    with that frame [of "vcBktPath @ [h']"] vcs wf show ?thesis
      by (auto simp: votes_wf_def)
  qed
  moreover have "buckets_ok B s'"
    using bk by (rule buckets_ok_frame) (simp_all add: frame)
  moreover have "ents B s' vcBktPath h' \<noteq> Some (Val v)" for h' v
    using wf by (simp add: vcs votes_wf_def)
  ultimately show "votes_wf B s'" unfolding votes_wf_def by blast
qed

lemma sorted_list_snoc:
  assumes "finite A" "\<And>x. x \<in> A \<Longrightarrow> x < (a :: uint32)"
  shows "sorted_list_of_set (insert a A) = sorted_list_of_set A @ [a]"
proof -
  have "\<forall>x \<in> set xs. x < a \<Longrightarrow> insort a xs = xs @ [a]" for xs
    by (induction xs) auto
  then have "insort a (sorted_list_of_set A) = sorted_list_of_set A @ [a]"
    using assms by simp
  moreover have "a \<notin> A" using assms(2) by blast
  ultimately show ?thesis using assms(1) by simp
qed

lemma SaveVoteChange_Ok:
  assumes B: "bolt_ok B" and wf: "votes_wf B s" and room: "nextSerial B s h < 2 ^ 32"
    and Ok: "SaveVoteChange B (int n) h r s = Ok s'"
  shows "votes_wf B s' \<and> nextSerial B s' h = Suc (nextSerial B s h) \<and>
    voteHistory B s' h = (if n \<le> length (voteHistory B s h) then tl (voteHistory B s h)
      else voteHistory B s h) @ [normVC r] \<and>
    (\<forall>h'. h' \<noteq> h \<longrightarrow> voteHistory B s' h' = voteHistory B s h' \<and> nextSerial B s' h' = nextSerial B s h')"
proof -
  define L where "L = voteLog B s h"
  define D where "D = dom L"
  define new where "new = (if D = {} then 0 else Max D + 1)"
  define L1 where "L1 = (if n \<le> card D \<and> D \<noteq> {} then L(Min D := None) else L)"
  note log = SaveVoteChange_log [OF B wf Ok, folded L_def, folded D_def]
  have fin: "finite D" by (rule log(2))
  have L': "voteLog B s' h = L1(new \<mapsto> normVC r)"
    using log(3) by (simp add: L1_def new_def)
  have lt: "x < new" if "x \<in> D" for x
  proof -
    have "D \<noteq> {}" using that by auto
    with room have "Suc (unat (Max D)) < 2 ^ 32"
      by (simp add: nextSerial_def L_def D_def)
    then have "Max D < new" unfolding new_def using \<open>D \<noteq> {}\<close> uint32_succ(2) [of "Max D"] by simp
    with that fin show ?thesis using Max_ge [of D x] by (meson order_le_less_trans)
  qed
  have D1: "dom L1 = (if n \<le> card D \<and> D \<noteq> {} then D - {Min D} else D)"
    by (auto simp: L1_def D_def)
  have dom': "dom (voteLog B s' h) = insert new (dom L1)"
    by (simp add: L')
  have fin1: "finite (dom L1)" using fin D1 by simp
  have keys: "sorted_list_of_set (dom (voteLog B s' h)) = sorted_list_of_set (dom L1) @ [new]"
    unfolding dom' using fin1 lt D1 by (intro sorted_list_snoc) (auto split: if_splits)
  have keys1: "sorted_list_of_set (dom L1) =
      (if n \<le> card D then tl (sorted_list_of_set D) else sorted_list_of_set D)"
    using fin D1 sorted_list_of_set_nonempty [of D] by (auto split: if_splits)
  have val: "map (\<lambda>i. the (voteLog B s' h i)) (sorted_list_of_set (dom L1))
      = map (\<lambda>i. the (L i)) (sorted_list_of_set (dom L1))"
  proof (rule map_cong [OF refl])
    fix i assume "i \<in> set (sorted_list_of_set (dom L1))"
    then have i: "i \<in> dom L1" using fin1 by simp
    then have "i \<in> D" using D1 by (auto split: if_splits)
    then have "i \<noteq> new" using lt by blast
    moreover have "L1 i = L i" using i by (auto simp: L1_def split: if_splits)
    ultimately show "the (voteLog B s' h i) = the (L i)" by (simp add: L')
  qed
  have len: "length (voteHistory B s h) = card D"
    using fin by (simp add: voteHistory_def L_def [symmetric] D_def [symmetric])
  have hist: "voteHistory B s' h = (if n \<le> card D then tl (voteHistory B s h) else voteHistory B s h) @ [normVC r]"
    unfolding voteHistory_def keys map_append val
    by (simp add: keys1 L' map_tl L_def [symmetric] D_def [symmetric])
  have "Max (insert new (dom L1)) = new"
    using fin1 lt D1 by (intro Max_eqI) (auto intro: less_imp_le split: if_splits)
  then have "nextSerial B s' h = Suc (unat new)"
    by (simp add: nextSerial_def dom')
  also have "\<dots> = Suc (nextSerial B s h)"
    using room uint32_succ(1) [of "Max D"]
    by (simp add: nextSerial_def new_def L_def [symmetric] D_def [symmetric] split: if_splits)
  finally show ?thesis
    using log(1,4) hist len by (simp add: voteHistory_def nextSerial_def)
qed

interpretation vdb: vote_log bolt_ok votes_wf voteHistory nextSerial normVC SaveVoteChange
  by unfold_locales (rule SaveVoteChange_Ok)

lemma voteChangesLoop_stored:
  "distinct (map fst rs) \<Longrightarrow> fst ` set rs \<inter> fst ` set acc = {} \<Longrightarrow>
   voteChangesLoop (map storedVC rs) acc = Ok (acc @ map (\<lambda>(i, r). (i, normVC r)) rs)"
proof (induction rs arbitrary: acc)
  case Nil
  then show ?case by simp
next
  case (Cons ir rs)
  obtain i r where ir: "ir = (i, r)" by (cases ir)
  then have "assign i (normVC r) acc = acc @ [(i, normVC r)]"
    using Cons.prems by (intro assign_fresh) auto
  with Cons ir show ?case by (auto simp: storedVC_def unmarshal_marshal_VC)
qed

lemma GetVoteChanges_Ok:
  assumes B: "bolt_ok B" and disk: "disk_ok B" and wf: "votes_wf B s"
  shows "\<exists>xs. GetVoteChanges B h s = Ok xs \<and> distinct (map fst xs) \<and> map_of xs = voteLog B s h"
proof -
  have vc: "childBkt B voteChangeBktK s = Ok (Some vcBktPath)"
    using wf by (simp add: childBkt_ok [OF B] votes_wf_def buckets_ok_def vcBktPath_def)
  show ?thesis
  proof (cases "ents B s vcBktPath h = Some Sub")
    case False
    then have "voteLog B s h = Map.empty" by (simp add: voteLog_def fun_eq_iff)
    with False vc show ?thesis
      by (simp add: GetVoteChanges_def disk_ok_view [OF disk] bucket_ents [OF B])
  next
    case True
    then have "\<forall>k e. ents B s (vcBktPath @ [h]) k = Some e \<longrightarrow>
        (\<exists>i r. k = uint32ToBytes i \<and> e = Val (marshalVoteChange r))"
      using wf by (simp add: votes_wf_def)
    then obtain rs where rs: "bk_forEach B s (vcBktPath @ [h]) = map storedVC rs" "distinct (map fst rs)"
      by (rule vc_entries [OF B])
    have "map_of (map (\<lambda>(i, r). (i, normVC r)) rs) i = map_option normVC (map_of rs i)" for i
      by (induction rs) auto
    with True vc rs voteChangesLoop_stored [of rs "[]"] show ?thesis
      by (intro exI [of _ "map (\<lambda>(i, r). (i, normVC r)) rs"])
         (auto simp: GetVoteChanges_def disk_ok_view [OF disk] bucket_ents [OF B]
           voteLog_entries [OF True rs(1)] comp_def case_prod_beta)
  qed
qed

end
