(* ===== verification/AltSignAddr.thy ===== *)
theory AltSignAddr
  imports TicketStore
begin

text \<open>
  \<open>database/altsignaddr.go\<close>: the alternate signing address of a ticket, with the request and
  response that prove it was set. A ticket has at most one, it can be set once, and deleting
  it is idempotent: the interface \<open>write_once\<close>.
\<close>

section \<open>Records and operations\<close>

definition altSignAddrK :: bytes where [key_defs]: "altSignAddrK = ''altsig''"
definition reqK :: bytes where [key_defs]: "reqK = ''req''"
definition reqSigK :: bytes where [key_defs]: "reqSigK = ''reqsig''"
definition respK :: bytes where [key_defs]: "respK = ''res''"
definition respSigK :: bytes where [key_defs]: "respSigK = ''ressig''"

record altsign =
  AltSignAddr :: string
  Req :: string
  ReqSig :: string
  Resp :: string
  RespSig :: string

definition altFields :: "altsign \<Rightarrow> (bytes \<times> bytes) list" where
  "altFields d = [(altSignAddrK, AltSignAddr d), (reqK, Req d), (reqSigK, ReqSig d),
     (respK, Resp d), (respSigK, RespSig d)]"

text \<open>The argument is a pointer, so it may be nil.\<close>

definition InsertAltSignAddr :: "'s bolt \<Rightarrow> string \<Rightarrow> altsign option \<Rightarrow> 's \<Rightarrow> 's outcome" where
  "InsertAltSignAddr B ticketHash data s =
     (case data of
        None \<Rightarrow> Fail (Plain ''alt sign addr data must not be nil for inserts'')
      | Some d \<Rightarrow>
          if AltSignAddr d = [] \<or> Req d = [] \<or> ReqSig d = [] \<or> Resp d = [] \<or> RespSig d = []
          then Fail (Plain ''alt sign addr data has empty parameters'')
          else db_update B (\<lambda>s.
            andThen (childBkt B altSignAddrBktK s) (\<lambda>altSignAddrBkt.
            andThen (wrapErr ''could not create bucket for alt sign addr''
              (h_create B altSignAddrBkt ticketHash s)) (\<lambda>(s', bkt).
            h_puts B bkt (altFields d) s'))) s)"

definition DeleteAltSignAddr :: "'s bolt \<Rightarrow> string \<Rightarrow> 's \<Rightarrow> 's outcome" where
  "DeleteAltSignAddr B ticketHash = db_update B (\<lambda>s.
     andThen (childBkt B altSignAddrBktK s) (\<lambda>altSignAddrBkt.
     andThen (h_bucket B s altSignAddrBkt ticketHash) (\<lambda>bkt.
     if bkt = None then Ok s
     else wrapErr ''could not delete altsignaddr'' (h_deleteBucket B altSignAddrBkt ticketHash s))))"

fun readAltSign :: "'s bolt \<Rightarrow> 's \<Rightarrow> handle \<Rightarrow> altsign outcome" where
  "readAltSign B s h =
     andThen (h_get B s h altSignAddrK) (\<lambda>a. andThen (h_get B s h reqK) (\<lambda>r.
     andThen (h_get B s h reqSigK) (\<lambda>rs. andThen (h_get B s h respK) (\<lambda>p.
     andThen (h_get B s h respSigK) (\<lambda>ps.
     Ok \<lparr>AltSignAddr = str a, Req = str r, ReqSig = str rs, Resp = str p, RespSig = str ps\<rparr>)))))"

definition AltSignAddrData :: "'s bolt \<Rightarrow> string \<Rightarrow> 's \<Rightarrow> altsign option outcome" where
  "AltSignAddrData B ticketHash = db_view B (\<lambda>s.
     andThen (childBkt B altSignAddrBktK s) (\<lambda>altSignAddrBkt.
     andThen (h_bucket B s altSignAddrBkt ticketHash) (\<lambda>bkt.
     if bkt = None then Ok None
     else andThen (readAltSign B s bkt) (\<lambda>d. Ok (Some d)))))"

section \<open>The interface\<close>

locale write_once =
  fixes good :: "'b \<Rightarrow> bool"
    and inv :: "'b \<Rightarrow> 's \<Rightarrow> bool"
    and abs :: "'b \<Rightarrow> 's \<Rightarrow> string \<Rightarrow> 'r option"
    and ins :: "'b \<Rightarrow> string \<Rightarrow> 'r option \<Rightarrow> 's \<Rightarrow> 's outcome"
    and del :: "'b \<Rightarrow> string \<Rightarrow> 's \<Rightarrow> 's outcome"
    and read :: "'b \<Rightarrow> string \<Rightarrow> 's \<Rightarrow> 'r option outcome"
  assumes ins_Ok: "good B \<Longrightarrow> inv B s \<Longrightarrow> ins B h d s = Ok s' \<Longrightarrow>
      inv B s' \<and> abs B s h = None \<and> d \<noteq> None \<and> abs B s' = (abs B s)(h := d)"
    and del_Ok: "good B \<Longrightarrow> inv B s \<Longrightarrow> del B h s = Ok s' \<Longrightarrow>
      inv B s' \<and> abs B s' = (abs B s)(h := None)"
    and read_eq: "good B \<Longrightarrow> inv B s \<Longrightarrow> read B h s = Ok (abs B s h)"
begin

lemma ins_read:
  assumes "good B" "inv B s" "ins B h (Some d) s = Ok s'"
  shows "read B h s' = Ok (Some d)" "h' \<noteq> h \<Longrightarrow> read B h' s' = read B h' s"
  using ins_Ok [OF assms] assms read_eq by auto

text \<open>The first value stands until it is deleted.\<close>

lemma ins_once:
  assumes "good B" "inv B s" "ins B h d s = Ok s'"
  shows "ins B h d' s' \<noteq> Ok s''"
  using ins_Ok [OF assms] ins_Ok [OF assms(1), of s' h d' s''] by auto

lemma del_read:
  assumes "good B" "inv B s" "del B h s = Ok s'"
  shows "read B h s' = Ok None" "h' \<noteq> h \<Longrightarrow> read B h' s' = read B h' s"
  using del_Ok [OF assms] assms read_eq by auto

end

section \<open>The bucket of alternate signing addresses\<close>

definition altPath :: path where
  "altPath = [vspBktK, altSignAddrBktK]"

definition alts_wf :: "'s bolt \<Rightarrow> 's \<Rightarrow> bool" where
  "alts_wf B s \<longleftrightarrow> buckets_ok B s \<and> (\<forall>h v. ents B s altPath h \<noteq> Some (Val v))"

definition altAt :: "(bytes \<Rightarrow> bytes option) \<Rightarrow> altsign" where
  "altAt get = \<lparr>AltSignAddr = str (get altSignAddrK), Req = str (get reqK), ReqSig = str (get reqSigK),
     Resp = str (get respK), RespSig = str (get respSigK)\<rparr>"

definition altAddrs :: "'s bolt \<Rightarrow> 's \<Rightarrow> string \<Rightarrow> altsign option" where
  "altAddrs B s h =
     (if ents B s altPath h = Some Sub then Some (altAt (bk_get B s (altPath @ [h]))) else None)"

lemma altBkt_ok: "bolt_ok B \<Longrightarrow> buckets_ok B s \<Longrightarrow> childBkt B altSignAddrBktK s = Ok (Some altPath)"
  by (simp add: childBkt_ok buckets_ok_def altPath_def)

lemma altPath_simps [simp]: "altPath \<noteq> []" "altPath \<noteq> [vspBktK]" "altPath @ [h] \<noteq> [vspBktK]"
  "[vspBktK] \<noteq> altPath @ [h]" "[vspBktK] \<noteq> altPath" "[] \<noteq> altPath"
  by (simp_all add: altPath_def)

lemma AltSignAddrData_eq:
  assumes "bolt_ok B" "disk_ok B" "alts_wf B s"
  shows "AltSignAddrData B h s = Ok (altAddrs B s h)"
  using assms
  by (simp add: AltSignAddrData_def disk_ok_view altBkt_ok alts_wf_def bucket_ents altAddrs_def altAt_def)

lemma InsertAltSignAddr_Ok:
  assumes B: "bolt_ok B" and wf: "alts_wf B s" and Ok: "InsertAltSignAddr B h d s = Ok s'"
  shows "alts_wf B s' \<and> altAddrs B s h = None \<and> d \<noteq> None \<and> altAddrs B s' = (altAddrs B s)(h := d) \<and>
    (\<forall>q. \<not> prefix altPath q \<longrightarrow> ents B s' q = ents B s q)"
proof -
  have bk: "buckets_ok B s" using wf by (simp add: alts_wf_def)
  obtain x where d: "d = Some x" using Ok by (cases d) (auto simp: InsertAltSignAddr_def)
  from Ok d obtain s1 where s1: "bk_create B s altPath h = Ok s1"
    and puts: "h_puts B (Some (altPath @ [h])) (altFields x) s1 = Ok s'"
    by (auto simp: InsertAltSignAddr_def db_update_Ok altBkt_ok [OF B bk] outcome_simps split: if_splits)
  note e1 = create_ents [OF B s1] and e2 = h_puts_ents [OF B puts]
  have frame: "ents B s' q = ents B s q" if "q \<noteq> altPath" "q \<noteq> altPath @ [h]" for q
    using that by (simp add: e1 e2)
  have at: "ents B s' altPath = (ents B s altPath)(h \<mapsto> Sub)" by (simp add: e1 e2)
  have "bk_get B s' (altPath @ [h]) altSignAddrK = Some (AltSignAddr x)"
    "bk_get B s' (altPath @ [h]) reqK = Some (Req x)" "bk_get B s' (altPath @ [h]) reqSigK = Some (ReqSig x)"
    "bk_get B s' (altPath @ [h]) respK = Some (Resp x)" "bk_get B s' (altPath @ [h]) respSigK = Some (RespSig x)"
    by (simp_all add: get_ents [OF B] e1 e2 altFields_def key_defs)
  then have "altAt (bk_get B s' (altPath @ [h])) = x"
    by (simp add: altAt_def str_def)
  moreover have "bk_get B s' (altPath @ [h']) = bk_get B s (altPath @ [h'])" if "h' \<noteq> h" for h'
    using that by (intro bk_get_cong [OF B] frame) auto
  ultimately have "altAddrs B s' = (altAddrs B s)(h := d)"
    using at d by (intro ext) (auto simp: altAddrs_def)
  moreover have "alts_wf B s'"
    using bk buckets_ok_frame [of B s s'] wf by (simp add: frame at alts_wf_def)
  moreover have "ents B s' q = ents B s q" if "\<not> prefix altPath q" for q
    using that by (intro frame) auto
  ultimately show ?thesis
    using d create_fresh [OF B s1] by (auto simp: altAddrs_def)
qed

lemma DeleteAltSignAddr_Ok:
  assumes B: "bolt_ok B" and wf: "alts_wf B s" and Ok: "DeleteAltSignAddr B h s = Ok s'"
  shows "alts_wf B s' \<and> altAddrs B s' = (altAddrs B s)(h := None) \<and>
    (\<forall>q. \<not> prefix altPath q \<longrightarrow> ents B s' q = ents B s q)"
proof (cases "ents B s altPath h = Some Sub")
  case False
  then have "s' = s"
    using Ok wf by (auto simp: DeleteAltSignAddr_def db_update_Ok altBkt_ok [OF B] alts_wf_def bucket_ents [OF B])
  with False wf show ?thesis by (auto simp: altAddrs_def fun_eq_iff)
next
  case True
  then have del: "bk_deleteBucket B s altPath h = Ok s'"
    using Ok wf by (auto simp: DeleteAltSignAddr_def db_update_Ok altBkt_ok [OF B] alts_wf_def
        bucket_ents [OF B] outcome_simps)
  note e = deleteBucket_ents [OF B del]
  have other: "ents B s' (altPath @ [h']) = ents B s (altPath @ [h'])" if "h' \<noteq> h" for h'
    using that by (simp add: e)
  have get: "bk_get B s' (altPath @ [h']) = bk_get B s (altPath @ [h'])" if "h' \<noteq> h" for h'
    using other [OF that] by (rule bk_get_cong [OF B])
  have "buckets_ok B s'"
    by (rule buckets_ok_frame [of B s]) (use wf in \<open>simp_all add: alts_wf_def e altPath_def\<close>)
  moreover have "altAddrs B s' = (altAddrs B s)(h := None)"
    using e [of altPath] by (intro ext) (auto simp: altAddrs_def get split: if_splits)
  moreover have "ents B s' q = ents B s q" if "\<not> prefix altPath q" for q
    using that by (auto simp: e dest: append_prefixD)
  ultimately show ?thesis using wf by (simp add: alts_wf_def e)
qed

interpretation adb: write_once "\<lambda>B. bolt_ok B \<and> disk_ok B" alts_wf altAddrs InsertAltSignAddr
  DeleteAltSignAddr AltSignAddrData
  by unfold_locales (auto simp: AltSignAddrData_eq dest: InsertAltSignAddr_Ok DeleteAltSignAddr_Ok)

end
