(* ===== verification/Upgrades.thy ===== *)
theory Upgrades
  imports FeeXPub VoteChange AltSignAddr
begin

text \<open>
  \<open>database/upgrades.go\<close>, \<open>upgrade_v2.go\<close> to \<open>upgrade_v5.go\<close> and the opening and creation of a
  database in \<open>database/database.go\<close>. Each upgrade is one transaction; a run of upgrades that
  stops at an error keeps those that were committed before it, so \<open>Upgrade\<close> returns the state
  it leaves next to its result.
\<close>

section \<open>Versions\<close>

definition initialVersion :: nat where "initialVersion = 1"
definition removeOldFeeTxVersion :: nat where "removeOldFeeTxVersion = 2"
definition ticketBucketVersion :: nat where "ticketBucketVersion = 3"
definition altSignAddrVersion :: nat where "altSignAddrVersion = 4"
definition xPubBucketVersion :: nat where "xPubBucketVersion = 5"
definition latestVersion :: nat where "latestVersion = xPubBucketVersion"

lemmas version_defs = initialVersion_def removeOldFeeTxVersion_def ticketBucketVersion_def
  altSignAddrVersion_def xPubBucketVersion_def latestVersion_def

definition putVersion :: "'s bolt \<Rightarrow> handle \<Rightarrow> nat \<Rightarrow> 's \<Rightarrow> 's outcome" where
  "putVersion B vsp v s =
     wrapErr ''failed to update db version'' (h_put B vsp versionK (uint32ToBytes (of_nat v)) s)"

definition Version :: "'s bolt \<Rightarrow> 's \<Rightarrow> uint32 outcome" where
  "Version B = db_view B (\<lambda>s.
     andThen (vspBkt B s) (\<lambda>vsp. andThen (h_get B s vsp versionK) bytesToUint32))"

section \<open>The ticket record of version 1\<close>

record v1Ticket =
  v1Hash :: string
  v1PurchaseHeight :: int64
  v1CommitmentAddress :: string
  v1FeeAddressIndex :: uint32
  v1FeeAddress :: string
  v1FeeAmount :: int64
  v1FeeExpiration :: int64
  v1Confirmed :: bool
  v1VotingWIF :: string
  v1VoteChoices :: gomap
  v1FeeTxHex :: string
  v1FeeTxHash :: string
  v1FeeTxStatus :: string
  v1Outcome :: string

definition zeroV1 :: v1Ticket where
  "zeroV1 = \<lparr>v1Hash = [], v1PurchaseHeight = 0, v1CommitmentAddress = [], v1FeeAddressIndex = 0,
     v1FeeAddress = [], v1FeeAmount = 0, v1FeeExpiration = 0, v1Confirmed = False, v1VotingWIF = [],
     v1VoteChoices = None, v1FeeTxHex = [], v1FeeTxHash = [], v1FeeTxStatus = [], v1Outcome = []\<rparr>"

text \<open>A map field: \<open>null\<close> stores nil, an object is added to the map the field already holds.\<close>

fun map_field :: "json \<Rightarrow> v1Ticket \<Rightarrow> v1Ticket option" where
  "map_field JNull t = Some (t\<lparr>v1VoteChoices := None\<rparr>)"
| "map_field (JObj ms) t =
     (case strings_of ms (entries (v1VoteChoices t)) of
        Ok xs \<Rightarrow> Some (t\<lparr>v1VoteChoices := Some xs\<rparr>)
      | _ \<Rightarrow> None)"
| "map_field _ t = None"

definition v1Fields :: "v1Ticket field list" where
  "v1Fields =
     [(''hsh'', str_field (\<lambda>v t. t\<lparr>v1Hash := v\<rparr>)),
      (''phgt'', int64_field (\<lambda>v t. t\<lparr>v1PurchaseHeight := v\<rparr>)),
      (''cmtaddr'', str_field (\<lambda>v t. t\<lparr>v1CommitmentAddress := v\<rparr>)),
      (''faddridx'', uint32_field (\<lambda>v t. t\<lparr>v1FeeAddressIndex := v\<rparr>)),
      (''faddr'', str_field (\<lambda>v t. t\<lparr>v1FeeAddress := v\<rparr>)),
      (''famt'', int64_field (\<lambda>v t. t\<lparr>v1FeeAmount := v\<rparr>)),
      (''fexp'', int64_field (\<lambda>v t. t\<lparr>v1FeeExpiration := v\<rparr>)),
      (''conf'', bool_field (\<lambda>v t. t\<lparr>v1Confirmed := v\<rparr>)),
      (''vwif'', str_field (\<lambda>v t. t\<lparr>v1VotingWIF := v\<rparr>)),
      (''vchces'', map_field),
      (''fhex'', str_field (\<lambda>v t. t\<lparr>v1FeeTxHex := v\<rparr>)),
      (''fhsh'', str_field (\<lambda>v t. t\<lparr>v1FeeTxHash := v\<rparr>)),
      (''fsts'', str_field (\<lambda>v t. t\<lparr>v1FeeTxStatus := v\<rparr>)),
      (''otcme'', str_field (\<lambda>v t. t\<lparr>v1Outcome := v\<rparr>))]"

definition unmarshalV1 :: "bytes \<Rightarrow> v1Ticket outcome" where
  "unmarshalV1 b = unmarshal_struct v1Fields zeroV1 b"

fun raw_members :: "(string \<times> string) list \<Rightarrow> string" where
  "raw_members [] = []"
| "raw_members [(k, t)] = quote k @ CHR '':'' # t"
| "raw_members ((k, t) # kt # kts) = quote k @ CHR '':'' # t @ CHR '','' # raw_members (kt # kts)"

definition marshalV1 :: "v1Ticket \<Rightarrow> bytes" where
  "marshalV1 t = CHR ''{'' # raw_members
     [(''hsh'', quote (v1Hash t)), (''phgt'', dec_of_int (sint (v1PurchaseHeight t))),
      (''cmtaddr'', quote (v1CommitmentAddress t)),
      (''faddridx'', dec_of_int (uint (v1FeeAddressIndex t))), (''faddr'', quote (v1FeeAddress t)),
      (''famt'', dec_of_int (sint (v1FeeAmount t))), (''fexp'', dec_of_int (sint (v1FeeExpiration t))),
      (''conf'', if v1Confirmed t then ''true'' else ''false''), (''vwif'', quote (v1VotingWIF t)),
      (''vchces'', stringMapToBytes (v1VoteChoices t)), (''fhex'', quote (v1FeeTxHex t)),
      (''fhsh'', quote (v1FeeTxHash t)), (''fsts'', quote (v1FeeTxStatus t)),
      (''otcme'', quote (v1Outcome t))] @ ''}''"

section \<open>The upgrades\<close>

text \<open>
  The callbacks of \<open>ForEach\<close> in the first two upgrades write to the bucket they iterate over,
  which bbolt's documentation leaves undefined. The model visits the entries the bucket has
  when the iteration starts.
\<close>

definition dropConfirmedHex :: "'s bolt \<Rightarrow> handle \<Rightarrow> bytes \<times> entry \<Rightarrow> 's \<Rightarrow> 's outcome" where
  "dropConfirmedHex B ticketBkt ke s =
     andThen (wrapErr ''could not unmarshal ticket''
       (unmarshalV1 (case snd ke of Val v \<Rightarrow> v | Sub \<Rightarrow> []))) (\<lambda>ticket.
     if v1FeeTxStatus ticket = FeeConfirmed then
       wrapErr ''could not put updated ticket''
         (h_put B ticketBkt (fst ke) (marshalV1 (ticket\<lparr>v1FeeTxHex := []\<rparr>)) s)
     else Ok s)"

definition removeOldFeeTxUpgrade :: "'s bolt \<Rightarrow> 's \<Rightarrow> 's outcome" where
  "removeOldFeeTxUpgrade B = db_update B (\<lambda>s.
     andThen (vspBkt B s) (\<lambda>vsp.
     andThen (h_bucket B s vsp ticketBktK) (\<lambda>ticketBkt.
     andThen (h_forEach B s ticketBkt) (\<lambda>es.
     andThen (runAll (dropConfirmedHex B ticketBkt) es s)
       (putVersion B vsp removeOldFeeTxVersion)))))"

definition fromV1 :: "v1Ticket \<Rightarrow> ticket" where
  "fromV1 t = zeroTicket\<lparr>Hash := v1Hash t, PurchaseHeight := v1PurchaseHeight t,
     CommitmentAddress := v1CommitmentAddress t, FeeAddressIndex := v1FeeAddressIndex t,
     FeeAddress := v1FeeAddress t, FeeAmount := v1FeeAmount t, FeeExpiration := v1FeeExpiration t,
     Confirmed := v1Confirmed t, VotingWIF := v1VotingWIF t, VoteChoices := v1VoteChoices t,
     FeeTxHex := v1FeeTxHex t, FeeTxHash := v1FeeTxHash t, FeeTxStatus := v1FeeTxStatus t,
     Outcome := v1Outcome t\<rparr>"

definition migrateTicket :: "'s bolt \<Rightarrow> handle \<Rightarrow> bytes \<times> entry \<Rightarrow> 's \<Rightarrow> 's outcome" where
  "migrateTicket B ticketBkt ke s =
     andThen (wrapErr ''could not unmarshal ticket''
       (unmarshalV1 (case snd ke of Val v \<Rightarrow> v | Sub \<Rightarrow> []))) (\<lambda>ticket.
     andThen (wrapErr ''could not delete ticket'' (h_delete B ticketBkt (fst ke) s)) (\<lambda>s1.
     andThen (wrapErr ''could not create new ticket bucket'' (h_create B ticketBkt (fst ke) s1))
       (\<lambda>(s2, newBkt).
     wrapErr ''could not put new ticket in bucket'' (putTicketInBucket B newBkt (fromV1 ticket) s2))))"

definition ticketBucketUpgrade :: "'s bolt \<Rightarrow> 's \<Rightarrow> 's outcome" where
  "ticketBucketUpgrade B = db_update B (\<lambda>s.
     andThen (vspBkt B s) (\<lambda>vsp.
     andThen (h_bucket B s vsp ticketBktK) (\<lambda>ticketBkt.
     andThen (h_forEach B s ticketBkt) (\<lambda>es.
     andThen (runAll (migrateTicket B ticketBkt) es s)
       (putVersion B vsp ticketBucketVersion)))))"

definition altSignAddrUpgrade :: "'s bolt \<Rightarrow> 's \<Rightarrow> 's outcome" where
  "altSignAddrUpgrade B = db_update B (\<lambda>s.
     andThen (vspBkt B s) (\<lambda>vsp.
     andThen (wrapErr ''failed to create altsigbkt bucket'' (h_create B vsp altSignAddrBktK s))
       (\<lambda>(s1, _). putVersion B vsp altSignAddrVersion s1)))"

definition feeXPubK :: bytes where [key_defs]: "feeXPubK = ''feeXPub''"
definition lastAddressIndexK :: bytes where [key_defs]: "lastAddressIndexK = ''lastaddressindex''"

definition xPubBucketUpgrade :: "'s bolt \<Rightarrow> 's \<Rightarrow> 's outcome" where
  "xPubBucketUpgrade B = db_update B (\<lambda>s.
     andThen (vspBkt B s) (\<lambda>vsp.
     andThen (h_bucket B s vsp ticketBktK) (\<lambda>ticketBkt.
     andThen (h_get B s vsp feeXPubK) (\<lambda>xpubBytes.
     if xpubBytes = None then Fail (Plain ''xpub not found'')
     else
       andThen (h_get B s vsp lastAddressIndexK) (\<lambda>idxBytes.
       andThen (if idxBytes \<noteq> None then bytesToUint32 idxBytes else Ok 0) (\<lambda>idx.
       andThen (wrapErr ''could not delete xpub'' (h_delete B vsp feeXPubK s)) (\<lambda>s1.
       andThen (wrapErr ''could not delete last addr idx'' (h_delete B vsp lastAddressIndexK s1)) (\<lambda>s2.
       andThen (wrapErr ''failed to store xpub in new bucket'' (insertFeeXPub B
         \<lparr>xID = 0, xKey = str xpubBytes, xLastUsedIdx = idx, xRetired = 0\<rparr> s2)) (\<lambda>s3.
       andThen (h_forEach B s3 ticketBkt) (\<lambda>es.
       andThen (wrapErr ''setting ticket xpub ID to 0 failed''
         (runAll (\<lambda>k s. andThen (h_bucket B s ticketBkt k) (\<lambda>bkt.
            h_put B bkt feeAddressXPubIDK (uint32ToBytes 0) s)) (bucketNames es) s3))
         (putVersion B vsp xPubBucketVersion))))))))))) "

text \<open>The table \<open>upgrades\<close>, indexed by the version to upgrade from; entry 0 is a nil function.\<close>

definition upgrades :: "'s bolt \<Rightarrow> ('s \<Rightarrow> 's outcome) option list" where
  "upgrades B = [None, Some (removeOldFeeTxUpgrade B), Some (ticketBucketUpgrade B),
     Some (altSignAddrUpgrade B), Some (xPubBucketUpgrade B)]"

fun upgradeLoop :: "('s \<Rightarrow> 's outcome) option list \<Rightarrow> 's \<Rightarrow> 's \<times> unit outcome" where
  "upgradeLoop [] s = (s, Ok ())"
| "upgradeLoop (None # us) s = (s, Panic)"
| "upgradeLoop (Some u # us) s =
     (case u s of
        Ok s' \<Rightarrow> upgradeLoop us s'
      | Fail e \<Rightarrow> (s, Fail e)
      | Panic \<Rightarrow> (s, Panic))"

definition Upgrade :: "'s bolt \<Rightarrow> uint32 \<Rightarrow> 's \<Rightarrow> 's \<times> unit outcome" where
  "Upgrade B currentVersion s =
     (if unat currentVersion = latestVersion then (s, Ok ())
      else if unat currentVersion > latestVersion
      then (s, Fail (Plain ''expected database version <= 5''))
      else upgradeLoop (drop (unat currentVersion) (upgrades B)) s)"

text \<open>
  \<open>Open\<close>: \<open>exists\<close> is the result of \<open>os.Stat\<close>, \<open>openErr\<close> the error of \<open>bolt.Open\<close>. The error of
  closing the database after a failure is only logged.
\<close>

definition Open :: "'s bolt \<Rightarrow> bool \<Rightarrow> err option \<Rightarrow> 's \<Rightarrow> 's \<times> unit outcome" where
  "Open B exists openErr s =
     (if \<not> exists then (s, Fail (Plain ''file does not exist''))
      else case openErr of
        Some e \<Rightarrow> (s, Fail (Wrapped ''unable to open db file'' e))
      | None \<Rightarrow>
          (case Version B s of
             Panic \<Rightarrow> (s, Panic)
           | Fail e \<Rightarrow> (s, Fail (Wrapped ''unable to get db version'' e))
           | Ok dbVersion \<Rightarrow>
               (case Upgrade B dbVersion s of (s', r) \<Rightarrow> (s', wrapErr ''upgrade failed'' r))))"

text \<open>
  \<open>CreateNew\<close>: \<open>seed\<close> is the seed of the generated signing key, or the error of the generator,
  and \<open>secret\<close> the 32 random bytes of the cookie secret.
\<close>

definition CreateNew :: "'s bolt \<Rightarrow> err option \<Rightarrow> bytes outcome \<Rightarrow> bytes \<Rightarrow> string \<Rightarrow> 's \<Rightarrow> 's outcome" where
  "CreateNew B openErr seed secret feeXPub s0 =
     (case openErr of
        Some e \<Rightarrow> Fail (Wrapped ''unable to open db file'' e)
      | None \<Rightarrow> db_update B (\<lambda>s.
          andThen (wrapErr ''failed to create vspbkt bucket'' (h_create B (Some []) vspBktK s)) (\<lambda>(s1, vsp).
          andThen (h_put B vsp versionK (uint32ToBytes (of_nat latestVersion)) s1) (\<lambda>s2.
          andThen (wrapErr ''failed to generate signing key'' seed) (\<lambda>signSeed.
          andThen (h_put B vsp privateKeyK signSeed s2) (\<lambda>s3.
          andThen (h_put B vsp cookieSecretK secret s3) (\<lambda>s4.
          andThen (insertFeeXPub B \<lparr>xID = 0, xKey = feeXPub, xLastUsedIdx = 0, xRetired = 0\<rparr> s4) (\<lambda>s5.
          andThen (wrapErr ''failed to create ticketbkt bucket'' (h_create B vsp ticketBktK s5)) (\<lambda>(s6, _).
          andThen (wrapErr ''failed to create votechangebkt bucket'' (h_create B vsp voteChangeBktK s6)) (\<lambda>(s7, _).
          andThen (wrapErr ''failed to create altsigbkt bucket'' (h_create B vsp altSignAddrBktK s7)) (\<lambda>(s8, _).
          Ok s8)))))))))) s0)"

text \<open>
  \<open>KeyPair\<close>: \<open>fromSeed\<close> stands for \<open>ed25519.NewKeyFromSeed\<close>, which panics on a seed that is not
  32 bytes long.
\<close>

definition KeyPair :: "'s bolt \<Rightarrow> (bytes \<Rightarrow> 'k) \<Rightarrow> 's \<Rightarrow> 'k outcome" where
  "KeyPair B fromSeed s =
     andThen (db_view B (\<lambda>s.
       andThen (vspBkt B s) (\<lambda>vsp.
       andThen (h_get B s vsp privateKeyK) (\<lambda>seed.
       case seed of None \<Rightarrow> Fail (Plain ''no private key found'') | Some b \<Rightarrow> Ok b))) s) (\<lambda>seed.
     if length seed \<noteq> 32 then Panic else Ok (fromSeed seed))"

definition CookieSecret :: "'s bolt \<Rightarrow> 's \<Rightarrow> bytes option outcome" where
  "CookieSecret B = db_view B (\<lambda>s. andThen (vspBkt B s) (\<lambda>vsp. h_get B s vsp cookieSecretK))"

end
