(* ===== verification/Migration.thy ===== *)
theory Migration
  imports Upgrades
begin

text \<open>
  What the upgrades and \<open>CreateNew\<close> establish: the recorded version after each step, the
  well-formedness of a fresh database, and the preservation of tickets and of the fee key by
  the upgrade to the current version.
\<close>

section \<open>The recorded version\<close>

definition rooted :: "'s bolt \<Rightarrow> 's \<Rightarrow> bool" where
  "rooted B s \<longleftrightarrow> ents B s [] vspBktK = Some Sub"

lemma rooted_ops:
  assumes B: "bolt_ok B" and r: "rooted B s"
  shows "h_put B (Some (k # p)) x v s = Ok s' \<Longrightarrow> rooted B s'"
    and "h_delete B (Some (k # p)) x s = Ok s' \<Longrightarrow> rooted B s'"
    and "h_create B (Some (k # p)) x s = Ok (s', h) \<Longrightarrow> rooted B s'"
    and "h_createIf B (Some (k # p)) x s = Ok (s', h) \<Longrightarrow> rooted B s'"
    and "h_puts B (Some (k # p)) kvs s = Ok s' \<Longrightarrow> rooted B s'"
  using r
  by (auto simp: rooted_def put_ents [OF B] delete_ents [OF B] create_ents [OF B] createIf_eq [OF B]
      h_puts_ents [OF B] outcome_simps split: option.splits entry.splits)

lemma vspBkt_rooted: "bolt_ok B \<Longrightarrow> rooted B s \<Longrightarrow> vspBkt B s = Ok (Some [vspBktK])"
  by (simp add: vspBkt_def rooted_def bucket_ents)

lemma vspBkt_cases:
  assumes "bolt_ok B" "vspBkt B s = Ok h" "h \<noteq> None"
  shows "rooted B s \<and> h = Some [vspBktK]"
  using assms by (auto simp: vspBkt_def rooted_def bucket_ents split: if_splits)

lemma putVersion_Version:
  assumes B: "bolt_ok B" and disk: "disk_ok B" and r: "rooted B s"
    and put: "putVersion B (Some [vspBktK]) v s = Ok s'"
  shows "rooted B s' \<and> Version B s' = Ok (of_nat v)"
proof -
  have p: "h_put B (Some [vspBktK]) versionK (uint32ToBytes (of_nat v)) s = Ok s'"
    using put by (simp add: putVersion_def outcome_simps)
  then have "rooted B s'" by (rule rooted_ops [OF B r])
  moreover have "bk_get B s' [vspBktK] versionK = Some (uint32ToBytes (of_nat v))"
    using p by (simp add: get_ents [OF B] put_ents [OF B])
  ultimately show ?thesis
    by (simp add: Version_def disk_ok_view [OF disk] vspBkt_rooted [OF B])
qed

lemma h_bucket_Some:
  "h_bucket B s (Some p) k = Ok h \<Longrightarrow> h = None \<or> h = Some (p @ [k])"
  by (auto split: if_splits)

lemma upgrade_v2_version:
  assumes B: "bolt_ok B" and disk: "disk_ok B" and Ok: "removeOldFeeTxUpgrade B s = Ok s'"
  shows "Version B s' = Ok 2"
proof -
  from Ok obtain vsp tb es s1 where a: "vspBkt B s = Ok vsp" "h_bucket B s vsp ticketBktK = Ok tb"
      "h_forEach B s tb = Ok es" "runAll (dropConfirmedHex B tb) es s = Ok s1"
      "putVersion B vsp removeOldFeeTxVersion s1 = Ok s'"
    by (auto simp: removeOldFeeTxUpgrade_def db_update_Ok outcome_simps)
  then have v: "rooted B s" "vsp = Some [vspBktK]"
    using vspBkt_cases [OF B a(1)] by (cases vsp; simp)+
  with a(2,3) have tb: "tb = Some [vspBktK, ticketBktK]"
    using h_bucket_Some [of B s "[vspBktK]" ticketBktK tb] by (cases tb) auto
  have step: "rooted B u'" if "rooted B u" "dropConfirmedHex B tb ke u = Ok u'" for ke u u'
  proof -
    from that(2) obtain t where "u' = u \<or> h_put B tb (fst ke) (marshalV1 (t\<lparr>v1FeeTxHex := []\<rparr>)) u = Ok u'"
      by (auto simp: dropConfirmedHex_def outcome_simps split: if_splits)
    with that(1) tb show ?thesis using rooted_ops(1) [OF B] by metis
  qed
  have "rooted B s1"
    by (rule runAll_inv [OF a(4), of "rooted B"]) (use v step in auto)
  with putVersion_Version [OF B disk _ a(5) [unfolded v(2)]] show ?thesis
    by (simp add: version_defs)
qed

lemma upgrade_v3_version:
  assumes B: "bolt_ok B" and disk: "disk_ok B" and Ok: "ticketBucketUpgrade B s = Ok s'"
  shows "Version B s' = Ok 3"
proof -
  from Ok obtain vsp tb es s1 where a: "vspBkt B s = Ok vsp" "h_bucket B s vsp ticketBktK = Ok tb"
      "h_forEach B s tb = Ok es" "runAll (migrateTicket B tb) es s = Ok s1"
      "putVersion B vsp ticketBucketVersion s1 = Ok s'"
    by (auto simp: ticketBucketUpgrade_def db_update_Ok outcome_simps)
  then have v: "rooted B s" "vsp = Some [vspBktK]"
    using vspBkt_cases [OF B a(1)] by (cases vsp; simp)+
  with a(2,3) have tb: "tb = Some [vspBktK, ticketBktK]"
    using h_bucket_Some [of B s "[vspBktK]" ticketBktK tb] by (cases tb) auto
  have step: "rooted B u'" if "rooted B u" "migrateTicket B tb ke u = Ok u'" for ke u u'
  proof -
    from that(2) obtain t u1 u2 nb where m: "h_delete B tb (fst ke) u = Ok u1"
        "h_create B tb (fst ke) u1 = Ok (u2, nb)" "putTicketInBucket B nb (fromV1 t) u2 = Ok u'"
      by (auto simp: migrateTicket_def outcome_simps)
    have "nb = Some [vspBktK, ticketBktK, fst ke]" using m(2) tb by (auto simp: outcome_simps)
    with m tb that(1) show ?thesis
      using rooted_ops [OF B] unfolding putTicketInBucket_def by metis
  qed
  have "rooted B s1"
    by (rule runAll_inv [OF a(4), of "rooted B"]) (use v step in auto)
  with putVersion_Version [OF B disk _ a(5) [unfolded v(2)]] show ?thesis
    by (simp add: version_defs)
qed

lemma upgrade_v4_version:
  assumes B: "bolt_ok B" and disk: "disk_ok B" and Ok: "altSignAddrUpgrade B s = Ok s'"
  shows "Version B s' = Ok 4"
proof -
  from Ok obtain vsp s1 h where a: "vspBkt B s = Ok vsp" "h_create B vsp altSignAddrBktK s = Ok (s1, h)"
      "putVersion B vsp altSignAddrVersion s1 = Ok s'"
    by (auto simp: altSignAddrUpgrade_def db_update_Ok outcome_simps)
  then have v: "rooted B s" "vsp = Some [vspBktK]"
    using vspBkt_cases [OF B a(1)] by (cases vsp; simp)+
  have "rooted B s1" using a(2) v rooted_ops(3) [OF B v(1)] by metis
  with putVersion_Version [OF B disk _ a(3) [unfolded v(2)]] show ?thesis
    by (simp add: version_defs)
qed

text \<open>The steps of the last upgrade, in the order they run.\<close>

lemma upgrade_v5_steps:
  assumes B: "bolt_ok B" and Ok: "xPubBucketUpgrade B s = Ok s'"
  obtains key idx s1 s2 s3 s4 where "rooted B s" "ents B s [vspBktK] ticketBktK = Some Sub"
    "bk_get B s [vspBktK] feeXPubK = Some key"
    "(case bk_get B s [vspBktK] lastAddressIndexK of None \<Rightarrow> Ok 0 | Some b \<Rightarrow> bytesToUint32 (Some b)) = Ok idx"
    "bk_delete B s [vspBktK] feeXPubK = Ok s1" "bk_delete B s1 [vspBktK] lastAddressIndexK = Ok s2"
    "insertFeeXPub B \<lparr>xID = 0, xKey = key, xLastUsedIdx = idx, xRetired = 0\<rparr> s2 = Ok s3"
    "runAll (\<lambda>k s. andThen (h_bucket B s (Some ticketPath) k) (\<lambda>bkt.
        h_put B bkt feeAddressXPubIDK (uint32ToBytes 0) s)) (bucketNames (bk_forEach B s3 ticketPath)) s3 = Ok s4"
    "putVersion B (Some [vspBktK]) xPubBucketVersion s4 = Ok s'"
proof -
  from Ok obtain vsp tb where a: "vspBkt B s = Ok vsp" "h_bucket B s vsp ticketBktK = Ok tb"
    by (auto simp: xPubBucketUpgrade_def db_update_Ok outcome_simps)
  then have v: "rooted B s" "vsp = Some [vspBktK]"
    using vspBkt_cases [OF B a(1)] by (cases vsp; simp)+
  have tb: "tb = Some ticketPath" "ents B s [vspBktK] ticketBktK = Some Sub"
    using a(2) v Ok a(1)
    by (auto simp: xPubBucketUpgrade_def db_update_Ok outcome_simps ticketPath_def bucket_ents [OF B]
        split: if_splits)
  from Ok a v tb that show ?thesis
    by (auto simp: xPubBucketUpgrade_def db_update_Ok outcome_simps str_def split: if_splits option.splits)
qed

lemma xpubPath_simps [simp]: "xpubPath \<noteq> []" "xpubPath \<noteq> [k]" "[] \<noteq> xpubPath" "[k] \<noteq> xpubPath"
  "ticketPath \<noteq> xpubPath" "xpubPath \<noteq> ticketPath" "ticketPath @ [h] \<noteq> xpubPath" "[vspBktK, xPubBktK] = xpubPath"
  by (simp_all add: xpubPath_def ticketPath_def key_defs)

text \<open>The first key of a database: the bucket is created with it.\<close>

lemma insertFeeXPub_first:
  assumes B: "bolt_ok B" and r: "rooted B s" and none: "ents B s [vspBktK] xPubBktK = None"
    and Ok: "insertFeeXPub B x s = Ok s'"
  shows "ents B s' = (ents B s)([vspBktK] := (ents B s [vspBktK])(xPubBktK \<mapsto> Sub),
    xpubPath := [uint32ToBytes (xID x) \<mapsto> Val (marshalXPub x)])"
proof -
  from Ok obtain s1 where c: "bk_create B s [vspBktK] xPubBktK = Ok s1"
    and p: "bk_put B s1 xpubPath (uint32ToBytes (xID x)) (marshalXPub x) = Ok s'"
    using none by (auto simp: insertFeeXPub_def vspBkt_rooted [OF B r] createIf_eq [OF B] outcome_simps)
  show ?thesis
    by (simp add: put_ents [OF B p] create_ents [OF B c])
qed

lemma first_xpub:
  assumes "ents B s xpubPath = [uint32ToBytes (xID x) \<mapsto> Val (marshalXPub x)]" "valid_utf8 (xKey x)" "buckets_ok B s"
  shows "xpubs_wf B s \<and> xpubs B s = [xID x \<mapsto> x]"
  using assms
  by (auto simp: xpubs_wf_def xpubs_def fun_eq_iff storedXPub_def marshal_roundtrip split: if_splits)

definition setXPubID :: "'s bolt \<Rightarrow> bytes \<Rightarrow> 's \<Rightarrow> 's outcome" where
  "setXPubID B k s = andThen (h_bucket B s (Some ticketPath) k) (\<lambda>bkt.
     h_put B bkt feeAddressXPubIDK (uint32ToBytes 0) s)"

lemma setXPubID_loop:
  assumes B: "bolt_ok B"
  shows "runAll (setXPubID B) ks s = Ok s' \<Longrightarrow> ents B s' q =
    (if \<exists>h \<in> set ks. q = ticketPath @ [h]
     then (ents B s q)(feeAddressXPubIDK \<mapsto> Val (uint32ToBytes 0)) else ents B s q)"
proof (induction ks arbitrary: s)
  case Nil
  then show ?case by simp
next
  case (Cons k ks)
  then obtain s1 where s1: "setXPubID B k s = Ok s1" "runAll (setXPubID B) ks s1 = Ok s'"
    by (auto simp: outcome_simps)
  have "bk_put B s (ticketPath @ [k]) feeAddressXPubIDK (uint32ToBytes 0) = Ok s1"
    using s1(1) by (auto simp: setXPubID_def outcome_simps split: if_splits)
  from put_ents [OF B this] Cons.IH [OF s1(2)] show ?case by auto
qed

section \<open>The upgrade to the current version\<close>

text \<open>
  A database of version 4: the buckets without the xpub bucket, and tickets without an xpub id.
  \<open>tickets4\<close> reads them as belonging to key 0.
\<close>

definition get4 :: "'s bolt \<Rightarrow> 's \<Rightarrow> string \<Rightarrow> bytes \<Rightarrow> bytes option" where
  "get4 B s h = (bk_get B s (ticketPath @ [h]))(feeAddressXPubIDK \<mapsto> uint32ToBytes 0)"

definition tickets4 :: "'s bolt \<Rightarrow> 's \<Rightarrow> string \<Rightarrow> ticket option" where
  "tickets4 B s h =
     (if ents B s ticketPath h = Some Sub then
        (case decodeTicket (get4 B s h) of Ok t \<Rightarrow> Some t | _ \<Rightarrow> None)
      else None)"

definition version4_wf :: "'s bolt \<Rightarrow> 's \<Rightarrow> bool" where
  "version4_wf B s \<longleftrightarrow> rooted B s \<and> ents B s [vspBktK] ticketBktK = Some Sub \<and>
     ents B s [vspBktK] voteChangeBktK = Some Sub \<and> ents B s [vspBktK] altSignAddrBktK = Some Sub \<and>
     ents B s [vspBktK] xPubBktK = None \<and> (\<forall>h v. ents B s ticketPath h \<noteq> Some (Val v)) \<and>
     (\<forall>h. ents B s ticketPath h = Some Sub \<longrightarrow>
        (\<forall>k. ents B s (ticketPath @ [h]) k \<noteq> Some Sub) \<and>
        (\<exists>t. decodeTicket (get4 B s h) = Ok t \<and> Hash t = h \<and> ticket_ok t \<and> stored_ticket t = t))"

lemma xPubBucketUpgrade_Ok:
  assumes B: "bolt_ok B" and disk: "disk_ok B" and wf: "version4_wf B s"
    and Ok: "xPubBucketUpgrade B s = Ok s'"
    and key: "\<And>k. bk_get B s [vspBktK] feeXPubK = Some k \<Longrightarrow> valid_utf8 k"
  obtains key idx where "bk_get B s [vspBktK] feeXPubK = Some key"
    "(case bk_get B s [vspBktK] lastAddressIndexK of None \<Rightarrow> Ok 0 | Some b \<Rightarrow> bytesToUint32 (Some b)) = Ok idx"
    "tickets_wf B s'" "tickets B s' = tickets4 B s" "xpubs_wf B s'"
    "xpubs B s' = [0 \<mapsto> \<lparr>xID = 0, xKey = key, xLastUsedIdx = idx, xRetired = 0\<rparr>]"
    "Version B s' = Ok 5"
proof -
  obtain key idx s1 s2 s3 s4 where st: "rooted B s" "ents B s [vspBktK] ticketBktK = Some Sub"
    "bk_get B s [vspBktK] feeXPubK = Some key"
    "(case bk_get B s [vspBktK] lastAddressIndexK of None \<Rightarrow> Ok 0 | Some b \<Rightarrow> bytesToUint32 (Some b)) = Ok idx"
    "bk_delete B s [vspBktK] feeXPubK = Ok s1" "bk_delete B s1 [vspBktK] lastAddressIndexK = Ok s2"
    "insertFeeXPub B \<lparr>xID = 0, xKey = key, xLastUsedIdx = idx, xRetired = 0\<rparr> s2 = Ok s3"
    "runAll (setXPubID B) (bucketNames (bk_forEach B s3 ticketPath)) s3 = Ok s4"
    "putVersion B (Some [vspBktK]) xPubBucketVersion s4 = Ok s'"
    unfolding setXPubID_def by (rule upgrade_v5_steps [OF B Ok])
  let ?x = "\<lparr>xID = 0, xKey = key, xLastUsedIdx = idx, xRetired = 0\<rparr>"
  let ?v = "(ents B s [vspBktK])(feeXPubK := None, lastAddressIndexK := None)"
  have e2: "ents B s2 = (ents B s)([vspBktK] := ?v)"
    by (simp add: delete_ents [OF B st(6)] delete_ents [OF B st(5)])
  have r2: "rooted B s2" using st(1) by (simp add: rooted_def e2)
  have none: "ents B s2 [vspBktK] xPubBktK = None"
    using wf by (simp add: e2 version4_wf_def)
  have e3: "ents B s3 = (ents B s2)([vspBktK] := ?v(xPubBktK \<mapsto> Sub),
      xpubPath := [uint32ToBytes 0 \<mapsto> Val (marshalXPub ?x)])"
    using insertFeeXPub_first [OF B r2 none st(7)] by (simp add: e2)
  have names: "set (bucketNames (bk_forEach B s3 ticketPath)) = {h. ents B s ticketPath h = Some Sub}"
    using set_bucketNames [OF B, of _ s3 ticketPath] by (auto simp: e3 e2)
  note e4 = setXPubID_loop [OF B st(8), unfolded names]
  have p: "bk_put B s4 [vspBktK] versionK (uint32ToBytes 5) = Ok s'"
    using st(9) by (simp add: putVersion_def outcome_simps version_defs)
  have e5: "ents B s' q = (if q = [vspBktK] then ?v(xPubBktK \<mapsto> Sub, versionK \<mapsto> Val (uint32ToBytes 5))
      else if q = xpubPath then [uint32ToBytes 0 \<mapsto> Val (marshalXPub ?x)]
      else if \<exists>h. ents B s ticketPath h = Some Sub \<and> q = ticketPath @ [h]
      then (ents B s q)(feeAddressXPubIDK \<mapsto> Val (uint32ToBytes 0)) else ents B s q)" for q
    unfolding put_ents [OF B p] by (auto simp: e4 e3 e2)
  have bk: "buckets_ok B s'"
    using wf by (simp add: buckets_ok_def e5 version4_wf_def rooted_def key_defs)
  have path: "ents B s' ticketPath = ents B s ticketPath" by (simp add: e5)
  have get: "bk_get B s' (ticketPath @ [h]) = get4 B s h" if "ents B s ticketPath h = Some Sub" for h
    using that by (auto simp: get_ents [OF B] get4_def e5 fun_eq_iff)
  have "(\<forall>k. ents B s' (ticketPath @ [h]) k \<noteq> Some Sub) \<and>
      (\<exists>t. decodeTicket (bk_get B s' (ticketPath @ [h])) = Ok t \<and> Hash t = h \<and> ticket_ok t \<and> stored_ticket t = t)"
    if h: "ents B s' ticketPath h = Some Sub" for h
    using wf h get [of h] unfolding path version4_wf_def by (simp add: e5)
  then have "tickets_wf B s'" using bk wf by (simp add: tickets_wf_def path version4_wf_def)
  moreover have "tickets B s' = tickets4 B s"
    by (auto simp: fun_eq_iff tickets_def tickets4_def path get)
  moreover have "xpubs_wf B s' \<and> xpubs B s' = [0 \<mapsto> ?x]"
    using first_xpub [of B s' ?x] key [OF st(3)] bk by (simp add: e5)
  moreover have "rooted B s4" using st(1) by (simp add: rooted_def e4 e3 e2)
  then have "Version B s' = Ok 5"
    using putVersion_Version [OF B disk _ st(9)] by (simp add: version_defs)
  ultimately show ?thesis using that st(3,4) by blast
qed

lemma upgrade_v5_version:
  assumes B: "bolt_ok B" and disk: "disk_ok B" and Ok: "xPubBucketUpgrade B s = Ok s'"
  shows "Version B s' = Ok 5"
proof -
  obtain key idx s1 s2 s3 s4 where st: "rooted B s"
    "bk_delete B s [vspBktK] feeXPubK = Ok s1" "bk_delete B s1 [vspBktK] lastAddressIndexK = Ok s2"
    "insertFeeXPub B \<lparr>xID = 0, xKey = key, xLastUsedIdx = idx, xRetired = 0\<rparr> s2 = Ok s3"
    "runAll (setXPubID B) (bucketNames (bk_forEach B s3 ticketPath)) s3 = Ok s4"
    "putVersion B (Some [vspBktK]) xPubBucketVersion s4 = Ok s'"
    unfolding setXPubID_def by (rule upgrade_v5_steps [OF B Ok])
  have r2: "rooted B s2"
    using st(1) by (simp add: rooted_def delete_ents [OF B st(3)] delete_ents [OF B st(2)])
  from st(4) obtain s25 h where "h_createIf B (Some [vspBktK]) xPubBktK s2 = Ok (s25, h)"
      "h_put B h (uint32ToBytes 0) (marshalXPub \<lparr>xID = 0, xKey = key, xLastUsedIdx = idx, xRetired = 0\<rparr>) s25 = Ok s3"
    by (auto simp: insertFeeXPub_def vspBkt_rooted [OF B r2] outcome_simps)
  moreover from this(1) have "h = Some [vspBktK, xPubBktK]" by (auto simp: outcome_simps)
  ultimately have "rooted B s3" using r2 rooted_ops [OF B] by metis
  then have "rooted B s4" using setXPubID_loop [OF B st(5), of "[]"] by (simp add: rooted_def)
  then show ?thesis
    using putVersion_Version [OF B disk _ st(6)] by (simp add: version_defs)
qed

section \<open>Runs of upgrades\<close>

lemmas upgrade_versions = upgrade_v2_version upgrade_v3_version upgrade_v4_version upgrade_v5_version

text \<open>
  A run that stops leaves the recorded version at the last upgrade that was committed, so the
  next run resumes there; a run that succeeds leaves the current version.
\<close>

lemma upgradeLoop_versions:
  assumes B: "bolt_ok B" and disk: "disk_ok B"
  shows "Version B s = Ok (of_nat cur) \<Longrightarrow> 1 \<le> cur \<Longrightarrow> cur \<le> 5 \<Longrightarrow>
    upgradeLoop (drop cur (upgrades B)) s = (s', r) \<Longrightarrow>
    \<exists>v. cur \<le> v \<and> v \<le> 5 \<and> Version B s' = Ok (of_nat v) \<and> (r = Ok () \<longrightarrow> v = 5)"
proof (induction "5 - cur" arbitrary: cur s)
  case 0
  then have "cur = 5" by simp
  with 0 show ?case by (auto simp: upgrades_def intro: exI [of _ 5])
next
  case (Suc n)
  then have cases: "cur = 1 \<or> cur = 2 \<or> cur = 3 \<or> cur = 4" by linarith
  then obtain u where u: "drop cur (upgrades B) = Some u # drop (Suc cur) (upgrades B)"
    "\<And>s s'. u s = Ok s' \<Longrightarrow> Version B s' = Ok (of_nat (Suc cur))"
    using upgrade_versions [OF B disk] by (auto simp: upgrades_def)
  show ?case
  proof (cases "u s")
    case (Ok s1)
    then have "upgradeLoop (drop (Suc cur) (upgrades B)) s1 = (s', r)"
      using Suc.prems(4) u(1) by simp
    moreover have "Version B s1 = Ok (of_nat (Suc cur))" using Ok by (rule u(2))
    ultimately obtain v where "Suc cur \<le> v" "v \<le> 5" "Version B s' = Ok (of_nat v)" "r = Ok () \<longrightarrow> v = 5"
      using Suc.hyps(1) [of "Suc cur" s1] Suc.hyps(2) Suc.prems by fastforce
    then show ?thesis by (intro exI [of _ v]) auto
  qed (use Suc.prems u(1) in auto)
qed

lemma Upgrade_version:
  assumes B: "bolt_ok B" and disk: "disk_ok B" and v: "Version B s = Ok cur" "1 \<le> unat cur"
    and run: "Upgrade B cur s = (s', r)"
  shows "\<exists>v. unat cur \<le> unat v \<and> Version B s' = Ok v \<and> (r = Ok () \<longrightarrow> v = 5)"
proof (cases "unat cur < 5")
  case True
  then have "upgradeLoop (drop (unat cur) (upgrades B)) s = (s', r)"
    using run by (simp add: Upgrade_def version_defs)
  then obtain v where v': "unat cur \<le> v" "v \<le> 5" "Version B s' = Ok (of_nat v)" "r = Ok () \<longrightarrow> v = 5"
    using upgradeLoop_versions [OF B disk, of s "unat cur" s' r] v True by auto
  moreover have "unat (of_nat v :: uint32) = v"
    using v'(2) by (simp add: unat_of_nat)
  ultimately show ?thesis by (intro exI [of _ "of_nat v"]) auto
next
  case False
  then have "s' = s \<and> (r = Ok () \<longrightarrow> unat cur = 5)"
    using run by (auto simp: Upgrade_def version_defs split: if_splits)
  moreover have "cur = 5" if "unat cur = 5"
    using that by (simp add: word_unat_eq_iff)
  ultimately show ?thesis using v by auto
qed

section \<open>A new database\<close>

lemma CreateNew_Ok:
  assumes B: "bolt_ok B" and disk: "disk_ok B" and empty: "\<And>p. ents B s p = Map.empty"
    and xpub: "valid_utf8 feeXPub" and Ok: "CreateNew B None (Ok seed) secret feeXPub s = Ok s'"
  shows "tickets_wf B s' \<and> tickets B s' = Map.empty \<and> votes_wf B s' \<and> (\<forall>h. voteHistory B s' h = []) \<and>
    alts_wf B s' \<and> altAddrs B s' = Map.empty \<and> xpubs_wf B s' \<and>
    xpubs B s' = [0 \<mapsto> \<lparr>xID = 0, xKey = feeXPub, xLastUsedIdx = 0, xRetired = 0\<rparr>] \<and>
    Version B s' = Ok 5 \<and> CookieSecret B s' = Ok (Some secret) \<and>
    (length seed = 32 \<longrightarrow> KeyPair B f s' = Ok (f seed))"
proof -
  let ?x = "\<lparr>xID = 0, xKey = feeXPub, xLastUsedIdx = 0, xRetired = 0\<rparr>"
  from Ok obtain s1 s2 s3 s4 s5 s6 s7 where st: "bk_create B s [] vspBktK = Ok s1"
    "bk_put B s1 [vspBktK] versionK (uint32ToBytes 5) = Ok s2" "bk_put B s2 [vspBktK] privateKeyK seed = Ok s3"
    "bk_put B s3 [vspBktK] cookieSecretK secret = Ok s4" "insertFeeXPub B ?x s4 = Ok s5"
    "bk_create B s5 [vspBktK] ticketBktK = Ok s6" "bk_create B s6 [vspBktK] voteChangeBktK = Ok s7"
    "bk_create B s7 [vspBktK] altSignAddrBktK = Ok s'"
    by (auto simp: CreateNew_def db_update_Ok outcome_simps version_defs)
  have e4: "ents B s4 = (\<lambda>_. Map.empty)([] := [vspBktK \<mapsto> Sub],
      [vspBktK] := [versionK \<mapsto> Val (uint32ToBytes 5), privateKeyK \<mapsto> Val seed, cookieSecretK \<mapsto> Val secret])"
    by (auto simp: put_ents [OF B st(4)] put_ents [OF B st(3)] put_ents [OF B st(2)] create_ents [OF B st(1)]
        empty fun_eq_iff)
  have r4: "rooted B s4" and none: "ents B s4 [vspBktK] xPubBktK = None"
    by (simp_all add: rooted_def e4 key_defs)
  note e5 = insertFeeXPub_first [OF B r4 none st(5)]
  have e: "ents B s' p = (if p = [] then [vspBktK \<mapsto> Sub]
      else if p = [vspBktK] then [versionK \<mapsto> Val (uint32ToBytes 5), privateKeyK \<mapsto> Val seed,
        cookieSecretK \<mapsto> Val secret, xPubBktK \<mapsto> Sub, ticketBktK \<mapsto> Sub, voteChangeBktK \<mapsto> Sub, altSignAddrBktK \<mapsto> Sub]
      else if p = xpubPath then [uint32ToBytes 0 \<mapsto> Val (marshalXPub ?x)] else Map.empty)" for p
    unfolding create_ents [OF B st(8)] create_ents [OF B st(7)] create_ents [OF B st(6)] e5 e4
    by (auto simp: xpubPath_def key_defs)
  have bk: "buckets_ok B s'" by (simp add: buckets_ok_def e key_defs)
  have vsp: "vspBkt B s' = Ok (Some [vspBktK])" by (simp add: vspBkt_def bucket_ents [OF B] e)
  have none: "ents B s' ticketPath = Map.empty" "ents B s' vcBktPath = Map.empty" "ents B s' altPath = Map.empty"
    by (simp_all add: e ticketPath_def vcBktPath_def altPath_def xpubPath_def key_defs)
  have "xpubs_wf B s' \<and> xpubs B s' = [0 \<mapsto> ?x]"
    using first_xpub [of B s' ?x] xpub bk by (simp add: e)
  moreover have "Version B s' = Ok 5"
    by (simp add: Version_def disk_ok_view [OF disk] vsp get_ents [OF B] e key_defs)
  moreover have "CookieSecret B s' = Ok (Some secret)"
    by (simp add: CookieSecret_def disk_ok_view [OF disk] vsp get_ents [OF B] e key_defs)
  moreover have "length seed = 32 \<longrightarrow> KeyPair B f s' = Ok (f seed)"
    by (simp add: KeyPair_def disk_ok_view [OF disk] vsp get_ents [OF B] e key_defs)
  ultimately show ?thesis
    using bk none
    by (simp add: tickets_wf_def tickets_def votes_wf_def alts_wf_def voteHistory_def voteLog_def
        altAddrs_def fun_eq_iff dom_def)
qed

end
