(* ===== verification/TicketQueries.thy ===== *)
theory TicketQueries
  imports TicketStore
begin

text \<open>
  The queries of \<open>database/ticket.go\<close> on a well-formed store: each \<open>Get...\<close> returns exactly the
  tickets its filter describes, each once; \<open>CountTickets\<close> partitions the tickets with a
  confirmed fee; \<open>EarliestPurchaseHeight\<close> is the least height of a confirmed ticket.
\<close>

section \<open>All tickets, in the order of the bucket\<close>

definition allTickets :: "'s bolt \<Rightarrow> 's \<Rightarrow> ticket list" where
  "allTickets B s = map (\<lambda>h. the (tickets B s h)) (bucketNames (bk_forEach B s ticketPath))"

lemma tickets_name:
  assumes "bolt_ok B" "tickets_wf B s" "h \<in> set (bucketNames (bk_forEach B s ticketPath))"
  obtains t where "tickets B s h = Some t" "Hash t = h" "ents B s ticketPath h = Some Sub"
    "decodeTicket (bk_get B s (ticketPath @ [h])) = Ok t"
  using assms tickets_wfD [OF assms(2)] set_bucketNames [OF assms(1)] by metis

lemma set_allTickets:
  assumes "bolt_ok B" "tickets_wf B s"
  shows "set (allTickets B s) = ran (tickets B s)"
proof -
  have "h \<in> set (bucketNames (bk_forEach B s ticketPath)) \<longleftrightarrow> tickets B s h \<noteq> None" for h
    using set_bucketNames [OF assms(1)] tickets_dom [OF assms(2)] by simp
  then show ?thesis
    by (auto simp: allTickets_def ran_def image_iff) (metis option.sel)+
qed

lemma map_Hash_allTickets:
  assumes "bolt_ok B" "tickets_wf B s"
  shows "map Hash (allTickets B s) = bucketNames (bk_forEach B s ticketPath)"
proof -
  have "Hash (the (tickets B s h)) = h" if "h \<in> set (bucketNames (bk_forEach B s ticketPath))" for h
    using that by (elim tickets_name [OF assms]) simp
  then show ?thesis by (simp add: allTickets_def map_idI)
qed

lemma distinct_allTickets:
  assumes "bolt_ok B" "tickets_wf B s"
  shows "distinct (map Hash (allTickets B s))"
  using assms by (simp add: map_Hash_allTickets distinct_bucketNames)

section \<open>Filters\<close>

text \<open>The fields a filter reads from the bucket are those of the decoded ticket.\<close>

lemma decode_reads:
  assumes "decodeTicket get = Ok t"
  shows "str (get feeTxStatusK) = FeeTxStatus t" "str (get outcomeK) = Outcome t"
    "bytesToBool (get confirmedK) = Ok (Confirmed t)"
    "bytesToInt64 (get purchaseHeightK) = Ok (PurchaseHeight t)"
  using assms by (auto simp: decodeTicket_def outcome_simps)

lemma filterLoop_spec:
  assumes B: "bolt_ok B" and wf: "tickets_wf B s"
    and f: "\<And>h t. tickets B s h = Some t \<Longrightarrow> f (Some (ticketPath @ [h])) = Ok (P t)"
  shows "set ks \<subseteq> set (bucketNames (bk_forEach B s ticketPath)) \<Longrightarrow>
    filterLoop B s (Some ticketPath) f ks acc = Ok (acc @ filter P (map (\<lambda>h. the (tickets B s h)) ks))"
proof (induction ks arbitrary: acc)
  case Nil
  then show ?case by simp
next
  case (Cons k ks)
  then have "k \<in> set (bucketNames (bk_forEach B s ticketPath))" by simp
  then obtain t where t: "tickets B s k = Some t" "ents B s ticketPath k = Some Sub"
      "decodeTicket (bk_get B s (ticketPath @ [k])) = Ok t"
    by (elim tickets_name [OF B wf])
  have "h_bucket B s (Some ticketPath) k = Ok (Some (ticketPath @ [k]))"
    using t(2) by (simp add: bucket_ents [OF B])
  with t f [OF t(1)] Cons show ?case by simp
qed

lemma filterTickets_spec:
  assumes B: "bolt_ok B" and disk: "disk_ok B" and wf: "tickets_wf B s"
    and f: "\<And>h t. tickets B s h = Some t \<Longrightarrow> decodeTicket (bk_get B s (ticketPath @ [h])) = Ok t
      \<Longrightarrow> f s (Some (ticketPath @ [h])) = Ok (P t)"
  shows "filterTickets B f s = Ok (filter P (allTickets B s))"
proof -
  have bk: "buckets_ok B s" using wf by (simp add: tickets_wf_def)
  have "f s (Some (ticketPath @ [h])) = Ok (P t)" if t: "tickets B s h = Some t" for h t
  proof (rule f [OF t])
    show "decodeTicket (bk_get B s (ticketPath @ [h])) = Ok t"
      using t by (auto simp: tickets_def split: if_splits outcome.splits)
  qed
  then have "filterLoop B s (Some ticketPath) (f s) (bucketNames (bk_forEach B s ticketPath)) []
      = Ok (filter P (allTickets B s))"
    using filterLoop_spec [OF B wf, of "f s" P _ "[]"] by (simp add: allTickets_def)
  then show ?thesis
    by (simp add: filterTickets_def disk_ok_view [OF disk] ticketBkt_ok [OF B bk])
qed

lemmas query_defs = isConfirmed_def fieldIs_def andAlso_def

lemma GetUnconfirmedTickets_spec:
  assumes "bolt_ok B" "disk_ok B" "tickets_wf B s"
  shows "GetUnconfirmedTickets B s = Ok (filter (\<lambda>t. \<not> Confirmed t) (allTickets B s))"
  unfolding GetUnconfirmedTickets_def
  by (rule filterTickets_spec [OF assms]) (simp add: query_defs decode_reads)

lemma GetPendingFees_spec:
  assumes "bolt_ok B" "disk_ok B" "tickets_wf B s"
  shows "GetPendingFees B s =
    Ok (filter (\<lambda>t. Confirmed t \<and> FeeTxStatus t = FeeReceieved) (allTickets B s))"
  unfolding GetPendingFees_def
  by (rule filterTickets_spec [OF assms]) (simp add: query_defs decode_reads)

lemma GetUnconfirmedFees_spec:
  assumes "bolt_ok B" "disk_ok B" "tickets_wf B s"
  shows "GetUnconfirmedFees B s = Ok (filter (\<lambda>t. FeeTxStatus t = FeeBroadcast) (allTickets B s))"
  unfolding GetUnconfirmedFees_def
  by (rule filterTickets_spec [OF assms]) (simp add: query_defs decode_reads)

lemma GetVotableTickets_spec:
  assumes "bolt_ok B" "disk_ok B" "tickets_wf B s"
  shows "GetVotableTickets B s =
    Ok (filter (\<lambda>t. FeeTxStatus t = FeeConfirmed \<and> Outcome t = []) (allTickets B s))"
  unfolding GetVotableTickets_def
  by (rule filterTickets_spec [OF assms]) (simp add: query_defs decode_reads)

lemma GetVotedTickets_spec:
  assumes "bolt_ok B" "disk_ok B" "tickets_wf B s"
  shows "GetVotedTickets B s =
    Ok (filter (\<lambda>t. FeeTxStatus t = FeeConfirmed \<and> Outcome t = Voted) (allTickets B s))"
  unfolding GetVotedTickets_def
  by (rule filterTickets_spec [OF assms]) (simp add: query_defs decode_reads)

lemma GetRevokedTickets_spec:
  assumes "bolt_ok B" "disk_ok B" "tickets_wf B s"
  shows "GetRevokedTickets B s = Ok (filter (\<lambda>t. Outcome t = Revoked) (allTickets B s))"
  unfolding GetRevokedTickets_def
  by (rule filterTickets_spec [OF assms]) (simp add: query_defs decode_reads)

lemma GetMissedTickets_spec:
  assumes "bolt_ok B" "disk_ok B" "tickets_wf B s"
  shows "GetMissedTickets B s = Ok (filter (\<lambda>t. Outcome t = Missed) (allTickets B s))"
  unfolding GetMissedTickets_def
  by (rule filterTickets_spec [OF assms]) (simp add: query_defs decode_reads)

lemma GetMissingPurchaseHeight_spec:
  assumes "bolt_ok B" "disk_ok B" "tickets_wf B s"
  shows "GetMissingPurchaseHeight B s =
    Ok (filter (\<lambda>t. Confirmed t \<and> PurchaseHeight t = 0) (allTickets B s))"
  unfolding GetMissingPurchaseHeight_def
  by (rule filterTickets_spec [OF assms]) (simp add: query_defs decode_reads)

lemma GetTicketByHash_spec:
  assumes B: "bolt_ok B" and disk: "disk_ok B" and wf: "tickets_wf B s"
  shows "GetTicketByHash B h s =
    Ok (case tickets B s h of None \<Rightarrow> (zeroTicket, False) | Some t \<Rightarrow> (t, True))"
proof -
  have bk: "buckets_ok B s" using wf by (simp add: tickets_wf_def)
  show ?thesis
  proof (cases "ents B s ticketPath h = Some Sub")
    case True
    with wf obtain t where "decodeTicket (bk_get B s (ticketPath @ [h])) = Ok t" "tickets B s h = Some t"
      by (rule tickets_wfD)
    with True show ?thesis
      by (simp add: GetTicketByHash_def disk_ok_view [OF disk] ticketBkt_ok [OF B bk] bucket_ents [OF B])
  next
    case False
    then show ?thesis
      by (simp add: GetTicketByHash_def disk_ok_view [OF disk] ticketBkt_ok [OF B bk] bucket_ents [OF B]
          tickets_def)
  qed
qed

section \<open>Counting\<close>

definition feePaidUp :: "ticket \<Rightarrow> bool" where
  "feePaidUp t \<longleftrightarrow> FeeTxStatus t = FeeConfirmed"

definition tally :: "(ticket \<Rightarrow> bool) \<Rightarrow> ticket list \<Rightarrow> int64" where
  "tally P ts = of_nat (length (filter P ts))"

definition tallies :: "ticket list \<Rightarrow> counts" where
  "tallies ts = \<lparr>
     cVoting = tally (\<lambda>t. feePaidUp t \<and> Outcome t \<notin> {Voted, Expired, Missed, Revoked}) ts,
     cVoted = tally (\<lambda>t. feePaidUp t \<and> Outcome t = Voted) ts,
     cExpired = tally (\<lambda>t. feePaidUp t \<and> Outcome t \<in> {Expired, Revoked}) ts,
     cMissed = tally (\<lambda>t. feePaidUp t \<and> Outcome t = Missed) ts\<rparr>"

lemma tallies_snoc: "tallies (ts @ [t]) = countOne (FeeTxStatus t) (Outcome t) (tallies ts)"
  by (auto simp: tallies_def tally_def countOne_def feePaidUp_def outcome_defs)

lemma countLoop_spec:
  assumes B: "bolt_ok B" and wf: "tickets_wf B s"
  shows "set ks \<subseteq> set (bucketNames (bk_forEach B s ticketPath)) \<Longrightarrow>
    countLoop B s (Some ticketPath) ks (tallies acc)
      = Ok (tallies (acc @ map (\<lambda>h. the (tickets B s h)) ks))"
proof (induction ks arbitrary: acc)
  case Nil
  then show ?case by simp
next
  case (Cons k ks)
  then have "k \<in> set (bucketNames (bk_forEach B s ticketPath))" by simp
  then obtain t where t: "tickets B s k = Some t" "ents B s ticketPath k = Some Sub"
      "decodeTicket (bk_get B s (ticketPath @ [k])) = Ok t"
    by (elim tickets_name [OF B wf])
  have "h_bucket B s (Some ticketPath) k = Ok (Some (ticketPath @ [k]))"
    using t(2) by (simp add: bucket_ents [OF B])
  with t Cons.IH [of "acc @ [t]"] Cons.prems show ?case
    by (simp add: decode_reads tallies_snoc)
qed

lemma CountTickets_spec:
  assumes B: "bolt_ok B" and disk: "disk_ok B" and wf: "tickets_wf B s"
  shows "CountTickets B s = Ok (tallies (allTickets B s))"
proof -
  have bk: "buckets_ok B s" using wf by (simp add: tickets_wf_def)
  have zero: "\<lparr>cVoting = 0, cVoted = 0, cExpired = 0, cMissed = 0\<rparr> = tallies []"
    by (simp add: tallies_def tally_def)
  show ?thesis
    using countLoop_spec [OF B wf subset_refl, of "[]"]
    by (simp add: CountTickets_def disk_ok_view [OF disk] ticketBkt_ok [OF B bk] zero allTickets_def)
qed

lemma tallies_total:
  "cVoting (tallies ts) + cVoted (tallies ts) + cExpired (tallies ts) + cMissed (tallies ts)
    = tally feePaidUp ts"
proof (induction ts rule: rev_induct)
  case Nil
  show ?case by (simp add: tallies_def tally_def)
next
  case (snoc t ts)
  then show ?case
    by (simp add: tallies_snoc countOne_def) (auto simp: tally_def feePaidUp_def algebra_simps)
qed

section \<open>Earliest purchase height\<close>

lemma earliestLoop_least:
  assumes "\<And>t. t \<in> set ts \<Longrightarrow> 0 \<le> sint (PurchaseHeight t)" "0 \<le> sint acc"
  shows "earliestLoop acc ts =
    (let hs = filter (\<lambda>h. h \<noteq> 0) (acc # map PurchaseHeight ts)
     in if hs = [] then 0 else of_int (Min (sint ` set hs)))"
  using assms
proof (induction ts arbitrary: acc)
  case Nil
  then show ?case by simp
next
  case (Cons t ts)
  let ?h = "PurchaseHeight t"
  show ?case
  proof (cases "?h = 0")
    case True
    then show ?thesis using Cons by simp
  next
    case False
    show ?thesis
    proof (cases "acc = 0")
      case True
      with False show ?thesis using Cons.IH [of ?h] Cons.prems by simp
    next
      case acc: False
      have fin: "finite (sint ` set (filter (\<lambda>h. h \<noteq> 0) (map PurchaseHeight ts)))" by simp
      define R where "R = sint ` set (filter (\<lambda>h. h \<noteq> 0) (map PurchaseHeight ts))"
      have "earliestLoop acc (t # ts) = of_int (Min (insert (min (sint acc) (sint ?h)) R))"
        using Cons.IH [of ?h] Cons.IH [of acc] Cons.prems False acc
        by (auto simp: Let_def R_def min_def)
      moreover have "Min (insert (min (sint acc) (sint ?h)) R) = Min (insert (sint acc) (insert (sint ?h) R))"
        using fin unfolding R_def [symmetric]
        by (cases "R = {}") (simp_all add: min.assoc)
      ultimately show ?thesis
        using False acc by (simp add: Let_def R_def)
    qed
  qed
qed

end
