(* ===== verification/Demo.thy ===== *)
theory Demo
  imports Migration TicketQueries
begin

text \<open>
  When the operations succeed, and a concrete database on the reference store, created by
  \<open>CreateNew\<close>, with concrete tickets: the inputs of the witnesses.
\<close>

section \<open>Success\<close>

lemma putTicketInBucket_succeeds:
  assumes "bolt_ok B" "is_bkt B s p" "\<And>k. ents B s p k \<noteq> Some Sub"
    and "\<And>k v. (k, v) \<in> set (ticketFields t) \<Longrightarrow> val_ok v"
  shows "\<exists>s'. putTicketInBucket B (Some p) t s = Ok s'"
  unfolding putTicketInBucket_def
  by (rule h_puts_succeeds [OF assms(1,2)]) (use assms ticketFields_key_ok in blast)

lemma InsertNewTicket_succeeds:
  assumes B: "bolt_ok B" and disk: "disk_ok B" and wf: "tickets_wf B s"
    and new: "tickets B s (Hash t) = None" "key_ok (Hash t)"
    and small: "\<And>k v. (k, v) \<in> set (ticketFields t) \<Longrightarrow> val_ok v"
  shows "\<exists>s'. InsertNewTicket B t s = Ok s'"
proof -
  have bk: "buckets_ok B s" using wf by (simp add: tickets_wf_def)
  have "is_bkt B s ticketPath"
    using bk by (simp add: is_bkt_def ticketPath_def buckets_ok_def)
  then obtain s1 where s1: "bk_create B s ticketPath (Hash t) = Ok s1"
    using create_succeeds [OF B _ new(2)] new(1) tickets_None [OF wf] by blast
  note e = create_ents [OF B s1]
  have "\<exists>s'. putTicketInBucket B (Some (ticketPath @ [Hash t])) t s1 = Ok s'"
    by (rule putTicketInBucket_succeeds [OF B]) (simp_all add: is_bkt_def e small)
  with s1 show ?thesis
    by (auto simp: InsertNewTicket_def disk_ok_update [OF disk] ticketBkt_ok [OF B bk])
qed

lemma UpdateTicket_succeeds:
  assumes B: "bolt_ok B" and disk: "disk_ok B" and wf: "tickets_wf B s"
    and known: "tickets B s (Hash t) \<noteq> None"
    and small: "\<And>k v. (k, v) \<in> set (ticketFields t) \<Longrightarrow> val_ok v"
  shows "\<exists>s'. UpdateTicket B t s = Ok s'"
proof -
  have bk: "buckets_ok B s" using wf by (simp add: tickets_wf_def)
  have sub: "ents B s ticketPath (Hash t) = Some Sub"
    using known tickets_dom [OF wf] by simp
  have "\<exists>s'. putTicketInBucket B (Some (ticketPath @ [Hash t])) t s = Ok s'"
  proof (rule putTicketInBucket_succeeds [OF B])
    show "is_bkt B s (ticketPath @ [Hash t])" using sub by (simp add: is_bkt_def)
    show "ents B s (ticketPath @ [Hash t]) k \<noteq> Some Sub" for k
      using wf sub by (simp add: tickets_wf_def)
  qed (rule small)
  then show ?thesis
    by (simp add: UpdateTicket_def disk_ok_update [OF disk] ticketBkt_ok [OF B bk] bucket_ents [OF B] sub)
qed

lemma CreateNew_succeeds:
  assumes B: "bolt_ok B" and disk: "disk_ok B" and empty: "\<And>p. ents B s p = Map.empty"
    and small: "val_ok seed" "val_ok secret"
      "val_ok (marshalXPub \<lparr>xID = 0, xKey = feeXPub, xLastUsedIdx = 0, xRetired = 0\<rparr>)"
  shows "\<exists>s'. CreateNew B None (Ok seed) secret feeXPub s = Ok s'"
proof -
  let ?x = "\<lparr>xID = 0, xKey = feeXPub, xLastUsedIdx = 0, xRetired = 0\<rparr>"
  have keys: "key_ok vspBktK" "key_ok versionK" "key_ok privateKeyK" "key_ok cookieSecretK" "key_ok xPubBktK"
    "key_ok ticketBktK" "key_ok voteChangeBktK" "key_ok altSignAddrBktK" "key_ok (uint32ToBytes 0)"
    by (simp_all add: key_ok_def key_defs)
  have v5: "val_ok (uint32ToBytes 5)" by (simp add: val_ok_def)
  obtain s1 where s1: "bk_create B s [] vspBktK = Ok s1"
    using create_succeeds [OF B, of "[]" s vspBktK] empty keys by auto
  note e1 = create_ents [OF B s1]
  have r1: "is_bkt B s1 [vspBktK]" by (simp add: is_bkt_def e1)
  obtain s2 where s2: "bk_put B s1 [vspBktK] versionK (uint32ToBytes 5) = Ok s2"
    using put_succeeds [OF B r1, of versionK] keys v5 e1 by auto
  note e2 = put_ents [OF B s2, unfolded e1]
  have r2: "is_bkt B s2 [vspBktK]" by (simp add: is_bkt_def e2)
  obtain s3 where s3: "bk_put B s2 [vspBktK] privateKeyK seed = Ok s3"
    using put_succeeds [OF B r2, of privateKeyK] keys small e2 by (auto simp: key_defs)
  note e3 = put_ents [OF B s3, unfolded e2]
  have r3: "is_bkt B s3 [vspBktK]" by (simp add: is_bkt_def e3)
  obtain s4 where s4: "bk_put B s3 [vspBktK] cookieSecretK secret = Ok s4"
    using put_succeeds [OF B r3, of cookieSecretK] keys small e3 by (auto simp: key_defs)
  note e4 = put_ents [OF B s4, unfolded e3]
  have r4: "is_bkt B s4 [vspBktK]" "rooted B s4" by (simp_all add: is_bkt_def rooted_def e4)
  have none: "ents B s4 [vspBktK] xPubBktK = None" by (simp add: e4 key_defs)
  obtain c where c: "bk_create B s4 [vspBktK] xPubBktK = Ok c"
    using create_succeeds [OF B disjI2 [OF r4(1)] _ none] keys by blast
  have "is_bkt B c xpubPath" by (simp add: is_bkt_def create_ents [OF B c] xpubPath_def del: xpubPath_simps)
  then obtain s5 where "bk_put B c xpubPath (uint32ToBytes 0) (marshalXPub ?x) = Ok s5"
    using put_succeeds [OF B, of c xpubPath "uint32ToBytes 0" "marshalXPub ?x"] keys small
    by (auto simp: create_ents [OF B c])
  with c none have s5: "insertFeeXPub B ?x s4 = Ok s5"
    by (simp add: insertFeeXPub_def vspBkt_rooted [OF B r4(2)] createIf_eq [OF B])
  note e5 = insertFeeXPub_first [OF B r4(2) none s5, unfolded e4]
  have r5: "is_bkt B s5 [vspBktK]" by (simp add: is_bkt_def e5)
  obtain s6 where s6: "bk_create B s5 [vspBktK] ticketBktK = Ok s6"
    using create_succeeds [OF B disjI2 [OF r5], of ticketBktK] keys by (auto simp: e5 key_defs)
  note e6 = create_ents [OF B s6]
  have r6: "is_bkt B s6 [vspBktK]" using r5 by (simp add: is_bkt_def e6)
  obtain s7 where s7: "bk_create B s6 [vspBktK] voteChangeBktK = Ok s7"
    using create_succeeds [OF B disjI2 [OF r6], of voteChangeBktK] keys by (auto simp: e6 e5 key_defs)
  note e7 = create_ents [OF B s7]
  have r7: "is_bkt B s7 [vspBktK]" using r6 by (simp add: is_bkt_def e7)
  obtain s8 where "bk_create B s7 [vspBktK] altSignAddrBktK = Ok s8"
    using create_succeeds [OF B disjI2 [OF r7], of altSignAddrBktK] keys by (auto simp: e7 e6 e5 key_defs)
  with s1 s2 s3 s4 s5 s6 s7 show ?thesis
    by (simp add: CreateNew_def disk_ok_update [OF disk] version_defs)
qed

lemma insertFeeXPub_succeeds:
  assumes B: "bolt_ok B" and wf: "xpubs_wf B s" and small: "val_ok (marshalXPub x)"
  shows "\<exists>s'. insertFeeXPub B x s = Ok s'"
proof -
  have bk: "ents B s [] vspBktK = Some Sub" "ents B s [vspBktK] xPubBktK = Some Sub"
    using wf by (simp_all add: xpubs_wf_def buckets_ok_def)
  have "is_bkt B s xpubPath" unfolding is_bkt_def using bk by (simp add: xpubPath_def del: xpubPath_simps)
  moreover have "key_ok (uint32ToBytes (xID x))"
    by (simp add: key_ok_def)
  moreover have "ents B s xpubPath k \<noteq> Some Sub" for k
    using wf by (auto simp: xpubs_wf_def storedXPub_def)
  ultimately have "\<exists>s'. bk_put B s xpubPath (uint32ToBytes (xID x)) (marshalXPub x) = Ok s'"
    using put_succeeds [OF B] small by blast
  then show ?thesis
    using bk by (auto simp: insertFeeXPub_def vspBkt_def bucket_ents [OF B] createIf_eq [OF B])
qed

lemma SaveVoteChange_succeeds:
  assumes B: "bolt_ok B" and disk: "disk_ok B" and wf: "votes_wf B s" and h: "key_ok h"
    and small: "val_ok (marshalVoteChange r)"
  shows "\<exists>s'. SaveVoteChange B n h r s = Ok s'"
proof -
  let ?p = "vcBktPath @ [h]"
  have bk: "buckets_ok B s" using wf by (simp add: votes_wf_def)
  have vc: "childBkt B voteChangeBktK s = Ok (Some vcBktPath)" "is_bkt B s vcBktPath"
    using bk by (simp_all add: childBkt_ok [OF B] buckets_ok_def vcBktPath_def is_bkt_def)
  obtain s1 where s1: "bk_createIf B s vcBktPath h = Ok s1" "is_bkt B s1 ?p"
      "\<forall>k e. ents B s1 ?p k = Some e \<longrightarrow> (\<exists>i r. k = uint32ToBytes i \<and> e = Val (marshalVoteChange r))"
  proof (cases "ents B s vcBktPath h")
    case None
    then obtain s1 where "bk_create B s vcBktPath h = Ok s1"
      using create_succeeds [OF B disjI2 [OF vc(2)] h] by blast
    with None that show ?thesis
      by (simp add: createIf_eq [OF B] create_ents [OF B] is_bkt_def)
  next
    case (Some e)
    with wf have "e = Sub" by (cases e) (auto simp: votes_wf_def)
    with Some that [of s] wf show ?thesis
      by (simp add: createIf_eq [OF B] is_bkt_def votes_wf_def)
  qed
  obtain rs where rs: "bk_forEach B s1 ?p = map storedVC rs" "distinct (map fst rs)"
    using s1(3) by (rule vc_entries [OF B])
  obtain c hi lo where scan: "scanKeys (map storedVC rs) (0, 0, -1) = Ok (c, hi, lo)"
    using scanKeys_stored [of rs 0 0 "-1"] by blast
  have noSub: "ents B s1 ?p k \<noteq> Some Sub" for k using s1(3) by fastforce
  obtain s2 where s2: "(if n \<le> c then wrapErr ''failed to delete old vote change record''
      (bk_delete B s1 ?p (uint32ToBytes lo)) else Ok s1) = Ok s2"
    using delete_succeeds [OF B s1(2)] noSub by (cases "n \<le> c") (auto simp: outcome_simps)
  have d: "s2 = s1 \<or> ents B s2 = (ents B s1)(?p := (ents B s1 ?p)(uint32ToBytes lo := None))"
    using s2 delete_ents [OF B, of s1 ?p "uint32ToBytes lo" s2] by (auto simp: outcome_simps split: if_splits)
  have "is_bkt B s2 ?p" using d s1(2) by (auto simp: is_bkt_def)
  moreover have "ents B s2 ?p k \<noteq> Some Sub" for k using d noSub by (auto split: if_splits)
  moreover have "key_ok (uint32ToBytes i)" for i
    by (simp add: key_ok_def)
  ultimately obtain s' where
      "bk_put B s2 ?p (uint32ToBytes (if c > 0 then hi + 1 else 0)) (marshalVoteChange r) = Ok s'"
    using put_succeeds [OF B] small by blast
  then show ?thesis
    using s2 by (auto simp: SaveVoteChange_def disk_ok_update [OF disk] vc s1(1) rs(1) scan Let_def split: if_splits)
qed

lemma InsertAltSignAddr_succeeds:
  assumes B: "bolt_ok B" and disk: "disk_ok B" and wf: "alts_wf B s" and h: "key_ok h"
    and none: "altAddrs B s h = None" and small: "\<And>k v. (k, v) \<in> set (altFields d) \<Longrightarrow> v \<noteq> [] \<and> val_ok v"
  shows "\<exists>s'. InsertAltSignAddr B h (Some d) s = Ok s'"
proof -
  have bk: "buckets_ok B s" using wf by (simp add: alts_wf_def)
  have "is_bkt B s altPath" using bk by (simp add: is_bkt_def altPath_def buckets_ok_def)
  moreover have "ents B s altPath h = None"
    using wf none by (cases "ents B s altPath h"; cases "the (ents B s altPath h)") (auto simp: alts_wf_def altAddrs_def)
  ultimately obtain s1 where s1: "bk_create B s altPath h = Ok s1"
    using create_succeeds [OF B disjI2 h] by blast
  have "key_ok k" if "(k, v) \<in> set (altFields d)" for k v
    using that by (auto simp: altFields_def key_ok_def key_defs)
  then have "\<exists>s'. h_puts B (Some (altPath @ [h])) (altFields d) s1 = Ok s'"
    using small by (intro h_puts_succeeds [OF B]) (simp_all add: is_bkt_def create_ents [OF B s1])
  moreover have "AltSignAddr d \<noteq> [] \<and> Req d \<noteq> [] \<and> ReqSig d \<noteq> [] \<and> Resp d \<noteq> [] \<and> RespSig d \<noteq> []"
    using small by (auto simp: altFields_def)
  ultimately show ?thesis
    by (simp add: InsertAltSignAddr_def disk_ok_update [OF disk] altBkt_ok [OF B bk] s1)
qed

section \<open>A concrete database\<close>

definition demo_seed :: bytes where
  "demo_seed = replicate 32 (CHR ''s'')"

definition demo_db :: flat where
  "demo_db = (case CreateNew ref_bolt None (Ok demo_seed) ''secret'' ''xpub0'' [] of Ok s \<Rightarrow> s | _ \<Rightarrow> [])"

lemma demo_created: "CreateNew ref_bolt None (Ok demo_seed) ''secret'' ''xpub0'' [] = Ok demo_db"
proof -
  have "val_ok (marshalXPub \<lparr>xID = 0, xKey = ''xpub0'', xLastUsedIdx = 0, xRetired = 0\<rparr>)"
    by (simp add: val_ok_def marshalXPub_def object_text_def quote_def dec_of_int_def dec_of_nat.simps
        rune_len.simps lead_len_def in_range_def quote_ascii_def Let_def)
  then have "\<exists>s'. CreateNew ref_bolt None (Ok demo_seed) ''secret'' ''xpub0'' [] = Ok s'"
    by (intro CreateNew_succeeds) (simp_all add: flat_ents val_ok_def demo_seed_def fun_eq_iff)
  then show ?thesis by (auto simp: demo_db_def)
qed

lemma demo_valid: "valid_utf8 ''xpub0''"
  by (rule ascii_valid) simp

lemma flat_empty: "ents ref_bolt [] p = Map.empty"
  by (simp add: flat_ents fun_eq_iff)

lemmas demo_state =
  CreateNew_Ok [OF ref_bolt_ok ref_disk_ok flat_empty demo_valid demo_created, where f = "\<lambda>x. x"]

text \<open>A database of version 4 without tickets.\<close>

definition demo4 :: flat where
  "demo4 = [(([], vspBktK), Sub), (([vspBktK], ticketBktK), Sub), (([vspBktK], voteChangeBktK), Sub),
     (([vspBktK], altSignAddrBktK), Sub), (([vspBktK], versionK), Val (uint32ToBytes 4)),
     (([vspBktK], feeXPubK), Val ''xpub0'')]"


lemma demo4_upgrades: "\<exists>s'. xPubBucketUpgrade ref_bolt demo4 = Ok s'"
  by (simp add: xPubBucketUpgrade_def ref_bolt_def demo4_def db_update_def vspBkt_def key_defs
      flat_delete_def flat_put_def flat_create_def flat_createIf_def flat_is_bkt_def putVersion_def
      version_defs insertFeeXPub_def flat_forEach_def flat_keys_def bucketNames_def key_ok_def val_ok_def
      str_def marshalXPub_def object_text_def quote_def dec_of_int_def dec_of_nat.simps
      rune_len.simps lead_len_def in_range_def quote_ascii_def Let_def bytesToUint32_def)

lemma demo4_wf: "version4_wf ref_bolt demo4"
  by (simp add: version4_wf_def rooted_def flat_ents demo4_def key_defs ticketPath_def)

lemma demo4_version: "Version ref_bolt demo4 = Ok 4"
  by (simp add: Version_def disk_ok_view vspBkt_def) (simp add: demo4_def key_defs ref_bolt_def)

end
