(* ===== verification/DatabaseProps.thy ===== *)
theory DatabaseProps
  imports Demo
begin

text \<open>
  The properties of the database package, each with a witness on the database \<open>CreateNew\<close>
  makes on the reference store.
\<close>

section \<open>Inputs of the witnesses\<close>

definition demo_ticket :: ticket where
  "demo_ticket = zeroTicket\<lparr>Hash := ''aa'', PurchaseHeight := 5, FeeAmount := 7, Confirmed := True,
     FeeTxStatus := FeeConfirmed\<rparr>"

lemma demo_wf: "tickets_wf ref_bolt demo_db" "tickets ref_bolt demo_db = Map.empty"
    "votes_wf ref_bolt demo_db" "voteHistory ref_bolt demo_db h = []"
    "alts_wf ref_bolt demo_db" "altAddrs ref_bolt demo_db = Map.empty" "xpubs_wf ref_bolt demo_db"
    "xpubs ref_bolt demo_db = [0 \<mapsto> \<lparr>xID = 0, xKey = ''xpub0'', xLastUsedIdx = 0, xRetired = 0\<rparr>]"
  using demo_state by simp_all

lemma demo_ticket_ok: "ticket_ok demo_ticket" "stored_ticket demo_ticket = demo_ticket
    \<lparr>VoteChoices := Some [], TSpendPolicy := Some [], TreasuryPolicy := Some []\<rparr>"
  by (simp_all add: ticket_ok_def demo_ticket_def zeroTicket_def strmap_ok_def gomap_ok_def entries_def
      stored_ticket_def stored_map_def)

lemma demo_ticket_small: "(k, v) \<in> set (ticketFields demo_ticket) \<Longrightarrow> val_ok v"
  by (auto simp: ticketFields_def demo_ticket_def zeroTicket_def val_ok_def FeeConfirmed_def
      stringMapToBytes_def boolToBytes_def)

definition demo_ins :: flat where
  "demo_ins = (case InsertNewTicket ref_bolt demo_ticket demo_db of Ok s \<Rightarrow> s | _ \<Rightarrow> [])"

lemma demo_inserted: "InsertNewTicket ref_bolt demo_ticket demo_db = Ok demo_ins"
proof -
  have "key_ok (Hash demo_ticket)" by (simp add: demo_ticket_def key_ok_def)
  then have "\<exists>s'. InsertNewTicket ref_bolt demo_ticket demo_db = Ok s'"
    by (intro InsertNewTicket_succeeds [OF ref_bolt_ok ref_disk_ok demo_wf(1)])
       (auto simp: demo_wf demo_ticket_small)
  then show ?thesis by (auto simp: demo_ins_def)
qed

lemma demo_ins_wf: "tickets_wf ref_bolt demo_ins"
    "tickets ref_bolt demo_ins = [''aa'' \<mapsto> stored_ticket demo_ticket]"
  using tdb.ins_Ok [OF ref_bolt_ok demo_wf(1) demo_ticket_ok(1) demo_inserted]
  by (simp_all add: demo_wf) (simp add: demo_ticket_def)

lemma demo_hash [simp]: "Hash demo_ticket = ''aa''"
  by (simp add: demo_ticket_def)

definition demo_update :: ticket where
  "demo_update = demo_ticket\<lparr>Outcome := Voted\<rparr>"

lemma demo_update_ok: "ticket_ok demo_update" "Hash demo_update = ''aa''"
  using demo_ticket_ok(1) by (simp_all add: demo_update_def ticket_ok_def)

definition demo_upd :: flat where
  "demo_upd = (case UpdateTicket ref_bolt demo_update demo_ins of Ok s \<Rightarrow> s | _ \<Rightarrow> [])"

lemma demo_updated: "UpdateTicket ref_bolt demo_update demo_ins = Ok demo_upd"
proof -
  have "val_ok v" if "(k, v) \<in> set (ticketFields demo_update)" for k v
    using that by (auto simp: ticketFields_def demo_update_def demo_ticket_def zeroTicket_def val_ok_def
        FeeConfirmed_def Voted_def stringMapToBytes_def boolToBytes_def)
  then have "\<exists>s'. UpdateTicket ref_bolt demo_update demo_ins = Ok s'"
    by (intro UpdateTicket_succeeds [OF ref_bolt_ok ref_disk_ok demo_ins_wf(1)])
       (auto simp: demo_ins_wf demo_update_ok)
  then show ?thesis by (auto simp: demo_upd_def)
qed

lemma demo_active: "FeeXPub ref_bolt demo_db = Ok \<lparr>xID = 0, xKey = ''xpub0'', xLastUsedIdx = 0, xRetired = 0\<rparr>"
proof -
  obtain x where x: "FeeXPub ref_bolt demo_db = Ok x" "xpubs ref_bolt demo_db (xID x) = Some x"
    by (rule FeeXPub_Ok [OF ref_bolt_ok ref_disk_ok demo_wf(7)])
  from x(2) have "x = \<lparr>xID = 0, xKey = ''xpub0'', xLastUsedIdx = 0, xRetired = 0\<rparr>"
    unfolding demo_wf(8) by (auto split: if_splits)
  with x(1) show ?thesis by simp
qed

lemmas marshal_eval = val_ok_def marshalXPub_def marshalVoteChange_def object_text_def quote_def
  dec_of_int_def dec_of_nat.simps rune_len.simps lead_len_def in_range_def quote_ascii_def Let_def

lemma demo_sets_index: "\<exists>s'. SetLastAddressIndex ref_bolt 7 demo_db = Ok s'"
proof -
  have "val_ok (marshalXPub \<lparr>xID = 0, xKey = ''xpub0'', xLastUsedIdx = 7, xRetired = 0\<rparr>)"
    by (simp add: marshal_eval)
  then show ?thesis
    using insertFeeXPub_succeeds [OF ref_bolt_ok demo_wf(7)]
    by (simp add: SetLastAddressIndex_def demo_active disk_ok_update)
qed

lemma demo_retires: "\<exists>s'. RetireXPub ref_bolt 99 ''xpub1'' demo_db = Ok s'"
proof -
  let ?old = "\<lparr>xID = 0, xKey = ''xpub0'', xLastUsedIdx = 0, xRetired = 99\<rparr>"
  let ?new = "\<lparr>xID = 1, xKey = ''xpub1'', xLastUsedIdx = 0, xRetired = 0\<rparr>"
  have small: "val_ok (marshalXPub ?old)" "val_ok (marshalXPub ?new)" by (simp_all add: marshal_eval)
  obtain s1 where s1: "insertFeeXPub ref_bolt ?old demo_db = Ok s1"
    using insertFeeXPub_succeeds [OF ref_bolt_ok demo_wf(7) small(1)] by blast
  have "xpubs_wf ref_bolt s1"
    using insertFeeXPub_Ok [OF ref_bolt_ok demo_wf(7) _ s1] demo_valid by simp
  then obtain s2 where s2: "insertFeeXPub ref_bolt ?new s1 = Ok s2"
    using insertFeeXPub_succeeds [OF ref_bolt_ok _ small(2)] by blast
  obtain xs where xs: "AllXPubs ref_bolt demo_db = Ok (map (\<lambda>x. (xID x, x)) xs)"
      "xpubs ref_bolt demo_db = map_of (map (\<lambda>x. (xID x, x)) xs)" "distinct (map xID xs)"
    by (rule AllXPubs_list [OF ref_bolt_ok ref_disk_ok demo_wf(7)])
  have "xKey x \<noteq> ''xpub1''" if "x \<in> set xs" for x
  proof -
    have "xpubs ref_bolt demo_db (xID x) = Some x"
      unfolding xs(2) using that xs(3) by (intro map_of_is_SomeI) (auto simp: comp_def)
    then show ?thesis by (auto simp: demo_wf split: if_splits)
  qed
  then show ?thesis
    using s1 s2 by (auto simp: RetireXPub_def xs(1) demo_active disk_ok_update Let_def list_ex_iff)
qed

lemma demo_serial: "nextSerial ref_bolt demo_db ''aa'' = 0"
proof -
  have "voteLog ref_bolt demo_db ''aa'' = Map.empty"
    using voteLog_finite [OF ref_bolt_ok demo_wf(3), of "''aa''"] demo_wf(4) [of "''aa''"]
    by (simp add: voteHistory_def)
  then show ?thesis by (simp add: nextSerial_def)
qed

lemma demo_save: "votes_wf ref_bolt s \<Longrightarrow> \<exists>s'. SaveVoteChange ref_bolt n ''aa'' zeroVoteChange s = Ok s'"
  by (rule SaveVoteChange_succeeds) (simp_all add: key_ok_def zeroVoteChange_def marshal_eval)

lemma demo_saves: "\<exists>s'. runAll (SaveVoteChange ref_bolt n ''aa'')
    [zeroVoteChange, zeroVoteChange, zeroVoteChange] demo_db = Ok s'"
proof -
  obtain s1 where s1: "SaveVoteChange ref_bolt n ''aa'' zeroVoteChange demo_db = Ok s1"
    using demo_save [OF demo_wf(3)] by blast
  note w1 = SaveVoteChange_log(1) [OF ref_bolt_ok demo_wf(3) s1]
  obtain s2 where s2: "SaveVoteChange ref_bolt n ''aa'' zeroVoteChange s1 = Ok s2"
    using demo_save [OF w1] by blast
  obtain s3 where "SaveVoteChange ref_bolt n ''aa'' zeroVoteChange s2 = Ok s3"
    using demo_save [OF SaveVoteChange_log(1) [OF ref_bolt_ok w1 s2]] by blast
  with s1 s2 show ?thesis by simp
qed

definition demo_alt :: altsign where
  "demo_alt = \<lparr>AltSignAddr = ''a'', Req = ''q'', ReqSig = ''s'', Resp = ''r'', RespSig = ''t''\<rparr>"

lemma demo_inserts_alt: "\<exists>s'. InsertAltSignAddr ref_bolt ''aa'' (Some demo_alt) demo_db = Ok s'"
proof -
  have "altAddrs ref_bolt demo_db ''aa'' = None" by (simp add: demo_wf)
  then show ?thesis
    by (intro InsertAltSignAddr_succeeds [OF ref_bolt_ok ref_disk_ok demo_wf(5)])
       (auto simp: altFields_def demo_alt_def val_ok_def key_ok_def)
qed

section \<open>Tickets\<close>

text \<open>
  C32: Inserting a ticket makes \<open>GetTicketByHash\<close> find it, as it was given up to the order of its
  maps, leaves what is found under every other hash as it was, and happens only if the hash
  was unknown: no ticket with that hash can be inserted after it.
\<close>

theorem insert_then_get:
  assumes "bolt_ok B" "disk_ok B" "tickets_wf B s" "ticket_ok t" "InsertNewTicket B t s = Ok s'"
  shows "tickets_wf B s' \<and> GetTicketByHash B (Hash t) s = Ok (zeroTicket, False) \<and>
    GetTicketByHash B (Hash t) s' = Ok (stored_ticket t, True) \<and>
    (\<forall>h. h \<noteq> Hash t \<longrightarrow> GetTicketByHash B h s' = GetTicketByHash B h s) \<and>
    (\<forall>u s''. Hash u = Hash t \<and> ticket_ok u \<longrightarrow> InsertNewTicket B u s' \<noteq> Ok s'')"
  using tdb.ins_Ok [OF assms(1,3-5)] tdb.ins_twice [OF assms(1,3-5)] assms
  by (simp add: GetTicketByHash_spec)

theorem insert_then_get_witness:
  "GetTicketByHash ref_bolt ''aa'' demo_ins = Ok (stored_ticket demo_ticket, True)"
  using insert_then_get [OF ref_bolt_ok ref_disk_ok demo_wf(1) demo_ticket_ok(1) demo_inserted] by simp

text \<open>
  C33: Updating a ticket replaces exactly that ticket, and fails with an error when no ticket has
  its hash; no update adds or loses a ticket.
\<close>

theorem update_then_get:
  assumes "bolt_ok B" "disk_ok B" "tickets_wf B s" "ticket_ok t"
  shows "(tickets B s (Hash t) = None \<longrightarrow> (\<exists>e. UpdateTicket B t s = Fail e)) \<and>
    (\<forall>s'. UpdateTicket B t s = Ok s' \<longrightarrow>
      tickets_wf B s' \<and> GetTicketByHash B (Hash t) s' = Ok (stored_ticket t, True) \<and>
      (\<forall>h. h \<noteq> Hash t \<longrightarrow> GetTicketByHash B h s' = GetTicketByHash B h s) \<and>
      dom (tickets B s') = dom (tickets B s))"
proof (intro conjI impI allI)
  assume none: "tickets B s (Hash t) = None"
  show "\<exists>e. UpdateTicket B t s = Fail e"
    using tdb.upd_Ok [OF assms(1,3,4)] tdb.no_Panic [OF assms(1,3)] none
    by (cases "UpdateTicket B t s") auto
next
  fix s' assume Ok: "UpdateTicket B t s = Ok s'"
  note u = tdb.upd_Ok [OF assms(1,3,4) Ok]
  show "tickets_wf B s'" "GetTicketByHash B (Hash t) s' = Ok (stored_ticket t, True)"
    "dom (tickets B s') = dom (tickets B s)"
    using u tdb.upd_dom [OF assms(1,3,4) Ok] assms by (simp_all add: GetTicketByHash_spec)
  show "GetTicketByHash B h s' = GetTicketByHash B h s" if "h \<noteq> Hash t" for h
    using u that assms by (simp add: GetTicketByHash_spec)
qed

theorem update_then_get_witness:
  "GetTicketByHash ref_bolt ''aa'' demo_upd = Ok (stored_ticket demo_update, True) \<and>
   (\<exists>e. UpdateTicket ref_bolt demo_update demo_db = Fail e)"
  using update_then_get [OF ref_bolt_ok ref_disk_ok demo_ins_wf(1) demo_update_ok(1)]
    update_then_get [OF ref_bolt_ok ref_disk_ok demo_wf(1) demo_update_ok(1)] demo_updated
  by (simp add: demo_update_ok demo_wf)

text \<open>
  C34: Every query returns exactly the stored tickets its condition describes, each once, and none
  of them panics on a well-formed database.
\<close>

theorem queries_exact:
  assumes "bolt_ok B" "disk_ok B" "tickets_wf B s"
  defines "all \<equiv> allTickets B s"
  shows "set all = ran (tickets B s) \<and> distinct (map Hash all) \<and>
    GetUnconfirmedTickets B s = Ok (filter (\<lambda>t. \<not> Confirmed t) all) \<and>
    GetPendingFees B s = Ok (filter (\<lambda>t. Confirmed t \<and> FeeTxStatus t = FeeReceieved) all) \<and>
    GetUnconfirmedFees B s = Ok (filter (\<lambda>t. FeeTxStatus t = FeeBroadcast) all) \<and>
    GetVotableTickets B s = Ok (filter (\<lambda>t. FeeTxStatus t = FeeConfirmed \<and> Outcome t = []) all) \<and>
    GetVotedTickets B s = Ok (filter (\<lambda>t. FeeTxStatus t = FeeConfirmed \<and> Outcome t = Voted) all) \<and>
    GetRevokedTickets B s = Ok (filter (\<lambda>t. Outcome t = Revoked) all) \<and>
    GetMissedTickets B s = Ok (filter (\<lambda>t. Outcome t = Missed) all) \<and>
    GetMissingPurchaseHeight B s = Ok (filter (\<lambda>t. Confirmed t \<and> PurchaseHeight t = 0) all)"
  unfolding all_def
  using assms(1-3)
  by (simp add: set_allTickets distinct_allTickets GetUnconfirmedTickets_spec GetPendingFees_spec
      GetUnconfirmedFees_spec GetVotableTickets_spec GetVotedTickets_spec GetRevokedTickets_spec
      GetMissedTickets_spec GetMissingPurchaseHeight_spec)

theorem queries_exact_witness: "\<exists>ts. GetVotableTickets ref_bolt demo_ins = Ok ts \<and> set ts \<subseteq> {stored_ticket demo_ticket}"
  using queries_exact [OF ref_bolt_ok ref_disk_ok demo_ins_wf(1)]
  by (auto simp: demo_ins_wf)

text \<open>
  \<open>CountTickets\<close> puts every ticket with a confirmed fee in exactly one of its four counters
  and no other ticket in any: the counters add up to the number of paid tickets.
\<close>

lemma count_partition:
  assumes "bolt_ok B" "disk_ok B" "tickets_wf B s"
  shows "\<exists>c. CountTickets B s = Ok c \<and>
    cVoting c + cVoted c + cExpired c + cMissed c = tally (\<lambda>t. FeeTxStatus t = FeeConfirmed) (allTickets B s) \<and>
    cVoted c = tally (\<lambda>t. FeeTxStatus t = FeeConfirmed \<and> Outcome t = Voted) (allTickets B s) \<and>
    cMissed c = tally (\<lambda>t. FeeTxStatus t = FeeConfirmed \<and> Outcome t = Missed) (allTickets B s)"
  using CountTickets_spec [OF assms] tallies_total [of "allTickets B s"]
  by (simp add: tallies_def feePaidUp_def [abs_def])

lemma count_partition_witness: "\<exists>c. CountTickets ref_bolt demo_ins = Ok c"
  using count_partition [OF ref_bolt_ok ref_disk_ok demo_ins_wf(1)] by blast

text \<open>
  \<open>EarliestPurchaseHeight\<close> is the least nonzero purchase height of the list, and 0 when no
  ticket has one.
\<close>

lemma earliest_height:
  assumes "\<And>t. t \<in> set ts \<Longrightarrow> 0 \<le> sint (PurchaseHeight t)"
  shows "EarliestPurchaseHeight ts =
    (let hs = filter (\<lambda>h. h \<noteq> 0) (map PurchaseHeight ts)
     in if hs = [] then 0 else of_int (Min (sint ` set hs)))"
  using earliestLoop_least [of ts 0] assms by (simp add: EarliestPurchaseHeight_def)

lemma earliest_height_witness: "EarliestPurchaseHeight [demo_ticket, zeroTicket] = 5"
proof -
  have "0 \<le> sint (PurchaseHeight t)" if "t \<in> set [demo_ticket, zeroTicket]" for t
    using that by (auto simp: demo_ticket_def zeroTicket_def)
  from earliest_height [of "[demo_ticket, zeroTicket]", OF this] show ?thesis
    by (simp add: demo_ticket_def zeroTicket_def)
qed

text \<open>
  C35: A map of valid strings survives the database encoding: what is read back has the same
  entries, and a nil map reads back as an empty one.
\<close>

theorem string_map_codec:
  assumes "strmap_ok m"
  shows "\<exists>m'. bytesToStringMap (Some (stringMapToBytes m)) = Ok m' \<and> m' \<noteq> None \<and> gomap_ok m' \<and>
    lookup m' = lookup m"
proof -
  have "lookup (stored_map m) = lookup m"
    using assms by (simp add: fun_eq_iff stored_map_lookup strmap_ok_def)
  moreover have "gomap_ok (stored_map m)" "stored_map m \<noteq> None"
    using stored_map_ok [OF assms] by (simp_all add: strmap_ok_def stored_map_def)
  ultimately show ?thesis using string_map_roundtrip [OF assms] by blast
qed

theorem string_map_codec_witness:
  "\<exists>m'. bytesToStringMap (Some (stringMapToBytes (Some [(''b'', ''yes''), (''a'', ''no'')]))) = Ok m'
    \<and> lookup m' ''a'' = Some ''no''"
proof -
  have "valid_utf8 ''a'' \<and> valid_utf8 ''b'' \<and> valid_utf8 ''yes'' \<and> valid_utf8 ''no''"
    by (intro conjI ascii_valid) simp_all
  then have "strmap_ok (Some [(''b'', ''yes''), (''a'', ''no'')])"
    by (simp add: strmap_ok_def gomap_ok_def entries_def)
  from string_map_codec [OF this] obtain m' where
    m': "bytesToStringMap (Some (stringMapToBytes (Some [(''b'', ''yes''), (''a'', ''no'')]))) = Ok m'"
      "lookup m' = lookup (Some [(''b'', ''yes''), (''a'', ''no'')])"
    by blast
  have "lookup m' ''a'' = Some ''no''"
    unfolding m'(2) by (simp add: lookup_def entries_def)
  with m'(1) show ?thesis by blast
qed

section \<open>Fee keys\<close>

text \<open>
  C36: Rotating the fee key is refused for a key that was ever used; otherwise the new key becomes
  the active one with index 0, the old one is kept and marked retired, every other key is
  untouched, and no two ids share a key.
\<close>

theorem retire_history:
  assumes "bolt_ok B" "disk_ok B" "xpubs_wf B s" "valid_utf8 k" "FeeXPub B s = Ok x"
    "RetireXPub B now k s = Ok s'" "Suc (unat (xID x)) < 2 ^ 32"
    and uniq: "\<And>i j y z. xpubs B s i = Some y \<Longrightarrow> xpubs B s j = Some z \<Longrightarrow> xKey y = xKey z \<Longrightarrow> i = j"
  shows "FeeXPub B s' = Ok \<lparr>xID = xID x + 1, xKey = k, xLastUsedIdx = 0, xRetired = 0\<rparr> \<and>
    xpubs B s' (xID x) = Some (x\<lparr>xRetired := now\<rparr>) \<and>
    (\<forall>i. i \<noteq> xID x \<and> xpubs B s i \<noteq> None \<longrightarrow> xpubs B s' i = xpubs B s i) \<and>
    (\<forall>i y. xpubs B s i = Some y \<longrightarrow> xKey y \<noteq> k) \<and>
    (\<forall>i j y z. xpubs B s' i = Some y \<and> xpubs B s' j = Some z \<and> xKey y = xKey z \<longrightarrow> i = j)"
proof -
  have good: "bolt_disk B" using assms(1,2) by (simp add: bolt_disk_def)
  have lt: "xID x < xID x + 1" using assms(7) by (rule uint32_succ)
  have "i = j" if "xpubs B s' i = Some y" "xpubs B s' j = Some z" "xKey y = xKey z" for i j y z
    by (rule xdb.retire_keys_distinct [OF good assms(3-6) lt _ that]) (rule uniq)
  then show ?thesis
    using xdb.retire_active [OF good assms(3-6) lt] xdb.retire_Ok [OF good assms(3-6)] by blast
qed

theorem retire_history_witness:
  "\<exists>s'. RetireXPub ref_bolt 99 ''xpub1'' demo_db = Ok s' \<and>
    FeeXPub ref_bolt s' = Ok \<lparr>xID = 1, xKey = ''xpub1'', xLastUsedIdx = 0, xRetired = 0\<rparr>"
proof -
  have k: "valid_utf8 ''xpub1''" by (rule ascii_valid) simp
  have uniq: "i = j" if "xpubs ref_bolt demo_db i = Some y" "xpubs ref_bolt demo_db j = Some z" for i j y z
    using that by (auto simp: demo_wf split: if_splits)
  obtain s' where s': "RetireXPub ref_bolt 99 ''xpub1'' demo_db = Ok s'"
    using demo_retires by blast
  let ?x = "\<lparr>xID = 0, xKey = ''xpub0'', xLastUsedIdx = 0, xRetired = 0\<rparr>"
  have "FeeXPub ref_bolt s' = Ok \<lparr>xID = xID ?x + 1, xKey = ''xpub1'', xLastUsedIdx = 0, xRetired = 0\<rparr>"
    by (rule conjunct1 [OF retire_history [OF ref_bolt_ok ref_disk_ok demo_wf(7) k demo_active s']])
       (simp, rule uniq)
  with s' show ?thesis by simp
qed

text \<open>
  Recording the last used address index changes that field of the active key and nothing
  else in the database: the keys, their ids and every ticket stay as they are.
\<close>

lemma last_index_recorded:
  assumes "bolt_ok B" "disk_ok B" "xpubs_wf B s" "tickets_wf B s" "FeeXPub B s = Ok x"
    "SetLastAddressIndex B idx s = Ok s'"
  shows "FeeXPub B s' = Ok (x\<lparr>xLastUsedIdx := idx\<rparr>) \<and> (\<forall>i. i \<noteq> xID x \<longrightarrow> xpubs B s' i = xpubs B s i) \<and>
    tickets_wf B s' \<and> tickets B s' = tickets B s"
proof -
  have good: "bolt_disk B" using assms(1,2) by (simp add: bolt_disk_def)
  note r = SetLastAddressIndex_Ok [OF assms(1-3,5,6)]
  have "\<not> prefix ticketPath xpubPath" by (simp add: ticketPath_def xpubPath_def key_defs del: xpubPath_simps)
  then have "ents B s' q = ents B s q" if "prefix ticketPath q" for q
    using r that by metis
  moreover have "buckets_ok B s'" using r by (simp add: xpubs_wf_def)
  ultimately have "tickets_wf B s' \<and> tickets B s' = tickets B s"
    by (intro tickets_frame [OF assms(1,4)])
  with r show ?thesis using xdb.setIdx_active [OF good assms(3,5,6)] by simp
qed

lemma last_index_recorded_witness:
  "\<exists>s'. SetLastAddressIndex ref_bolt 7 demo_db = Ok s' \<and> tickets ref_bolt s' = Map.empty \<and>
    FeeXPub ref_bolt s' = Ok \<lparr>xID = 0, xKey = ''xpub0'', xLastUsedIdx = 7, xRetired = 0\<rparr>"
proof -
  obtain s' where "SetLastAddressIndex ref_bolt 7 demo_db = Ok s'"
    using demo_sets_index by blast
  then show ?thesis
    using last_index_recorded [OF ref_bolt_ok ref_disk_ok demo_wf(7,1) demo_active] by (simp add: demo_wf)
qed

section \<open>Vote change log\<close>

text \<open>
  C37: However many vote changes are saved for a ticket, its log holds exactly the most recent
  ones up to the configured maximum, oldest first, and the logs of other tickets are untouched.
\<close>

theorem vote_log_recent:
  assumes "bolt_ok B" "votes_wf B s" "nextSerial B s h + length rs \<le> 2 ^ 32" "1 \<le> n"
    "length (voteHistory B s h) \<le> n" "runAll (SaveVoteChange B (int n) h) rs s = Ok s'"
  shows "voteHistory B s' h = lastn n (voteHistory B s h @ map normVC rs) \<and>
    length (voteHistory B s' h) \<le> n \<and> (\<forall>h'. h' \<noteq> h \<longrightarrow> voteHistory B s' h' = voteHistory B s h')"
  using vdb.saves_lastn [OF assms(1-3,6,4,5)] by (simp add: lastn_def)

theorem vote_log_recent_witness:
  "\<exists>s'. runAll (SaveVoteChange ref_bolt 2 ''aa'') [zeroVoteChange, zeroVoteChange, zeroVoteChange] demo_db = Ok s'
    \<and> length (voteHistory ref_bolt s' ''aa'') = 2"
proof -
  obtain s' where run: "runAll (SaveVoteChange ref_bolt (int 2) ''aa'') [zeroVoteChange, zeroVoteChange, zeroVoteChange] demo_db = Ok s'"
    using demo_saves by blast
  have "voteHistory ref_bolt s' ''aa'' = lastn 2 (voteHistory ref_bolt demo_db ''aa'' @
      map normVC [zeroVoteChange, zeroVoteChange, zeroVoteChange])"
    using vote_log_recent [OF ref_bolt_ok demo_wf(3) _ _ _ run] by (simp add: demo_wf demo_serial)
  then show ?thesis using run by (simp add: lastn_def demo_wf)
qed

section \<open>Alternate signing addresses\<close>

text \<open>
  C38: An alternate signing address is stored once: after an insert the data are read back, no
  other insert for the ticket succeeds, and after a delete, which never fails to remove it,
  none is found; other tickets' addresses are untouched throughout.
\<close>

theorem alt_addr_once:
  assumes "bolt_ok B" "disk_ok B" "alts_wf B s" "InsertAltSignAddr B h (Some d) s = Ok s'"
  shows "AltSignAddrData B h s = Ok None \<and> AltSignAddrData B h s' = Ok (Some d) \<and>
    (\<forall>d' s''. InsertAltSignAddr B h d' s' \<noteq> Ok s'') \<and>
    (\<forall>s''. DeleteAltSignAddr B h s' = Ok s'' \<longrightarrow> AltSignAddrData B h s'' = Ok None) \<and>
    (\<forall>h'. h' \<noteq> h \<longrightarrow> AltSignAddrData B h' s' = AltSignAddrData B h' s)"
proof -
  have good: "bolt_ok B \<and> disk_ok B" using assms by simp
  note ins = adb.ins_Ok [OF good assms(3,4)]
  show ?thesis
    using ins adb.ins_read [OF good assms(3,4)] adb.ins_once [OF good assms(3,4)]
      adb.del_read(1) [OF good, of s' h] adb.read_eq [OF good assms(3)] by auto
qed

theorem alt_addr_once_witness:
  "\<exists>s'. InsertAltSignAddr ref_bolt ''aa'' (Some demo_alt) demo_db = Ok s' \<and>
    AltSignAddrData ref_bolt ''aa'' s' = Ok (Some demo_alt)"
  using alt_addr_once [OF ref_bolt_ok ref_disk_ok demo_wf(5)] demo_inserts_alt by blast

section \<open>Creation and upgrade\<close>

text \<open>
  A database made by \<open>CreateNew\<close> is well-formed in every part: no tickets, no vote changes,
  no alternate addresses, exactly one fee key with index 0, the current version, and the key
  pair and cookie secret it was given.
\<close>

lemma create_new_wf:
  assumes "bolt_ok B" "disk_ok B" "\<And>p. ents B s p = Map.empty" "valid_utf8 feeXPub"
    "CreateNew B None (Ok seed) secret feeXPub s = Ok s'"
  shows "tickets_wf B s' \<and> tickets B s' = Map.empty \<and> votes_wf B s' \<and> (\<forall>h. voteHistory B s' h = []) \<and>
    alts_wf B s' \<and> altAddrs B s' = Map.empty \<and> xpubs_wf B s' \<and>
    xpubs B s' = [0 \<mapsto> \<lparr>xID = 0, xKey = feeXPub, xLastUsedIdx = 0, xRetired = 0\<rparr>] \<and>
    Open B True None s' = (s', Ok ()) \<and> CookieSecret B s' = Ok (Some secret) \<and>
    (length seed = 32 \<longrightarrow> KeyPair B f s' = Ok (f seed))"
  using CreateNew_Ok [OF assms, where f = f]
  by (simp add: Open_def Upgrade_def version_defs)

lemma create_new_wf_witness:
  "Open ref_bolt True None demo_db = (demo_db, Ok ()) \<and> KeyPair ref_bolt length demo_db = Ok 32"
  using create_new_wf [OF ref_bolt_ok ref_disk_ok flat_empty demo_valid demo_created, where f = length]
  by (simp add: demo_seed_def)

text \<open>
  C39: The upgrade to version 5 loses nothing: every ticket is read back as before with key id 0,
  and the key and address index of the root bucket become key 0 of the new bucket.
\<close>

theorem upgrade_keeps_tickets:
  assumes "bolt_ok B" "disk_ok B" "version4_wf B s" "xPubBucketUpgrade B s = Ok s'"
    "bk_get B s [vspBktK] feeXPubK = Some key" "valid_utf8 key"
  shows "\<exists>idx. tickets_wf B s' \<and> tickets B s' = tickets4 B s \<and> xpubs_wf B s' \<and>
    xpubs B s' = [0 \<mapsto> \<lparr>xID = 0, xKey = key, xLastUsedIdx = idx, xRetired = 0\<rparr>] \<and> Version B s' = Ok 5 \<and>
    (case bk_get B s [vspBktK] lastAddressIndexK of
       None \<Rightarrow> idx = 0 | Some b \<Rightarrow> bytesToUint32 (Some b) = Ok idx)"
proof -
  have "valid_utf8 k" if "bk_get B s [vspBktK] feeXPubK = Some k" for k
    using that assms(5,6) by simp
  then obtain key' idx where "bk_get B s [vspBktK] feeXPubK = Some key'"
    "(case bk_get B s [vspBktK] lastAddressIndexK of None \<Rightarrow> Ok 0 | Some b \<Rightarrow> bytesToUint32 (Some b)) = Ok idx"
    "tickets_wf B s'" "tickets B s' = tickets4 B s" "xpubs_wf B s'"
    "xpubs B s' = [0 \<mapsto> \<lparr>xID = 0, xKey = key', xLastUsedIdx = idx, xRetired = 0\<rparr>]"
    "Version B s' = Ok 5"
    by (rule xPubBucketUpgrade_Ok [OF assms(1-4)])
  with assms(5) show ?thesis
    by (intro exI [of _ idx]) (auto split: option.splits)
qed

theorem upgrade_keeps_tickets_witness:
  "\<exists>s'. xPubBucketUpgrade ref_bolt demo4 = Ok s' \<and> Version ref_bolt s' = Ok 5"
proof -
  obtain s' where s': "xPubBucketUpgrade ref_bolt demo4 = Ok s'" using demo4_upgrades by blast
  have "bk_get ref_bolt demo4 [vspBktK] feeXPubK = Some ''xpub0''"
    by (simp add: ref_bolt_def demo4_def key_defs)
  from upgrade_keeps_tickets [OF ref_bolt_ok ref_disk_ok demo4_wf s' this demo_valid] s' show ?thesis
    by blast
qed

text \<open>
  C40: However a run of upgrades ends, the version recorded afterwards is not below the one it
  started from, and a run that succeeds leaves the current version, at which \<open>Open\<close> changes
  nothing.
\<close>

theorem upgrade_resumes:
  assumes "bolt_ok B" "disk_ok B" "Version B s = Ok cur" "1 \<le> unat cur" "Upgrade B cur s = (s', r)"
  shows "(\<exists>v. Version B s' = Ok v \<and> unat cur \<le> unat v) \<and>
    (r = Ok () \<longrightarrow> Version B s' = Ok 5 \<and> Open B True None s' = (s', Ok ()))"
proof -
  obtain v where v: "unat cur \<le> unat v" "Version B s' = Ok v" "r = Ok () \<longrightarrow> v = 5"
    using Upgrade_version [OF assms] by blast
  then show ?thesis by (auto simp: Open_def Upgrade_def version_defs)
qed

theorem upgrade_resumes_witness:
  "\<exists>s' v. Upgrade ref_bolt 4 demo4 = (s', Ok ()) \<and> Open ref_bolt True None s' = (s', Ok ())"
proof -
  obtain s' where "xPubBucketUpgrade ref_bolt demo4 = Ok s'" using demo4_upgrades by blast
  then have run: "Upgrade ref_bolt 4 demo4 = (s', Ok ())"
    by (simp add: Upgrade_def upgrades_def version_defs)
  from upgrade_resumes [OF ref_bolt_ok ref_disk_ok demo4_version _ run] run show ?thesis by simp
qed

end
