(* ===== verification/Floats.thy ===== *)
theory Floats
  imports Complex_Main Prelude
begin

text \<open>
  Floating-point numbers as Go computes with them: IEEE 754 with round to nearest, ties to even. A
  finite number is the rational number it stands for, so a negative zero is not told apart. The
  texts are those of \<open>encoding/json\<close>: the shortest decimal that reads back as the number.
\<close>

section \<open>Rounding\<close>

record ieee =
  prec :: nat
  minExp :: int
  maxExp :: int

text \<open>\<open>float32\<close> and \<open>float64\<close>: the bits of the significand, the last place of the smallest numbers, the bound.\<close>

definition binary32 :: ieee where "binary32 = \<lparr>prec = 24, minExp = -149, maxExp = 128\<rparr>"
definition binary64 :: ieee where "binary64 = \<lparr>prec = 53, minExp = -1074, maxExp = 1024\<rparr>"

definition roundEven :: "rat \<Rightarrow> int" where
  "roundEven x = (let q = \<lfloor>x\<rfloor>; r = x - of_int q in
     if r < 1 / 2 \<or> (r = 1 / 2 \<and> even q) then q else q + 1)"

text \<open>The binary exponent of a positive number; the number of bits of a quotient is that of its parts up to one.\<close>

fun bits :: "nat \<Rightarrow> nat" where
  "bits n = (if n = 0 then 0 else Suc (bits (n div 2)))"

declare bits.simps [simp del]

definition binExp :: "rat \<Rightarrow> int" where
  "binExp x = (case quotient_of x of (a, b) \<Rightarrow>
     let k = int (bits (nat a)) - int (bits (nat b)) in if 2 powi k \<le> x then k else k - 1)"

text \<open>The unit in the last place of the numbers near a positive one, and the nearest of them.\<close>

definition ulp :: "ieee \<Rightarrow> rat \<Rightarrow> rat" where
  "ulp F x = 2 powi (max (binExp x - (int (prec F) - 1)) (minExp F))"

definition nearest :: "ieee \<Rightarrow> rat \<Rightarrow> rat" where
  "nearest F x = of_int (roundEven (x / ulp F x)) * ulp F x"

definition fl :: "ieee \<Rightarrow> rat \<Rightarrow> rat" where
  "fl F x = (if x = 0 then 0 else if x < 0 then - nearest F (- x) else nearest F x)"

text \<open>\<open>float32(a) / float32(b)\<close>; the quotients below do not overflow.\<close>

definition ratio :: "int \<Rightarrow> int \<Rightarrow> rat" where
  "ratio a b = fl binary32 (fl binary32 (of_int a) / fl binary32 (of_int b))"

section \<open>Facts of rounding\<close>

lemma bits_bounds: "0 < n \<Longrightarrow> 2 ^ (bits n - 1) \<le> n \<and> n < 2 ^ bits n \<and> 0 < bits n"
proof (induction n rule: bits.induct)
  case (1 n)
  show ?case
  proof (cases "n = 1")
    case True
    then show ?thesis by (simp add: bits.simps)
  next
    case False
    with 1 have IH: "2 ^ (bits (n div 2) - 1) \<le> n div 2" "n div 2 < 2 ^ bits (n div 2)" "0 < bits (n div 2)" by auto
    obtain k where k: "bits (n div 2) = Suc k" using IH(3) by (cases "bits (n div 2)") auto
    have "bits n = Suc (bits (n div 2))" using "1.prems" by (simp add: bits.simps [of n])
    with IH k show ?thesis by auto
  qed
qed

lemma powi_times: "(2 :: rat) powi i * 2 ^ n = 2 powi (i + int n)"
  by (simp add: power_int_add)

lemma binExp:
  assumes "0 < x"
  shows "2 powi binExp x \<le> x" "x < 2 powi (binExp x + 1)"
proof -
  obtain a b where q: "quotient_of x = (a, b)" by (cases "quotient_of x")
  then have x: "x = of_int a / of_int b" and b: "0 < b" by (auto simp: quotient_of_div quotient_of_denom_pos)
  with assms have a: "0 < a" by (simp add: zero_less_divide_iff)
  let ?m = "bits (nat a)" and ?n = "bits (nat b)"
  have A: "2 ^ (?m - 1) \<le> nat a" "nat a < 2 ^ ?m" "0 < ?m" and B: "2 ^ (?n - 1) \<le> nat b" "nat b < 2 ^ ?n" "0 < ?n"
    using a b bits_bounds [of "nat a"] bits_bounds [of "nat b"] by auto
  have cast: "2 ^ i \<le> nat n \<Longrightarrow> (2 :: rat) ^ i \<le> of_int n" "nat n < 2 ^ i \<Longrightarrow> (of_int n :: rat) < 2 ^ i"
    if "0 < n" for i n
    using that of_int_le_iff [where 'a = rat, of "2 ^ i" n] of_int_less_iff [where 'a = rat, of n "2 ^ i"]
    by (simp_all add: le_nat_iff nat_less_iff)
  note ra = cast [OF a] and rb = cast [OF b]
  note ra = ra(1) [OF A(1)] ra(2) [OF A(2)] and rb = rb(1) [OF B(1)] rb(2) [OF B(2)]
  let ?k = "int ?m - int ?n"
  have pos: "(0 :: rat) < of_int b" using b by simp
  have up: "x < 2 powi (?k + 1)"
  proof -
    have "(of_int a :: rat) < 2 ^ ?m" by (rule ra)
    also have "\<dots> = 2 powi (?k + 1) * 2 ^ (?n - 1)"
      using B(3) by (simp add: powi_times of_nat_diff)
    also have "\<dots> \<le> 2 powi (?k + 1) * of_int b" by (rule mult_left_mono [OF rb(1)]) simp
    finally show ?thesis using pos by (simp add: x divide_less_eq)
  qed
  have low: "2 powi (?k - 1) \<le> x"
  proof -
    have "2 powi (?k - 1) * of_int b \<le> (2 powi (?k - 1) * 2 ^ ?n :: rat)" by (rule mult_left_mono) (use rb in auto)
    also have "\<dots> = 2 ^ (?m - 1)"
      using A(3) powi_times [of 0 "?m - 1"] by (simp add: powi_times of_nat_diff)
    also have "\<dots> \<le> of_int a" by (rule ra)
    finally show ?thesis using pos by (simp add: x le_divide_eq)
  qed
  have def: "binExp x = (if 2 powi ?k \<le> x then ?k else ?k - 1)" by (simp add: binExp_def q Let_def)
  show "2 powi binExp x \<le> x" using low by (simp add: def)
  show "x < 2 powi (binExp x + 1)" using up by (simp add: def)
qed

lemma powi_less: "(2 :: rat) powi i < 2 powi j \<longleftrightarrow> i < j"
  using power_int_strict_increasing [of i j "2 :: rat"] power_int_increasing [of j i "2 :: rat"]
  by (cases "i < j") auto

lemma binExp_eq:
  assumes "0 < x" "2 powi k \<le> x" "x < 2 powi (k + 1)"
  shows "binExp x = k"
proof -
  have "(2 :: rat) powi binExp x < 2 powi (k + 1)" "(2 :: rat) powi k < 2 powi (binExp x + 1)"
    using assms binExp [OF assms(1)] by (auto intro: le_less_trans)
  then show ?thesis by (simp add: powi_less)
qed

lemma roundEven_int [simp]: "roundEven (of_int n) = n"
  by (simp add: roundEven_def)

lemma roundEven_cases:
  obtains (down) "roundEven x = \<lfloor>x\<rfloor>" "x - of_int \<lfloor>x\<rfloor> \<le> 1 / 2"
    | (up) "roundEven x = \<lfloor>x\<rfloor> + 1" "1 / 2 \<le> x - of_int \<lfloor>x\<rfloor>"
  by (fastforce simp: roundEven_def Let_def split: if_splits)

lemma roundEven_close: "\<bar>of_int (roundEven x) - x\<bar> \<le> 1 / 2"
proof -
  have "of_int \<lfloor>x\<rfloor> \<le> x" "x < of_int \<lfloor>x\<rfloor> + 1" by linarith+
  then show ?thesis by (cases x rule: roundEven_cases) auto
qed

lemma roundEven_near: "\<bar>x - of_int n\<bar> < 1 / 2 \<Longrightarrow> roundEven x = n"
proof -
  assume "\<bar>x - of_int n\<bar> < 1 / 2"
  with roundEven_close [of x] have "\<bar>of_int (roundEven x) - of_int n :: rat\<bar> < 1" by linarith
  then show ?thesis by linarith
qed

lemma roundEven_mono: "x \<le> y \<Longrightarrow> roundEven x \<le> roundEven y"
proof -
  assume le: "x \<le> y"
  show ?thesis
  proof (cases "\<lfloor>x\<rfloor> = \<lfloor>y\<rfloor>")
    case True
    with le show ?thesis by (auto simp: roundEven_def Let_def)
  next
    case False
    with le floor_mono [OF le] show ?thesis by (auto simp: roundEven_def Let_def)
  qed
qed

text \<open>Powers of two divide one another.\<close>

lemma powi_multiple:
  assumes "i \<le> j"
  obtains n where "(2 :: rat) powi j = of_int n * 2 powi i" "0 < n"
proof -
  have "(2 :: rat) powi j = 2 ^ nat (j - i) * 2 powi i"
    using assms by (subst mult.commute) (simp add: powi_times)
  then show ?thesis using that [of "2 ^ nat (j - i)"] by simp
qed

section \<open>The nearest number\<close>

lemma ulp_pos [simp]: "0 < ulp F x" "0 \<le> ulp F x" "ulp F x \<noteq> 0"
  by (simp_all add: ulp_def)

text \<open>A number that the format has.\<close>

definition isFloat :: "ieee \<Rightarrow> rat \<Rightarrow> bool" where
  "isFloat F x \<longleftrightarrow> (\<exists>m. x = of_int m * ulp F x)"

lemma nearest_float: "isFloat F x \<Longrightarrow> nearest F x = x"
  by (auto simp: isFloat_def nearest_def) (metis mult.commute nonzero_mult_div_cancel_left roundEven_int ulp_pos(3))


lemma isFloat_multiple: "isFloat F x \<Longrightarrow> 0 < x \<Longrightarrow> \<exists>m > 0. x = of_int m * ulp F x"
  unfolding isFloat_def
  by (metis ulp_pos(1) zero_less_mult_pos2 of_int_0_less_iff)

text \<open>A positive number has at most \<open>prec\<close> bits.\<close>

lemma ulp_le: "0 < x \<Longrightarrow> 2 powi (binExp x + 1 - int (prec F)) \<le> ulp F x"
  by (simp add: ulp_def power_int_increasing)

text \<open>A number of the format is the nearest one to all that are close to it.\<close>

lemma fl_near:
  assumes "isFloat F x" "0 < x" and close: "\<bar>y - x\<bar> < x / 2 ^ Suc (prec F)" and "0 < prec F"
  shows "fl F y = x"
proof -
  let ?p = "prec F"
  obtain k where bk: "binExp x = k" by simp
  have k: "2 powi k \<le> x" "x < 2 powi (k + 1)" using binExp [OF assms(2)] by (simp_all add: bk)
  obtain m where m: "0 < m" "x = of_int m * ulp F x" using isFloat_multiple [OF assms(1,2)] by auto
  have half: "x / 2 ^ Suc ?p < 2 powi (k - int ?p)"
    using k(2) by (simp add: divide_less_eq powi_times flip: power_Suc)
  have y: "0 < y"
  proof -
    have "x / 2 ^ Suc ?p \<le> x / 1"
      using assms(2) one_le_power [of "2 :: rat" "Suc ?p"] by (intro divide_left_mono) auto
    with close show ?thesis by (simp add: abs_less_iff)
  qed
  have same: "fl F y = x" if "ulp F y = v" "\<bar>y - x\<bar> < v / 2" "x = of_int n * v" for v n
  proof -
    have v: "0 < v" using that(1) by auto
    have "y / v - of_int n = (y - x) / v" using v that(3) by (simp add: diff_divide_distrib)
    then have "\<bar>y / v - of_int n\<bar> = \<bar>y - x\<bar> / v" using v by simp
    also have "\<dots> < 1 / 2" using that(2) v by (simp add: divide_less_eq)
    finally have "roundEven (y / v) = n" by (rule roundEven_near)
    then show ?thesis using y that by (simp add: fl_def nearest_def)
  qed
  let ?j = "max (k - (int ?p - 1)) (minExp F)"
  have u: "ulp F x = 2 powi ?j" by (simp add: ulp_def bk)
  have wide: "2 * 2 powi (k - int ?p) \<le> ulp F x"
    using ulp_le [OF assms(2), of F] power_int_add_1 [of "2 :: rat" "k - int ?p"] by (simp add: bk algebra_simps)
  have "1 * ulp F x \<le> of_int m * ulp F x" using m(1) by (intro mult_right_mono) auto
  then have "ulp F x \<le> x" using m(2) by simp
  then have "(2 :: rat) powi ?j < 2 powi (k + 1)" using k(2) u by linarith
  then have j: "?j \<le> k" by (simp only: powi_less)
  obtain n where n: "(2 :: rat) powi k = of_int n * ulp F x" using powi_multiple [OF j] u by metis
  consider (low) "y < 2 powi k" | (mid) "2 powi k \<le> y" "y < 2 powi (k + 1)" | (high) "2 powi (k + 1) \<le> y" by linarith
  then show ?thesis
  proof cases
    case mid
    then have "binExp y = k" using y by (intro binExp_eq)
    then have "ulp F y = ulp F x" by (simp add: ulp_def bk)
    then show ?thesis using same m(2) close half wide by fastforce
  next
    case high
    have "(2 :: rat) powi (k + 1) = of_int (2 * n) * ulp F x" using n by (simp add: power_int_add)
    with k(2) m(2) have "of_int m * ulp F x < of_int (2 * n) * ulp F x" by metis
    then have "m < 2 * n" by (simp only: mult_less_cancel_right_pos [OF ulp_pos(1)] of_int_less_iff)
    then have "of_int (m + 1) * ulp F x \<le> of_int (2 * n) * ulp F x" by (intro mult_right_mono) auto
    then have "x + ulp F x \<le> y" using high \<open>2 powi (k + 1) = _\<close> m(2) by (simp add: algebra_simps)
    then show ?thesis using close half wide by linarith
  next
    case low
    have "m \<le> n"
    proof (rule ccontr)
      assume "\<not> m \<le> n"
      then have "of_int (n + 1) * ulp F x \<le> of_int m * ulp F x" by (intro mult_right_mono) auto
      then have "y + ulp F x < x" using low n m(2) by (simp add: algebra_simps)
      then show False using close half wide by linarith
    qed
    moreover have "of_int n * ulp F x \<le> of_int m * ulp F x" using k(1) m(2) n by metis
    then have "n \<le> m" by (simp only: mult_le_cancel_right_pos [OF ulp_pos(1)] of_int_le_iff)
    ultimately have x: "x = 2 powi k" using m(2) n by simp
    have "x / 2 ^ Suc ?p \<le> x / 2"
      using assms(2) one_le_power [of "2 :: rat" ?p] by (intro divide_left_mono) auto
    then have "x / 2 \<le> y" using close by linarith
    then have "2 powi (k - 1) \<le> y" by (simp add: x power_int_diff)
    then have e: "binExp y = k - 1" using y low by (intro binExp_eq) auto
    let ?i = "max (k - int ?p) (minExp F)"
    have v: "ulp F y = 2 powi ?i" by (simp add: ulp_def e algebra_simps)
    have "?i \<le> k" using j by auto
    then obtain n' where "x = of_int n' * 2 powi ?i" using powi_multiple x by metis
    moreover have "x / 2 ^ Suc ?p = 2 powi (k - int ?p) / 2"
      by (simp add: x power_int_diff)
    then have "\<bar>y - x\<bar> < 2 powi ?i / 2"
      using close power_int_increasing [of "k - int ?p" ?i "2 :: rat"] by simp
    ultimately show ?thesis using same v by blast
  qed
qed


text \<open>What is rounded is a number of the format.\<close>

lemma isFloatI:
  assumes "x = of_int m * 2 powi e" "0 \<le> m" "m \<le> 2 ^ prec F" "minExp F \<le> e" "0 < prec F"
  shows "isFloat F x"
proof (cases "m = 0")
  case True
  then show ?thesis using assms(1) by (simp add: isFloat_def)
next
  case False
  let ?p = "prec F"
  have pos: "0 < x" using False assms(1,2) by simp
  obtain k where k: "binExp x = k" by simp
  have b: "2 powi k \<le> x" "x < 2 powi (k + 1)" using binExp [OF pos] by (simp_all add: k)
  have "(of_int m :: rat) \<le> of_int (2 ^ ?p)" using assms(3) by (simp only: of_int_le_iff)
  then have "of_int m * 2 powi e \<le> (2 ^ ?p * 2 powi e :: rat)" by (intro mult_right_mono) auto
  then have top: "x \<le> 2 powi (int ?p + e)" using assms(1) by (simp add: power_int_add)
  let ?i = "max (k - (int ?p - 1)) (minExp F)"
  have u: "ulp F x = 2 powi ?i" by (simp add: ulp_def k)
  show ?thesis
  proof (cases "x = 2 powi (int ?p + e)")
    case True
    then have "k = int ?p + e" using binExp_eq [OF pos, of "int ?p + e"] k by (simp add: powi_less)
    then have "?i \<le> int ?p + e" using assms(4,5) by auto
    then obtain n where "(2 :: rat) powi (int ?p + e) = of_int n * 2 powi ?i" using powi_multiple by metis
    then show ?thesis using True u by (auto simp: isFloat_def)
  next
    case False
    with top b(1) have "(2 :: rat) powi k < 2 powi (int ?p + e)" by linarith
    then have "?i \<le> e" using assms(4) by (simp add: powi_less)
    then obtain n where "(2 :: rat) powi e = of_int n * 2 powi ?i" using powi_multiple by metis
    then have "x = of_int (m * n) * ulp F x" using assms(1) u by simp
    then show ?thesis unfolding isFloat_def by blast
  qed
qed

lemma roundEven_nonneg: "0 \<le> x \<Longrightarrow> 0 \<le> roundEven x"
  using roundEven_mono [of 0 x] roundEven_int [of 0] by simp

lemma nearest_isFloat:
  assumes "0 < x" "0 < prec F"
  shows "isFloat F (nearest F x)"
proof (rule isFloatI [OF _ _ _ _ assms(2)])
  let ?e = "max (binExp x - (int (prec F) - 1)) (minExp F)"
  show "nearest F x = of_int (roundEven (x / ulp F x)) * 2 powi ?e" by (simp add: nearest_def ulp_def)
  show "0 \<le> roundEven (x / ulp F x)" using assms(1) by (intro roundEven_nonneg) simp
  have "x < 2 powi (binExp x + 1)" using binExp [OF assms(1)] by simp
  also have "\<dots> = 2 ^ prec F * 2 powi (binExp x + 1 - int (prec F))" by (simp add: power_int_diff)
  also have "\<dots> \<le> 2 ^ prec F * ulp F x" using ulp_le [OF assms(1)] by (intro mult_left_mono) auto
  finally have "x / ulp F x \<le> of_int (2 ^ prec F)" by (simp add: divide_le_eq)
  from roundEven_mono [OF this] show "roundEven (x / ulp F x) \<le> 2 ^ prec F" by (simp only: roundEven_int)
qed simp

lemma fl_isFloat: "0 \<le> x \<Longrightarrow> 0 < prec F \<Longrightarrow> isFloat F (fl F x)"
  by (cases "x = 0") (auto simp: fl_def nearest_isFloat isFloat_def [of _ 0])

lemma fl_float: "isFloat F x \<Longrightarrow> 0 \<le> x \<Longrightarrow> fl F x = x"
  by (simp add: fl_def nearest_float)

lemma fl_nonneg: "0 \<le> x \<Longrightarrow> 0 \<le> fl F x"
  by (simp add: fl_def nearest_def roundEven_nonneg)

text \<open>Rounding is monotone.\<close>

lemma fl_mono:
  assumes "0 \<le> x" "x \<le> y" "0 < prec F"
  shows "fl F x \<le> fl F y"
proof (cases "x = 0")
  case True
  then show ?thesis using assms fl_nonneg [of y F] by (simp add: fl_def)
next
  case False
  then have pos: "0 < x" "0 < y" using assms by auto
  obtain i j where e: "ulp F x = 2 powi i" "ulp F y = 2 powi j"
      "i = max (binExp x - (int (prec F) - 1)) (minExp F)" "j = max (binExp y - (int (prec F) - 1)) (minExp F)"
    by (simp add: ulp_def)
  have "binExp x \<le> binExp y"
  proof -
    have "(2 :: rat) powi binExp x < 2 powi (binExp y + 1)" using assms(2) binExp pos by (meson le_less_trans order_trans)
    then show ?thesis by (simp add: powi_less)
  qed
  then have ij: "i \<le> j" using e by auto
  show ?thesis
  proof (cases "i = j")
    case True
    then have "roundEven (x / ulp F x) \<le> roundEven (y / ulp F y)"
      using assms(2) e by (intro roundEven_mono) (simp add: divide_right_mono)
    then show ?thesis using pos True e by (simp add: fl_def nearest_def)
  next
    case False
    let ?k = "binExp y"
    have j: "j = ?k - (int (prec F) - 1)" "binExp x < ?k" using False ij e \<open>binExp x \<le> ?k\<close> by auto
    have "j \<le> ?k" using j assms(3) by simp
    then obtain n where n: "(2 :: rat) powi ?k = of_int n * ulp F y" using powi_multiple e(2) by metis
    obtain n' where n': "(2 :: rat) powi ?k = of_int n' * ulp F x" using powi_multiple ij \<open>j \<le> ?k\<close> e(1) by (metis order_trans)
    have "x \<le> 2 powi ?k"
      using binExp(2) [OF pos(1)] j(2) power_int_increasing [of "binExp x + 1" ?k "2 :: rat"] by simp
    then have "x / ulp F x \<le> of_int n'" using n' by (simp add: divide_le_eq)
    from roundEven_mono [OF this] have "fl F x \<le> 2 powi ?k"
      using pos(1) n' by (simp add: fl_def nearest_def mult_right_mono)
    also have "of_int n \<le> y / ulp F y" using binExp(1) [OF pos(2)] n by (simp add: le_divide_eq)
    from roundEven_mono [OF this] have "2 powi ?k \<le> fl F y"
      using pos n by (simp add: fl_def nearest_def mult_right_mono)
    finally show ?thesis .
  qed
qed

lemma fl_one: "0 < prec F \<Longrightarrow> minExp F \<le> 0 \<Longrightarrow> fl F 1 = 1"
  using one_le_power [of "2 :: int" "prec F"] by (intro fl_float isFloatI [of _ 1 0]) auto

text \<open>A part of a whole is a number between 0 and 1, also after rounding.\<close>

lemma ratio_bounds:
  assumes "0 \<le> a" "a \<le> b"
  shows "0 \<le> ratio a b" "ratio a b \<le> 1" "isFloat binary32 (ratio a b)"
proof -
  let ?q = "fl binary32 (of_int a) / fl binary32 (of_int b) :: rat"
  have f: "0 \<le> fl binary32 (of_int a)" "fl binary32 (of_int a) \<le> fl binary32 (of_int b)"
    using assms by (auto intro: fl_nonneg fl_mono simp: binary32_def)
  then have q: "0 \<le> ?q" "?q \<le> 1" by (auto simp: divide_le_eq_1)
  show "0 \<le> ratio a b" using q by (simp add: ratio_def fl_nonneg)
  show "ratio a b \<le> 1" using fl_mono [OF q, of binary32] fl_one [of binary32] by (simp add: ratio_def binary32_def)
  show "isFloat binary32 (ratio a b)" using fl_isFloat [OF q(1)] by (simp add: ratio_def binary32_def)
qed

end
