(* ===== verification/World.thy ===== *)
theory World
  imports Bolt Floats
begin

text \<open>
  Effects of the long-running parts of vspm: remote calls, database transactions and HTTP
  responses, as actions on an explicit world. The world holds the database and the list of
  events so far; what a remote side answers may depend on all of them, so every answer is a
  function of that history and the call. An action returns an outcome, so a run-time panic
  anywhere in a handler is a result and not an omission.
\<close>

section \<open>Calls and events\<close>

datatype arg = AStr string | AInt int | ABool bool | AStrs "string list"

text \<open>The clock and the cancellation of the context are asked like remote sides.\<close>

datatype target = Mond | Wallet nat | Clock | Ctx

datatype call = Call target string "arg list"

text \<open>What the code reads of a transaction returned by \<open>getrawtransaction\<close>.\<close>

record rawTx =
  rHex :: string
  rTxid :: string
  rConfirmations :: int64
  rBlockHash :: string
  rBlockHeight :: int64

text \<open>A wallet's ticket: its hash and its consensus choices (agenda, choice).\<close>

record walletTicket =
  wtHash :: string
  wtChoices :: "(string \<times> string) list"

text \<open>
  \<open>RWalletInfo\<close>: connected to its daemon, vote version, unlocked, voting. \<open>RSigned\<close>: a transaction, and
  whether all its inputs are signed.
\<close>

datatype reply = RNone | RStr string | RInt int | RBool bool | RRaw rawTx
  | RTickets "walletTicket list" | RVersions "(string \<times> uint32 \<times> uint32 \<times> uint32) list"
  | RWalletInfo bool uint32 bool bool | RFilter string "string list" uint32 | RSigned string bool

datatype 's event = Asked call | Wrote 's | Responded nat string string

text \<open>
  The statistics the web server caches (\<open>cacheData\<close> of \<open>internal/webapi/cache.go\<close>) without the
  texts shown on the admin page; the proportions are values of \<open>float32\<close>.
\<close>

record cacheData =
  Initialized :: bool
  nVoting :: int64
  nVoted :: int64
  nExpired :: int64
  nMissed :: int64
  nWalletsOnline :: int64
  nTotalWallets :: int64
  nBlockHeight :: uint32
  nNetworkProportion :: rat
  nExpiredProportion :: rat
  nMissedProportion :: rat

text \<open>
  \<open>conns\<close> tells which remote sides have a client object (a non-nil \<open>client.client\<close>); \<open>lastIdx\<close> and
  \<open>cached\<close> are the mutable memory of the web server: the counter of the address generator and
  the cached statistics. \<open>scanned\<close> is \<open>lastScannedBlock\<close> of the background task (\<open>Vspm\<close>).
\<close>

record 's world =
  wdb :: 's
  events :: "'s event list"
  conns :: "target \<Rightarrow> bool"
  lastIdx :: uint32
  cached :: cacheData
  scanned :: int64

type_synonym ('s, 'a) act = "'s world \<Rightarrow> 'a outcome \<times> 's world"

text \<open>The environment: what is answered to a call, given the history.\<close>

type_synonym 's env = "'s event list \<Rightarrow> call \<Rightarrow> err + reply"

section \<open>Actions\<close>

definition ret :: "'a \<Rightarrow> ('s, 'a) act" where
  "ret a w = (Ok a, w)"

definition failA :: "err \<Rightarrow> ('s, 'a) act" where
  "failA e w = (Fail e, w)"

definition panic :: "('s, 'a) act" where
  "panic w = (Panic, w)"

definition bindA :: "('s, 'a) act \<Rightarrow> ('a \<Rightarrow> ('s, 'b) act) \<Rightarrow> ('s, 'b) act" where
  "bindA m k w = (case m w of
     (Ok a, w') \<Rightarrow> k a w'
   | (Fail e, w') \<Rightarrow> (Fail e, w')
   | (Panic, w') \<Rightarrow> (Panic, w'))"

text \<open>\<open>v, err := m; if err != nil { h(err) } else { k(v) }\<close>.\<close>

definition tryA :: "('s, 'a) act \<Rightarrow> (err \<Rightarrow> ('s, 'b) act) \<Rightarrow> ('a \<Rightarrow> ('s, 'b) act) \<Rightarrow> ('s, 'b) act" where
  "tryA m h k w = (case m w of
     (Ok a, w') \<Rightarrow> k a w'
   | (Fail e, w') \<Rightarrow> h e w'
   | (Panic, w') \<Rightarrow> (Panic, w'))"

definition lift :: "'a outcome \<Rightarrow> ('s, 'a) act" where
  "lift r w = (r, w)"

definition ask :: "'s env \<Rightarrow> call \<Rightarrow> ('s, reply) act" where
  "ask E c w =
     (case E (events w) c of
        Inl e \<Rightarrow> (Fail e, w\<lparr>events := events w @ [Asked c]\<rparr>)
      | Inr r \<Rightarrow> (Ok r, w\<lparr>events := events w @ [Asked c]\<rparr>))"

text \<open>A read transaction, and a write transaction, whose committed state is an event.\<close>

definition query :: "('s \<Rightarrow> 'a outcome) \<Rightarrow> ('s, 'a) act" where
  "query f w = (f (wdb w), w)"

definition commit :: "('s \<Rightarrow> 's outcome) \<Rightarrow> ('s, unit) act" where
  "commit f w =
     (case f (wdb w) of
        Ok s \<Rightarrow> (Ok (), w\<lparr>wdb := s, events := events w @ [Wrote s]\<rparr>)
      | Fail e \<Rightarrow> (Fail e, w)
      | Panic \<Rightarrow> (Panic, w))"

definition respond :: "nat \<Rightarrow> string \<Rightarrow> string \<Rightarrow> ('s, unit) act" where
  "respond status body sig w = (Ok (), w\<lparr>events := events w @ [Responded status body sig]\<rparr>)"

text \<open>\<open>time.Now()\<close> in nanoseconds, and \<open>ctx.Err() != nil\<close>. Neither can fail.\<close>

definition now :: "'s env \<Rightarrow> ('s, int) act" where
  "now E = (\<lambda>w. case ask E (Call Clock ''now'' []) w of
     (Ok (RInt n), w') \<Rightarrow> (Ok n, w') | (_, w') \<Rightarrow> (Ok 0, w'))"

definition canceled :: "'s env \<Rightarrow> ('s, bool) act" where
  "canceled E = (\<lambda>w. case ask E (Call Ctx ''err'' []) w of
     (Ok (RBool b), w') \<Rightarrow> (Ok b, w') | (_, w') \<Rightarrow> (Ok False, w'))"

text \<open>A \<open>for\<close> loop whose body threads a state and tells whether to leave the loop.\<close>

datatype ('x, 'r) flow = Next 'x | Return 'r

fun forA :: "('a \<Rightarrow> 'x \<Rightarrow> ('s, ('x, 'r) flow) act) \<Rightarrow> 'a list \<Rightarrow> 'x \<Rightarrow> ('s, ('x, 'r) flow) act" where
  "forA body [] x = ret (Next x)"
| "forA body (a # as) x = bindA (body a x) (\<lambda>f. case f of
     Next x' \<Rightarrow> forA body as x'
   | Return r \<Rightarrow> ret (Return r))"

text \<open>A loop that runs an action on every element, whatever the outcomes of the others.\<close>

fun eachA :: "('a \<Rightarrow> ('s, unit) act) \<Rightarrow> 'a list \<Rightarrow> ('s, unit) act" where
  "eachA f [] = ret ()"
| "eachA f (a # as) = bindA (f a) (\<lambda>_. eachA f as)"

definition setConn :: "target \<Rightarrow> bool \<Rightarrow> ('s, unit) act" where
  "setConn t b w = (Ok (), w\<lparr>conns := (conns w)(t := b)\<rparr>)"

definition hasConn :: "target \<Rightarrow> ('s, bool) act" where
  "hasConn t w = (Ok (conns w t), w)"

text \<open>A loop that threads a state and always runs to its end.\<close>

fun foldA :: "('a \<Rightarrow> 'x \<Rightarrow> ('s, 'x) act) \<Rightarrow> 'a list \<Rightarrow> 'x \<Rightarrow> ('s, 'x) act" where
  "foldA f [] x = ret x"
| "foldA f (a # as) x = bindA (f a x) (\<lambda>x'. foldA f as x')"

text \<open>A loop that checks \<open>ctx.Err()\<close> before each element.\<close>

fun untilCanceled :: "'s env \<Rightarrow> ('a \<Rightarrow> ('s, unit) act) \<Rightarrow> 'a list \<Rightarrow> ('s, unit) act" where
  "untilCanceled E f [] = ret ()"
| "untilCanceled E f (a # as) =
     bindA (canceled E) (\<lambda>b. if b then ret () else bindA (f a) (\<lambda>_. untilCanceled E f as))"

text \<open>\<open>if err != nil { log }\<close>: an error is not passed on.\<close>

definition logged :: "('s, unit) act \<Rightarrow> ('s, unit) act" where
  "logged m = tryA m (\<lambda>_. ret ()) ret"

text \<open>Reading the memory of the process, and the writes to it.\<close>

definition peek :: "('s world \<Rightarrow> 'a) \<Rightarrow> ('s, 'a) act" where
  "peek f w = (Ok (f w), w)"

definition putIdx :: "uint32 \<Rightarrow> ('s, unit) act" where
  "putIdx i w = (Ok (), w\<lparr>lastIdx := i\<rparr>)"

definition putCache :: "cacheData \<Rightarrow> ('s, unit) act" where
  "putCache d w = (Ok (), w\<lparr>cached := d\<rparr>)"

definition putScanned :: "int64 \<Rightarrow> ('s, unit) act" where
  "putScanned h w = (Ok (), w\<lparr>scanned := h\<rparr>)"

section \<open>Reasoning about actions\<close>

named_theorems act_defs \<open>definitions of the elementary actions\<close>
declare ret_def [act_defs] failA_def [act_defs] panic_def [act_defs] lift_def [act_defs]
  query_def [act_defs] respond_def [act_defs]

text \<open>
  \<open>keeps I m\<close>: the action preserves \<open>I\<close> of the world; \<open>act_post P m Q\<close>: from a world with
  \<open>P\<close>, the result and the world it leaves satisfy \<open>Q\<close>, a panic included.
\<close>

definition act_post :: "('s world \<Rightarrow> bool) \<Rightarrow> ('s, 'a) act \<Rightarrow> ('a outcome \<Rightarrow> 's world \<Rightarrow> bool) \<Rightarrow> bool" where
  "act_post P m Q \<longleftrightarrow> (\<forall>w r w'. P w \<longrightarrow> m w = (r, w') \<longrightarrow> Q r w')"

lemma act_postI: "(\<And>w r w'. P w \<Longrightarrow> m w = (r, w') \<Longrightarrow> Q r w') \<Longrightarrow> act_post P m Q"
  by (simp add: act_post_def)

lemma act_postD: "act_post P m Q \<Longrightarrow> P w \<Longrightarrow> m w = (r, w') \<Longrightarrow> Q r w'"
  by (simp add: act_post_def)

lemma act_post_conseq:
  "act_post P m Q \<Longrightarrow> (\<And>w. P' w \<Longrightarrow> P w) \<Longrightarrow> (\<And>r w. Q r w \<Longrightarrow> Q' r w) \<Longrightarrow> act_post P' m Q'"
  unfolding act_post_def by blast

lemma act_post_bind:
  assumes "act_post P m Q'" "\<And>e w. Q' (Fail e) w \<Longrightarrow> Q (Fail e) w" "\<And>w. Q' Panic w \<Longrightarrow> Q Panic w"
    "\<And>a. act_post (Q' (Ok a)) (k a) Q"
  shows "act_post P (bindA m k) Q"
proof (rule act_postI)
  fix w r w' assume w: "P w" and run: "bindA m k w = (r, w')"
  obtain x w1 where m: "m w = (x, w1)" by (cases "m w")
  have q: "Q' x w1" using assms(1) w m by (rule act_postD)
  show "Q r w'"
    using run m q assms(2,3) act_postD [OF assms(4)]
    by (cases x) (auto simp: bindA_def)
qed

lemma act_post_try:
  assumes "act_post P m Q'" "\<And>w. Q' Panic w \<Longrightarrow> Q Panic w"
    "\<And>e. act_post (Q' (Fail e)) (h e) Q" "\<And>a. act_post (Q' (Ok a)) (k a) Q"
  shows "act_post P (tryA m h k) Q"
proof (rule act_postI)
  fix w r w' assume w: "P w" and run: "tryA m h k w = (r, w')"
  obtain x w1 where m: "m w = (x, w1)" by (cases "m w")
  have q: "Q' x w1" using assms(1) w m by (rule act_postD)
  show "Q r w'"
    using run m q assms(2) act_postD [OF assms(3)] act_postD [OF assms(4)]
    by (cases x) (auto simp: tryA_def)
qed

lemma act_post_ret: "(\<And>w. P w \<Longrightarrow> Q (Ok a) w) \<Longrightarrow> act_post P (ret a) Q"
  by (auto simp: act_post_def ret_def)

text \<open>An invariant of the world, kept whatever the outcome.\<close>

definition keeps :: "('s world \<Rightarrow> bool) \<Rightarrow> ('s, 'a) act \<Rightarrow> bool" where
  "keeps I m \<longleftrightarrow> (\<forall>w. I w \<longrightarrow> I (snd (m w)))"

named_theorems keeps_intros \<open>preservation of a world invariant\<close>

lemma keepsI: "(\<And>w r w'. I w \<Longrightarrow> m w = (r, w') \<Longrightarrow> I w') \<Longrightarrow> keeps I m"
  by (metis keeps_def prod.collapse)

lemma keepsD: "keeps I m \<Longrightarrow> I w \<Longrightarrow> m w = (r, w') \<Longrightarrow> I w'"
  by (metis keeps_def snd_conv)

lemma keeps_bind [keeps_intros]: "keeps I m \<Longrightarrow> (\<And>a. keeps I (k a)) \<Longrightarrow> keeps I (bindA m k)"
  unfolding keeps_def bindA_def by (auto split: prod.splits outcome.splits)

lemma keeps_try [keeps_intros]:
  "keeps I m \<Longrightarrow> (\<And>e. keeps I (h e)) \<Longrightarrow> (\<And>a. keeps I (k a)) \<Longrightarrow> keeps I (tryA m h k)"
  unfolding keeps_def tryA_def by (auto split: prod.splits outcome.splits)

lemma keeps_ret [keeps_intros]: "keeps I (ret a)" and keeps_fail [keeps_intros]: "keeps I (failA e)"
  and keeps_panic [keeps_intros]: "keeps I panic" and keeps_lift [keeps_intros]: "keeps I (lift r)"
  and keeps_query [keeps_intros]: "keeps I (query f)"
  by (simp_all add: keeps_def act_defs)

lemma keeps_for [keeps_intros]: "(\<And>a x. keeps I (body a x)) \<Longrightarrow> keeps I (forA body as x)"
  by (induction as arbitrary: x) (auto intro!: keeps_intros split: flow.splits)

lemma keeps_each [keeps_intros]: "(\<And>a. keeps I (f a)) \<Longrightarrow> keeps I (eachA f as)"
  by (induction as) (auto intro!: keeps_intros)

lemma keeps_fold [keeps_intros]: "(\<And>a x. keeps I (f a x)) \<Longrightarrow> keeps I (foldA f as x)"
  by (induction as arbitrary: x) (auto intro!: keeps_intros)

lemma keeps_logged [keeps_intros]: "keeps I m \<Longrightarrow> keeps I (logged m)"
  by (auto simp: logged_def intro!: keeps_intros)

text \<open>
  What a handler changes for later ones: the database and the address counter. An invariant of
  these alone is not affected by calls and responses.
\<close>

definition mem :: "'s world \<Rightarrow> 's \<times> uint32" where
  "mem w = (wdb w, lastIdx w)"

lemma mem_simps [simp]: "mem (w\<lparr>events := es\<rparr>) = mem w" "mem (w\<lparr>conns := cs\<rparr>) = mem w"
    "mem (w\<lparr>cached := d\<rparr>) = mem w" "mem (w\<lparr>scanned := h\<rparr>) = mem w"
    "mem (w\<lparr>wdb := s\<rparr>) = (s, lastIdx w)" "mem (w\<lparr>lastIdx := i\<rparr>) = (wdb w, i)"
  by (simp_all add: mem_def)

lemma keeps_ask [keeps_intros]: "keeps (\<lambda>w. P (mem w)) (ask E c)"
  by (auto simp: keeps_def ask_def split: sum.splits)

lemma keeps_respond [keeps_intros]: "keeps (\<lambda>w. P (mem w)) (respond st b sg)"
  by (simp add: keeps_def respond_def)

lemma keeps_conn [keeps_intros]: "keeps (\<lambda>w. P (mem w)) (setConn t b)" "keeps I (hasConn t)"
  by (simp_all add: keeps_def setConn_def hasConn_def)

lemma keeps_memory [keeps_intros]: "keeps I (peek f)"
    "keeps (\<lambda>w. P (mem w)) (putCache d)" "keeps (\<lambda>w. P (mem w)) (putScanned h)"
  by (simp_all add: keeps_def peek_def putCache_def putScanned_def)

lemma keeps_now [keeps_intros]: "keeps (\<lambda>w. P (mem w)) (now E)"
  using keeps_ask [of P E "Call Clock ''now'' []"]
  by (auto simp: keeps_def now_def split: prod.splits outcome.splits reply.splits)

lemma keeps_canceled [keeps_intros]: "keeps (\<lambda>w. P (mem w)) (canceled E)"
  using keeps_ask [of P E "Call Ctx ''err'' []"]
  by (auto simp: keeps_def canceled_def split: prod.splits outcome.splits reply.splits)

lemma keeps_until [keeps_intros]:
  "(\<And>a. keeps (\<lambda>w. P (mem w)) (f a)) \<Longrightarrow> keeps (\<lambda>w. P (mem w)) (untilCanceled E f as)"
  by (induction as) (auto intro!: keeps_intros)

lemma keeps_commit: "(\<And>s i s'. P (s, i) \<Longrightarrow> f s = Ok s' \<Longrightarrow> P (s', i)) \<Longrightarrow> keeps (\<lambda>w. P (mem w)) (commit f)"
  by (auto simp: keeps_def commit_def mem_def split: outcome.splits)

lemma now_Ok: "\<exists>n w'. now E w = (Ok n, w') \<and> wdb w' = wdb w"
  by (auto simp: now_def ask_def split: sum.splits reply.splits)

lemma canceled_Ok: "\<exists>b w'. canceled E w = (Ok b, w') \<and> wdb w' = wdb w"
  by (auto simp: canceled_def ask_def split: sum.splits reply.splits)

section \<open>Triples\<close>

text \<open>
  \<open>tri P m N I\<close>: from a world with \<open>P\<close>, a result of \<open>m\<close> leaves a world with \<open>N\<close>, and an error or a
  panic leaves one with \<open>I\<close>.
\<close>

definition tri :: "('s world \<Rightarrow> bool) \<Rightarrow> ('s, 'a) act \<Rightarrow> ('a \<Rightarrow> 's world \<Rightarrow> bool) \<Rightarrow> ('s world \<Rightarrow> bool) \<Rightarrow> bool" where
  "tri P m N I \<longleftrightarrow> act_post P m (\<lambda>r w. case r of Ok a \<Rightarrow> N a w | _ \<Rightarrow> I w)"

lemma triI: "(\<And>w. P w \<Longrightarrow> case m w of (Ok a, w') \<Rightarrow> N a w' | (_, w') \<Rightarrow> I w') \<Longrightarrow> tri P m N I"
  by (fastforce simp: tri_def act_post_def split: outcome.splits)

lemma triD: "tri P m N I \<Longrightarrow> P w \<Longrightarrow> m w = (r, w') \<Longrightarrow> case r of Ok a \<Rightarrow> N a w' | _ \<Rightarrow> I w'"
  by (auto simp: tri_def act_post_def)

lemma tri_conseq:
  assumes "tri P m N I" "\<And>w. P' w \<Longrightarrow> P w" "\<And>a w. N a w \<Longrightarrow> N' a w" "\<And>w. I w \<Longrightarrow> I' w"
  shows "tri P' m N' I'"
  using assms(1) unfolding tri_def
  by (rule act_post_conseq) (use assms(2-) in \<open>auto split: outcome.splits\<close>)

lemma tri_bind:
  assumes "tri P m N0 I" "\<And>a. tri (N0 a) (k a) N I"
  shows "tri P (bindA m k) N I"
  using assms(1) unfolding tri_def
  by (rule act_post_bind) (use assms(2) in \<open>auto simp: tri_def\<close>)

lemma tri_try:
  assumes "tri P m N0 E" "\<And>e. tri E (h e) N I" "\<And>a. tri (N0 a) (k a) N I" "\<And>w. E w \<Longrightarrow> I w"
  shows "tri P (tryA m h k) N I"
  using assms(1) unfolding tri_def
  by (rule act_post_try) (use assms(2-) in \<open>auto simp: tri_def\<close>)

lemma tri_keeps: "keeps P m \<Longrightarrow> tri P m (\<lambda>_. P) P"
  by (auto simp: tri_def act_post_def dest: keepsD split: outcome.splits)

lemma tri_commit:
  "(\<And>w s'. P w \<Longrightarrow> f (wdb w) = Ok s' \<Longrightarrow> Q (w\<lparr>wdb := s', events := events w @ [Wrote s']\<rparr>))
   \<Longrightarrow> tri P (commit f) (\<lambda>_. Q) P"
  by (rule triI) (auto simp: commit_def split: outcome.splits)

lemma tri_query: "tri P (query f) (\<lambda>a w. P w \<and> f (wdb w) = Ok a) P"
  by (rule triI) (auto simp: query_def split: outcome.splits)

lemma tri_lift: "tri P (lift r) (\<lambda>a w. P w \<and> r = Ok a) P"
  by (rule triI) (auto simp: lift_def split: outcome.splits)

lemma tri_ret: "(\<And>w. P w \<Longrightarrow> N a w) \<Longrightarrow> tri P (ret a) N I"
  by (rule triI) (simp add: ret_def)

lemma tri_fail: "(\<And>w. P w \<Longrightarrow> I w) \<Longrightarrow> tri P (failA e) N I"
  by (rule triI) (simp add: failA_def)

lemma tri_panic: "(\<And>w. P w \<Longrightarrow> I w) \<Longrightarrow> tri P panic N I"
  by (rule triI) (simp add: panic_def)

lemma tri_peek: "tri P (peek f) (\<lambda>a w. P w \<and> f w = a) I"
  by (rule triI) (simp add: peek_def)

text \<open>Steps that keep the precondition, in front of the rest.\<close>

lemma tri_bind_keeps:
  assumes "keeps P m" "\<And>w. P w \<Longrightarrow> I w" "\<And>a. tri P (k a) N I"
  shows "tri P (bindA m k) N I"
  by (rule tri_bind [OF tri_conseq [OF tri_keeps [OF assms(1)]] assms(3)]) (auto intro: assms(2))

lemma tri_try_keeps:
  assumes "keeps P m" "\<And>w. P w \<Longrightarrow> I w" "\<And>e. tri P (h e) N I" "\<And>a. tri P (k a) N I"
  shows "tri P (tryA m h k) N I"
  by (rule tri_try [OF tri_keeps [OF assms(1)] assms(3,4,2)])

lemma tri_bind_query:
  assumes "\<And>w. P w \<Longrightarrow> I w" "\<And>a. tri (\<lambda>w. P w \<and> f (wdb w) = Ok a) (k a) N I"
  shows "tri P (bindA (query f) k) N I"
  by (rule tri_bind [OF tri_conseq [OF tri_query [of P f]] assms(2)]) (auto intro: assms(1))

lemma tri_try_query:
  assumes "\<And>w. P w \<Longrightarrow> I w" "\<And>e. tri P (h e) N I" "\<And>a. tri (\<lambda>w. P w \<and> f (wdb w) = Ok a) (k a) N I"
  shows "tri P (tryA (query f) h k) N I"
  by (rule tri_try [OF tri_query assms(2,3,1)])

lemma tri_pure: "(\<phi> \<Longrightarrow> tri P m N I) \<Longrightarrow> tri (\<lambda>w. P w \<and> \<phi>) m N I"
  by (auto simp: tri_def act_post_def)

lemma tri_bind_lift:
  assumes "\<And>w. P w \<Longrightarrow> I w" "\<And>a. r = Ok a \<Longrightarrow> tri P (k a) N I"
  shows "tri P (bindA (lift r) k) N I"
  by (rule tri_bind [OF tri_conseq [OF tri_lift [of P r]] tri_pure [OF assms(2)]]) (auto intro: assms(1))

lemma tri_try_lift:
  assumes "\<And>w. P w \<Longrightarrow> I w" "\<And>e. tri P (h e) N I" "\<And>a. r = Ok a \<Longrightarrow> tri P (k a) N I"
  shows "tri P (tryA (lift r) h k) N I"
  by (rule tri_try [OF tri_lift assms(2) tri_pure [OF assms(3)] assms(1)])

text \<open>A commit: the rest starts from what the write establishes.\<close>

lemma tri_bind_commit:
  assumes "\<And>w s'. P w \<Longrightarrow> f (wdb w) = Ok s' \<Longrightarrow> Q (w\<lparr>wdb := s', events := events w @ [Wrote s']\<rparr>)"
    "\<And>w. P w \<Longrightarrow> I w" "tri Q (k ()) N I"
  shows "tri P (bindA (commit f) k) N I"
  by (rule tri_bind [OF tri_conseq [OF tri_commit [of P f Q]]]) (use assms in auto)

lemma tri_try_commit:
  assumes "\<And>w s'. P w \<Longrightarrow> f (wdb w) = Ok s' \<Longrightarrow> Q (w\<lparr>wdb := s', events := events w @ [Wrote s']\<rparr>)"
    "\<And>w. P w \<Longrightarrow> I w" "\<And>e. tri P (h e) N I" "tri Q (k ()) N I"
  shows "tri P (tryA (commit f) h k) N I"
  by (rule tri_try [OF tri_commit [of P f Q]]) (use assms in auto)

text \<open>Branches, leaves and loops.\<close>

lemma tri_pre: "tri P m N I \<Longrightarrow> (\<And>w. P' w \<Longrightarrow> P w) \<Longrightarrow> tri P' m N I"
  by (rule tri_conseq [of P m N I]) auto

lemma tri_leaf: "keeps P m \<Longrightarrow> (\<And>w. P w \<Longrightarrow> I w) \<Longrightarrow> tri P m (\<lambda>_. I) I"
  by (rule tri_conseq [OF tri_keeps [of P]]) auto

lemma tri_case: "(\<And>a b. p = (a, b) \<Longrightarrow> tri P (f a b) N I) \<Longrightarrow> tri P (case p of (a, b) \<Rightarrow> f a b) N I"
  by (cases p) simp

lemma tri_if: "(b \<Longrightarrow> tri P x N I) \<Longrightarrow> (\<not> b \<Longrightarrow> tri P y N I) \<Longrightarrow> tri P (if b then x else y) N I"
  by simp

lemma tri_sum:
  "(\<And>e. r = Inl e \<Longrightarrow> tri P (f e) N I) \<Longrightarrow> (\<And>a. r = Inr a \<Longrightarrow> tri P (g a) N I)
   \<Longrightarrow> tri P (case r of Inl e \<Rightarrow> f e | Inr a \<Rightarrow> g a) N I"
  by (cases r) simp_all

lemma tri_option:
  "(\<And>e. r = Some e \<Longrightarrow> tri P (f e) N I) \<Longrightarrow> (r = None \<Longrightarrow> tri P g N I)
   \<Longrightarrow> tri P (case r of None \<Rightarrow> g | Some e \<Rightarrow> f e) N I"
  by (cases r) simp_all

lemma keeps_tri: "keeps P m \<longleftrightarrow> tri P m (\<lambda>_. P) P"
  by (auto simp: tri_keeps) (auto simp: keeps_def tri_def act_post_def split: outcome.splits, metis outcome.exhaust prod.collapse)

lemma keeps_ifs: "keeps I f \<Longrightarrow> keeps I g \<Longrightarrow> keeps I (if b then f else g)"
  by simp

lemma keeps_case [keeps_intros]: "(\<And>a b. keeps I (f a b)) \<Longrightarrow> keeps I (case p of (a, b) \<Rightarrow> f a b)"
  by (cases p) simp

lemma tri_logged:
  "tri P m (\<lambda>_. Q) Q \<Longrightarrow> tri P (logged m) (\<lambda>_. Q) Q"
  unfolding logged_def by (rule tri_try) (auto intro: tri_ret)

lemma tri_fold:
  assumes "\<And>a x. tri (J x) (f a x) J I" "\<And>x w. J x w \<Longrightarrow> I w"
  shows "tri (J x) (foldA f as x) J I"
proof (induction as arbitrary: x)
  case Nil
  then show ?case by (simp add: tri_ret)
next
  case (Cons a as)
  show ?case unfolding foldA.simps by (rule tri_bind [OF assms(1)]) (rule Cons)
qed

lemma tri_for:
  assumes "\<And>a x. a \<in> set as \<Longrightarrow> tri (J x) (body a x) (\<lambda>r w. case r of Next x' \<Rightarrow> J x' w | Return y \<Rightarrow> R y w) I"
  shows "tri (J x) (forA body as x) (\<lambda>r w. case r of Next x' \<Rightarrow> J x' w | Return y \<Rightarrow> R y w) I"
  using assms
proof (induction as arbitrary: x)
  case Nil
  then show ?case by (auto intro: tri_ret)
next
  case (Cons a as)
  show ?case
    unfolding forA.simps
  proof (rule tri_bind [OF Cons.prems])
    show "a \<in> set (a # as)" by simp
    fix r
    show "tri (\<lambda>w. case r of Next x' \<Rightarrow> J x' w | Return y \<Rightarrow> R y w)
      (case r of Next x' \<Rightarrow> forA body as x' | Return r \<Rightarrow> ret (Return r))
      (\<lambda>r w. case r of Next x' \<Rightarrow> J x' w | Return y \<Rightarrow> R y w) I"
      using Cons by (cases r) (auto intro: tri_ret)
  qed
qed

end
