(* ===== verification/Chain.thy ===== *)
theory Chain
  imports World
begin

text \<open>
  Data of the chain libraries (\<open>wire\<close>, \<open>chainhash\<close>, \<open>stdaddr\<close>, \<open>stake\<close>, \<open>gcs\<close>, \<open>hdkeychain\<close>,
  \<open>txrules\<close>), which are not part of the repository: the records hold what the code reads of
  their values, and the functions the code calls are fields of the parameter \<open>lib\<close>. Hex and
  base64 are the standard library's and are defined here.
\<close>

section \<open>Hex and base64\<close>

definition hexVal :: "char \<Rightarrow> nat option" where
  "hexVal c = (let n = of_char c in
     if 48 \<le> n \<and> n \<le> 57 then Some (n - 48)
     else if 97 \<le> n \<and> n \<le> 102 then Some (n - 87)
     else if 65 \<le> n \<and> n \<le> 70 then Some (n - 55)
     else None)"

text \<open>\<open>hex.DecodeString\<close>.\<close>

fun hexDecode :: "string \<Rightarrow> bytes option" where
  "hexDecode [] = Some []"
| "hexDecode [c] = None"
| "hexDecode (a # b # s) =
     (case (hexVal a, hexVal b, hexDecode s) of
        (Some x, Some y, Some r) \<Rightarrow> Some (char_of (16 * x + y) # r)
      | _ \<Rightarrow> None)"

definition hexDecodeE :: "string \<Rightarrow> bytes outcome" where
  "hexDecodeE s = (case hexDecode s of
     Some b \<Rightarrow> Ok b | None \<Rightarrow> Fail (Plain ''encoding/hex: invalid hex string''))"

lemma length_hexDecode: "hexDecode s = Some b \<Longrightarrow> length s = 2 * length b"
  by (induction s arbitrary: b rule: hexDecode.induct) (auto split: option.splits)

text \<open>\<open>base64.StdEncoding.EncodeToString\<close>.\<close>

definition b64char :: "nat \<Rightarrow> char" where
  "b64char n =
     char_of (if n < 26 then 65 + n else if n < 52 then 71 + n else if n < 62 then n - 4
       else if n = 62 then 43 else 47)"

fun base64 :: "bytes \<Rightarrow> string" where
  "base64 [] = []"
| "base64 [a] = (let x = of_char a in [b64char (x div 4), b64char (x mod 4 * 16), CHR ''='', CHR ''=''])"
| "base64 [a, b] = (let x = of_char a; y = of_char b in
     [b64char (x div 4), b64char (x mod 4 * 16 + y div 16), b64char (y mod 16 * 4), CHR ''=''])"
| "base64 (a # b # c # s) = (let x = of_char a; y = of_char b; z = of_char c in
     [b64char (x div 4), b64char (x mod 4 * 16 + y div 16), b64char (y mod 16 * 4 + z div 64),
      b64char (z mod 64)] @ base64 s)"

section \<open>Transactions, headers, blocks\<close>

type_synonym hash = bytes

record txIn =
  prevHash :: hash
  prevIndex :: uint32

record txOut =
  outValue :: int64
  outVersion :: uint16
  outPkScript :: bytes

record msgTx =
  txHash :: hash
  txIns :: "txIn list"
  txOuts :: "txOut list"

record header =
  hdHash :: hash
  hdHeight :: uint32
  hdSBits :: int64
  hdPoolSize :: uint32

record block =
  blkSTransactions :: "msgTx list"

text \<open>A decoded private key in wallet import format.\<close>

record wif =
  wifString :: string
  wifPubKey :: bytes

section \<open>Parameters of the model\<close>

text \<open>
  \<open>'x\<close> is the type of extended keys and \<open>'f\<close> the type of block filters. Functions that return a
  Go error return \<open>Inl\<close>; a script is a version with its bytes.
\<close>

datatype 'x childResult = Child 'x | InvalidChild | ChildErr err

record ('x, 'f) lib =
  lbFromBytes :: "bytes \<Rightarrow> err + msgTx"
  lbHashStr :: "hash \<Rightarrow> string"
  lbHashOf :: "string \<Rightarrow> err + hash"
  lbHeader :: "bytes \<Rightarrow> err + header"
  lbBlock :: "bytes \<Rightarrow> err + block"
  lbFilter :: "bytes \<Rightarrow> err + 'f"
  lbVerifyInclusion :: "header \<Rightarrow> 'f \<Rightarrow> uint32 \<Rightarrow> hash list \<Rightarrow> bool"
  lbFilterKey :: "header \<Rightarrow> bytes"
  lbMatchAny :: "'f \<Rightarrow> bytes \<Rightarrow> bytes list \<Rightarrow> bool"
  lbBitsetGet :: "bytes \<Rightarrow> nat \<Rightarrow> bool outcome"
  lbSanity :: "msgTx \<Rightarrow> err option"
  lbDecodeAddress :: "string \<Rightarrow> err + (uint16 \<times> bytes)"
  lbAddressKind :: "string \<Rightarrow> err + bool"
  lbDecodeWIF :: "string \<Rightarrow> err + wif"
  lbVotingScript :: "bytes \<Rightarrow> err + (uint16 \<times> bytes)"
  lbIsSStx :: "msgTx \<Rightarrow> bool"
  lbIsSSGen :: "msgTx \<Rightarrow> bool"
  lbCommitmentAddr :: "bytes \<Rightarrow> err + string"
  lbVerifyMessage :: "string \<Rightarrow> string \<Rightarrow> string \<Rightarrow> err option"
  lbKeyFromString :: "string \<Rightarrow> err + 'x"
  lbIsPrivate :: "'x \<Rightarrow> bool"
  lbChild :: "'x \<Rightarrow> uint32 \<Rightarrow> 'x childResult"
  lbKeyAddress :: "'x \<Rightarrow> err + string"
  lbTicketFee :: "int64 \<Rightarrow> int64 \<Rightarrow> uint32 \<Rightarrow> bool \<Rightarrow> bool \<Rightarrow> int64"

fun fromSum :: "err + 'a \<Rightarrow> 'a outcome" where
  "fromSum (Inl e) = Fail e"
| "fromSum (Inr a) = Ok a"

lemma fromSum_eq [outcome_simps]: "fromSum x = Ok a \<longleftrightarrow> x = Inr a" "fromSum x \<noteq> Panic"
  by (cases x; simp)+

text \<open>The parameters of a network (\<open>chaincfg.Params\<close> and \<open>config.Network\<close>).\<close>

record network =
  netName :: string
  netID :: int
  TicketMaturity :: uint16
  TicketExpiry :: uint32
  Deployments :: "(uint32 \<times> (string \<times> string list) list) list"
  DCP0005Height :: int64
  DCP0010Height :: int64
  DCP0012Height :: int64

section \<open>\<open>config/network.go\<close>\<close>

definition DCP5Active :: "network \<Rightarrow> int64 \<Rightarrow> bool" where
  "DCP5Active n height \<longleftrightarrow> sint height \<ge> sint (DCP0005Height n)"

definition DCP10Active :: "network \<Rightarrow> int64 \<Rightarrow> bool" where
  "DCP10Active n height \<longleftrightarrow> sint height \<ge> sint (DCP0010Height n)"

definition DCP12Active :: "network \<Rightarrow> int64 \<Rightarrow> bool" where
  "DCP12Active n height \<longleftrightarrow> sint height \<ge> sint (DCP0012Height n)"

fun latestVoteVersion :: "uint32 list \<Rightarrow> uint32 \<Rightarrow> uint32" where
  "latestVoteVersion [] latest = latest"
| "latestVoteVersion (v # vs) latest = latestVoteVersion vs (if latest < v then v else latest)"

definition CurrentVoteVersion :: "network \<Rightarrow> uint32" where
  "CurrentVoteVersion n = latestVoteVersion (map fst (Deployments n)) 0"

lemma latestVoteVersion_Max: "latestVoteVersion vs a = Max (insert a (set vs))"
proof (induction vs arbitrary: a)
  case Nil
  show ?case by simp
next
  case (Cons v vs)
  then show ?case
    by (cases "vs = []") (auto simp: max_def Max_insert insert_commute [of a v])
qed

end
