(* ===== verification/Rpc.thy ===== *)
theory Rpc
  imports Chain
begin

text \<open>
  \<open>rpc/version.go\<close>, \<open>rpc/client.go\<close>, \<open>rpc/mond.go\<close> and \<open>rpc/monwallet.go\<close>: the JSON-RPC client
  methods as actions on the world, with the error handling around each call, the checks made
  on a new connection, and the version rules.
\<close>

section \<open>Versions\<close>

record semver =
  Major :: uint32
  Minor :: uint32
  Patch :: uint32

definition semverCompatible :: "semver \<Rightarrow> semver \<Rightarrow> bool" where
  "semverCompatible required actual =
     (if Major required \<noteq> Major actual then False
      else if Minor required > Minor actual then False
      else if Minor required = Minor actual \<and> Patch required > Patch actual then False
      else True)"

definition minimumVersions :: "(string \<times> semver) list" where
  "minimumVersions =
     [(''monetarium'', \<lparr>Major = 1, Minor = 3, Patch = 0\<rparr>),
      (''monetariumjsonrpcapi'', \<lparr>Major = 8, Minor = 3, Patch = 0\<rparr>),
      (''monw'', \<lparr>Major = 1, Minor = 3, Patch = 0\<rparr>),
      (''monwjsonrpcapi'', \<lparr>Major = 10, Minor = 0, Patch = 0\<rparr>)]"

definition legacyMinimumVersions :: "(string \<times> semver) list" where
  "legacyMinimumVersions = [(''monetarium'', \<lparr>Major = 2, Minor = 1, Patch = 0\<rparr>)]"

text \<open>A key missing from the map of minimum versions reads as version 0.0.0.\<close>

definition checkVersion :: "(string \<times> uint32 \<times> uint32 \<times> uint32) list \<Rightarrow> string \<Rightarrow> err option" where
  "checkVersion verMap key =
     (case map_of verMap key of
        None \<Rightarrow> Some (Plain (''version map missing key '' @ key))
      | Some (ma, mi, pa) \<Rightarrow>
          let actualV = \<lparr>Major = ma, Minor = mi, Patch = pa\<rparr>;
              minimumV = (case map_of minimumVersions key of
                 Some v \<Rightarrow> v | None \<Rightarrow> \<lparr>Major = 0, Minor = 0, Patch = 0\<rparr>)
          in if (case map_of legacyMinimumVersions key of
                   Some legacyV \<Rightarrow> semverCompatible legacyV actualV | None \<Rightarrow> False) then None
             else if \<not> semverCompatible minimumV actualV
             then Some (Plain (''incompatible version: '' @ key))
             else None)"

text \<open>\<open>errors.Join\<close>: nil when every argument is nil, else the messages on lines of their own.\<close>

fun joinLines :: "string list \<Rightarrow> string" where
  "joinLines [] = []"
| "joinLines [m] = m"
| "joinLines (m # ms) = m @ char_of (10 :: nat) # joinLines ms"

definition errorsJoin :: "err option list \<Rightarrow> unit outcome" where
  "errorsJoin es =
     (if list_all (\<lambda>e. e = None) es then Ok ()
      else Fail (Plain (joinLines (concat (map (\<lambda>e. case e of None \<Rightarrow> [] | Some x \<Rightarrow> [err_msg x]) es)))))"

section \<open>Calls with typed results\<close>

text \<open>A result of another type than the caller's variable fails to unmarshal.\<close>

definition badReply :: err where
  "badReply = Plain ''json: cannot unmarshal''"

definition askUnit :: "'s env \<Rightarrow> call \<Rightarrow> ('s, unit) act" where
  "askUnit E c = bindA (ask E c) (\<lambda>_. ret ())"

definition askStr :: "'s env \<Rightarrow> call \<Rightarrow> ('s, string) act" where
  "askStr E c = bindA (ask E c) (\<lambda>r. case r of RStr s \<Rightarrow> ret s | _ \<Rightarrow> failA badReply)"

definition askInt :: "'s env \<Rightarrow> call \<Rightarrow> ('s, int64) act" where
  "askInt E c = bindA (ask E c) (\<lambda>r. case r of RInt n \<Rightarrow> ret (of_int n) | _ \<Rightarrow> failA badReply)"

definition askRaw :: "'s env \<Rightarrow> call \<Rightarrow> ('s, rawTx) act" where
  "askRaw E c = bindA (ask E c) (\<lambda>r. case r of RRaw t \<Rightarrow> ret t | _ \<Rightarrow> failA badReply)"

definition wrapA :: "string \<Rightarrow> ('s, 'a) act \<Rightarrow> ('s, 'a) act" where
  "wrapA p m = tryA m (\<lambda>e. failA (Wrapped p e)) ret"

section \<open>Connections\<close>

text \<open>\<open>client.dial\<close>: reuse a client that is not done, else dial; True for a new connection.\<close>

definition dial :: "'s env \<Rightarrow> target \<Rightarrow> ('s, bool) act" where
  "dial E t =
     bindA (hasConn t) (\<lambda>c.
     bindA (if c then ask E (Call t ''done'' []) else ret (RBool True)) (\<lambda>closed.
     if closed = RBool False then ret False
     else
       bindA (setConn t False) (\<lambda>_.
       bindA (ask E (Call t ''dial'' [])) (\<lambda>_.
       bindA (setConn t True) (\<lambda>_. ret True)))))"

definition closeConn :: "'s env \<Rightarrow> target \<Rightarrow> ('s, unit) act" where
  "closeConn E t =
     bindA (hasConn t) (\<lambda>c.
     if c then
       tryA (ask E (Call t ''done'' [])) (\<lambda>_. ret ()) (\<lambda>closed.
       if closed = RBool False
       then tryA (ask E (Call t ''close'' [])) (\<lambda>_. ret ()) (\<lambda>_. ret ())
       else ret ())
     else ret ())"

definition checkVersions :: "'s env \<Rightarrow> target \<Rightarrow> string list \<Rightarrow> ('s, unit) act" where
  "checkVersions E t keys =
     bindA (ask E (Call t ''version'' [])) (\<lambda>r. case r of
       RVersions verMap \<Rightarrow> lift (errorsJoin (map (checkVersion verMap) keys))
     | _ \<Rightarrow> failA badReply)"

definition mondKeys :: "string list" where
  "mondKeys = [''monetarium'', ''monetariumjsonrpcapi'']"

definition walletKeys :: "string list" where
  "walletKeys = [''monetarium'', ''monetariumjsonrpcapi'', ''monw'', ''monwjsonrpcapi'']"

definition getCurrentNet :: "'s env \<Rightarrow> target \<Rightarrow> ('s, int64) act" where
  "getCurrentNet E t = askInt E (Call t ''getcurrentnet'' [])"

section \<open>mond\<close>

definition getTxIndex :: "'s env \<Rightarrow> ('s, bool) act" where
  "getTxIndex E = bindA (ask E (Call Mond ''getinfo'' [])) (\<lambda>r. case r of
     RBool b \<Rightarrow> ret b | _ \<Rightarrow> failA badReply)"

definition NotifyBlocks :: "'s env \<Rightarrow> ('s, unit) act" where
  "NotifyBlocks E = askUnit E (Call Mond ''notifyblocks'' [])"

text \<open>
  \<open>MondConnect.Client\<close>. A failed check closes the connection; a failed \<open>notifyblocks\<close> request
  returns its error without closing it. \<open>notify\<close> tells whether a notifier is installed.
\<close>

definition mondClient :: "'s env \<Rightarrow> network \<Rightarrow> bool \<Rightarrow> ('s, unit) act" where
  "mondClient E net notify =
     tryA (dial E Mond) (\<lambda>e. failA (Wrapped ''mond dial error'' e)) (\<lambda>newConnection.
     if \<not> newConnection then ret ()
     else
       tryA (checkVersions E Mond mondKeys)
         (\<lambda>e. bindA (closeConn E Mond) (\<lambda>_. failA (Wrapped ''mond version check failed'' e))) (\<lambda>_.
       tryA (getCurrentNet E Mond)
         (\<lambda>e. bindA (closeConn E Mond) (\<lambda>_. failA (Wrapped ''mond getcurrentnet check failed'' e))) (\<lambda>i.
       if i \<noteq> of_int (netID net) then
         bindA (closeConn E Mond) (\<lambda>_. failA (Plain ''mond running on wrong network''))
       else
       tryA (getTxIndex E)
         (\<lambda>e. bindA (closeConn E Mond) (\<lambda>_. failA (Wrapped ''mond getinfo check failed'' e))) (\<lambda>txIndex.
       if \<not> txIndex then
         bindA (closeConn E Mond) (\<lambda>_. failA (Plain ''mond does not have transaction index enabled (--txindex)''))
       else if notify then
         tryA (NotifyBlocks E) (\<lambda>e. failA (Wrapped ''notifyblocks failed'' e)) ret
       else ret ()))))"

text \<open>
  \<open>ErrOrphan\<close>: the expression is not anchored, so it matches if it matches at some position.
\<close>

definition isWord :: "char \<Rightarrow> bool" where
  "isWord c \<longleftrightarrow> (let n = of_char c :: nat in
     48 \<le> n \<and> n \<le> 57 \<or> 65 \<le> n \<and> n \<le> 90 \<or> 97 \<le> n \<and> n \<le> 122 \<or> n = 95)"

fun stripLit :: "string \<Rightarrow> string \<Rightarrow> string option" where
  "stripLit [] s = Some s"
| "stripLit (p # ps) [] = None"
| "stripLit (p # ps) (c # s) = (if p = c then stripLit ps s else None)"

definition skipMany1 :: "(char \<Rightarrow> bool) \<Rightarrow> string \<Rightarrow> string option" where
  "skipMany1 P s = (if takeWhile P s = [] then None else Some (dropWhile P s))"

definition orphanAt :: "string \<Rightarrow> bool" where
  "orphanAt s \<longleftrightarrow>
     Option.bind (stripLit ''orphan transaction '' s) (\<lambda>s.
     Option.bind (skipMany1 isWord s) (\<lambda>s.
     Option.bind (stripLit '' references output '' s) (\<lambda>s.
     Option.bind (skipMany1 isWord s) (\<lambda>s.
     Option.bind (stripLit '':'' s) (\<lambda>s.
     Option.bind (skipMany1 is_digit s) (\<lambda>s.
     stripLit '' of unknown or fully-spent transaction'' s)))))) \<noteq> None"

fun ErrOrphan :: "string \<Rightarrow> bool" where
  "ErrOrphan [] = orphanAt []"
| "ErrOrphan (c # s) = (orphanAt (c # s) \<or> ErrOrphan s)"

definition ErrRPCDuplicateTx :: int where "ErrRPCDuplicateTx = -40"
definition ErrNoTxInfo :: int where "ErrNoTxInfo = -5"

definition GetRawTransaction :: "'s env \<Rightarrow> string \<Rightarrow> ('s, rawTx) act" where
  "GetRawTransaction E h = askRaw E (Call Mond ''getrawtransaction'' [AStr h, AInt 1])"

definition SendRawTransaction :: "'s env \<Rightarrow> string \<Rightarrow> ('s, unit) act" where
  "SendRawTransaction E txHex =
     tryA (ask E (Call Mond ''sendrawtransaction'' [AStr txHex, ABool False]))
       (\<lambda>e. if rpc_code e = Some ErrRPCDuplicateTx then ret ()
            else if ErrOrphan (err_msg e) then
              tryA (GetRawTransaction E txHex) (\<lambda>_. failA e) (\<lambda>_. ret ())
            else failA e)
       (\<lambda>_. ret ())"

definition GetBlockHeader :: "('x, 'f) lib \<Rightarrow> 's env \<Rightarrow> string \<Rightarrow> ('s, header) act" where
  "GetBlockHeader l E blockHash =
     bindA (askStr E (Call Mond ''getblockheader'' [AStr blockHash, ABool False])) (\<lambda>resp.
     bindA (lift (hexDecodeE resp)) (\<lambda>headerBytes.
     lift (fromSum (lbHeader l headerBytes))))"

definition GetBestBlockHeader :: "('x, 'f) lib \<Rightarrow> 's env \<Rightarrow> ('s, header) act" where
  "GetBestBlockHeader l E =
     bindA (askStr E (Call Mond ''getbestblockhash'' [])) (\<lambda>h. GetBlockHeader l E h)"

definition ExistsLiveTicket :: "('x, 'f) lib \<Rightarrow> 's env \<Rightarrow> string \<Rightarrow> ('s, bool) act" where
  "ExistsLiveTicket l E ticketHash =
     bindA (askStr E (Call Mond ''existslivetickets'' [AStrs [ticketHash]])) (\<lambda>exists.
     bindA (lift (hexDecodeE exists)) (\<lambda>existsBytes.
     lift (lbBitsetGet l existsBytes 0)))"

definition GetBlock :: "('x, 'f) lib \<Rightarrow> 's env \<Rightarrow> string \<Rightarrow> ('s, block) act" where
  "GetBlock l E h =
     bindA (askStr E (Call Mond ''getblock'' [AStr h, ABool False, ABool False])) (\<lambda>resp.
     bindA (lift (hexDecodeE resp)) (\<lambda>blockBytes.
     lift (fromSum (lbBlock l blockBytes))))"

definition GetBlockCount :: "'s env \<Rightarrow> ('s, int64) act" where
  "GetBlockCount E = askInt E (Call Mond ''getblockcount'' [])"

definition GetBlockHash :: "'s env \<Rightarrow> int64 \<Rightarrow> ('s, string) act" where
  "GetBlockHash E height = askStr E (Call Mond ''getblockhash'' [AInt (sint height)])"

fun proofHashes :: "('x, 'f) lib \<Rightarrow> string list \<Rightarrow> hash list outcome" where
  "proofHashes l [] = Ok []"
| "proofHashes l (h # hs) =
     andThen (fromSum (lbHashOf l h)) (\<lambda>x. andThen (proofHashes l hs) (\<lambda>xs. Ok (x # xs)))"

definition GetCFilterV2 :: "('x, 'f) lib \<Rightarrow> 's env \<Rightarrow> header \<Rightarrow> bool \<Rightarrow> ('s, bytes \<times> 'f) act" where
  "GetCFilterV2 l E hdr verifyProof =
     bindA (wrapA ''getcfilterv2 error'' (ask E (Call Mond ''getcfilterv2'' [AStr (lbHashStr l (hdHash hdr))])))
       (\<lambda>r. case r of
         RFilter dat hashes proofIndex \<Rightarrow>
           bindA (wrapA ''error decoding block filter'' (lift (hexDecodeE dat))) (\<lambda>filterB.
           bindA (wrapA ''error decoding block filter'' (lift (fromSum (lbFilter l filterB)))) (\<lambda>filt.
           if verifyProof then
             bindA (lift (proofHashes l hashes)) (\<lambda>hs.
             if lbVerifyInclusion l hdr filt proofIndex hs
             then ret (lbFilterKey l hdr, filt)
             else failA (Plain ''failed to verify inclusion proof''))
           else ret (lbFilterKey l hdr, filt)))
       | _ \<Rightarrow> failA badReply)"

section \<open>Wallets\<close>

text \<open>
  One iteration of \<open>WalletConnect.Clients\<close>: True if the wallet can be used. A misconfigured
  wallet is only logged when the setting does not stop its RPCs from working.
\<close>

definition connectWallet :: "'s env \<Rightarrow> network \<Rightarrow> nat \<Rightarrow> ('s, bool) act" where
  "connectWallet E net i =
     tryA (dial E (Wallet i)) (\<lambda>e. ret False) (\<lambda>newConnection.
     if \<not> newConnection then ret True
     else
       tryA (checkVersions E (Wallet i) walletKeys)
         (\<lambda>e. bindA (closeConn E (Wallet i)) (\<lambda>_. ret False)) (\<lambda>_.
       tryA (getCurrentNet E (Wallet i))
         (\<lambda>e. bindA (closeConn E (Wallet i)) (\<lambda>_. ret False)) (\<lambda>n.
       if n \<noteq> of_int (netID net) then bindA (closeConn E (Wallet i)) (\<lambda>_. ret False)
       else
       tryA (ask E (Call (Wallet i) ''walletinfo'' []))
         (\<lambda>e. bindA (closeConn E (Wallet i)) (\<lambda>_. ret False)) (\<lambda>info. ret True))))"

definition walletClients :: "'s env \<Rightarrow> network \<Rightarrow> nat list \<Rightarrow> ('s, nat list \<times> nat list) act" where
  "walletClients E net ws =
     bindA (forA (\<lambda>i (clients, failed).
       bindA (connectWallet E net i) (\<lambda>ok.
       ret (Next (if ok then (clients @ [i], failed) else (clients, failed @ [i]))))) ws ([], []))
     (\<lambda>r. case r of Next x \<Rightarrow> ret x | Return x \<Rightarrow> ret x)"

definition AddTicketForVoting :: "'s env \<Rightarrow> nat \<Rightarrow> string \<Rightarrow> string \<Rightarrow> string \<Rightarrow> ('s, unit) act" where
  "AddTicketForVoting E i votingWIF blockHash txHex =
     bindA (wrapA ''importprivkey failed''
       (ask E (Call (Wallet i) ''importprivkey'' [AStr votingWIF, AStr ''imported'', ABool False, AInt 0]))) (\<lambda>_.
     bindA (wrapA ''addtransaction failed''
       (ask E (Call (Wallet i) ''addtransaction'' [AStr blockHash, AStr txHex]))) (\<lambda>_. ret ()))"

definition SetVoteChoice :: "'s env \<Rightarrow> nat \<Rightarrow> string \<Rightarrow> string \<Rightarrow> string \<Rightarrow> ('s, unit) act" where
  "SetVoteChoice E i agenda choice ticketHash =
     askUnit E (Call (Wallet i) ''setvotechoice'' [AStr agenda, AStr choice, AStr ticketHash])"

definition GetBestBlockHeight :: "'s env \<Rightarrow> nat \<Rightarrow> ('s, int64) act" where
  "GetBestBlockHeight E i = askInt E (Call (Wallet i) ''getblockcount'' [])"

fun ticketMap :: "walletTicket list \<Rightarrow> (string \<times> walletTicket) list \<Rightarrow> (string \<times> walletTicket) list" where
  "ticketMap [] m = m"
| "ticketMap (t # ts) m = ticketMap ts (assign (wtHash t) t m)"

definition TicketInfo :: "'s env \<Rightarrow> nat \<Rightarrow> int64 \<Rightarrow> ('s, (string \<times> walletTicket) list) act" where
  "TicketInfo E i startHeight =
     bindA (ask E (Call (Wallet i) ''ticketinfo'' [AInt (sint startHeight)])) (\<lambda>r. case r of
       RTickets ts \<Rightarrow> ret (ticketMap ts []) | _ \<Rightarrow> failA badReply)"

definition RescanFrom :: "'s env \<Rightarrow> nat \<Rightarrow> int64 \<Rightarrow> ('s, unit) act" where
  "RescanFrom E i fromHeight = askUnit E (Call (Wallet i) ''rescanwallet'' [AInt (sint fromHeight)])"

definition SetTreasuryPolicy :: "'s env \<Rightarrow> nat \<Rightarrow> string \<Rightarrow> string \<Rightarrow> string \<Rightarrow> ('s, unit) act" where
  "SetTreasuryPolicy E i key policy ticket =
     askUnit E (Call (Wallet i) ''settreasurypolicy'' [AStr key, AStr policy, AStr ticket])"

definition SetTSpendPolicy :: "'s env \<Rightarrow> nat \<Rightarrow> string \<Rightarrow> string \<Rightarrow> string \<Rightarrow> ('s, unit) act" where
  "SetTSpendPolicy E i tSpend policy ticket =
     askUnit E (Call (Wallet i) ''settspendpolicy'' [AStr tSpend, AStr policy, AStr ticket])"

end
