(* ===== verification/Helpers.thy ===== *)
theory Helpers
  imports Rpc AltSignAddr FeeXPub
begin

text \<open>
  \<open>internal/webapi/helpers.go\<close> and \<open>internal/webapi/addressgenerator.go\<close>: validation of vote
  choices and policies, request signatures, transactions and tickets, and the derivation of fee
  addresses. A check returns the Go error, None for nil.
\<close>

section \<open>Voting preferences\<close>

text \<open>The agendas of one vote version are searched in order, as are the choices of an agenda.\<close>

fun agendaCheck :: "(string \<times> string list) list \<Rightarrow> string \<Rightarrow> string \<Rightarrow> err option" where
  "agendaCheck [] agenda choice = Some (Plain (''agenda not found: '' @ agenda))"
| "agendaCheck ((a, choices) # as) agenda choice =
     (if a = agenda then
        (if choice \<in> set choices then None
         else Some (Plain (''choice not found: '' @ choice)))
      else agendaCheck as agenda choice)"

text \<open>A vote version without deployments reads as a nil slice.\<close>

definition agendas :: "network \<Rightarrow> uint32 \<Rightarrow> (string \<times> string list) list" where
  "agendas n v = (case map_of (Deployments n) v of None \<Rightarrow> [] | Some as \<Rightarrow> as)"

fun firstFailure :: "('a \<Rightarrow> err option) \<Rightarrow> 'a list \<Rightarrow> err option" where
  "firstFailure f [] = None"
| "firstFailure f (x # xs) = (case f x of Some e \<Rightarrow> Some e | None \<Rightarrow> firstFailure f xs)"

definition validConsensusVoteChoices :: "network \<Rightarrow> uint32 \<Rightarrow> gomap \<Rightarrow> err option" where
  "validConsensusVoteChoices n voteVersion voteChoices =
     firstFailure (\<lambda>(agenda, choice). agendaCheck (agendas n voteVersion) agenda choice) (entries voteChoices)"

definition validPolicyOption :: "string \<Rightarrow> err option" where
  "validPolicyOption policy =
     (if policy \<in> {''yes'', ''no'', ''abstain'', ''invalid'', ''''} then None
      else Some (Plain (policy @ '' is not a valid policy option'')))"

definition validTreasuryPolicy :: "gomap \<Rightarrow> err option" where
  "validTreasuryPolicy policy = firstFailure (\<lambda>(key, choice).
     case hexDecodeE key of
       Ok pikey \<Rightarrow>
         if length pikey \<noteq> 33 then Some (Plain (''treasury key is not 33 bytes: '' @ key))
         else validPolicyOption choice
     | Fail e \<Rightarrow> Some (Wrapped ''error decoding treasury key'' e)
     | Panic \<Rightarrow> None) (entries policy)"

definition MaxHashStringSize :: nat where "MaxHashStringSize = 64"

definition validTSpendPolicy :: "('x, 'f) lib \<Rightarrow> gomap \<Rightarrow> err option" where
  "validTSpendPolicy l policy = firstFailure (\<lambda>(h, choice).
     if length h \<noteq> MaxHashStringSize then Some (Plain ''wrong tspend hash length'')
     else case lbHashOf l h of
       Inl e \<Rightarrow> Some (Wrapped ''error decoding tspend hash'' e)
     | Inr _ \<Rightarrow> validPolicyOption choice) (entries policy)"

lemma firstFailure_None: "firstFailure f xs = None \<longleftrightarrow> (\<forall>x\<in>set xs. f x = None)"
  by (induction xs) (auto split: option.splits)

text \<open>Agenda names of a version are distinct in the network parameters.\<close>

lemma agendaCheck_None:
  "distinct (map fst as) \<Longrightarrow> agendaCheck as agenda choice = None \<longleftrightarrow> (\<exists>cs. (agenda, cs) \<in> set as \<and> choice \<in> set cs)"
  by (induction as agenda choice rule: agendaCheck.induct) (auto simp: rev_image_eqI)

lemma validConsensusVoteChoices_None:
  assumes "distinct (map fst (agendas n v))"
  shows "validConsensusVoteChoices n v m = None \<longleftrightarrow>
    (\<forall>(agenda, choice)\<in>set (entries m). \<exists>cs. (agenda, cs) \<in> set (agendas n v) \<and> choice \<in> set cs)"
  using agendaCheck_None [OF assms] by (auto simp: validConsensusVoteChoices_def firstFailure_None)

lemma validTreasuryPolicy_None:
  "validTreasuryPolicy m = None \<longleftrightarrow> (\<forall>(key, choice)\<in>set (entries m).
     (\<exists>b. hexDecode key = Some b \<and> length b = 33) \<and> validPolicyOption choice = None)"
  by (auto simp: validTreasuryPolicy_def firstFailure_None hexDecodeE_def split: option.splits if_splits)

lemma validTSpendPolicy_None:
  "validTSpendPolicy l m = None \<longleftrightarrow> (\<forall>(h, choice)\<in>set (entries m).
     length h = 64 \<and> (\<exists>x. lbHashOf l h = Inr x) \<and> validPolicyOption choice = None)"
  by (auto simp: validTSpendPolicy_def firstFailure_None MaxHashStringSize_def split: sum.splits if_splits)

section \<open>Signatures, transactions, tickets\<close>

definition validateSignature :: "'s bolt \<Rightarrow> ('x, 'f) lib \<Rightarrow> string \<Rightarrow> string \<Rightarrow> string \<Rightarrow> string \<Rightarrow> 's \<Rightarrow> unit outcome" where
  "validateSignature B l h commitmentAddress signature message s =
     (case lbVerifyMessage l commitmentAddress signature message of
        None \<Rightarrow> Ok ()
      | Some firstErr \<Rightarrow>
          andThen (wrapErr ''db.AltSignAddrData failed'' (AltSignAddrData B h s)) (\<lambda>altSigData.
          case altSigData of
            None \<Rightarrow> Fail (Plain ''bad signature'')
          | Some d \<Rightarrow>
              if lbVerifyMessage l (AltSignAddr d) signature message \<noteq> None
              then Fail (Plain ''bad signature'') else Ok ()))"

definition decodeTransaction :: "('x, 'f) lib \<Rightarrow> string \<Rightarrow> msgTx outcome" where
  "decodeTransaction l hex = andThen (hexDecodeE hex) (\<lambda>msgHex. fromSum (lbFromBytes l msgHex))"

definition isValidTicket :: "('x, 'f) lib \<Rightarrow> msgTx \<Rightarrow> err option" where
  "isValidTicket l tx =
     (if \<not> lbIsSStx l tx then Some (Plain ''invalid transaction - not sstx'')
      else if length (txOuts tx) \<noteq> 3 then Some (Plain ''invalid transaction - expected 3 outputs'')
      else None)"

definition validateTicketHash :: "('x, 'f) lib \<Rightarrow> string \<Rightarrow> err option" where
  "validateTicketHash l h =
     (if length h \<noteq> MaxHashStringSize then Some (Plain ''incorrect hash length'')
      else case lbHashOf l h of
        Inl e \<Rightarrow> Some (Wrapped ''invalid hash'' e)
      | Inr _ \<Rightarrow> None)"

text \<open>The sum of the two network parameters is taken in 32 bits, then widened.\<close>

definition canTicketVote :: "('x, 'f) lib \<Rightarrow> 's env \<Rightarrow> network \<Rightarrow> rawTx \<Rightarrow> ('s, bool) act" where
  "canTicketVote l E n raw =
     (if sint (rConfirmations raw)
           > sint (ucast (ucast (TicketMaturity n) + TicketExpiry n :: uint32) + 1 :: int64)
      then ret False
      else if sint (rConfirmations raw) \<le> sint (ucast (TicketMaturity n) :: int64) then ret True
      else wrapA ''mond.ExistsLiveTicket error'' (ExistsLiveTicket l E (rTxid raw)))"

text \<open>\<open>xs[i]\<close> with its bounds check.\<close>

definition index :: "'a list \<Rightarrow> nat \<Rightarrow> 'a outcome" where
  "index xs i = (if i < length xs then Ok (xs ! i) else Panic)"

section \<open>Fee addresses\<close>

record 'x addressGenerator =
  external :: 'x
  lastUsedIndex :: uint32
  feeXPubID :: uint32

definition newAddressGenerator :: "('x, 'f) lib \<Rightarrow> feexpub \<Rightarrow> 'x addressGenerator outcome" where
  "newAddressGenerator l xPub =
     andThen (fromSum (lbKeyFromString l (xKey xPub))) (\<lambda>xPubKey.
     if lbIsPrivate l xPubKey then Fail (Plain ''not a public key'')
     else case lbChild l xPubKey 0 of
       Child ext \<Rightarrow> Ok \<lparr>external = ext, lastUsedIndex = xLastUsedIdx xPub, feeXPubID = xID xPub\<rparr>
     | InvalidChild \<Rightarrow> Fail (Plain ''the extended key at this index is invalid'')
     | ChildErr e \<Rightarrow> Fail e)"

text \<open>
  The derivation loop of \<open>nextAddress\<close>: the key found or the error, with the counter it leaves.
  Three invalid children stop it.
\<close>

function nextKey :: "('x, 'f) lib \<Rightarrow> 'x \<Rightarrow> uint32 \<Rightarrow> nat \<Rightarrow> 'x outcome \<times> uint32" where
  "nextKey l ext i invalidChildren =
     (case lbChild l ext (i + 1) of
        Child k \<Rightarrow> (Ok k, i + 1)
      | ChildErr e \<Rightarrow> (Fail e, i + 1)
      | InvalidChild \<Rightarrow>
          if invalidChildren + 1 > 2
          then (Fail (Plain ''multiple invalid children generated for key''), i + 1)
          else nextKey l ext (i + 1) (invalidChildren + 1))"
  by pat_completeness auto
termination by (relation "measure (\<lambda>(l, ext, i, n). 3 - n)") auto

declare nextKey.simps [simp del]

definition nextAddress :: "('x, 'f) lib \<Rightarrow> 'x addressGenerator \<Rightarrow> (string \<times> uint32) outcome \<times> uint32" where
  "nextAddress l m =
     (case nextKey l (external m) (lastUsedIndex m) 0 of
        (r, i) \<Rightarrow> (andThen r (\<lambda>k. andThen (fromSum (lbKeyAddress l k)) (\<lambda>addr. Ok (addr, i))), i))"

text \<open>The counter moves on by one to three; every index skipped has an invalid child.\<close>

lemma nextKey_steps:
  assumes "nextKey l ext i n = (r, j)" "n \<le> 2"
  obtains d where "1 \<le> d" "d + n \<le> 3" "j = i + of_nat d"
    "\<And>c. 1 \<le> c \<Longrightarrow> c < d \<Longrightarrow> lbChild l ext (i + of_nat c) = InvalidChild"
    "\<And>k. r = Ok k \<Longrightarrow> lbChild l ext j = Child k"
proof -
  have "\<exists>d. 1 \<le> d \<and> d + n \<le> 3 \<and> j = i + of_nat d \<and>
      (\<forall>c. 1 \<le> c \<and> c < d \<longrightarrow> lbChild l ext (i + of_nat c) = InvalidChild) \<and>
      (\<forall>k. r = Ok k \<longrightarrow> lbChild l ext j = Child k)"
    using assms
  proof (induction l ext i n rule: nextKey.induct)
    case (1 l ext i n)
    show ?case
    proof (cases "lbChild l ext (i + 1) = InvalidChild \<and> n < 2")
      case True
      then have "nextKey l ext (i + 1) (n + 1) = (r, j)"
        using "1.prems"(1) by (simp add: nextKey.simps [of l ext i n])
      then obtain d where d: "1 \<le> d" "d + (n + 1) \<le> 3" "j = i + 1 + of_nat d"
          "\<forall>c. 1 \<le> c \<and> c < d \<longrightarrow> lbChild l ext (i + 1 + of_nat c) = InvalidChild"
          "\<forall>k. r = Ok k \<longrightarrow> lbChild l ext j = Child k"
        using "1.IH" True by auto
      have "lbChild l ext (i + of_nat c) = InvalidChild" if c: "1 \<le> c" "c < Suc d" for c
      proof (cases "c = 1")
        case False
        with c obtain c' where "c = Suc c'" "1 \<le> c'" "c' < d" by (cases c) auto
        then show ?thesis using d(4) by (auto simp: algebra_simps)
      qed (use True in simp)
      with d show ?thesis by (intro exI [of _ "Suc d"]) (auto simp: algebra_simps)
    next
      case False
      then show ?thesis
        using "1.prems" by (intro exI [of _ 1])
          (auto simp: nextKey.simps [of l ext i n] split: childResult.splits if_splits)
    qed
  qed
  then show thesis using that by blast
qed

end
