(* ===== verification/ApiErrors.thy ===== *)
theory ApiErrors
  imports Upgrades
begin

text \<open>
  \<open>types/errors.go\<close> and \<open>types/types.go\<close>: the error codes of the API with their HTTP status and
  default message, the requests and the JSON texts of the responses. An \<open>ErrorCode\<close> is an
  \<open>int64\<close>, so the tables also have a default case.
\<close>

section \<open>Error codes\<close>

named_theorems code_defs \<open>numbers of the error codes\<close>

definition ErrBadRequest :: int64 where [code_defs]: "ErrBadRequest = 0"
definition ErrInternalError :: int64 where [code_defs]: "ErrInternalError = 1"
definition ErrVspClosed :: int64 where [code_defs]: "ErrVspClosed = 2"
definition ErrFeeAlreadyReceived :: int64 where [code_defs]: "ErrFeeAlreadyReceived = 3"
definition ErrInvalidFeeTx :: int64 where [code_defs]: "ErrInvalidFeeTx = 4"
definition ErrFeeTooSmall :: int64 where [code_defs]: "ErrFeeTooSmall = 5"
definition ErrUnknownTicket :: int64 where [code_defs]: "ErrUnknownTicket = 6"
definition ErrTicketCannotVote :: int64 where [code_defs]: "ErrTicketCannotVote = 7"
definition ErrFeeExpired :: int64 where [code_defs]: "ErrFeeExpired = 8"
definition ErrInvalidVoteChoices :: int64 where [code_defs]: "ErrInvalidVoteChoices = 9"
definition ErrBadSignature :: int64 where [code_defs]: "ErrBadSignature = 10"
definition ErrInvalidPrivKey :: int64 where [code_defs]: "ErrInvalidPrivKey = 11"
definition ErrFeeNotReceived :: int64 where [code_defs]: "ErrFeeNotReceived = 12"
definition ErrInvalidTicket :: int64 where [code_defs]: "ErrInvalidTicket = 13"
definition ErrCannotBroadcastTicket :: int64 where [code_defs]: "ErrCannotBroadcastTicket = 14"
definition ErrCannotBroadcastFee :: int64 where [code_defs]: "ErrCannotBroadcastFee = 15"
definition ErrCannotBroadcastFeeUnknownOutputs :: int64 where [code_defs]:
  "ErrCannotBroadcastFeeUnknownOutputs = 16"
definition ErrInvalidTimestamp :: int64 where [code_defs]: "ErrInvalidTimestamp = 17"

definition HTTPStatus :: "int64 \<Rightarrow> nat" where
  "HTTPStatus e =
     (if e = ErrBadRequest then 400
      else if e = ErrInternalError then 500
      else if e = ErrVspClosed then 400
      else if e = ErrFeeAlreadyReceived then 400
      else if e = ErrInvalidFeeTx then 400
      else if e = ErrFeeTooSmall then 400
      else if e = ErrUnknownTicket then 400
      else if e = ErrTicketCannotVote then 400
      else if e = ErrFeeExpired then 400
      else if e = ErrInvalidVoteChoices then 400
      else if e = ErrBadSignature then 400
      else if e = ErrInvalidPrivKey then 400
      else if e = ErrFeeNotReceived then 400
      else if e = ErrInvalidTicket then 400
      else if e = ErrCannotBroadcastTicket then 500
      else if e = ErrCannotBroadcastFee then 500
      else if e = ErrCannotBroadcastFeeUnknownOutputs then 428
      else if e = ErrInvalidTimestamp then 400
      else 500)"

definition DefaultMessage :: "int64 \<Rightarrow> string" where
  "DefaultMessage e =
     (if e = ErrBadRequest then ''bad request''
      else if e = ErrInternalError then ''internal error''
      else if e = ErrVspClosed then ''vsp is closed''
      else if e = ErrFeeAlreadyReceived then ''fee tx already received for ticket''
      else if e = ErrInvalidFeeTx then ''invalid fee tx''
      else if e = ErrFeeTooSmall then ''fee too small''
      else if e = ErrUnknownTicket then ''unknown ticket''
      else if e = ErrTicketCannotVote then ''ticket not eligible to vote''
      else if e = ErrFeeExpired then ''fee has expired''
      else if e = ErrInvalidVoteChoices then ''invalid vote choices''
      else if e = ErrBadSignature then ''bad request signature''
      else if e = ErrInvalidPrivKey then ''invalid private key''
      else if e = ErrFeeNotReceived then ''no fee tx received for ticket''
      else if e = ErrInvalidTicket then ''not a valid ticket tx''
      else if e = ErrCannotBroadcastTicket then ''ticket transaction could not be broadcast''
      else if e = ErrCannotBroadcastFee then ''fee transaction could not be broadcast''
      else if e = ErrCannotBroadcastFeeUnknownOutputs
      then ''fee transaction could not be broadcast due to unknown outputs''
      else if e = ErrInvalidTimestamp then ''old or reused timestamp''
      else ''unknown error'')"

section \<open>Requests\<close>

record feeAddressRequest =
  faTimestamp :: int64
  faTicketHash :: string
  faTicketHex :: string
  faParentHex :: string

record payFeeRequest =
  pfTimestamp :: int64
  pfTicketHash :: string
  pfFeeTx :: string
  pfVotingKey :: string
  pfVoteChoices :: gomap
  pfTSpendPolicy :: gomap
  pfTreasuryPolicy :: gomap

record setVoteChoicesRequest =
  vcTimestamp :: int64
  vcTicketHash :: string
  vcVoteChoices :: gomap
  vcTSpendPolicy :: gomap
  vcTreasuryPolicy :: gomap

record setAltSignAddrRequest =
  saTimestamp :: int64
  saTicketHash :: string
  saTicketHex :: string
  saParentHex :: string
  saAltSignAddress :: string

text \<open>The anonymous struct \<open>broadcastTicket\<close> parses.\<close>

record broadcastRequest =
  brTicketHex :: string
  brTicketHash :: string
  brParentHex :: string

section \<open>Responses\<close>

text \<open>\<open>json.Marshal\<close> of the response types; a \<open>[]byte\<close> is written in base64.\<close>

definition errorJSON :: "int64 \<Rightarrow> string \<Rightarrow> bytes" where
  "errorJSON code msg = object_text [(''code'', LInt (sint code)), (''message'', LStr msg)]"

definition feeAddressJSON :: "int64 \<Rightarrow> string \<Rightarrow> int64 \<Rightarrow> int64 \<Rightarrow> string \<Rightarrow> bytes" where
  "feeAddressJSON timestamp feeAddr feeAmount expiration request64 =
     object_text [(''timestamp'', LInt (sint timestamp)), (''feeaddress'', LStr feeAddr),
       (''feeamount'', LInt (sint feeAmount)), (''expiration'', LInt (sint expiration)),
       (''request'', LStr request64)]"

definition ackJSON :: "int64 \<Rightarrow> string \<Rightarrow> bytes" where
  "ackJSON timestamp request64 =
     object_text [(''timestamp'', LInt (sint timestamp)), (''request'', LStr request64)]"

definition ticketStatusJSON :: "int64 \<Rightarrow> ticket \<Rightarrow> string \<Rightarrow> string \<Rightarrow> bytes" where
  "ticketStatusJSON timestamp t altSignAddr request64 = CHR ''{'' # raw_members
     [(''timestamp'', dec_of_int (sint timestamp)),
      (''ticketconfirmed'', if Confirmed t then ''true'' else ''false''),
      (''feetxstatus'', quote (FeeTxStatus t)), (''feetxhash'', quote (FeeTxHash t)),
      (''altsignaddress'', quote altSignAddr), (''votechoices'', stringMapToBytes (VoteChoices t)),
      (''tspendpolicy'', stringMapToBytes (TSpendPolicy t)),
      (''treasurypolicy'', stringMapToBytes (TreasuryPolicy t)), (''request'', quote request64)] @ ''}''"

section \<open>The tables\<close>

text \<open>A server fault is answered with 500, anything else is the client's.\<close>

lemma HTTPStatus_server: "HTTPStatus e = 500 \<longleftrightarrow>
    e \<in> {ErrInternalError, ErrCannotBroadcastTicket, ErrCannotBroadcastFee} \<or> e \<notin> {0..17}"
proof -
  have "e \<in> {0..17} \<longleftrightarrow> e \<in> {0, 1, 2, 3, 4, 5, 6, 7, 8, 9, 10, 11, 12, 13, 14, 15, 16, 17}"
  proof
    assume "e \<in> {0..17}"
    then have "uint e \<le> 17" by (simp add: word_le_def)
    then have "uint e \<in> {0, 1, 2, 3, 4, 5, 6, 7, 8, 9, 10, 11, 12, 13, 14, 15, 16, 17}"
      using uint_ge_0 [of e] by (simp only: insert_iff empty_iff) arith
    then show "e \<in> {0, 1, 2, 3, 4, 5, 6, 7, 8, 9, 10, 11, 12, 13, 14, 15, 16, 17}"
      by (auto simp: word_uint_eq_iff)
  qed auto
  then show ?thesis by (auto simp: HTTPStatus_def code_defs)
qed

end
