(* ===== verification/WebApi.thy ===== *)
theory WebApi
  imports Helpers ApiErrors VoteChange
begin

text \<open>
  The frame of the web API: the configuration and dependencies of a \<open>WebAPI\<close>, the values a
  request carries in its gin context, the middleware of \<open>internal/webapi/middleware.go\<close> and the
  signed responses of \<open>internal/webapi/webapi.go\<close>. A handler maps the context of the request to
  an action that returns the context it leaves; \<open>cxAborted\<close> is gin's abort flag, which stops the
  chain. Reading a value nobody has set in the context panics.
\<close>

section \<open>State\<close>

text \<open>
  \<open>binding.JSON.BindBody\<close> is gin's: one function per request type, of the body to the bound
  request or an error.
\<close>

record gin =
  bindHash :: "bytes \<Rightarrow> err + string"
  bindBroadcast :: "bytes \<Rightarrow> err + broadcastRequest"
  bindFeeAddress :: "bytes \<Rightarrow> err + feeAddressRequest"
  bindPayFee :: "bytes \<Rightarrow> err + payFeeRequest"
  bindSetVoteChoices :: "bytes \<Rightarrow> err + setVoteChoicesRequest"
  bindSetAltSignAddr :: "bytes \<Rightarrow> err + setAltSignAddrRequest"

record ('s, 'x, 'f) api =
  wBolt :: "'s bolt"
  wEnv :: "'s env"
  wLib :: "('x, 'f) lib"
  wGin :: gin
  wNet :: network
  wVspClosed :: bool
  wSign :: "bytes \<Rightarrow> bytes"
  wAddrGen :: "'x addressGenerator"
  wWallets :: "nat list"
  wNotify :: bool
  wMaxVoteChanges :: int

definition requiredConfs :: int where "requiredConfs = 6"

text \<open>One hour, in nanoseconds.\<close>

definition feeAddressExpiration :: int where "feeAddressExpiration = 3600 * 1000000000"

text \<open>\<open>t.Unix()\<close> of a time in nanoseconds.\<close>

definition unixOf :: "int \<Rightarrow> int64" where
  "unixOf n = of_int (n div 1000000000)"

record ctx =
  cxBody :: "err + bytes"
  cxSignature :: string
  cxRequestBytes :: "bytes option"
  cxTicket :: "ticket option"
  cxKnownTicket :: "bool option"
  cxCommitmentAddress :: "string option"
  cxMondErr :: "err option option"
  cxWallets :: "nat list option"
  cxFailedWallets :: "nat list option"
  cxCache :: "cacheData option"
  cxAborted :: bool

text \<open>The context of a new request: its body (or the error of reading it) and its signature header.\<close>

definition newCtx :: "err + bytes \<Rightarrow> string \<Rightarrow> ctx" where
  "newCtx body sig = \<lparr>cxBody = body, cxSignature = sig, cxRequestBytes = None, cxTicket = None,
     cxKnownTicket = None, cxCommitmentAddress = None, cxMondErr = None, cxWallets = None,
     cxFailedWallets = None, cxCache = None, cxAborted = False\<rparr>"

type_synonym 's handler = "ctx \<Rightarrow> ('s, ctx) act"

definition mustGet :: "'a option \<Rightarrow> ('s, 'a) act" where
  "mustGet v = (case v of None \<Rightarrow> panic | Some a \<Rightarrow> ret a)"

text \<open>gin runs the handlers of a route until one aborts the context.\<close>

fun runChain :: "'s handler list \<Rightarrow> 's handler" where
  "runChain [] c = ret c"
| "runChain (h # hs) c = (if cxAborted c then ret c else bindA (h c) (runChain hs))"

section \<open>Responses\<close>

definition sendErrorWithMsg :: "('s, 'x, 'f) api \<Rightarrow> string \<Rightarrow> int64 \<Rightarrow> 's handler" where
  "sendErrorWithMsg W msg e c =
     (let dec = errorJSON e msg in
      bindA (respond (HTTPStatus e) dec (base64 (wSign W dec))) (\<lambda>_. ret (c\<lparr>cxAborted := True\<rparr>)))"

definition sendError :: "('s, 'x, 'f) api \<Rightarrow> int64 \<Rightarrow> 's handler" where
  "sendError W e c = sendErrorWithMsg W (DefaultMessage e) e c"

text \<open>\<open>marshalled\<close> is what \<open>json.Marshal(resp)\<close> returns; the result has the body and the signature.\<close>

definition sendJSONResponse :: "('s, 'x, 'f) api \<Rightarrow> err + bytes \<Rightarrow> ctx \<Rightarrow> ('s, ctx \<times> string \<times> string) act" where
  "sendJSONResponse W marshalled c = (case marshalled of
     Inl e \<Rightarrow> bindA (sendError W ErrInternalError c) (\<lambda>c'. ret (c', [], []))
   | Inr dec \<Rightarrow>
       let sigStr = base64 (wSign W dec) in
       bindA (respond 200 dec sigStr) (\<lambda>_. ret (c\<lparr>cxAborted := True\<rparr>, dec, sigStr)))"

section \<open>Cached statistics\<close>

definition cacheUpdate :: "('s, 'x, 'f) api \<Rightarrow> ('s, unit) act" where
  "cacheUpdate W =
     bindA (query (db_view (wBolt W) (\<lambda>s. Ok ()))) (\<lambda>dbSize.
     bindA (query (CountTickets (wBolt W))) (\<lambda>n.
     bindA (mondClient (wEnv W) (wNet W) (wNotify W)) (\<lambda>_.
     bindA (GetBestBlockHeader (wLib W) (wEnv W)) (\<lambda>bestBlock.
     if hdPoolSize bestBlock = 0
     then failA (Plain ''dcr node reports a network ticket pool size of zero'')
     else
       bindA (walletClients (wEnv W) (wNet W) (wWallets W)) (\<lambda>(clients, failedConnections).
       let total = cVoted n + cExpired n + cMissed n in
       putCache \<lparr>Initialized = True, nVoting = cVoting n, nVoted = cVoted n, nExpired = cExpired n,
         nMissed = cMissed n, nWalletsOnline = of_nat (length clients),
         nTotalWallets = of_nat (length clients + length failedConnections),
         nBlockHeight = hdHeight bestBlock,
         nNetworkProportion = ratio (sint (cVoting n)) (uint (hdPoolSize bestBlock)),
         nExpiredProportion = (if total = 0 then 0 else ratio (sint (cExpired n)) (sint total)),
         nMissedProportion = (if total = 0 then 0 else ratio (sint (cMissed n)) (sint total))\<rparr>)))))"

definition requireWebCache :: "('s, 'x, 'f) api \<Rightarrow> 's handler" where
  "requireWebCache W c =
     bindA (peek (\<lambda>w. Initialized (cached w))) (\<lambda>initialized.
     tryA (if initialized then ret () else cacheUpdate W)
       (\<lambda>e. bindA (respond 500 ''Cache is not initialized'' []) (\<lambda>_. ret (c\<lparr>cxAborted := True\<rparr>)))
       (\<lambda>_. bindA (peek cached) (\<lambda>d. ret (c\<lparr>cxCache := Some d\<rparr>))))"

section \<open>Middleware\<close>

definition withMondClient :: "('s, 'x, 'f) api \<Rightarrow> 's handler" where
  "withMondClient W c =
     tryA (mondClient (wEnv W) (wNet W) (wNotify W))
       (\<lambda>e. ret (c\<lparr>cxMondErr := Some (Some e)\<rparr>))
       (\<lambda>_. ret (c\<lparr>cxMondErr := Some None\<rparr>))"

definition withWalletClients :: "('s, 'x, 'f) api \<Rightarrow> 's handler" where
  "withWalletClients W c =
     bindA (walletClients (wEnv W) (wNet W) (wWallets W)) (\<lambda>(clients, failedConnections).
     ret (c\<lparr>cxWallets := Some clients, cxFailedWallets := Some failedConnections\<rparr>))"

text \<open>
  At most \<open>1 << 22\<close> bytes of the body are read, and later reads see what was read. The result
  is the bytes and the context with the replaced body.
\<close>

definition drainAndReplaceBody :: "ctx \<Rightarrow> (bytes \<times> ctx) outcome" where
  "drainAndReplaceBody c = (case cxBody c of
     Inl e \<Rightarrow> Fail e
   | Inr body \<Rightarrow> let reqBytes = take 4194304 body in Ok (reqBytes, c\<lparr>cxBody := Inr reqBytes\<rparr>))"

definition vspMustBeOpen :: "('s, 'x, 'f) api \<Rightarrow> 's handler" where
  "vspMustBeOpen W c = (if wVspClosed W then sendError W ErrVspClosed c else ret c)"

text \<open>The wait for the mempool: up to \<open>n\<close> more attempts, one second apart.\<close>

fun retryBroadcast :: "nat \<Rightarrow> 's env \<Rightarrow> string \<Rightarrow> ('s, bool) act" where
  "retryBroadcast 0 E txHex = ret False"
| "retryBroadcast (Suc n) E txHex =
     tryA (SendRawTransaction E txHex) (\<lambda>_. retryBroadcast n E txHex) (\<lambda>_. ret True)"

text \<open>
  Whether one of the sixteen slots of \<open>broadcastSem\<close> is free depends on the requests handled at
  the same time, so it is asked of the environment.
\<close>

definition freeSlot :: "'s env \<Rightarrow> ('s, bool) act" where
  "freeSlot E = (\<lambda>w. case ask E (Call Ctx ''broadcastSem'' []) w of
     (Ok (RBool b), w') \<Rightarrow> (Ok b, w') | (_, w') \<Rightarrow> (Ok False, w'))"

text \<open>Making mond know the parent; the continuation runs once it does.\<close>

definition broadcastParent :: "('s, 'x, 'f) api \<Rightarrow> broadcastRequest \<Rightarrow> msgTx \<Rightarrow> hash \<Rightarrow> ctx \<Rightarrow> ('s, ctx) act \<Rightarrow> ('s, ctx) act" where
  "broadcastParent W request msgTx parentHash c k =
     tryA (GetRawTransaction (wEnv W) (lbHashStr (wLib W) parentHash))
       (\<lambda>e. if rpc_code e \<noteq> Some ErrNoTxInfo then sendError W ErrInternalError c
        else if \<not> list_ex (\<lambda>i. prevHash i = parentHash) (txIns msgTx)
        then sendErrorWithMsg W ''invalid ticket parent'' ErrBadRequest c
        else
          tryA (SendRawTransaction (wEnv W) (brParentHex request))
            (\<lambda>e. if \<not> ErrOrphan (err_msg e) then sendError W ErrCannotBroadcastTicket c
             else
               bindA (freeSlot (wEnv W)) (\<lambda>free.
               if \<not> free then sendError W ErrCannotBroadcastTicket c
               else
                 bindA (retryBroadcast 7 (wEnv W) (brParentHex request)) (\<lambda>txBroadcast.
                 if \<not> txBroadcast then sendError W ErrCannotBroadcastTicket c else k)))
            (\<lambda>_. k))
       (\<lambda>_. k)"

definition broadcastTicket :: "('s, 'x, 'f) api \<Rightarrow> 's handler" where
  "broadcastTicket W c0 =
     tryA (lift (drainAndReplaceBody c0)) (\<lambda>e. sendErrorWithMsg W (err_msg e) ErrBadRequest c0) (\<lambda>(reqBytes, c).
     tryA (lift (fromSum (bindBroadcast (wGin W) reqBytes)))
       (\<lambda>e. sendErrorWithMsg W (err_msg e) ErrBadRequest c) (\<lambda>request.
     tryA (lift (decodeTransaction (wLib W) (brTicketHex request)))
       (\<lambda>e. sendErrorWithMsg W ''cannot decode ticket hex'' ErrBadRequest c) (\<lambda>msgTx.
     if isValidTicket (wLib W) msgTx \<noteq> None then sendError W ErrInvalidTicket c
     else if lbHashStr (wLib W) (txHash msgTx) \<noteq> brTicketHash request
     then sendErrorWithMsg W ''ticket hex does not match hash'' ErrBadRequest c
     else
     tryA (lift (decodeTransaction (wLib W) (brParentHex request)))
       (\<lambda>e. sendErrorWithMsg W ''cannot decode parent hex'' ErrBadRequest c) (\<lambda>parentTx.
     bindA (mustGet (cxMondErr c)) (\<lambda>mondErr.
     if mondErr \<noteq> None then sendError W ErrInternalError c
     else
     broadcastParent W request msgTx (txHash parentTx) c
       (tryA (GetRawTransaction (wEnv W) (brTicketHash request))
          (\<lambda>e. if rpc_code e = Some ErrNoTxInfo then
               tryA (SendRawTransaction (wEnv W) (brTicketHex request))
                 (\<lambda>_. sendError W ErrCannotBroadcastTicket c) (\<lambda>_. ret c)
             else sendError W ErrInternalError c)
          (\<lambda>_. ret c)))))))"

text \<open>
  \<open>vspAuth\<close>: the commitment address of the ticket (from the database or the chain), then the
  signature of the request under it. \<open>authAddress\<close> continues with the address it finds.
\<close>

definition authAddress :: "('s, 'x, 'f) api \<Rightarrow> string \<Rightarrow> ctx \<Rightarrow> (string \<Rightarrow> ('s, ctx) act) \<Rightarrow> ('s, ctx) act" where
  "authAddress W h c k =
     bindA (mustGet (cxMondErr c)) (\<lambda>mondErr.
     if mondErr \<noteq> None then sendError W ErrInternalError c
     else
     tryA (GetRawTransaction (wEnv W) h) (\<lambda>_. sendError W ErrInternalError c) (\<lambda>raw.
     tryA (lift (decodeTransaction (wLib W) (rHex raw))) (\<lambda>_. sendError W ErrInternalError c) (\<lambda>msgTx.
     if isValidTicket (wLib W) msgTx \<noteq> None then sendError W ErrInvalidTicket c
     else
     bindA (lift (index (txOuts msgTx) 1)) (\<lambda>out.
     tryA (lift (fromSum (lbCommitmentAddr (wLib W) (outPkScript out))))
       (\<lambda>_. sendError W ErrInternalError c) k))))"

definition vspAuth :: "('s, 'x, 'f) api \<Rightarrow> 's handler" where
  "vspAuth W c0 =
     tryA (lift (drainAndReplaceBody c0)) (\<lambda>e. sendErrorWithMsg W (err_msg e) ErrBadRequest c0) (\<lambda>(reqBytes, c1).
     let c = c1\<lparr>cxRequestBytes := Some reqBytes\<rparr> in
     tryA (lift (fromSum (bindHash (wGin W) reqBytes)))
       (\<lambda>e. sendErrorWithMsg W (err_msg e) ErrBadRequest c) (\<lambda>h.
     if validateTicketHash (wLib W) h \<noteq> None
     then sendErrorWithMsg W ''invalid ticket hash'' ErrBadRequest c
     else
     tryA (query (GetTicketByHash (wBolt W) h)) (\<lambda>_. sendError W ErrInternalError c) (\<lambda>(ticket, ticketFound).
     let withAddress = (\<lambda>commitmentAddress.
       if cxSignature c = [] then sendErrorWithMsg W ''no VSP-Client-Signature header'' ErrBadRequest c
       else
       tryA (query (validateSignature (wBolt W) (wLib W) h commitmentAddress (cxSignature c) reqBytes))
         (\<lambda>_. sendError W ErrBadSignature c) (\<lambda>_.
       ret (c\<lparr>cxTicket := Some ticket, cxKnownTicket := Some ticketFound,
              cxCommitmentAddress := Some commitmentAddress\<rparr>))) in
     if ticketFound then withAddress (CommitmentAddress ticket)
     else authAddress W h c withAddress)))"

end
