(* ===== verification/FeeAddress.thy ===== *)
theory FeeAddress
  imports WebApi
begin

text \<open>
  \<open>internal/webapi/getfeeaddress.go\<close>: the handler of \<open>/api/v3/feeaddress\<close>, the current fee and
  the allocation of a new fee address, whose counter is kept both in the address generator and
  in the database.
\<close>

section \<open>Allocation\<close>

text \<open>A handler's generator: the parts fixed at start with the current counter.\<close>

definition getNewFeeAddress :: "('s, 'x, 'f) api \<Rightarrow> ('s, string \<times> uint32) act" where
  "getNewFeeAddress W =
     bindA (peek lastIdx) (\<lambda>i.
     case nextAddress (wLib W) ((wAddrGen W)\<lparr>lastUsedIndex := i\<rparr>) of
       (r, i') \<Rightarrow>
         bindA (putIdx i') (\<lambda>_.
         bindA (lift r) (\<lambda>(addr, idx).
         bindA (commit (SetLastAddressIndex (wBolt W) idx)) (\<lambda>_.
         ret (addr, idx)))))"

definition defaultMinRelayTxFee :: int64 where "defaultMinRelayTxFee = 10000"

definition getCurrentFee :: "('s, 'x, 'f) api \<Rightarrow> ('s, int64) act" where
  "getCurrentFee W =
     bindA (GetBestBlockHeader (wLib W) (wEnv W)) (\<lambda>bestBlock.
     let sDiff = hdSBits bestBlock;
         height = ucast (hdHeight bestBlock) :: int64
     in ret (lbTicketFee (wLib W) sDiff defaultMinRelayTxFee (hdHeight bestBlock)
               (DCP10Active (wNet W) height) (DCP12Active (wNet W) height)))"

section \<open>The handler\<close>

text \<open>Whether a fee transaction has been accepted for the ticket.\<close>

definition feeAccepted :: "ticket \<Rightarrow> bool" where
  "feeAccepted t \<longleftrightarrow> FeeTxStatus t = FeeReceieved \<or> FeeTxStatus t = FeeBroadcast \<or> FeeTxStatus t = FeeConfirmed"

text \<open>The reply to a ticket that already has a fee address: an expired fee is renewed first.\<close>

definition renewFee :: "('s, 'x, 'f) api \<Rightarrow> bytes \<Rightarrow> ticket \<Rightarrow> 's handler" where
  "renewFee W reqBytes ticket c =
     bindA (now (wEnv W)) (\<lambda>n.
     bindA (now (wEnv W)) (\<lambda>n'.
     let reply = (\<lambda>t. bindA (sendJSONResponse W (Inr (feeAddressJSON (unixOf n) (FeeAddress t)
           (FeeAmount t) (FeeExpiration t) (base64 reqBytes))) c) (\<lambda>(c', _). ret c')) in
     if FeeExpired n' ticket then
       tryA (getCurrentFee W) (\<lambda>_. sendError W ErrInternalError c) (\<lambda>newFee.
       let t = ticket\<lparr>FeeExpiration := unixOf (n + feeAddressExpiration), FeeAmount := newFee\<rparr> in
       tryA (commit (UpdateTicket (wBolt W) t)) (\<lambda>_. sendError W ErrInternalError c) (\<lambda>_.
       reply t))
     else reply ticket))"

text \<open>Registration of a ticket not seen before.\<close>

definition newTicket :: "string \<Rightarrow> string \<Rightarrow> rawTx \<Rightarrow> string \<times> uint32 \<Rightarrow> uint32 \<Rightarrow> int64 \<Rightarrow> int64 \<Rightarrow> ticket" where
  "newTicket ticketHash commitmentAddress raw addrIdx xpubID fee expire =
     (let isConfirmed = sint (rConfirmations raw) \<ge> requiredConfs in
      zeroTicket\<lparr>Hash := ticketHash, PurchaseHeight := (if isConfirmed then rBlockHeight raw else 0),
        CommitmentAddress := commitmentAddress, FeeAddressIndex := snd addrIdx,
        FeeAddressXPubID := xpubID, FeeAddress := fst addrIdx, Confirmed := isConfirmed,
        FeeAmount := fee, FeeExpiration := expire, FeeTxStatus := NoFee\<rparr>)"

definition registerTicket :: "('s, 'x, 'f) api \<Rightarrow> bytes \<Rightarrow> string \<Rightarrow> string \<Rightarrow> rawTx \<Rightarrow> 's handler" where
  "registerTicket W reqBytes ticketHash commitmentAddress raw c =
     tryA (getCurrentFee W) (\<lambda>_. sendError W ErrInternalError c) (\<lambda>fee.
     tryA (getNewFeeAddress W) (\<lambda>_. sendError W ErrInternalError c) (\<lambda>addrIdx.
     bindA (now (wEnv W)) (\<lambda>n.
     let expire = unixOf (n + feeAddressExpiration);
         dbTicket = newTicket ticketHash commitmentAddress raw addrIdx (feeXPubID (wAddrGen W)) fee expire
     in
     tryA (commit (InsertNewTicket (wBolt W) dbTicket)) (\<lambda>_. sendError W ErrInternalError c) (\<lambda>_.
     bindA (sendJSONResponse W (Inr (feeAddressJSON (unixOf n) (fst addrIdx) fee expire (base64 reqBytes))) c)
       (\<lambda>(c', _). ret c')))))"

definition feeAddress :: "('s, 'x, 'f) api \<Rightarrow> 's handler" where
  "feeAddress W c =
     bindA (mustGet (cxTicket c)) (\<lambda>ticket.
     bindA (mustGet (cxKnownTicket c)) (\<lambda>knownTicket.
     bindA (mustGet (cxCommitmentAddress c)) (\<lambda>commitmentAddress.
     bindA (mustGet (cxMondErr c)) (\<lambda>mondErr.
     if mondErr \<noteq> None then sendError W ErrInternalError c
     else
     bindA (mustGet (cxRequestBytes c)) (\<lambda>reqBytes.
     tryA (lift (fromSum (bindFeeAddress (wGin W) reqBytes)))
       (\<lambda>e. sendErrorWithMsg W (err_msg e) ErrBadRequest c) (\<lambda>request.
     let ticketHash = faTicketHash request in
     if knownTicket \<and> feeAccepted ticket then sendError W ErrFeeAlreadyReceived c
     else
     tryA (GetRawTransaction (wEnv W) ticketHash) (\<lambda>_. sendError W ErrInternalError c) (\<lambda>raw.
     tryA (canTicketVote (wLib W) (wEnv W) (wNet W) raw) (\<lambda>_. sendError W ErrInternalError c) (\<lambda>canVote.
     if \<not> canVote then sendError W ErrTicketCannotVote c
     else if knownTicket then renewFee W reqBytes ticket c
     else registerTicket W reqBytes ticketHash commitmentAddress raw c))))))))"

end
