(* ===== verification/PayFee.thy ===== *)
theory PayFee
  imports FeeAddress
begin

text \<open>
  \<open>internal/webapi/payfee.go\<close>: the handler of \<open>/api/v3/payfee\<close>. The checks of the request are the
  function \<open>checkPayment\<close>; \<open>payFee\<close> runs it between the remote calls and stores the accepted fee
  before it is broadcast.
\<close>

section \<open>Checks of the payment\<close>

text \<open>A refused request: the error code with its message, None for the default one.\<close>

type_synonym refusal = "int64 \<times> string option"

text \<open>The value of the first output that pays the expected script, 0 if there is none.\<close>

fun feePaidBy :: "uint16 \<times> bytes \<Rightarrow> txOut list \<Rightarrow> int64" where
  "feePaidBy script [] = 0"
| "feePaidBy script (out # outs) =
     (if (outVersion out, outPkScript out) = script then outValue out else feePaidBy script outs)"

text \<open>\<open>if err != nil { sendError(e); return }\<close>.\<close>

definition orRefuse :: "'a outcome \<Rightarrow> refusal \<Rightarrow> ('a \<Rightarrow> (refusal + 'b) outcome) \<Rightarrow> (refusal + 'b) outcome" where
  "orRefuse r e k = (case r of Ok a \<Rightarrow> k a | Fail _ \<Rightarrow> Ok (Inl e) | Panic \<Rightarrow> Panic)"

text \<open>The ticket as it is stored for an accepted fee: invalid preferences are left out.\<close>

definition acceptFee :: "('x, 'f) lib \<Rightarrow> network \<Rightarrow> payFeeRequest \<Rightarrow> wif \<Rightarrow> msgTx \<Rightarrow> ticket \<Rightarrow> ticket" where
  "acceptFee l n request votingWIF feeTx ticket =
     (let validVoteChoices = validConsensusVoteChoices n (CurrentVoteVersion n) (pfVoteChoices request) = None;
          validTreasury = validTreasuryPolicy (pfTreasuryPolicy request) = None;
          validTSpend = validTSpendPolicy l (pfTSpendPolicy request) = None;
          t = ticket\<lparr>VotingWIF := wifString votingWIF, FeeTxHex := pfFeeTx request,
                FeeTxHash := lbHashStr l (txHash feeTx), FeeTxStatus := FeeReceieved\<rparr>;
          t = (if validVoteChoices then t\<lparr>VoteChoices := pfVoteChoices request\<rparr> else t);
          t = (if validTSpend then t\<lparr>TSpendPolicy := pfTSpendPolicy request\<rparr> else t)
      in if validTreasury then t\<lparr>TreasuryPolicy := pfTreasuryPolicy request\<rparr> else t)"

definition checkPayment :: "('x, 'f) lib \<Rightarrow> network \<Rightarrow> payFeeRequest \<Rightarrow> rawTx \<Rightarrow> ticket \<Rightarrow> (refusal + ticket) outcome" where
  "checkPayment l n request raw ticket =
     orRefuse (fromSum (lbDecodeWIF l (pfVotingKey request))) (ErrInvalidPrivKey, None) (\<lambda>votingWIF.
     orRefuse (decodeTransaction l (pfFeeTx request)) (ErrInvalidFeeTx, None) (\<lambda>feeTx.
     if lbSanity l feeTx \<noteq> None then Ok (Inl (ErrInvalidFeeTx, None))
     else
     orRefuse (fromSum (lbDecodeAddress l (FeeAddress ticket))) (ErrInternalError, None) (\<lambda>wantScript.
     let feePaid = feePaidBy wantScript (txOuts feeTx); minFee = FeeAmount ticket in
     if feePaid = 0
     then Ok (Inl (ErrInvalidFeeTx,
            Some (''feetx did not include any payments for fee address '' @ FeeAddress ticket)))
     else if sint feePaid < sint minFee then Ok (Inl (ErrFeeTooSmall, None))
     else
     orRefuse (fromSum (lbVotingScript l (wifPubKey votingWIF))) (ErrInvalidPrivKey, None) (\<lambda>wantVoting.
     orRefuse (decodeTransaction l (rHex raw)) (ErrInternalError, None) (\<lambda>ticketTx.
     andThen (index (txOuts ticketTx) 0) (\<lambda>out.
     if (outVersion out, outPkScript out) \<noteq> wantVoting
     then Ok (Inl (ErrInvalidPrivKey, Some ''voting address does not match provided private key''))
     else Ok (Inr (acceptFee l n request votingWIF feeTx ticket))))))))"

section \<open>The handler\<close>

definition refuse :: "('s, 'x, 'f) api \<Rightarrow> refusal \<Rightarrow> 's handler" where
  "refuse W r c = (case r of
     (e, None) \<Rightarrow> sendError W e c
   | (e, Some msg) \<Rightarrow> sendErrorWithMsg W msg e c)"

text \<open>The success response, and the record of the request; an error of the record is only logged.\<close>

definition acknowledge :: "('s, 'x, 'f) api \<Rightarrow> bytes \<Rightarrow> string \<Rightarrow> 's handler" where
  "acknowledge W reqBytes ticketHash c =
     bindA (now (wEnv W)) (\<lambda>n.
     bindA (sendJSONResponse W (Inr (ackJSON (unixOf n) (base64 reqBytes))) c) (\<lambda>(c', resp, respSig).
     tryA (commit (SaveVoteChange (wBolt W) (wMaxVoteChanges W) ticketHash
         \<lparr>vcRequest = reqBytes, vcRequestSignature = cxSignature c, vcResponse = resp,
          vcResponseSignature = respSig\<rparr>))
       (\<lambda>_. ret c') (\<lambda>_. ret c')))"

text \<open>Broadcast of the fee of a confirmed ticket; the continuation runs when it is on its way.\<close>

definition broadcastFee :: "('s, 'x, 'f) api \<Rightarrow> string \<Rightarrow> ticket \<Rightarrow> ctx \<Rightarrow> ('s, ctx) act \<Rightarrow> ('s, ctx) act" where
  "broadcastFee W feeTxHex ticket c k =
     tryA (SendRawTransaction (wEnv W) feeTxHex)
       (\<lambda>e. bindA (if ErrOrphan (err_msg e) then sendError W ErrCannotBroadcastFeeUnknownOutputs c
                   else sendError W ErrCannotBroadcastFee c) (\<lambda>c'.
            tryA (commit (UpdateTicket (wBolt W) (ticket\<lparr>FeeTxStatus := FeeError\<rparr>)))
              (\<lambda>_. ret c') (\<lambda>_. ret c')))
       (\<lambda>_. tryA (commit (UpdateTicket (wBolt W) (ticket\<lparr>FeeTxStatus := FeeBroadcast\<rparr>)))
              (\<lambda>_. sendError W ErrInternalError c) (\<lambda>_. k))"

definition payFee :: "('s, 'x, 'f) api \<Rightarrow> 's handler" where
  "payFee W c =
     bindA (mustGet (cxTicket c)) (\<lambda>ticket.
     bindA (mustGet (cxKnownTicket c)) (\<lambda>knownTicket.
     bindA (mustGet (cxMondErr c)) (\<lambda>mondErr.
     if mondErr \<noteq> None then sendError W ErrInternalError c
     else
     bindA (mustGet (cxRequestBytes c)) (\<lambda>reqBytes.
     if \<not> knownTicket then sendError W ErrUnknownTicket c
     else
     tryA (lift (fromSum (bindPayFee (wGin W) reqBytes)))
       (\<lambda>e. sendErrorWithMsg W (err_msg e) ErrBadRequest c) (\<lambda>request.
     if feeAccepted ticket then sendError W ErrFeeAlreadyReceived c
     else
     tryA (GetRawTransaction (wEnv W) (Hash ticket)) (\<lambda>_. sendError W ErrInternalError c) (\<lambda>raw.
     tryA (canTicketVote (wLib W) (wEnv W) (wNet W) raw) (\<lambda>_. sendError W ErrInternalError c) (\<lambda>canVote.
     if \<not> canVote then sendError W ErrTicketCannotVote c
     else
     bindA (now (wEnv W)) (\<lambda>n.
     if FeeExpired n ticket then sendError W ErrFeeExpired c
     else
     bindA (lift (checkPayment (wLib W) (wNet W) request raw ticket)) (\<lambda>r. case r of
       Inl e \<Rightarrow> refuse W e c
     | Inr accepted \<Rightarrow>
         tryA (commit (UpdateTicket (wBolt W) accepted)) (\<lambda>_. sendError W ErrInternalError c) (\<lambda>_.
         if Confirmed accepted
         then broadcastFee W (pfFeeTx request) accepted c (acknowledge W reqBytes (Hash accepted) c)
         else acknowledge W reqBytes (Hash accepted) c))))))))))"

end
