(* ===== verification/VoteHandlers.thy ===== *)
theory VoteHandlers
  imports PayFee
begin

text \<open>
  \<open>internal/webapi/setvotechoices.go\<close>, \<open>setaltsignaddr.go\<close> and \<open>ticketstatus.go\<close>, and the routes of
  \<open>internal/webapi/webapi.go\<close> that chain the middleware before each handler.
\<close>

section \<open>\<open>setVoteChoices\<close>\<close>

text \<open>The timestamps of the previous requests, read with \<open>json.Unmarshal\<close>.\<close>

definition prevTimestamp :: "votechange \<Rightarrow> int64 outcome" where
  "prevTimestamp change = unmarshal_struct [(''timestamp'', int64_field (\<lambda>t _. t))] 0 (vcRequest change)"

text \<open>None if the request is newer than every previous one, else the error code to send.\<close>

fun replayCheck :: "int64 \<Rightarrow> votechange list \<Rightarrow> int64 option" where
  "replayCheck t [] = None"
| "replayCheck t (ch # chs) =
     (case prevTimestamp ch of
        Ok p \<Rightarrow> if sint t \<le> sint p then Some ErrInvalidTimestamp else replayCheck t chs
      | _ \<Rightarrow> Some ErrInternalError)"

definition mergeChoices :: "setVoteChoicesRequest \<Rightarrow> ticket \<Rightarrow> ticket outcome" where
  "mergeChoices request t =
     andThen (gomap_merge (VoteChoices t) (entries (vcVoteChoices request))) (\<lambda>v.
     andThen (gomap_merge (TSpendPolicy t) (entries (vcTSpendPolicy request))) (\<lambda>s.
     andThen (gomap_merge (TreasuryPolicy t) (entries (vcTreasuryPolicy request))) (\<lambda>p.
     Ok (t\<lparr>VoteChoices := v, TSpendPolicy := s, TreasuryPolicy := p\<rparr>))))"

text \<open>Each preference is sent to each wallet, whatever becomes of the others.\<close>

definition setOnWallet :: "'s env \<Rightarrow> ticket \<Rightarrow> nat \<Rightarrow> ('s, unit) act" where
  "setOnWallet E t i =
     bindA (eachA (\<lambda>(agenda, choice). logged (SetVoteChoice E i agenda choice (Hash t))) (entries (VoteChoices t))) (\<lambda>_.
     bindA (eachA (\<lambda>(tspend, policy). logged (SetTSpendPolicy E i tspend policy (Hash t))) (entries (TSpendPolicy t))) (\<lambda>_.
     eachA (\<lambda>(key, policy). logged (SetTreasuryPolicy E i key policy (Hash t))) (entries (TreasuryPolicy t))))"

definition setVoteChoices :: "('s, 'x, 'f) api \<Rightarrow> 's handler" where
  "setVoteChoices W c =
     bindA (mustGet (cxTicket c)) (\<lambda>ticket.
     bindA (mustGet (cxKnownTicket c)) (\<lambda>knownTicket.
     bindA (mustGet (cxWallets c)) (\<lambda>wallets.
     bindA (mustGet (cxRequestBytes c)) (\<lambda>reqBytes.
     if wallets = [] then sendError W ErrInternalError c
     else if \<not> knownTicket then sendError W ErrUnknownTicket c
     else if FeeTxStatus ticket = NoFee then sendError W ErrFeeNotReceived c
     else if Outcome ticket \<noteq> []
     then sendErrorWithMsg W (''ticket not eligible to vote (status='' @ Outcome ticket @ '')'')
            ErrTicketCannotVote c
     else
     tryA (lift (fromSum (bindSetVoteChoices (wGin W) reqBytes)))
       (\<lambda>e. sendErrorWithMsg W (err_msg e) ErrBadRequest c) (\<lambda>request.
     tryA (query (GetVoteChanges (wBolt W) (Hash ticket))) (\<lambda>_. sendError W ErrInternalError c)
       (\<lambda>previousChanges.
     case replayCheck (vcTimestamp request) (map snd previousChanges) of
       Some e \<Rightarrow> sendError W e c
     | None \<Rightarrow>
     (case firstFailure id
         [validConsensusVoteChoices (wNet W) (CurrentVoteVersion (wNet W)) (vcVoteChoices request),
          validTreasuryPolicy (vcTreasuryPolicy request),
          validTSpendPolicy (wLib W) (vcTSpendPolicy request)] of
       Some e \<Rightarrow> sendErrorWithMsg W (err_msg e) ErrInvalidVoteChoices c
     | None \<Rightarrow>
     bindA (lift (mergeChoices request ticket)) (\<lambda>ticket.
     tryA (commit (UpdateTicket (wBolt W) ticket)) (\<lambda>_. sendError W ErrInternalError c) (\<lambda>_.
     bindA (if FeeTxStatus ticket = FeeConfirmed then eachA (setOnWallet (wEnv W) ticket) wallets
            else ret ()) (\<lambda>_.
     acknowledge W reqBytes (Hash ticket) c)))))))))) "

section \<open>\<open>setAltSignAddr\<close>\<close>

definition setAltSignAddr :: "('s, 'x, 'f) api \<Rightarrow> 's handler" where
  "setAltSignAddr W c =
     bindA (mustGet (cxMondErr c)) (\<lambda>mondErr.
     if mondErr \<noteq> None then sendError W ErrInternalError c
     else
     bindA (mustGet (cxRequestBytes c)) (\<lambda>reqBytes.
     tryA (lift (fromSum (bindSetAltSignAddr (wGin W) reqBytes)))
       (\<lambda>e. sendErrorWithMsg W (err_msg e) ErrBadRequest c) (\<lambda>request.
     let altSignAddr = saAltSignAddress request; ticketHash = saTicketHash request in
     tryA (query (AltSignAddrData (wBolt W) ticketHash)) (\<lambda>_. sendError W ErrInternalError c) (\<lambda>currentData.
     if currentData \<noteq> None
     then sendErrorWithMsg W ''alternate sign address data already exists'' ErrBadRequest c
     else
     tryA (lift (fromSum (lbAddressKind (wLib W) altSignAddr)))
       (\<lambda>e. sendErrorWithMsg W (err_msg e) ErrBadRequest c) (\<lambda>isP2PKH.
     if \<not> isP2PKH
     then sendErrorWithMsg W ''wrong type for alternate signing address'' ErrBadRequest c
     else
     tryA (GetRawTransaction (wEnv W) ticketHash) (\<lambda>_. sendError W ErrInternalError c) (\<lambda>raw.
     tryA (canTicketVote (wLib W) (wEnv W) (wNet W) raw) (\<lambda>_. sendError W ErrInternalError c) (\<lambda>canVote.
     if \<not> canVote then sendError W ErrTicketCannotVote c
     else
     bindA (now (wEnv W)) (\<lambda>n.
     bindA (sendJSONResponse W (Inr (ackJSON (unixOf n) (base64 reqBytes))) c) (\<lambda>(c', resp, respSig).
     tryA (commit (InsertAltSignAddr (wBolt W) ticketHash
         (Some \<lparr>AltSignAddr = altSignAddr, Req = reqBytes, ReqSig = cxSignature c, Resp = resp,
                RespSig = respSig\<rparr>)))
       (\<lambda>_. ret c') (\<lambda>_. ret c'))))))))))"

section \<open>\<open>ticketStatus\<close>\<close>

text \<open>The request is bound only to be checked; the ticket is the one of the context.\<close>

definition ticketStatus :: "('s, 'x, 'f) api \<Rightarrow> 's handler" where
  "ticketStatus W c =
     bindA (mustGet (cxTicket c)) (\<lambda>ticket.
     bindA (mustGet (cxKnownTicket c)) (\<lambda>knownTicket.
     bindA (mustGet (cxRequestBytes c)) (\<lambda>reqBytes.
     if \<not> knownTicket then sendError W ErrUnknownTicket c
     else
     tryA (lift (fromSum (bindHash (wGin W) reqBytes)))
       (\<lambda>e. sendErrorWithMsg W (err_msg e) ErrBadRequest c) (\<lambda>request.
     tryA (query (AltSignAddrData (wBolt W) (Hash ticket))) (\<lambda>_. sendError W ErrInternalError c)
       (\<lambda>altSignAddrData.
     let altSignAddr = (case altSignAddrData of None \<Rightarrow> [] | Some d \<Rightarrow> AltSignAddr d) in
     bindA (now (wEnv W)) (\<lambda>n.
     bindA (sendJSONResponse W (Inr (ticketStatusJSON (unixOf n) ticket altSignAddr (base64 reqBytes))) c)
       (\<lambda>(c', _). ret c')))))))"

section \<open>Routes\<close>

text \<open>The recovery middleware answers a panic with 500.\<close>

definition serve :: "'s handler list \<Rightarrow> err + bytes \<Rightarrow> string \<Rightarrow> ('s, unit) act" where
  "serve hs body sig w = (case runChain hs (newCtx body sig) w of
     (Panic, w') \<Rightarrow> respond 500 [] [] w'
   | (_, w') \<Rightarrow> (Ok (), w'))"

definition routeSetAltSignAddr :: "('s, 'x, 'f) api \<Rightarrow> 's handler list" where
  "routeSetAltSignAddr W = [vspMustBeOpen W, withMondClient W, broadcastTicket W, vspAuth W, setAltSignAddr W]"

definition routeFeeAddress :: "('s, 'x, 'f) api \<Rightarrow> 's handler list" where
  "routeFeeAddress W = [vspMustBeOpen W, withMondClient W, broadcastTicket W, vspAuth W, feeAddress W]"

definition routeTicketStatus :: "('s, 'x, 'f) api \<Rightarrow> 's handler list" where
  "routeTicketStatus W = [withMondClient W, vspAuth W, ticketStatus W]"

definition routePayFee :: "('s, 'x, 'f) api \<Rightarrow> 's handler list" where
  "routePayFee W = [vspMustBeOpen W, withMondClient W, vspAuth W, payFee W]"

definition routeSetVoteChoices :: "('s, 'x, 'f) api \<Rightarrow> 's handler list" where
  "routeSetVoteChoices W = [withMondClient W, withWalletClients W, vspAuth W, setVoteChoices W]"

text \<open>A closed VSP refuses at once.\<close>

lemma closed_serve:
  assumes "wVspClosed W"
  shows "serve (vspMustBeOpen W # hs) body sig w = (Ok (), w\<lparr>events := events w @
    [Responded 400 (errorJSON ErrVspClosed ''vsp is closed'')
       (base64 (wSign W (errorJSON ErrVspClosed ''vsp is closed'')))]\<rparr>)"
  using assms
  by (cases hs) (simp_all add: serve_def vspMustBeOpen_def newCtx_def sendError_def sendErrorWithMsg_def Let_def bindA_def
      respond_def ret_def HTTPStatus_def DefaultMessage_def code_defs)

end
