(* ===== verification/Trace.thy ===== *)
theory Trace
  imports VoteHandlers RpcLemmas
begin

text \<open>
  Reasoning about the order of events: \<open>emits A m\<close> says that an action only appends events
  satisfying \<open>A\<close>, and that the database it leaves is the last one it wrote. The calls of the RPC
  layer are covered once for every \<open>A\<close>, so that a property of one handler only has to look at
  its own steps.
\<close>

section \<open>Appended events\<close>

fun dbAfter :: "'s \<Rightarrow> 's event list \<Rightarrow> 's" where
  "dbAfter s [] = s"
| "dbAfter s (Wrote s' # es) = dbAfter s' es"
| "dbAfter s (Asked c # es) = dbAfter s es"
| "dbAfter s (Responded n b g # es) = dbAfter s es"

lemma dbAfter_append [simp]: "dbAfter s (es @ fs) = dbAfter (dbAfter s es) fs"
  by (induction s es rule: dbAfter.induct) simp_all

definition traced :: "('s event \<Rightarrow> bool) \<Rightarrow> 's world \<Rightarrow> 's world \<Rightarrow> bool" where
  "traced A w w' \<longleftrightarrow> (\<exists>es. events w' = events w @ es \<and> list_all A es \<and> wdb w' = dbAfter (wdb w) es)"

lemma traced_refl [simp]: "events w' = events w \<Longrightarrow> wdb w' = wdb w \<Longrightarrow> traced A w w'"
  by (simp add: traced_def)

lemma traced_trans:
  assumes "traced A w w'" "traced A w' w''"
  shows "traced A w w''"
proof -
  obtain es fs where "events w' = events w @ es" "list_all A es" "wdb w' = dbAfter (wdb w) es"
    "events w'' = events w' @ fs" "list_all A fs" "wdb w'' = dbAfter (wdb w') fs"
    using assms by (auto simp: traced_def)
  then show ?thesis unfolding traced_def by (intro exI [of _ "es @ fs"]) simp
qed

lemma traced_mono: "traced A w w' \<Longrightarrow> (\<And>e. A e \<Longrightarrow> A' e) \<Longrightarrow> traced A' w w'"
  by (auto simp: traced_def list_all_iff)

definition emits :: "('s event \<Rightarrow> bool) \<Rightarrow> ('s, 'a) act \<Rightarrow> bool" where
  "emits A m \<longleftrightarrow> (\<forall>w. traced A w (snd (m w)))"

named_theorems emits_intros \<open>events an action may append\<close>

lemma emitsI: "(\<And>w r w'. m w = (r, w') \<Longrightarrow> traced A w w') \<Longrightarrow> emits A m"
  by (metis emits_def prod.collapse)

lemma emitsD: "emits A m \<Longrightarrow> m w = (r, w') \<Longrightarrow> traced A w w'"
  by (metis emits_def snd_conv)

lemma emits_mono: "emits A m \<Longrightarrow> (\<And>e. A e \<Longrightarrow> A' e) \<Longrightarrow> emits A' m"
  by (auto simp: emits_def intro: traced_mono)

lemma emits_try [emits_intros]:
  assumes "emits A m" "\<And>e. emits A (h e)" "\<And>a. emits A (k a)"
  shows "emits A (tryA m h k)"
proof (rule emitsI)
  fix w r w' assume run: "tryA m h k w = (r, w')"
  obtain x w1 where m: "m w = (x, w1)" by (cases "m w")
  have "traced A w1 w'"
    using run m assms(2,3) by (cases x) (auto simp: tryA_def dest: emitsD)
  with emitsD [OF assms(1) m] show "traced A w w'" by (rule traced_trans)
qed

lemma bindA_try: "bindA m k = tryA m failA k"
  by (auto simp: bindA_def tryA_def failA_def split: prod.splits outcome.splits)

lemma emits_leaves [emits_intros]:
  "emits A (ret a)" "emits A (failA e)" "emits A panic" "emits A (lift r)" "emits A (query f)"
  "emits A (setConn t b)" "emits A (hasConn t)" "emits A (peek pf)" "emits A (putIdx i)"
  "emits A (putCache d)" "emits A (putScanned ht)"
  by (simp_all add: emits_def act_defs setConn_def hasConn_def peek_def putIdx_def putCache_def putScanned_def)

lemma emits_bind [emits_intros]: "emits A m \<Longrightarrow> (\<And>a. emits A (k a)) \<Longrightarrow> emits A (bindA m k)"
  unfolding bindA_try by (intro emits_intros)

lemma emits_ask [emits_intros]: "A (Asked c) \<Longrightarrow> emits A (ask E c)"
  by (auto simp: emits_def ask_def traced_def split: sum.splits)

lemma emits_commit [emits_intros]: "(\<And>s s'. f s = Ok s' \<Longrightarrow> A (Wrote s')) \<Longrightarrow> emits A (commit f)"
  by (auto simp: emits_def commit_def traced_def split: outcome.splits)

lemma emits_respond [emits_intros]: "A (Responded n b g) \<Longrightarrow> emits A (respond n b g)"
  by (simp add: emits_def respond_def traced_def)

lemma emits_if [emits_intros]: "(b \<Longrightarrow> emits A f) \<Longrightarrow> (\<not> b \<Longrightarrow> emits A g) \<Longrightarrow> emits A (if b then f else g)"
  by simp

lemma emits_case [emits_intros]: "(\<And>a b. emits A (f a b)) \<Longrightarrow> emits A (case p of (a, b) \<Rightarrow> f a b)"
  by (cases p) simp

lemma emits_option [emits_intros]: "emits A n \<Longrightarrow> (\<And>a. emits A (f a)) \<Longrightarrow> emits A (case v of None \<Rightarrow> n | Some a \<Rightarrow> f a)"
  by (cases v) simp_all

lemma emits_sum [emits_intros]: "(\<And>a. emits A (f a)) \<Longrightarrow> (\<And>b. emits A (g b)) \<Longrightarrow> emits A (case v of Inl a \<Rightarrow> f a | Inr b \<Rightarrow> g b)"
  by (cases v) simp_all

lemma emits_flow [emits_intros]:
  "(\<And>a. emits A (f a)) \<Longrightarrow> (\<And>b. emits A (g b)) \<Longrightarrow> emits A (case v of Next a \<Rightarrow> f a | Return b \<Rightarrow> g b)"
  by (cases v) simp_all

lemma emits_for [emits_intros]: "(\<And>a x. emits A (body a x)) \<Longrightarrow> emits A (forA body as x)"
  by (induction as arbitrary: x) (auto intro!: emits_intros)

lemma emits_each [emits_intros]: "(\<And>a. emits A (f a)) \<Longrightarrow> emits A (eachA f as)"
  by (induction as) (auto intro!: emits_intros)

lemma emits_fold [emits_intros]: "(\<And>a x. emits A (f a x)) \<Longrightarrow> emits A (foldA f as x)"
  by (induction as arbitrary: x) (auto intro!: emits_intros)

lemma emits_logged [emits_intros]: "emits A m \<Longrightarrow> emits A (logged m)"
  unfolding logged_def by (intro emits_intros)

lemma emits_snd: "emits A m \<Longrightarrow> (\<And>w. snd (n w) = snd (m w)) \<Longrightarrow> emits A n"
  by (simp add: emits_def)

lemma emits_now [emits_intros]: "A (Asked (Call Clock ''now'' [])) \<Longrightarrow> emits A (now E)"
  by (rule emits_snd [OF emits_ask [of A "Call Clock ''now'' []" E]])
    (auto simp: now_def split: prod.split outcome.split reply.split)

lemma emits_canceled [emits_intros]: "A (Asked (Call Ctx ''err'' [])) \<Longrightarrow> emits A (canceled E)"
  by (rule emits_snd [OF emits_ask [of A "Call Ctx ''err'' []" E]])
    (auto simp: canceled_def split: prod.split outcome.split reply.split)

section \<open>The RPC layer\<close>

text \<open>Calls other than a broadcast.\<close>

definition reads :: "('s event \<Rightarrow> bool) \<Rightarrow> bool" where
  "reads A \<longleftrightarrow> (\<forall>t m as. m \<noteq> ''sendrawtransaction'' \<longrightarrow> A (Asked (Call t m as)))"

definition calls :: "('s event \<Rightarrow> bool) \<Rightarrow> bool" where
  "calls A \<longleftrightarrow> (\<forall>c. A (Asked c))"

lemma readsD: "reads A \<Longrightarrow> m \<noteq> ''sendrawtransaction'' \<Longrightarrow> A (Asked (Call t m as))"
  by (simp add: reads_def)

lemma calls_reads: "calls A \<Longrightarrow> reads A"
  by (simp add: calls_def reads_def)

lemma emits_reply [emits_intros]:
  assumes "emits A a" "\<And>x. emits A (b x)" "\<And>x. emits A (c x)" "\<And>x. emits A (d x)" "\<And>x. emits A (e x)"
    "\<And>x. emits A (f x)" "\<And>x. emits A (g x)" "\<And>x y z u. emits A (i x y z u)" "\<And>x y z. emits A (j x y z)"
    "\<And>x y. emits A (k x y)"
  shows "emits A (case r of RNone \<Rightarrow> a | RStr x \<Rightarrow> b x | RInt x \<Rightarrow> c x | RBool x \<Rightarrow> d x | RRaw x \<Rightarrow> e x
    | RTickets x \<Rightarrow> f x | RVersions x \<Rightarrow> g x | RWalletInfo x y z u \<Rightarrow> i x y z u | RFilter x y z \<Rightarrow> j x y z
    | RSigned x y \<Rightarrow> k x y)"
  using assms by (cases r) simp_all

lemma emits_typed:
  assumes "A (Asked c)"
  shows "emits A (askUnit E c)" "emits A (askStr E c)" "emits A (askInt E c)" "emits A (askRaw E c)"
  unfolding askUnit_def askStr_def askInt_def askRaw_def by (intro emits_intros assms)+

lemma emits_wrap [emits_intros]: "emits A m \<Longrightarrow> emits A (wrapA p m)"
  unfolding wrapA_def by (intro emits_intros)

lemma emits_reads:
  assumes A: "reads A"
  shows "emits A (mondClient E net n)" "emits A (GetRawTransaction E h)" "emits A (GetBestBlockHeader l E)"
    "emits A (GetBlockCount E)" "emits A (GetBlockHash E i)" "emits A (GetBlockHeader l E h)" "emits A (GetBlock l E h)"
    "emits A (GetCFilterV2 l E hdr v)" "emits A (ExistsLiveTicket l E h)" "emits A (walletClients E net ws)"
    "emits A (SetVoteChoice E j a b c)" "emits A (SetTSpendPolicy E j a b c)" "emits A (SetTreasuryPolicy E j a b c)"
    "emits A (AddTicketForVoting E j a b c)" "emits A (TicketInfo E j ht)" "emits A (RescanFrom E j ht)"
  unfolding mondClient_def GetRawTransaction_def GetBestBlockHeader_def GetBlockCount_def GetBlockHash_def
    GetBlockHeader_def GetBlock_def GetCFilterV2_def ExistsLiveTicket_def walletClients_def connectWallet_def
    SetVoteChoice_def SetTSpendPolicy_def SetTreasuryPolicy_def AddTicketForVoting_def TicketInfo_def RescanFrom_def
    dial_def closeConn_def checkVersions_def getCurrentNet_def getTxIndex_def NotifyBlocks_def
  by (intro emits_intros emits_typed readsD [OF A]; simp)+

lemma emits_send: "calls A \<Longrightarrow> emits A (SendRawTransaction E tx)"
  unfolding SendRawTransaction_def
  by (intro emits_intros emits_reads calls_reads) (simp_all add: calls_def)

end
