(* ===== verification/Responses.thy ===== *)
theory Responses
  imports Trace
begin

text \<open>
  Every request is answered: a middleware answers exactly when it aborts the chain, a handler
  answers once, and what is answered is signed with the key of the VSP.
\<close>

section \<open>Actions that cannot fail\<close>

definition safe :: "('s, 'a) act \<Rightarrow> bool" where
  "safe m \<longleftrightarrow> (\<forall>w e w'. m w \<noteq> (Fail e, w'))"

named_theorems safe_intros \<open>actions that return a value or panic\<close>

lemma safe_bind [safe_intros]: "safe m \<Longrightarrow> (\<And>a. safe (k a)) \<Longrightarrow> safe (bindA m k)"
  unfolding safe_def bindA_def by (auto split: prod.splits outcome.splits)

lemma safe_try [safe_intros]: "(\<And>e. safe (h e)) \<Longrightarrow> (\<And>a. safe (k a)) \<Longrightarrow> safe (tryA m h k)"
  unfolding safe_def tryA_def by (auto split: prod.splits outcome.splits)

lemma safe_leaves [safe_intros]: "safe (ret a)" "safe panic" "safe (setConn t b)" "safe (hasConn t)"
    "safe (peek g)" "safe (respond n bs sg)" "(\<And>e. r \<noteq> Fail e) \<Longrightarrow> safe (lift r)"
  by (simp_all add: safe_def act_defs setConn_def hasConn_def peek_def)

lemma safe_if [safe_intros]: "safe x \<Longrightarrow> safe y \<Longrightarrow> safe (if b then x else y)"
  by simp

lemma safe_case [safe_intros]: "(\<And>a b. safe (f a b)) \<Longrightarrow> safe (case p of (a, b) \<Rightarrow> f a b)"
  by (cases p) simp

lemma safe_flow [safe_intros]: "(\<And>a. safe (f a)) \<Longrightarrow> (\<And>b. safe (g b)) \<Longrightarrow> safe (case v of Next a \<Rightarrow> f a | Return b \<Rightarrow> g b)"
  by (cases v) simp_all

lemma safe_loops [safe_intros]:
  "(\<And>a x. safe (body a x)) \<Longrightarrow> safe (forA body as x)" "(\<And>a. safe (f a)) \<Longrightarrow> safe (eachA f as)"
proof -
  show "(\<And>a x. safe (body a x)) \<Longrightarrow> safe (forA body as x)"
    by (induction as arbitrary: x) (auto intro!: safe_intros split: flow.split)
  show "(\<And>a. safe (f a)) \<Longrightarrow> safe (eachA f as)"
    by (induction as) (auto intro!: safe_intros)
qed

lemma safe_logged [safe_intros]: "safe (logged m)"
  unfolding logged_def by (intro safe_intros)

lemma safe_total [safe_intros]: "safe (now E)" "safe (canceled E)" "safe (freeSlot E)"
  using now_Ok [of E] canceled_Ok [of E]
  by (metis outcome.distinct(1) prod.inject safe_def)
     (metis canceled_Ok outcome.distinct(1) prod.inject safe_def,
      auto simp: safe_def freeSlot_def split: prod.splits outcome.splits reply.splits)

lemma safe_mustGet [safe_intros]: "safe (mustGet v)"
  by (cases v) (simp_all add: mustGet_def safe_intros)

lemma safe_walletClients [safe_intros]: "safe (walletClients E net ws)"
  unfolding walletClients_def connectWallet_def closeConn_def by (intro safe_intros)

lemma safe_retry [safe_intros]: "safe (retryBroadcast n E tx)"
  by (induction n) (auto intro!: safe_intros)

lemma safe_index [safe_intros]: "safe (lift (index xs i))"
  by (rule safe_intros) (simp add: index_def)

lemma andThen_eq_Fail: "andThen m k = Fail e \<longleftrightarrow> m = Fail e \<or> (\<exists>a. m = Ok a \<and> k a = Fail e)"
  by (cases m) simp_all

lemma gomap_set_safe: "gomap_set m k v \<noteq> Fail e"
  by (cases m) simp_all

lemma gomap_merge_safe: "gomap_merge m kvs \<noteq> Fail e"
  by (induction m kvs rule: gomap_merge.induct) (simp_all add: andThen_eq_Fail gomap_set_safe)

lemma safe_checks [safe_intros]: "safe (lift (mergeChoices req t))" "safe (lift (checkPayment l n rq raw u))"
proof -
  show "safe (lift (mergeChoices req t))"
    by (rule safe_intros) (simp add: mergeChoices_def andThen_eq_Fail gomap_merge_safe)
  show "safe (lift (checkPayment l n rq raw u))"
    by (rule safe_intros)
      (auto simp: checkPayment_def orRefuse_def andThen_eq_Fail index_def Let_def split: outcome.splits)
qed

lemma safe_setOnWallet [safe_intros]: "safe (setOnWallet E t i)"
  unfolding setOnWallet_def by (intro safe_intros)

section \<open>Answers\<close>

fun silent :: "'s event \<Rightarrow> bool" where
  "silent (Responded n b g) = False"
| "silent e = True"

definition responses :: "'s world \<Rightarrow> 's event list" where
  "responses w = filter (\<lambda>e. \<not> silent e) (events w)"

lemma silent_calls: "calls silent" "reads silent" "silent (Wrote s)"
  by (simp_all add: calls_def reads_def)

lemma silent_responses: "traced silent w w' \<Longrightarrow> responses w' = responses w"
  by (auto simp: traced_def responses_def list_all_iff filter_empty_conv)

definition signed :: "('s, 'x, 'f) api \<Rightarrow> 's event \<Rightarrow> bool" where
  "signed W e \<longleftrightarrow> (\<exists>st body. e = Responded st body (base64 (wSign W body)))"

text \<open>
  \<open>answers W fin m\<close>: \<open>m\<close> aborts with one signed response, or (when it is not the last of the
  chain) lets the chain go on without one; a panic may come before or after the response.
\<close>

fun answered :: "('s, 'x, 'f) api \<Rightarrow> bool \<Rightarrow> 's event list \<Rightarrow> ctx outcome \<times> 's world \<Rightarrow> bool" where
  "answered W fin rs (Ok c, w') = (if cxAborted c then \<exists>e. signed W e \<and> responses w' = rs @ [e]
     else \<not> fin \<and> responses w' = rs)"
| "answered W fin rs (Fail e, w') = False"
| "answered W fin rs (Panic, w') = (responses w' = rs \<or> (\<exists>e. signed W e \<and> responses w' = rs @ [e]))"

definition answers :: "('s, 'x, 'f) api \<Rightarrow> bool \<Rightarrow> ('s, ctx) act \<Rightarrow> bool" where
  "answers W fin m \<longleftrightarrow> (\<forall>w. answered W fin (responses w) (m w))"

lemma answersI: "(\<And>w. answered W fin (responses w) (m w)) \<Longrightarrow> answers W fin m"
  by (simp add: answers_def)

lemma answersD: "answers W fin m \<Longrightarrow> responses w = rs \<Longrightarrow> answered W fin rs (m w)"
  by (auto simp: answers_def)

lemma silent_run: "emits silent m \<Longrightarrow> m w = (r, w') \<Longrightarrow> responses w' = responses w"
  by (rule silent_responses) (rule emitsD)

lemma answers_bind:
  assumes "emits silent m" "safe m" "\<And>a. answers W fin (k a)"
  shows "answers W fin (bindA m k)"
proof (rule answersI)
  fix w
  obtain r w1 where m: "m w = (r, w1)" by (cases "m w")
  show "answered W fin (responses w) (bindA m k w)"
    using m silent_run [OF assms(1) m] assms(2) answersD [OF assms(3)]
    by (cases r) (auto simp: bindA_def safe_def)
qed

lemma answers_try:
  assumes "emits silent m" "\<And>e. answers W fin (h e)" "\<And>a. answers W fin (k a)"
  shows "answers W fin (tryA m h k)"
proof (rule answersI)
  fix w
  obtain r w1 where m: "m w = (r, w1)" by (cases "m w")
  show "answered W fin (responses w) (tryA m h k w)"
    using m silent_run [OF assms(1) m] answersD [OF assms(2)] answersD [OF assms(3)]
    by (cases r) (auto simp: tryA_def)
qed

lemma answers_send: "answers W fin (sendErrorWithMsg W msg e c)" "answers W fin (sendError W er c)"
  by (auto simp: answers_def sendError_def sendErrorWithMsg_def Let_def bindA_def respond_def ret_def responses_def signed_def)

lemma answers_refuse: "answers W fin (refuse W r c)"
  unfolding refuse_def by (auto simp: answers_send split: prod.split option.split)

lemma answers_next: "\<not> cxAborted c \<Longrightarrow> answers W False (ret c)"
  by (simp add: answers_def ret_def)

lemma answers_if: "answers W fin x \<Longrightarrow> answers W fin y \<Longrightarrow> answers W fin (if b then x else y)"
  by simp

lemma answers_case: "(\<And>a b. p = (a, b) \<Longrightarrow> answers W fin (f a b)) \<Longrightarrow> answers W fin (case p of (a, b) \<Rightarrow> f a b)"
  by (cases p) simp

lemma answers_option: "answers W fin n \<Longrightarrow> (\<And>a. answers W fin (f a)) \<Longrightarrow> answers W fin (case v of None \<Rightarrow> n | Some a \<Rightarrow> f a)"
  by (cases v) simp_all

lemma answers_sum: "(\<And>a. answers W fin (f a)) \<Longrightarrow> (\<And>b. answers W fin (g b)) \<Longrightarrow> answers W fin (case v of Inl a \<Rightarrow> f a | Inr b \<Rightarrow> g b)"
  by (cases v) simp_all

text \<open>What may follow the response: only quiet work that hands back the context.\<close>

definition hands :: "ctx \<Rightarrow> ('s, ctx) act \<Rightarrow> bool" where
  "hands c m \<longleftrightarrow> emits silent m \<and> (\<forall>w. fst (m w) \<in> {Ok c, Panic})"

lemma hands_ret: "hands c (ret c)"
  by (simp add: hands_def emits_intros ret_def)

lemma hands_try: "emits silent m \<Longrightarrow> (\<And>e. hands c (h e)) \<Longrightarrow> (\<And>a. hands c (k a)) \<Longrightarrow> hands c (tryA m h k)"
  unfolding hands_def
  by (auto intro!: emits_intros simp: tryA_def split: prod.splits outcome.splits)

lemma answers_then:
  assumes "answers W True m" "\<And>c. hands c (k c)"
  shows "answers W fin (bindA m k)"
proof (rule answersI)
  fix w
  obtain r w1 where m: "m w = (r, w1)" by (cases "m w")
  have a: "answered W True (responses w) (r, w1)" using assms(1) m by (auto simp: answers_def dest: spec [of _ w])
  show "answered W fin (responses w) (bindA m k w)"
  proof (cases r)
    case (Ok c)
    obtain r' w2 where k: "k c w1 = (r', w2)" by (cases "k c w1")
    have "responses w2 = responses w1" "r' = Ok c \<or> r' = Panic"
      using assms(2) [of c] silent_run [of "k c" w1] k by (auto simp: hands_def) (metis fst_conv)
    then show ?thesis using a m k Ok by (auto simp: bindA_def split: if_splits)
  qed (use a m in \<open>auto simp: bindA_def\<close>)
qed

text \<open>The JSON response is sent, and what follows gets its body and signature.\<close>

lemma answers_json:
  fixes W :: "('s, 'x, 'f) api"
  assumes "\<And>c r sg. hands c (k (c, r, sg))"
  shows "answers W fin (bindA (sendJSONResponse W (Inr dec) c) k)"
proof (rule answersI)
  fix w :: "'s world"
  let ?sig = "base64 (wSign W dec)" and ?c = "c\<lparr>cxAborted := True\<rparr>"
  let ?w = "w\<lparr>events := events w @ [Responded 200 dec ?sig]\<rparr>"
  have run: "bindA (sendJSONResponse W (Inr dec) c) k w = k (?c, dec, ?sig) ?w"
    by (simp add: bindA_def sendJSONResponse_def Let_def respond_def ret_def)
  obtain r w1 where k: "k (?c, dec, ?sig) ?w = (r, w1)" by (cases "k (?c, dec, ?sig) ?w")
  have "responses w1 = responses ?w" "r = Ok ?c \<or> r = Panic"
    using assms [of ?c dec ?sig] silent_run [where m = "k (?c, dec, ?sig)", OF _ k] k by (auto simp: hands_def) (metis fst_conv)
  then show "answered W fin (responses w) (bindA (sendJSONResponse W (Inr dec) c) k w)"
    unfolding run k by (auto simp: responses_def signed_def)
qed

section \<open>Middleware and handlers\<close>

lemma hands_case: "(\<And>a b. p = (a, b) \<Longrightarrow> hands c (f a b)) \<Longrightarrow> hands c (case p of (a, b) \<Rightarrow> f a b)"
  by (cases p) simp

lemma silent_mustGet: "emits silent (mustGet v)"
  unfolding mustGet_def by (intro emits_intros)

lemma silent_slot: "emits silent (freeSlot E)"
  by (rule emits_snd [OF emits_ask [of silent "Call Ctx ''broadcastSem'' []" E]])
    (auto simp: freeSlot_def split: prod.split outcome.split reply.split)

lemma silent_retry: "emits silent (retryBroadcast n E tx)"
  by (induction n) (auto intro!: emits_intros emits_send silent_calls)

lemma silent_canVote: "emits silent (canTicketVote l E n raw)"
  unfolding canTicketVote_def by (intro emits_intros emits_reads silent_calls)

lemma silent_fee: "emits silent (getCurrentFee W)" "emits silent (getNewFeeAddress W)" "emits silent (setOnWallet E t i)"
  unfolding getCurrentFee_def getNewFeeAddress_def setOnWallet_def Let_def
  by (intro emits_intros emits_reads silent_calls; simp)+

lemmas silent_intros = emits_intros emits_reads emits_send silent_calls silent_mustGet silent_slot silent_retry
  silent_canVote silent_fee

lemmas answers_rules = answers_send answers_refuse answers_if answers_case answers_option answers_sum

lemma broadcastParent_answers:
  assumes "answers W False k"
  shows "answers W False (broadcastParent W req tx ph c k)"
  unfolding broadcastParent_def
  by (intro answers_rules answers_try answers_bind assms silent_intros safe_intros; simp)

lemma middleware_answers:
  assumes "\<not> cxAborted c"
  shows "answers W False (vspMustBeOpen W c)" "answers W False (withMondClient W c)"
    "answers W False (withWalletClients W c)" "answers W False (broadcastTicket W c)" "answers W False (vspAuth W c)"
proof -
  show "answers W False (vspMustBeOpen W c)" "answers W False (withMondClient W c)" "answers W False (withWalletClients W c)"
    unfolding vspMustBeOpen_def withMondClient_def withWalletClients_def
    using assms by (intro answers_rules answers_try answers_bind answers_next silent_intros safe_intros; simp)+
  have drained: "answers W False (tryA (lift (drainAndReplaceBody c)) h k)"
    if "\<And>e. answers W False (h e)" "\<And>rb c'. \<not> cxAborted c' \<Longrightarrow> answers W False (k (rb, c'))" for h k
    using that assms
    by (cases "drainAndReplaceBody c")
      (auto simp: answers_def tryA_def lift_def drainAndReplaceBody_def Let_def split: sum.splits)
  show "answers W False (broadcastTicket W c)"
    unfolding broadcastTicket_def
    by (rule drained, rule answers_rules, simp only: prod.case)
       (intro answers_rules answers_try answers_bind answers_next broadcastParent_answers silent_intros safe_intros; assumption)
  show "answers W False (vspAuth W c)"
    unfolding vspAuth_def authAddress_def Let_def
    by (rule drained, rule answers_rules, simp only: prod.case)
       (intro answers_rules answers_try answers_bind answers_next silent_intros safe_intros; simp)
qed

lemma ack_hands: "hands c (tryA (commit f) (\<lambda>_. ret c) (\<lambda>_. ret c))"
  by (intro hands_try hands_ret silent_intros)

lemma acknowledge_answers: "answers W True (acknowledge W rb h c)"
  unfolding acknowledge_def
  by (rule answers_bind, (intro silent_intros; simp; fail), (intro safe_intros; fail), rule answers_json, rule hands_case, simp)
     (auto simp: ack_hands)

lemma broadcastFee_answers: "answers W True k \<Longrightarrow> answers W True (broadcastFee W x u c k)"
  unfolding broadcastFee_def
  by (rule answers_try, (intro silent_intros; simp; fail), rule answers_then, (intro answers_rules), rule ack_hands)
     (rule answers_try, (intro silent_intros; simp; fail), rule answers_send, assumption)

lemma fee_answers: "answers W True (renewFee W rb t c)" "answers W True (registerTicket W rb h ca raw c)"
proof -
  show "answers W True (renewFee W rb t c)"
    unfolding renewFee_def Let_def
    by (rule answers_if answers_send
      | (rule answers_json, (rule hands_case, simp add: hands_ret; fail))
      | (rule answers_try, (intro silent_intros; simp; fail))
      | (rule answers_bind, (intro silent_intros; simp; fail), (intro safe_intros; fail)))+
  show "answers W True (registerTicket W rb h ca raw c)"
    unfolding registerTicket_def Let_def
    by (rule answers_if answers_send
      | (rule answers_json, (rule hands_case, simp add: hands_ret; fail))
      | (rule answers_try, (intro silent_intros; simp; fail))
      | (rule answers_bind, (intro silent_intros; simp; fail), (intro safe_intros; fail)))+
qed

lemmas answers_leaves = answers_send answers_refuse acknowledge_answers broadcastFee_answers fee_answers

lemma feeAddress_answers: "answers W True (feeAddress W c)"
  unfolding feeAddress_def Let_def
  by (rule answers_if answers_option answers_sum answers_leaves
      | (rule answers_json, (rule hands_case, simp add: hands_ret ack_hands; fail))
      | (rule answers_try, (intro silent_intros; simp; fail))
      | (rule answers_bind, (intro silent_intros; simp; fail), (intro safe_intros; fail)))+

lemma payFee_answers: "answers W True (payFee W c)"
  unfolding payFee_def Let_def
  by (rule answers_if answers_option answers_sum answers_leaves
      | (rule answers_json, (rule hands_case, simp add: hands_ret ack_hands; fail))
      | (rule answers_try, (intro silent_intros; simp; fail))
      | (rule answers_bind, (intro silent_intros; simp; fail), (intro safe_intros; fail)))+

lemma setVoteChoices_answers: "answers W True (setVoteChoices W c)"
  unfolding setVoteChoices_def Let_def
  by (rule answers_if answers_option answers_sum answers_leaves
      | (rule answers_json, (rule hands_case, simp add: hands_ret ack_hands; fail))
      | (rule answers_try, (intro silent_intros; simp; fail))
      | (rule answers_bind, (intro silent_intros; simp; fail), (intro safe_intros; fail)))+

lemma setAltSignAddr_answers: "answers W True (setAltSignAddr W c)"
  unfolding setAltSignAddr_def Let_def
  by (rule answers_if answers_option answers_sum answers_leaves
      | (rule answers_json, (rule hands_case, simp add: hands_ret ack_hands; fail))
      | (rule answers_try, (intro silent_intros; simp; fail))
      | (rule answers_bind, (intro silent_intros; simp; fail), (intro safe_intros; fail)))+

lemma ticketStatus_answers: "answers W True (ticketStatus W c)"
  unfolding ticketStatus_def Let_def
  by (rule answers_if answers_option answers_sum answers_leaves
      | (rule answers_json, (rule hands_case, simp add: hands_ret ack_hands; fail))
      | (rule answers_try, (intro silent_intros; simp; fail))
      | (rule answers_bind, (intro silent_intros; simp; fail), (intro safe_intros; fail)))+

section \<open>Routes\<close>

lemma chain_answers:
  assumes ms: "\<And>m c. m \<in> set ms \<Longrightarrow> \<not> cxAborted c \<Longrightarrow> answers W False (m c)"
    and h: "\<And>c. answers W True (h c)" and c: "\<not> cxAborted c"
  shows "answered W True (responses w) (runChain (ms @ [h]) c w)"
  using ms c
proof (induction ms arbitrary: c w)
  case Nil
  have a: "answered W True (responses w) (h c w)" using h by (simp add: answers_def)
  obtain r w1 where "h c w = (r, w1)" by (cases "h c w")
  with a Nil(2) show ?case by (cases r) (auto simp: bindA_def ret_def split: if_splits)
next
  case (Cons m ms)
  have a: "answered W False (responses w) (m c w)" using Cons.prems by (simp add: answers_def)
  obtain r w1 where m: "m c w = (r, w1)" by (cases "m c w")
  show ?case
  proof (cases r)
    case (Ok c')
    show ?thesis
    proof (cases "cxAborted c'")
      case True
      then have "runChain (ms @ [h]) c' = ret c'" by (cases ms) simp_all
      then show ?thesis using a m Ok True Cons.prems(2) by (simp add: bindA_def ret_def)
    next
      case False
      then have "responses w1 = responses w" using a m Ok by simp
      moreover have "answered W True (responses w1) (runChain (ms @ [h]) c' w1)"
        by (rule Cons.IH) (use Cons.prems(1) False in auto)
      ultimately show ?thesis
        using m Ok Cons.prems(2) by (simp add: bindA_def)
    qed
  qed (use a m Cons.prems(2) in \<open>auto simp: bindA_def\<close>)
qed

text \<open>A request is answered, and only a panic of its handler can make the answer another one.\<close>

lemma serve_answers:
  assumes chain: "answered W True (responses w) (runChain hs (newCtx body sig) w)" and run: "serve hs body sig w = (r, w')"
  shows "r = Ok () \<and> (\<exists>e es. responses w' = responses w @ e # es \<and>
    (signed W e \<and> es = [] \<or>
     fst (runChain hs (newCtx body sig) w) = Panic \<and>
       (e = Responded 500 [] [] \<and> es = [] \<or> signed W e \<and> es = [Responded 500 [] []])))"
proof -
  obtain x w1 where x: "runChain hs (newCtx body sig) w = (x, w1)"
    by (cases "runChain hs (newCtx body sig) w")
  show ?thesis
  proof (cases x)
    case (Ok c)
    then show ?thesis using chain run x by (auto simp: serve_def split: if_splits)
  next
    case (Fail e)
    then show ?thesis using chain x by simp
  next
    case Panic
    then show ?thesis using chain run x by (auto simp: serve_def respond_def responses_def)
  qed
qed

lemma route_answers:
  assumes "hs \<in> {routeSetAltSignAddr W, routeFeeAddress W, routeTicketStatus W, routePayFee W, routeSetVoteChoices W}"
  shows "answered W True (responses w) (runChain hs (newCtx body sig) w)"
proof -
  have c: "cxAborted (newCtx body sig) = False" by (simp add: newCtx_def)
  have "answered W True (responses w) (runChain (routeSetAltSignAddr W) (newCtx body sig) w)"
    unfolding routeSetAltSignAddr_def
    by (rule chain_answers [where ms = "[vspMustBeOpen W, withMondClient W, broadcastTicket W, vspAuth W]", unfolded append.simps])
      (auto intro: middleware_answers setAltSignAddr_answers simp: c)
  moreover have "answered W True (responses w) (runChain (routeFeeAddress W) (newCtx body sig) w)"
    unfolding routeFeeAddress_def
    by (rule chain_answers [where ms = "[vspMustBeOpen W, withMondClient W, broadcastTicket W, vspAuth W]", unfolded append.simps])
      (auto intro: middleware_answers feeAddress_answers simp: c)
  moreover have "answered W True (responses w) (runChain (routeTicketStatus W) (newCtx body sig) w)"
    unfolding routeTicketStatus_def
    by (rule chain_answers [where ms = "[withMondClient W, vspAuth W]", unfolded append.simps])
      (auto intro: middleware_answers ticketStatus_answers simp: c)
  moreover have "answered W True (responses w) (runChain (routePayFee W) (newCtx body sig) w)"
    unfolding routePayFee_def
    by (rule chain_answers [where ms = "[vspMustBeOpen W, withMondClient W, vspAuth W]", unfolded append.simps])
      (auto intro: middleware_answers payFee_answers simp: c)
  moreover have "answered W True (responses w) (runChain (routeSetVoteChoices W) (newCtx body sig) w)"
    unfolding routeSetVoteChoices_def
    by (rule chain_answers [where ms = "[withMondClient W, withWalletClients W, vspAuth W]", unfolded append.simps])
      (auto intro: middleware_answers setVoteChoices_answers simp: c)
  ultimately show ?thesis using assms by blast
qed

end
