(* ===== verification/DbState.thy ===== *)
theory DbState
  imports TicketQueries FeeXPub VoteChange AltSignAddr
begin

text \<open>
  The four parts of the database taken together: \<open>absDb\<close> is the abstract database a state
  represents, \<open>db_wf\<close> the well-formedness of all parts, and every operation of the database
  package that writes is an update of its own part of the abstract database.
\<close>

record dbst =
  dTickets :: "string \<Rightarrow> ticket option"
  dVotes :: "string \<Rightarrow> uint32 \<Rightarrow> votechange option"
  dAlts :: "string \<Rightarrow> altsign option"
  dXpubs :: "uint32 \<Rightarrow> feexpub option"

definition absDb :: "'s bolt \<Rightarrow> 's \<Rightarrow> dbst" where
  "absDb B s = \<lparr>dTickets = tickets B s, dVotes = voteLog B s, dAlts = altAddrs B s, dXpubs = xpubs B s\<rparr>"

definition db_wf :: "'s bolt \<Rightarrow> 's \<Rightarrow> bool" where
  "db_wf B s \<longleftrightarrow> tickets_wf B s \<and> votes_wf B s \<and> alts_wf B s \<and> xpubs_wf B s"

lemma absDb_simps [simp]: "dTickets (absDb B s) = tickets B s" "dVotes (absDb B s) = voteLog B s"
    "dAlts (absDb B s) = altAddrs B s" "dXpubs (absDb B s) = xpubs B s"
  by (simp_all add: absDb_def)

section \<open>Frames\<close>

lemma votes_frame:
  assumes B: "bolt_ok B" and wf: "votes_wf B s" and bk: "buckets_ok B s'"
    and e: "\<And>q. prefix vcBktPath q \<Longrightarrow> ents B s' q = ents B s q"
  shows "votes_wf B s' \<and> voteLog B s' = voteLog B s"
proof -
  have "ents B s' vcBktPath = ents B s vcBktPath" "ents B s' (vcBktPath @ [h]) = ents B s (vcBktPath @ [h])" for h
    using e by simp_all
  then show ?thesis
    using wf bk by (simp add: votes_wf_def voteLog_def fun_eq_iff)
qed

lemma alts_frame:
  assumes B: "bolt_ok B" and wf: "alts_wf B s" and bk: "buckets_ok B s'"
    and e: "\<And>q. prefix altPath q \<Longrightarrow> ents B s' q = ents B s q"
  shows "alts_wf B s' \<and> altAddrs B s' = altAddrs B s"
proof -
  have path: "ents B s' altPath = ents B s altPath"
    and sub: "ents B s' (altPath @ [h]) = ents B s (altPath @ [h])" for h
    using e by simp_all
  have "bk_get B s' (altPath @ [h]) = bk_get B s (altPath @ [h])" for h
    using sub by (rule bk_get_cong [OF B])
  then show ?thesis
    using wf bk by (auto simp: alts_wf_def altAddrs_def path)
qed

lemma xpubs_frame:
  assumes wf: "xpubs_wf B s" and bk: "buckets_ok B s'" and e: "ents B s' xpubPath = ents B s xpubPath"
  shows "xpubs_wf B s' \<and> xpubs B s' = xpubs B s"
  using wf bk by (simp add: xpubs_wf_def xpubs_def fun_eq_iff e)

text \<open>The four paths below the root bucket are pairwise apart.\<close>

lemma path_head:
  assumes "prefix [vspBktK, a] q" "prefix [vspBktK, b] q"
  shows "a = b"
  using assms by (auto simp: prefix_def)

lemma paths_apart:
  "prefix altPath q \<Longrightarrow> \<not> prefix ticketPath q" "prefix vcBktPath q \<Longrightarrow> \<not> prefix ticketPath q"
  "prefix ticketPath q \<Longrightarrow> \<not> prefix altPath q" "prefix vcBktPath q \<Longrightarrow> \<not> prefix altPath q"
  "prefix ticketPath q \<Longrightarrow> \<not> prefix vcBktPath q" "prefix altPath q \<Longrightarrow> \<not> prefix vcBktPath q"
  "prefix xpubPath q \<Longrightarrow> \<not> prefix ticketPath q" "prefix xpubPath q \<Longrightarrow> \<not> prefix altPath q"
  "prefix xpubPath q \<Longrightarrow> \<not> prefix vcBktPath q"
  using path_head [of _ q] unfolding ticketPath_def altPath_def vcBktPath_def xpubPath_def
  by (fastforce simp: ticketBktK_def altSignAddrBktK_def voteChangeBktK_def xPubBktK_def)+

lemma paths_not_xpub:
  "prefix ticketPath q \<Longrightarrow> q \<noteq> xpubPath" "prefix altPath q \<Longrightarrow> q \<noteq> xpubPath" "prefix vcBktPath q \<Longrightarrow> q \<noteq> xpubPath"
  using paths_apart(7-9) [of xpubPath] by auto

lemma db_wf_buckets: "db_wf B s \<Longrightarrow> buckets_ok B s"
  by (simp add: db_wf_def tickets_wf_def)

section \<open>The writes\<close>

lemma ticket_ops_frame:
  assumes B: "bolt_ok B" and wf: "db_wf B s" and q: "\<not> prefix ticketPath q"
  shows "UpdateTicket B t s = Ok s' \<Longrightarrow> ents B s' q = ents B s q"
    and "InsertNewTicket B t s = Ok s' \<Longrightarrow> ents B s' q = ents B s q"
    and "DeleteTicket B t s = Ok s' \<Longrightarrow> ents B s' q = ents B s q"
proof -
  have bk: "buckets_ok B s" using wf by (rule db_wf_buckets)
  have q': "q \<noteq> ticketPath" "q \<noteq> ticketPath @ [h]" for h using q by auto
  { assume "UpdateTicket B t s = Ok s'"
    then have "putTicketInBucket B (Some (ticketPath @ [Hash t])) t s = Ok s'"
      by (auto simp: UpdateTicket_def db_update_Ok ticketBkt_ok [OF B bk] bucket_ents [OF B]
          outcome_simps split: if_splits)
    then show "ents B s' q = ents B s q" using q'(2) by (rule put_frame [OF B]) }
  { assume "InsertNewTicket B t s = Ok s'"
    then obtain s1 where "bk_create B s ticketPath (Hash t) = Ok s1"
      and "putTicketInBucket B (Some (ticketPath @ [Hash t])) t s1 = Ok s'"
      by (auto simp: InsertNewTicket_def db_update_Ok ticketBkt_ok [OF B bk] outcome_simps)
    then show "ents B s' q = ents B s q"
      using q' create_ents [OF B] put_frame [OF B] by (metis fun_upd_other) }
  { assume "DeleteTicket B t s = Ok s'"
    then have "bk_deleteBucket B s ticketPath (Hash t) = Ok s'"
      by (auto simp: DeleteTicket_def db_update_Ok ticketBkt_ok [OF B bk] outcome_simps)
    then show "ents B s' q = ents B s q"
      using q by (auto simp: deleteBucket_ents [OF B] dest: append_prefixD) }
qed

lemma others_of_tickets:
  assumes B: "bolt_ok B" and wf: "db_wf B s" and bk: "buckets_ok B s'"
    and e: "\<And>q. \<not> prefix ticketPath q \<Longrightarrow> ents B s' q = ents B s q"
  shows "votes_wf B s' \<and> voteLog B s' = voteLog B s \<and> alts_wf B s' \<and> altAddrs B s' = altAddrs B s \<and>
    xpubs_wf B s' \<and> xpubs B s' = xpubs B s"
proof -
  have "votes_wf B s' \<and> voteLog B s' = voteLog B s"
    by (rule votes_frame [OF B _ bk]) (use wf in \<open>simp add: db_wf_def\<close>, intro e paths_apart)
  moreover have "alts_wf B s' \<and> altAddrs B s' = altAddrs B s"
    by (rule alts_frame [OF B _ bk]) (use wf in \<open>simp add: db_wf_def\<close>, intro e paths_apart)
  moreover have "xpubs_wf B s' \<and> xpubs B s' = xpubs B s"
    by (rule xpubs_frame [OF _ bk]) (use wf in \<open>simp add: db_wf_def\<close>, intro e paths_apart prefix_order.refl)
  ultimately show ?thesis by blast
qed

lemma UpdateTicket_abs:
  assumes B: "bolt_ok B" and wf: "db_wf B s" and t: "ticket_ok t" and Ok: "UpdateTicket B t s = Ok s'"
  shows "db_wf B s' \<and> tickets B s (Hash t) \<noteq> None \<and>
    absDb B s' = (absDb B s)\<lparr>dTickets := (tickets B s)(Hash t \<mapsto> stored_ticket t)\<rparr>"
proof -
  have u: "tickets_wf B s' \<and> tickets B s (Hash t) \<noteq> None \<and> tickets B s' = (tickets B s)(Hash t \<mapsto> stored_ticket t)"
    using wf by (intro UpdateTicket_Ok [OF B _ t Ok]) (simp add: db_wf_def)
  then show ?thesis
    using others_of_tickets [OF B wf _ ticket_ops_frame(1) [OF B wf _ Ok]] u
    by (simp add: db_wf_def tickets_wf_def absDb_def)
qed

lemma InsertNewTicket_abs:
  assumes B: "bolt_ok B" and wf: "db_wf B s" and t: "ticket_ok t" and Ok: "InsertNewTicket B t s = Ok s'"
  shows "db_wf B s' \<and> tickets B s (Hash t) = None \<and>
    absDb B s' = (absDb B s)\<lparr>dTickets := (tickets B s)(Hash t \<mapsto> stored_ticket t)\<rparr>"
proof -
  have u: "tickets_wf B s' \<and> tickets B s (Hash t) = None \<and> tickets B s' = (tickets B s)(Hash t \<mapsto> stored_ticket t)"
    using wf by (intro InsertNewTicket_Ok [OF B _ t Ok]) (simp add: db_wf_def)
  then show ?thesis
    using others_of_tickets [OF B wf _ ticket_ops_frame(2) [OF B wf _ Ok]] u
    by (simp add: db_wf_def tickets_wf_def absDb_def)
qed

lemma DeleteTicket_abs:
  assumes B: "bolt_ok B" and wf: "db_wf B s" and Ok: "DeleteTicket B t s = Ok s'"
  shows "db_wf B s' \<and> absDb B s' = (absDb B s)\<lparr>dTickets := (tickets B s)(Hash t := None)\<rparr>"
proof -
  have u: "tickets_wf B s' \<and> tickets B s (Hash t) \<noteq> None \<and> tickets B s' = (tickets B s)(Hash t := None)"
    using wf by (intro DeleteTicket_Ok [OF B _ Ok]) (simp add: db_wf_def)
  then show ?thesis
    using others_of_tickets [OF B wf _ ticket_ops_frame(3) [OF B wf _ Ok]] u
    by (simp add: db_wf_def tickets_wf_def absDb_def)
qed

lemma others_of_votes:
  assumes B: "bolt_ok B" and wf: "db_wf B s" and bk: "buckets_ok B s'"
    and e: "\<And>q. \<not> prefix vcBktPath q \<Longrightarrow> ents B s' q = ents B s q"
  shows "tickets_wf B s' \<and> tickets B s' = tickets B s \<and> alts_wf B s' \<and> altAddrs B s' = altAddrs B s \<and>
    xpubs_wf B s' \<and> xpubs B s' = xpubs B s"
proof -
  have "tickets_wf B s' \<and> tickets B s' = tickets B s"
    by (rule tickets_frame [OF B _ bk]) (use wf in \<open>simp add: db_wf_def\<close>, intro e paths_apart)
  moreover have "alts_wf B s' \<and> altAddrs B s' = altAddrs B s"
    by (rule alts_frame [OF B _ bk]) (use wf in \<open>simp add: db_wf_def\<close>, intro e paths_apart)
  moreover have "xpubs_wf B s' \<and> xpubs B s' = xpubs B s"
    by (rule xpubs_frame [OF _ bk]) (use wf in \<open>simp add: db_wf_def\<close>, intro e paths_apart prefix_order.refl)
  ultimately show ?thesis by blast
qed

lemma SaveVoteChange_abs:
  assumes B: "bolt_ok B" and wf: "db_wf B s" and Ok: "SaveVoteChange B n h r s = Ok s'"
  shows "db_wf B s' \<and> absDb B s' = (absDb B s)\<lparr>dVotes := voteLog B s'\<rparr>"
proof -
  have v: "votes_wf B s" using wf by (simp add: db_wf_def)
  note log = SaveVoteChange_log [OF B v Ok]
  have bk: "buckets_ok B s'" using log(1) by (simp add: votes_wf_def)
  show ?thesis
    using others_of_votes [OF B wf bk log(5)] log(1) by (simp add: db_wf_def absDb_def)
qed

lemma alt_ops_others:
  assumes B: "bolt_ok B" and wf: "db_wf B s" and a: "alts_wf B s'"
    and e: "\<forall>q. \<not> prefix altPath q \<longrightarrow> ents B s' q = ents B s q"
  shows "db_wf B s' \<and> absDb B s' = (absDb B s)\<lparr>dAlts := altAddrs B s'\<rparr>"
proof -
  have bk: "buckets_ok B s'" using a by (simp add: alts_wf_def)
  have "tickets_wf B s' \<and> tickets B s' = tickets B s"
    by (rule tickets_frame [OF B _ bk]) (use wf in \<open>simp add: db_wf_def\<close>, intro e [rule_format] paths_apart)
  moreover have "votes_wf B s' \<and> voteLog B s' = voteLog B s"
    by (rule votes_frame [OF B _ bk]) (use wf in \<open>simp add: db_wf_def\<close>, intro e [rule_format] paths_apart)
  moreover have "xpubs_wf B s' \<and> xpubs B s' = xpubs B s"
    by (rule xpubs_frame [OF _ bk])
      (use wf in \<open>simp add: db_wf_def\<close>, intro e [rule_format] paths_apart prefix_order.refl)
  ultimately show ?thesis using a by (simp add: db_wf_def absDb_def)
qed

lemma InsertAltSignAddr_abs:
  assumes B: "bolt_ok B" and wf: "db_wf B s" and Ok: "InsertAltSignAddr B h d s = Ok s'"
  shows "db_wf B s' \<and> altAddrs B s h = None \<and> d \<noteq> None \<and>
    absDb B s' = (absDb B s)\<lparr>dAlts := (altAddrs B s)(h := d)\<rparr>"
  using InsertAltSignAddr_Ok [OF B _ Ok] alt_ops_others [OF B wf, of s'] wf by (simp add: db_wf_def)

lemma DeleteAltSignAddr_abs:
  assumes B: "bolt_ok B" and wf: "db_wf B s" and Ok: "DeleteAltSignAddr B h s = Ok s'"
  shows "db_wf B s' \<and> absDb B s' = (absDb B s)\<lparr>dAlts := (altAddrs B s)(h := None)\<rparr>"
  using DeleteAltSignAddr_Ok [OF B _ Ok] alt_ops_others [OF B wf, of s'] wf by (simp add: db_wf_def)

lemma xpub_ops_others:
  assumes B: "bolt_ok B" and wf: "db_wf B s" and x: "xpubs_wf B s'"
    and e: "\<forall>q. q \<noteq> xpubPath \<longrightarrow> ents B s' q = ents B s q"
  shows "db_wf B s' \<and> absDb B s' = (absDb B s)\<lparr>dXpubs := xpubs B s'\<rparr>"
proof -
  have bk: "buckets_ok B s'" using x by (simp add: xpubs_wf_def)
  have "tickets_wf B s' \<and> tickets B s' = tickets B s"
    by (rule tickets_frame [OF B _ bk]) (use wf in \<open>simp add: db_wf_def\<close>, intro e [rule_format] paths_not_xpub)
  moreover have "votes_wf B s' \<and> voteLog B s' = voteLog B s"
    by (rule votes_frame [OF B _ bk]) (use wf in \<open>simp add: db_wf_def\<close>, intro e [rule_format] paths_not_xpub)
  moreover have "alts_wf B s' \<and> altAddrs B s' = altAddrs B s"
    by (rule alts_frame [OF B _ bk]) (use wf in \<open>simp add: db_wf_def\<close>, intro e [rule_format] paths_not_xpub)
  ultimately show ?thesis using x by (simp add: db_wf_def absDb_def)
qed

section \<open>Reads that succeed\<close>

text \<open>
  A transaction may fail to start. A read that succeeds returns what it would return from the
  same store without such failures, \<open>calm B\<close>, where the facts about reads apply.
\<close>

definition calm :: "'s bolt \<Rightarrow> 's bolt" where
  "calm B = B\<lparr>bk_begin := (\<lambda>_. None), bk_commit := (\<lambda>_. None)\<rparr>"

lemma calm_sel [simp]: "bk_bucket (calm B) = bk_bucket B" "bk_get (calm B) = bk_get B" "bk_put (calm B) = bk_put B"
  "bk_forEach (calm B) = bk_forEach B" "bk_create (calm B) = bk_create B" "bk_createIf (calm B) = bk_createIf B"
  "bk_delete (calm B) = bk_delete B" "bk_deleteBucket (calm B) = bk_deleteBucket B"
  "bk_begin (calm B) s = None" "bk_commit (calm B) s = None"
  by (simp_all add: calm_def)

lemma calm_ents [simp]: "ents (calm B) = ents B"
  by (simp add: fun_eq_iff ents_def)

lemma calm_ok [simp]: "bolt_ok (calm B) = bolt_ok B" "disk_ok (calm B)"
proof -
  have "is_bkt (calm B) = is_bkt B" by (simp add: fun_eq_iff is_bkt_def)
  show "bolt_ok (calm B) = bolt_ok B"
    unfolding bolt_ok_def bolt_reads_def bolt_puts_def bolt_creates_def bolt_deletes_def calm_sel calm_ents
      \<open>is_bkt (calm B) = is_bkt B\<close> by (rule refl)
  show "disk_ok (calm B)" by (simp add: disk_ok_def calm_def)
qed

lemma calm_handle [simp]: "h_bucket (calm B) s h k = h_bucket B s h k" "h_get (calm B) s h k = h_get B s h k"
  "h_forEach (calm B) s h = h_forEach B s h" "getTicketFromBkt (calm B) s h = getTicketFromBkt B s h"
  "readAltSign (calm B) s h = readAltSign B s h" "h_put (calm B) h k v s = h_put B h k v s"
  "h_createIf (calm B) h k s = h_createIf B h k s"
  by (cases h; simp)+

lemma calm_bkt [simp]: "childBkt (calm B) k s = childBkt B k s" "vspBkt (calm B) s = vspBkt B s"
  by (simp_all add: childBkt_def vspBkt_def)

lemma calm_abs [simp]: "tickets_wf (calm B) = tickets_wf B" "tickets (calm B) = tickets B"
  "xpubs_wf (calm B) = xpubs_wf B" "xpubs (calm B) = xpubs B" "alts_wf (calm B) = alts_wf B"
  "altAddrs (calm B) = altAddrs B" "votes_wf (calm B) = votes_wf B" "voteLog (calm B) = voteLog B"
  "allTickets (calm B) = allTickets B"
  by (simp_all add: fun_eq_iff tickets_wf_def buckets_ok_def tickets_def xpubs_wf_def xpubs_def alts_wf_def altAddrs_def
      votes_wf_def voteLog_def allTickets_def cong: conj_cong)

lemma calm_view_Ok: "db_view B f s = Ok a \<longleftrightarrow> bk_begin B s = None \<and> f s = Ok a"
  by (auto simp: db_view_def split: option.splits)

lemma calm_view [simp]: "db_view (calm B) f s = f s" "db_update (calm B) f s = f s"
  by (simp_all add: disk_ok_view disk_ok_update)

lemma calm_filterLoop [simp]: "filterLoop (calm B) s h f ks ts = filterLoop B s h f ks ts"
  by (induction ks arbitrary: ts) (simp_all cong: if_cong)

lemma calm_filterTickets: "filterTickets B f s = Ok ts \<Longrightarrow> filterTickets (calm B) f s = Ok ts"
  by (simp add: filterTickets_def calm_view_Ok)

lemma calm_conds: "isConfirmed (calm B) = isConfirmed B" "fieldIs (calm B) = fieldIs B"
  by (simp_all add: fun_eq_iff isConfirmed_def fieldIs_def)

lemma GetUnconfirmedTickets_ret:
  assumes "bolt_ok B" "tickets_wf B s" "GetUnconfirmedTickets B s = Ok ts"
  shows "ts = filter (\<lambda>t. \<not> Confirmed t) (allTickets B s)"
proof -
  have "GetUnconfirmedTickets (calm B) s = Ok ts"
    using calm_filterTickets assms(3) unfolding GetUnconfirmedTickets_def calm_conds .
  then show ?thesis using GetUnconfirmedTickets_spec [of "calm B" s] assms(1,2) by simp
qed

lemma GetPendingFees_ret:
  assumes "bolt_ok B" "tickets_wf B s" "GetPendingFees B s = Ok ts"
  shows "ts = filter (\<lambda>t. Confirmed t \<and> FeeTxStatus t = FeeReceieved) (allTickets B s)"
proof -
  have "GetPendingFees (calm B) s = Ok ts"
    using calm_filterTickets assms(3) unfolding GetPendingFees_def calm_conds .
  then show ?thesis using GetPendingFees_spec [of "calm B" s] assms(1,2) by simp
qed

lemma GetUnconfirmedFees_ret:
  assumes "bolt_ok B" "tickets_wf B s" "GetUnconfirmedFees B s = Ok ts"
  shows "ts = filter (\<lambda>t. FeeTxStatus t = FeeBroadcast) (allTickets B s)"
proof -
  have "GetUnconfirmedFees (calm B) s = Ok ts"
    using calm_filterTickets assms(3) unfolding GetUnconfirmedFees_def calm_conds .
  then show ?thesis using GetUnconfirmedFees_spec [of "calm B" s] assms(1,2) by simp
qed

lemma GetVotableTickets_ret:
  assumes "bolt_ok B" "tickets_wf B s" "GetVotableTickets B s = Ok ts"
  shows "ts = filter (\<lambda>t. FeeTxStatus t = FeeConfirmed \<and> Outcome t = []) (allTickets B s)"
proof -
  have "GetVotableTickets (calm B) s = Ok ts"
    using calm_filterTickets assms(3) unfolding GetVotableTickets_def calm_conds .
  then show ?thesis using GetVotableTickets_spec [of "calm B" s] assms(1,2) by simp
qed

lemma GetRevokedTickets_ret:
  assumes "bolt_ok B" "tickets_wf B s" "GetRevokedTickets B s = Ok ts"
  shows "ts = filter (\<lambda>t. Outcome t = Revoked) (allTickets B s)"
proof -
  have "GetRevokedTickets (calm B) s = Ok ts"
    using calm_filterTickets assms(3) unfolding GetRevokedTickets_def calm_conds .
  then show ?thesis using GetRevokedTickets_spec [of "calm B" s] assms(1,2) by simp
qed

lemma GetMissingPurchaseHeight_ret:
  assumes "bolt_ok B" "tickets_wf B s" "GetMissingPurchaseHeight B s = Ok ts"
  shows "ts = filter (\<lambda>t. Confirmed t \<and> PurchaseHeight t = 0) (allTickets B s)"
proof -
  have "GetMissingPurchaseHeight (calm B) s = Ok ts"
    using calm_filterTickets assms(3) unfolding GetMissingPurchaseHeight_def calm_conds calm_handle .
  then show ?thesis using GetMissingPurchaseHeight_spec [of "calm B" s] assms(1,2) by simp
qed

lemma GetTicketByHash_ret:
  assumes "bolt_ok B" "tickets_wf B s" "GetTicketByHash B h s = Ok (t, found)"
  shows "if found then tickets B s h = Some t else tickets B s h = None \<and> t = zeroTicket"
proof -
  have "GetTicketByHash (calm B) h s = Ok (t, found)"
    using assms(3) by (simp add: GetTicketByHash_def calm_view_Ok cong: if_cong)
  then show ?thesis using GetTicketByHash_spec [of "calm B" s h] assms(1,2) by (auto split: option.splits)
qed

lemma AltSignAddrData_ret:
  assumes "bolt_ok B" "alts_wf B s" "AltSignAddrData B h s = Ok d"
  shows "d = altAddrs B s h"
proof -
  have "AltSignAddrData (calm B) h s = Ok d"
    using assms(3) unfolding AltSignAddrData_def calm_view_Ok calm_view by (simp cong: if_cong)
  then show ?thesis using AltSignAddrData_eq [of "calm B" s h] assms(1,2) by simp
qed

lemma calm_voteChanges: "GetVoteChanges B h s = Ok xs \<Longrightarrow> GetVoteChanges (calm B) h s = Ok xs"
  by (simp add: GetVoteChanges_def calm_view_Ok cong: if_cong)

lemma GetVoteChanges_ret:
  assumes "bolt_ok B" "votes_wf B s" "GetVoteChanges B h s = Ok xs"
  shows "distinct (map fst xs)" "map_of xs = voteLog B s h"
  using GetVoteChanges_Ok [of "calm B" s h] calm_voteChanges [OF assms(3)] assms(1,2) by auto

lemma calm_xpub_ops: "FeeXPub B s = Ok x \<Longrightarrow> FeeXPub (calm B) s = Ok x"
    "insertFeeXPub (calm B) x s = insertFeeXPub B x s"
    "SetLastAddressIndex B i s = Ok s' \<Longrightarrow> SetLastAddressIndex (calm B) i s = Ok s'"
    "RetireXPub B n k s = Ok s' \<Longrightarrow> RetireXPub (calm B) n k s = Ok s'"
proof -
  have all: "AllXPubs B s = Ok xs \<Longrightarrow> AllXPubs (calm B) s = Ok xs" for xs
    by (simp add: AllXPubs_def calm_view_Ok cong: if_cong)
  show act: "FeeXPub B s = Ok x \<Longrightarrow> FeeXPub (calm B) s = Ok x" for x
    using all by (auto simp: FeeXPub_def outcome_simps)
  show ins: "insertFeeXPub (calm B) x s = insertFeeXPub B x s" for x s
    by (simp add: insertFeeXPub_def)
  show "SetLastAddressIndex B i s = Ok s' \<Longrightarrow> SetLastAddressIndex (calm B) i s = Ok s'"
    using act by (auto simp: SetLastAddressIndex_def db_update_Ok outcome_simps ins)
  show "RetireXPub B n k s = Ok s' \<Longrightarrow> RetireXPub (calm B) n k s = Ok s'"
    using act all by (auto simp: RetireXPub_def db_update_Ok outcome_simps ins Let_def split: if_splits)
qed

lemma SetLastAddressIndex_abs:
  assumes B: "bolt_ok B" and wf: "db_wf B s" and Ok: "SetLastAddressIndex B idx s = Ok s'"
  obtains x where "xpubs B s (xID x) = Some x" "\<And>i y. xpubs B s i = Some y \<Longrightarrow> i \<le> xID x" "db_wf B s'"
    "absDb B s' = (absDb B s)\<lparr>dXpubs := (xpubs B s)(xID x \<mapsto> x\<lparr>xLastUsedIdx := idx\<rparr>)\<rparr>"
proof -
  have x: "xpubs_wf (calm B) s" "bolt_ok (calm B)" using wf B by (simp_all add: db_wf_def)
  obtain x where act: "FeeXPub (calm B) s = Ok x" "xpubs (calm B) s (xID x) = Some x" "valid_utf8 (xKey x)"
      "\<And>i y. xpubs (calm B) s i = Some y \<Longrightarrow> i \<le> xID x \<and> xID y = i \<and> valid_utf8 (xKey y)"
    by (rule FeeXPub_Ok [OF x(2) calm_ok(2) x(1)]) blast
  have "xpubs_wf (calm B) s' \<and> xpubs (calm B) s' = (xpubs (calm B) s)(xID x \<mapsto> x\<lparr>xLastUsedIdx := idx\<rparr>) \<and>
      (\<forall>q. q \<noteq> xpubPath \<longrightarrow> ents (calm B) s' q = ents (calm B) s q)"
    by (rule SetLastAddressIndex_Ok [OF x(2) calm_ok(2) x(1) act(1) calm_xpub_ops(3) [OF Ok]])
  then have "xpubs_wf B s'" "xpubs B s' = (xpubs B s)(xID x \<mapsto> x\<lparr>xLastUsedIdx := idx\<rparr>)"
      "\<forall>q. q \<noteq> xpubPath \<longrightarrow> ents B s' q = ents B s q"
    by simp_all
  with xpub_ops_others [OF B wf this(1,3)] have "db_wf B s'"
    "absDb B s' = (absDb B s)\<lparr>dXpubs := (xpubs B s)(xID x \<mapsto> x\<lparr>xLastUsedIdx := idx\<rparr>)\<rparr>"
    by simp_all
  moreover have "xpubs B s (xID x) = Some x" using act(2) by simp
  moreover have "i \<le> xID x" if "xpubs B s i = Some y" for i y using act(4) [of i y] that by simp
  ultimately show thesis using that by blast
qed

end
