(* ===== verification/Moves.thy ===== *)
theory Moves
  imports DbState FeeAddress
begin

text \<open>
  The abstract specification of what the program may do to its database: the moves of a ticket
  (its fee from \<open>none\<close> over \<open>received\<close> and \<open>broadcast\<close> to \<open>confirmed\<close>, with \<open>error\<close> aside, its
  confirmation and its outcome) and the steps of the whole database. The theories
  \<open>ServerSteps\<close> and \<open>VspmSteps\<close> show that every handler and every background step only takes
  these steps; what holds of all of them holds of every reachable database.
\<close>

section \<open>Moves of a ticket\<close>

text \<open>The voting preferences, which may be set at any time.\<close>

definition prefs :: "gomap \<Rightarrow> gomap \<Rightarrow> gomap \<Rightarrow> ticket \<Rightarrow> ticket" where
  "prefs a b c t = t\<lparr>VoteChoices := a, TSpendPolicy := b, TreasuryPolicy := c\<rparr>"

lemma prefs_simps [simp]:
  "Hash (prefs a b c t) = Hash t" "FeeTxStatus (prefs a b c t) = FeeTxStatus t"
  "Confirmed (prefs a b c t) = Confirmed t" "PurchaseHeight (prefs a b c t) = PurchaseHeight t"
  "Outcome (prefs a b c t) = Outcome t" "FeeTxHex (prefs a b c t) = FeeTxHex t"
  "FeeTxHash (prefs a b c t) = FeeTxHash t" "VotingWIF (prefs a b c t) = VotingWIF t"
  "FeeAddress (prefs a b c t) = FeeAddress t" "FeeAmount (prefs a b c t) = FeeAmount t"
  "FeeExpiration (prefs a b c t) = FeeExpiration t"
  "FeeAddressIndex (prefs a b c t) = FeeAddressIndex t" "FeeAddressXPubID (prefs a b c t) = FeeAddressXPubID t"
  "CommitmentAddress (prefs a b c t) = CommitmentAddress t"
  "VoteChoices (prefs a b c t) = a" "TSpendPolicy (prefs a b c t) = b" "TreasuryPolicy (prefs a b c t) = c"
  "feeAccepted (prefs a b c t) = feeAccepted t"
  by (simp_all add: prefs_def feeAccepted_def)

inductive move :: "ticket \<Rightarrow> ticket \<Rightarrow> bool" where
  renew: "\<not> feeAccepted t \<Longrightarrow> move t (t\<lparr>FeeExpiration := e, FeeAmount := a\<rparr>)"
| pay: "\<not> feeAccepted t \<Longrightarrow> move t (prefs a b c (t\<lparr>VotingWIF := v, FeeTxHex := x, FeeTxHash := h,
    FeeTxStatus := FeeReceieved\<rparr>))"
| send: "FeeTxStatus t = FeeReceieved \<Longrightarrow> Confirmed t \<Longrightarrow> move t (t\<lparr>FeeTxStatus := FeeBroadcast\<rparr>)"
| fail: "FeeTxStatus t = FeeReceieved \<or> FeeTxStatus t = FeeBroadcast \<Longrightarrow> Confirmed t
    \<Longrightarrow> move t (t\<lparr>FeeTxStatus := FeeError\<rparr>)"
| settle: "FeeTxStatus t = FeeBroadcast \<Longrightarrow> move t (t\<lparr>FeeTxHex := [], FeeTxStatus := FeeConfirmed\<rparr>)"
| confirm: "\<not> Confirmed t \<Longrightarrow> move t (t\<lparr>PurchaseHeight := p, Confirmed := True\<rparr>)"
| height: "Confirmed t \<Longrightarrow> PurchaseHeight t = 0 \<Longrightarrow> move t (t\<lparr>PurchaseHeight := p\<rparr>)"
| outcome: "FeeTxStatus t = FeeConfirmed \<Longrightarrow> Outcome t = [] \<Longrightarrow> out \<in> {Voted, Missed, Expired}
    \<Longrightarrow> move t (t\<lparr>Outcome := out\<rparr>)"
| revoked: "Outcome t = Revoked \<Longrightarrow> out \<in> {Missed, Expired} \<Longrightarrow> move t (t\<lparr>Outcome := out\<rparr>)"
| choose: "move t (prefs a b c t)"

inductive_cases move_cases: "move t t'"

section \<open>Steps of the database\<close>

text \<open>A ticket as it is registered: no fee, no key, no outcome.\<close>

definition fresh :: "ticket \<Rightarrow> bool" where
  "fresh t \<longleftrightarrow> FeeTxStatus t = NoFee \<and> FeeTxHex t = [] \<and> FeeTxHash t = [] \<and> VotingWIF t = [] \<and> Outcome t = []"

inductive db_step :: "dbst \<Rightarrow> dbst \<Rightarrow> bool" where
  insert: "dTickets d (Hash t) = None \<Longrightarrow> fresh t \<Longrightarrow>
    db_step d (d\<lparr>dTickets := (dTickets d)(Hash t \<mapsto> t)\<rparr>)"
| ticket: "dTickets d h = Some t \<Longrightarrow> move t t' \<Longrightarrow> db_step d (d\<lparr>dTickets := (dTickets d)(h \<mapsto> t')\<rparr>)"
| delete: "dTickets d h = Some t \<Longrightarrow> \<not> Confirmed t \<Longrightarrow> db_step d (d\<lparr>dTickets := (dTickets d)(h := None)\<rparr>)"
| vote: "dTickets d h = Some t \<Longrightarrow> FeeTxStatus t \<noteq> NoFee \<Longrightarrow>
    L k = Some r \<Longrightarrow> (\<And>j. j \<noteq> k \<Longrightarrow> L j = dVotes d h j \<or> L j = None) \<Longrightarrow>
    db_step d (d\<lparr>dVotes := (dVotes d)(h := L)\<rparr>)"
| alt: "dAlts d h = None \<Longrightarrow> db_step d (d\<lparr>dAlts := (dAlts d)(h \<mapsto> a)\<rparr>)"
| unalt: "(\<And>t. dTickets d h = Some t \<Longrightarrow> \<not> Confirmed t) \<Longrightarrow> db_step d (d\<lparr>dAlts := (dAlts d)(h := None)\<rparr>)"
| index: "dXpubs d i = Some x \<Longrightarrow> (\<And>j y. dXpubs d j = Some y \<Longrightarrow> j \<le> i) \<Longrightarrow>
    db_step d (d\<lparr>dXpubs := (dXpubs d)(i \<mapsto> x\<lparr>xLastUsedIdx := n\<rparr>)\<rparr>)"

inductive_cases db_step_cases: "db_step d d'"

inductive db_steps :: "dbst \<Rightarrow> dbst \<Rightarrow> bool" where
  start: "db_steps d d"
| more: "db_steps d d' \<Longrightarrow> db_step d' d'' \<Longrightarrow> db_steps d d''"

lemma db_steps_trans: "db_steps b c \<Longrightarrow> db_steps a b \<Longrightarrow> db_steps a c"
  by (induction rule: db_steps.induct) (auto intro: db_steps.intros)

section \<open>What every step respects\<close>

text \<open>
  The invariant of a ticket: a known fee status; the fee transaction is only sent for a
  confirmed ticket; an outcome only with a confirmed fee; no key or fee before payment; and
  the transaction is forgotten once it is confirmed.
\<close>

definition ticket_inv :: "ticket \<Rightarrow> bool" where
  "ticket_inv t \<longleftrightarrow>
     FeeTxStatus t \<in> {NoFee, FeeReceieved, FeeBroadcast, FeeConfirmed, FeeError} \<and>
     Outcome t \<in> {[], Voted, Missed, Expired, Revoked} \<and>
     (FeeTxStatus t \<in> {FeeBroadcast, FeeConfirmed, FeeError} \<longrightarrow> Confirmed t) \<and>
     (Outcome t \<noteq> [] \<longrightarrow> FeeTxStatus t = FeeConfirmed) \<and>
     (FeeTxStatus t = NoFee \<longrightarrow> VotingWIF t = [] \<and> FeeTxHex t = [] \<and> FeeTxHash t = []) \<and>
     (FeeTxStatus t = FeeConfirmed \<longrightarrow> FeeTxHex t = [])"

lemma status_distinct [simp]: "NoFee \<noteq> FeeReceieved" "NoFee \<noteq> FeeBroadcast" "NoFee \<noteq> FeeConfirmed" "NoFee \<noteq> FeeError"
  "FeeReceieved \<noteq> NoFee" "FeeReceieved \<noteq> FeeBroadcast" "FeeReceieved \<noteq> FeeConfirmed" "FeeReceieved \<noteq> FeeError"
  "FeeBroadcast \<noteq> NoFee" "FeeBroadcast \<noteq> FeeReceieved" "FeeBroadcast \<noteq> FeeConfirmed" "FeeBroadcast \<noteq> FeeError"
  "FeeConfirmed \<noteq> NoFee" "FeeConfirmed \<noteq> FeeReceieved" "FeeConfirmed \<noteq> FeeBroadcast" "FeeConfirmed \<noteq> FeeError"
  "FeeError \<noteq> NoFee" "FeeError \<noteq> FeeReceieved" "FeeError \<noteq> FeeBroadcast" "FeeError \<noteq> FeeConfirmed"
  by (simp_all add: status_defs)

lemma outcome_distinct [simp]: "Voted \<noteq> []" "Missed \<noteq> []" "Expired \<noteq> []" "Revoked \<noteq> []"
  "Voted \<noteq> Revoked" "Missed \<noteq> Revoked" "Expired \<noteq> Revoked"
  "Revoked \<noteq> Voted" "Revoked \<noteq> Missed" "Revoked \<noteq> Expired"
  by (simp_all add: outcome_defs)

lemma move_inv: "move t t' \<Longrightarrow> ticket_inv t \<Longrightarrow> ticket_inv t'"
  by (induction rule: move.induct) (auto simp: ticket_inv_def feeAccepted_def)

lemma fresh_inv: "fresh t \<Longrightarrow> ticket_inv t"
  by (simp add: fresh_def ticket_inv_def)

text \<open>What identifies a ticket and its fee address is never changed.\<close>

lemma move_fixed:
  assumes "move t t'"
  shows "Hash t' = Hash t" "CommitmentAddress t' = CommitmentAddress t" "FeeAddress t' = FeeAddress t"
    "FeeAddressIndex t' = FeeAddressIndex t" "FeeAddressXPubID t' = FeeAddressXPubID t"
    "Confirmed t \<Longrightarrow> Confirmed t'"
  using assms by (induction rule: move.induct) simp_all

text \<open>
  The progress of the fee. A confirmed fee is final; after an error or before any payment the
  only way on is a new payment.
\<close>

lemma move_status:
  assumes "move t t'" "FeeTxStatus t' \<noteq> FeeTxStatus t" "ticket_inv t"
  shows "(FeeTxStatus t, FeeTxStatus t') \<in> {(NoFee, FeeReceieved), (FeeError, FeeReceieved),
    (FeeReceieved, FeeBroadcast), (FeeReceieved, FeeError), (FeeBroadcast, FeeError), (FeeBroadcast, FeeConfirmed)}"
  using assms by (induction rule: move.induct) (auto simp: ticket_inv_def feeAccepted_def)

lemma move_paid:
  assumes "move t t'" "feeAccepted t"
  shows "VotingWIF t' = VotingWIF t" "FeeTxHash t' = FeeTxHash t" "FeeAmount t' = FeeAmount t"
    "FeeTxHex t' = FeeTxHex t \<or> FeeTxStatus t' = FeeConfirmed" "FeeTxStatus t' \<noteq> NoFee"
  using assms by (induction rule: move.induct) (auto simp: feeAccepted_def)

lemma move_confirmed:
  assumes "move t t'" "FeeTxStatus t = FeeConfirmed"
  shows "FeeTxStatus t' = FeeConfirmed"
  using assms by (induction rule: move.induct) (auto simp: feeAccepted_def)

lemma move_outcome:
  assumes "move t t'" "Outcome t \<noteq> []" "Outcome t \<noteq> Revoked"
  shows "Outcome t' = Outcome t"
  using assms by (induction rule: move.induct) auto

section \<open>Invariants of reachable databases\<close>

text \<open>A property of tickets that holds of fresh ones and is kept by moves holds of all.\<close>

lemma db_steps_all:
  assumes "db_steps d d'" "\<And>h t. dTickets d h = Some t \<Longrightarrow> P t" "\<And>t. fresh t \<Longrightarrow> P t"
    "\<And>t t'. move t t' \<Longrightarrow> P t \<Longrightarrow> P t'" "dTickets d' h = Some t"
  shows "P t"
  using assms(1,2,5)
proof (induction arbitrary: h t rule: db_steps.induct)
  case (start d)
  then show ?case by simp
next
  case (more d d' d'')
  then have IH: "\<And>h t. dTickets d' h = Some t \<Longrightarrow> P t" by blast
  from more.hyps(2) show ?case
    by (cases rule: db_step.cases) (use more.prems(2) IH assms(3,4) in \<open>auto split: if_splits\<close>)
qed

text \<open>
  A relation between the states of one ticket that moves respect: while the ticket is not
  deleted, which an invariant of the ticket may exclude.
\<close>

lemma db_steps_ticket:
  assumes "db_steps d d'" "dTickets d h = Some t" "Confirmed t"
    "\<And>u. R u u" "\<And>a b c. move b c \<Longrightarrow> R a b \<Longrightarrow> R a c"
  obtains t' where "dTickets d' h = Some t'" "Confirmed t'" "R t t'"
proof -
  have "\<exists>t'. dTickets d' h = Some t' \<and> Confirmed t' \<and> R t t'"
    using assms(1,2)
  proof (induction rule: db_steps.induct)
    case (start d)
    then show ?case using assms(3,4) by blast
  next
    case (more d d' d'')
    then obtain t' where t': "dTickets d' h = Some t'" "Confirmed t'" "R t t'" by blast
    from more.hyps(2) show ?case
      by (cases rule: db_step.cases) (use t' assms(5) move_fixed(6) in \<open>auto split: if_splits\<close>)
  qed
  with that show thesis by blast
qed

end
