(* ===== verification/ServerSteps.thy ===== *)
theory ServerSteps
  imports Moves VoteHandlers RpcLemmas
begin

text \<open>
  The web API takes only steps of the abstract database: whatever the remote sides answer,
  whichever transactions fail and whatever the request holds, serving it leaves a well-formed
  database that the steps of \<open>Moves\<close> reach from the one before.
\<close>

section \<open>Good states\<close>

definition tickets_inv :: "'s bolt \<Rightarrow> 's \<Rightarrow> bool" where
  "tickets_inv B s \<longleftrightarrow> (\<forall>h t. tickets B s h = Some t \<longrightarrow> ticket_inv t)"

definition good :: "'s bolt \<Rightarrow> dbst \<Rightarrow> 's \<times> uint32 \<Rightarrow> bool" where
  "good B d m \<longleftrightarrow> db_wf B (fst m) \<and> tickets_inv B (fst m) \<and> db_steps d (absDb B (fst m))"

lemma good_wf: "good B d (s, i) \<Longrightarrow> db_wf B s" "good B d (s, i) \<Longrightarrow> tickets_wf B s"
    "good B d (s, i) \<Longrightarrow> alts_wf B s"
    "good B d (s, i) \<Longrightarrow> tickets B s h = Some t \<Longrightarrow> ticket_inv t"
    "good B d (s, i) \<Longrightarrow> tickets B s h = Some t \<Longrightarrow> bolt_ok B \<Longrightarrow> Hash t = h \<and> ticket_ok t \<and> stored_ticket t = t"
  by (auto simp: good_def db_wf_def tickets_inv_def dest: tdb.abs_Some)

lemma good_idx: "good B d (s, i) \<longleftrightarrow> good B d (s, j)"
  by (simp add: good_def)

text \<open>One step more.\<close>

lemma good_step:
  assumes "good B d (s, i)" "db_wf B s'" "db_step (absDb B s) (absDb B s')"
    "\<And>h t. tickets B s' h = Some t \<Longrightarrow> (\<exists>h. tickets B s h = Some t) \<or> ticket_inv t"
  shows "good B d (s', j)"
  using assms by (auto simp: good_def tickets_inv_def intro: db_steps.more)

lemma good_update:
  assumes B: "bolt_ok B" and g: "good B d (s, i)" and u: "tickets B s (Hash t) = Some u"
    and m: "move u (stored_ticket t)" and t: "ticket_ok t" and Ok: "UpdateTicket B t s = Ok s'"
  shows "good B d (s', j)" "tickets B s' = (tickets B s)(Hash t \<mapsto> stored_ticket t)"
proof -
  note a = UpdateTicket_abs [OF B good_wf(1) [OF g] t Ok]
  show ts: "tickets B s' = (tickets B s)(Hash t \<mapsto> stored_ticket t)"
    using a by (metis absDb_simps(1) dbst.select_convs(1) dbst.surjective dbst.update_convs(1))
  have "db_step (absDb B s) (absDb B s')"
    using a u m by (simp add: db_step.ticket [of "absDb B s", simplified])
  moreover have "ticket_inv (stored_ticket t)"
    using m good_wf(4) [OF g u] by (rule move_inv)
  ultimately show "good B d (s', j)"
    using a by (intro good_step [OF g]) (auto simp: ts split: if_splits)
qed

lemma good_insert:
  assumes B: "bolt_ok B" and g: "good B d (s, i)" and f: "fresh (stored_ticket t)" and t: "ticket_ok t"
    and Ok: "InsertNewTicket B t s = Ok s'"
  shows "good B d (s', j)" "tickets B s' = (tickets B s)(Hash t \<mapsto> stored_ticket t)" "tickets B s (Hash t) = None"
proof -
  note a = InsertNewTicket_abs [OF B good_wf(1) [OF g] t Ok]
  show ts: "tickets B s' = (tickets B s)(Hash t \<mapsto> stored_ticket t)" "tickets B s (Hash t) = None"
    using a by (metis absDb_simps(1) dbst.select_convs(1) dbst.surjective dbst.update_convs(1), blast)
  have "db_step (absDb B s) (absDb B s')"
    using a f by (simp add: db_step.insert [of "absDb B s" "stored_ticket t", simplified])
  then show "good B d (s', j)"
    using a fresh_inv [OF f] by (intro good_step [OF g]) (auto simp: ts split: if_splits)
qed

lemma good_delete:
  assumes B: "bolt_ok B" and g: "good B d (s, i)" and u: "tickets B s (Hash t) = Some u" "\<not> Confirmed u"
    and Ok: "DeleteTicket B t s = Ok s'"
  shows "good B d (s', j)" "tickets B s' = (tickets B s)(Hash t := None)"
proof -
  note a = DeleteTicket_abs [OF B good_wf(1) [OF g] Ok]
  show ts: "tickets B s' = (tickets B s)(Hash t := None)"
    using a by (metis absDb_simps(1) dbst.select_convs(1) dbst.surjective dbst.update_convs(1))
  have "db_step (absDb B s) (absDb B s')"
    using a u by (simp add: db_step.delete [of "absDb B s", simplified])
  then show "good B d (s', j)"
    using a by (intro good_step [OF g]) (auto simp: ts split: if_splits)
qed

lemma same_tickets:
  assumes "good B d (s, i)" "db_wf B s'" "db_step (absDb B s) (absDb B s')" "tickets B s' = tickets B s"
  shows "good B d (s', j)"
  using assms(1-3) by (rule good_step) (use assms(4) in auto)

lemma good_vote:
  assumes B: "bolt_ok B" and g: "good B d (s, i)" and u: "tickets B s h = Some u" "FeeTxStatus u \<noteq> NoFee"
    and Ok: "SaveVoteChange B n h r s = Ok s'"
  shows "good B d (s', j)" "tickets B s' = tickets B s"
proof -
  have v: "votes_wf B s" using good_wf(1) [OF g] by (simp add: db_wf_def)
  note a = SaveVoteChange_abs [OF B good_wf(1) [OF g] Ok]
  note log = SaveVoteChange_log [OF B v Ok]
  have all: "voteLog B s' = (voteLog B s)(h := voteLog B s' h)"
    using log(4) by (simp add: fun_eq_iff)
  have "\<exists>k r. voteLog B s' h k = Some r \<and> (\<forall>j. j \<noteq> k \<longrightarrow> voteLog B s' h j = voteLog B s h j \<or> voteLog B s' h j = None)"
    unfolding log(3) by (rule exI, rule exI, rule conjI, rule fun_upd_same) auto
  then obtain k r where "voteLog B s' h k = Some r"
    "\<And>j. j \<noteq> k \<Longrightarrow> voteLog B s' h j = voteLog B s h j \<or> voteLog B s' h j = None" by blast
  then have "db_step (absDb B s) ((absDb B s)\<lparr>dVotes := (voteLog B s)(h := voteLog B s' h)\<rparr>)"
    using u db_step.vote [of "absDb B s" h u "voteLog B s' h" k r] by simp
  with a all have "db_step (absDb B s) (absDb B s')" by simp
  moreover show "tickets B s' = tickets B s"
    using a by (metis absDb_simps(1) dbst.select_convs(1) dbst.surjective dbst.update_convs(2))
  ultimately show "good B d (s', j)" using a by (intro same_tickets [OF g]) simp_all
qed

lemma good_alt:
  assumes B: "bolt_ok B" and g: "good B d (s, i)" and Ok: "InsertAltSignAddr B h a s = Ok s'"
  shows "good B d (s', j)" "tickets B s' = tickets B s"
proof -
  note a = InsertAltSignAddr_abs [OF B good_wf(1) [OF g] Ok]
  show ts: "tickets B s' = tickets B s"
    using a by (metis absDb_simps(1) dbst.select_convs(1) dbst.surjective dbst.update_convs(3))
  have "db_step (absDb B s) (absDb B s')"
    using a by (auto simp: db_step.alt [of "absDb B s", simplified])
  then show "good B d (s', j)" using a ts by (intro same_tickets [OF g]) simp_all
qed

lemma good_unalt:
  assumes B: "bolt_ok B" and g: "good B d (s, i)" and u: "\<And>t. tickets B s h = Some t \<Longrightarrow> \<not> Confirmed t"
    and Ok: "DeleteAltSignAddr B h s = Ok s'"
  shows "good B d (s', j)" "tickets B s' = tickets B s"
proof -
  note a = DeleteAltSignAddr_abs [OF B good_wf(1) [OF g] Ok]
  show ts: "tickets B s' = tickets B s"
    using a by (metis absDb_simps(1) dbst.select_convs(1) dbst.surjective dbst.update_convs(3))
  have "db_step (absDb B s) (absDb B s')"
    using a u by (auto simp: db_step.unalt [of "absDb B s", simplified])
  then show "good B d (s', j)" using a ts by (intro same_tickets [OF g]) simp_all
qed

lemma good_index:
  assumes B: "bolt_ok B" and g: "good B d (s, i)" and Ok: "SetLastAddressIndex B idx s = Ok s'"
  shows "good B d (s', j)" "tickets B s' = tickets B s"
proof -
  obtain x where x: "xpubs B s (xID x) = Some x" "\<And>i y. xpubs B s i = Some y \<Longrightarrow> i \<le> xID x" "db_wf B s'"
    "absDb B s' = (absDb B s)\<lparr>dXpubs := (xpubs B s)(xID x \<mapsto> x\<lparr>xLastUsedIdx := idx\<rparr>)\<rparr>"
    by (rule SetLastAddressIndex_abs [OF B good_wf(1) [OF g] Ok]) blast
  show ts: "tickets B s' = tickets B s"
    using x(4) by (metis absDb_simps(1) dbst.select_convs(1) dbst.surjective dbst.update_convs(4))
  have "db_step (absDb B s) (absDb B s')"
    unfolding x(4) using x(1,2) by (rule db_step.index [of "absDb B s", simplified])
  then show "good B d (s', j)" using ts x(3) by (intro same_tickets [OF g]) simp_all
qed

section \<open>Handlers\<close>

text \<open>
  What is assumed of gin's binding: the maps it binds are Go maps decoded from JSON, so their
  keys are distinct and their strings valid UTF-8.
\<close>

definition gin_ok :: "gin \<Rightarrow> bool" where
  "gin_ok g \<longleftrightarrow>
     (\<forall>b r. bindPayFee g b = Inr r \<longrightarrow>
        strmap_ok (pfVoteChoices r) \<and> strmap_ok (pfTSpendPolicy r) \<and> strmap_ok (pfTreasuryPolicy r)) \<and>
     (\<forall>b r. bindSetVoteChoices g b = Inr r \<longrightarrow>
        strmap_ok (vcVoteChoices r) \<and> strmap_ok (vcTSpendPolicy r) \<and> strmap_ok (vcTreasuryPolicy r))"

definition api_ok :: "('s, 'x, 'f) api \<Rightarrow> bool" where
  "api_ok W \<longleftrightarrow> bolt_ok (wBolt W) \<and> gin_ok (wGin W)"

text \<open>The ticket a handler works on is the one stored.\<close>

definition holds_at :: "'s bolt \<Rightarrow> dbst \<Rightarrow> ticket \<Rightarrow> 's \<times> uint32 \<Rightarrow> bool" where
  "holds_at B d t m \<longleftrightarrow> good B d m \<and> tickets B (fst m) (Hash t) = Some t"

definition ready :: "'s bolt \<Rightarrow> dbst \<Rightarrow> ctx \<Rightarrow> 's \<times> uint32 \<Rightarrow> bool" where
  "ready B d c m \<longleftrightarrow> good B d m \<and>
     (\<forall>t. cxKnownTicket c = Some True \<and> cxTicket c = Some t \<longrightarrow> tickets B (fst m) (Hash t) = Some t)"

lemma at_good: "holds_at B d t m \<Longrightarrow> good B d m"
  by (simp add: holds_at_def)

lemma ready_good: "ready B d c m \<Longrightarrow> good B d m"
  by (simp add: ready_def)

lemma ready_at: "ready B d c m \<Longrightarrow> cxKnownTicket c = Some True \<Longrightarrow> cxTicket c = Some t \<Longrightarrow> holds_at B d t m"
  by (simp add: ready_def holds_at_def)

lemma keeps_send [keeps_intros]:
  "keeps (\<lambda>w. P (mem w)) (sendErrorWithMsg W m e c)" "keeps (\<lambda>w. P (mem w)) (sendError W e c)"
  "keeps (\<lambda>w. P (mem w)) (refuse W r c)" "keeps (\<lambda>w. P (mem w)) (sendJSONResponse W x c)"
  "keeps (\<lambda>w. P (mem w)) (mustGet v)"
  unfolding sendError_def sendErrorWithMsg_def refuse_def sendJSONResponse_def mustGet_def Let_def
  by (auto intro!: keeps_intros split: option.splits prod.splits sum.splits)

lemma keeps_chainReads [keeps_intros]:
  "keeps (\<lambda>w. P (mem w)) (canTicketVote l E n raw)" "keeps (\<lambda>w. P (mem w)) (getCurrentFee W)"
  "keeps (\<lambda>w. P (mem w)) (setOnWallet E t i)"
  unfolding canTicketVote_def getCurrentFee_def setOnWallet_def Let_def
  by (auto intro!: keeps_intros split: prod.splits)

lemma tri_get:
  "(\<And>w. P w \<Longrightarrow> I w) \<Longrightarrow> (\<And>a. v = Some a \<Longrightarrow> tri P (k a) N I) \<Longrightarrow> tri P (bindA (mustGet v) k) N I"
  by (cases v) (auto simp: mustGet_def bindA_def panic_def ret_def tri_def act_post_def)

text \<open>Writing the ticket the handler works on.\<close>

lemma at_update:
  assumes W: "bolt_ok B" and a: "holds_at B d t (mem w)" and u: "Hash t' = Hash t" "move t (stored_ticket t')" "ticket_ok t'"
    and Ok: "UpdateTicket B t' (wdb w) = Ok s'"
  shows "holds_at B d (stored_ticket t') (mem (w\<lparr>wdb := s', events := es\<rparr>))"
proof -
  have g: "good B d (wdb w, lastIdx w)" and s: "tickets B (wdb w) (Hash t') = Some t"
    using a u(1) by (simp_all add: holds_at_def mem_def)
  show ?thesis
    using good_update [OF W g s u(2,3) Ok] by (simp add: holds_at_def)
qed

lemma at_ticket: "bolt_ok B \<Longrightarrow> holds_at B d t (mem w) \<Longrightarrow> ticket_ok t \<and> stored_ticket t = t \<and> ticket_inv t"
  using good_wf(4,5) [of B d "wdb w" "lastIdx w"] by (auto simp: holds_at_def mem_def)

text \<open>Changes of the other fields commute with the storing of the maps.\<close>

lemma stored_upd [simp]:
  "stored_ticket (t\<lparr>FeeExpiration := e\<rparr>) = (stored_ticket t)\<lparr>FeeExpiration := e\<rparr>"
  "stored_ticket (t\<lparr>FeeAmount := a\<rparr>) = (stored_ticket t)\<lparr>FeeAmount := a\<rparr>"
  "stored_ticket (t\<lparr>FeeTxStatus := st\<rparr>) = (stored_ticket t)\<lparr>FeeTxStatus := st\<rparr>"
  "stored_ticket (t\<lparr>FeeTxHex := x\<rparr>) = (stored_ticket t)\<lparr>FeeTxHex := x\<rparr>"
  "stored_ticket (t\<lparr>FeeTxHash := x\<rparr>) = (stored_ticket t)\<lparr>FeeTxHash := x\<rparr>"
  "stored_ticket (t\<lparr>VotingWIF := x\<rparr>) = (stored_ticket t)\<lparr>VotingWIF := x\<rparr>"
  "stored_ticket (t\<lparr>Confirmed := b\<rparr>) = (stored_ticket t)\<lparr>Confirmed := b\<rparr>"
  "stored_ticket (t\<lparr>PurchaseHeight := p\<rparr>) = (stored_ticket t)\<lparr>PurchaseHeight := p\<rparr>"
  "stored_ticket (t\<lparr>Outcome := out\<rparr>) = (stored_ticket t)\<lparr>Outcome := out\<rparr>"
  "stored_ticket (prefs m m' m'' t) = prefs (stored_map m) (stored_map m') (stored_map m'') t"
  by (simp_all add: stored_ticket_def prefs_def)

lemma ok_upd [simp]:
  "ticket_ok (t\<lparr>FeeExpiration := e\<rparr>) = ticket_ok t" "ticket_ok (t\<lparr>FeeAmount := a\<rparr>) = ticket_ok t"
  "ticket_ok (t\<lparr>FeeTxStatus := st\<rparr>) = ticket_ok t" "ticket_ok (t\<lparr>FeeTxHex := x\<rparr>) = ticket_ok t"
  "ticket_ok (t\<lparr>FeeTxHash := x\<rparr>) = ticket_ok t" "ticket_ok (t\<lparr>VotingWIF := x\<rparr>) = ticket_ok t"
  "ticket_ok (t\<lparr>Confirmed := b\<rparr>) = ticket_ok t" "ticket_ok (t\<lparr>PurchaseHeight := p\<rparr>) = ticket_ok t"
  "ticket_ok (t\<lparr>Outcome := out\<rparr>) = ticket_ok t"
  "ticket_ok (prefs m m' m'' t) \<longleftrightarrow> strmap_ok m \<and> strmap_ok m' \<and> strmap_ok m''"
  by (simp_all add: ticket_ok_def)

lemma tri_try_update:
  assumes B: "bolt_ok B"
    and side: "stored_ticket t = t \<Longrightarrow> ticket_ok t \<Longrightarrow> ticket_inv t \<Longrightarrow>
      Hash t' = Hash t \<and> move t (stored_ticket t') \<and> ticket_ok t'"
    and "\<And>w. holds_at B d t (mem w) \<Longrightarrow> I w" "\<And>e. tri (\<lambda>w. holds_at B d t (mem w)) (h e) N I"
    "tri (\<lambda>w. holds_at B d (stored_ticket t') (mem w)) (k ()) N I"
  shows "tri (\<lambda>w. holds_at B d t (mem w)) (tryA (commit (UpdateTicket B t')) h k) N I"
proof (rule tri_try_commit [where Q = "\<lambda>w. holds_at B d (stored_ticket t') (mem w)"])
  fix w s' assume a: "holds_at B d t (mem w)" and Ok: "UpdateTicket B t' (wdb w) = Ok s'"
  then show "holds_at B d (stored_ticket t') (mem (w\<lparr>wdb := s', events := events w @ [Wrote s']\<rparr>))"
    using side at_ticket [OF B a] by (intro at_update [OF B a _ _ _ Ok]) blast+
qed (rule assms(3-5), assumption?)+

lemma renewFee_steps:
  assumes W: "api_ok W" and t: "\<not> feeAccepted t"
  shows "tri (\<lambda>w. holds_at (wBolt W) d t (mem w)) (renewFee W rb t c)
    (\<lambda>_ w. good (wBolt W) d (mem w)) (\<lambda>w. good (wBolt W) d (mem w))"
proof -
  have B: "bolt_ok (wBolt W)" using W by (simp add: api_ok_def)
  show ?thesis
    unfolding renewFee_def Let_def
    by (rule tri_if
        | (rule tri_bind_keeps tri_try_keeps, (intro keeps_intros; fail), erule at_good)
        | (rule tri_try_update [OF B], (simp add: t move.renew; fail), erule at_good)
        | (rule tri_leaf, (intro keeps_intros; fail), erule at_good))+
qed

text \<open>Writes that keep every good state good.\<close>

lemma keeps_writes:
  assumes B: "bolt_ok B"
  shows "keeps (\<lambda>w. good B d (mem w)) (putIdx i)"
    "keeps (\<lambda>w. good B d (mem w)) (commit (SetLastAddressIndex B idx))"
    "keeps (\<lambda>w. good B d (mem w)) (commit (InsertAltSignAddr B h a))"
    "ticket_ok t \<Longrightarrow> fresh (stored_ticket t) \<Longrightarrow> keeps (\<lambda>w. good B d (mem w)) (commit (InsertNewTicket B t))"
proof -
  show "keeps (\<lambda>w. good B d (mem w)) (putIdx i)"
    by (simp add: keeps_def putIdx_def mem_def good_def)
  show "keeps (\<lambda>w. good B d (mem w)) (commit (SetLastAddressIndex B idx))"
    by (rule keeps_commit) (rule good_index(1) [OF B])
  show "keeps (\<lambda>w. good B d (mem w)) (commit (InsertAltSignAddr B h a))"
    by (rule keeps_commit) (rule good_alt(1) [OF B])
  show "keeps (\<lambda>w. good B d (mem w)) (commit (InsertNewTicket B t))"
    if "ticket_ok t" "fresh (stored_ticket t)"
    by (rule keeps_commit) (rule good_insert(1) [OF B _ that(2,1)])
qed

lemma keeps_newAddress: "bolt_ok (wBolt W) \<Longrightarrow> keeps (\<lambda>w. good (wBolt W) d (mem w)) (getNewFeeAddress W)"
  unfolding getNewFeeAddress_def by (intro keeps_intros keeps_writes) auto

lemma newTicket_fresh:
  "ticket_ok (newTicket h ca raw ai x fee e)" "fresh (stored_ticket (newTicket h ca raw ai x fee e))"
  by (simp_all add: newTicket_def Let_def ticket_ok_def fresh_def zeroTicket_def strmap_ok_def gomap_ok_def entries_def)

lemma keeps_register:
  "api_ok W \<Longrightarrow> keeps (\<lambda>w. good (wBolt W) d (mem w)) (registerTicket W rb h ca raw c)"
  unfolding registerTicket_def Let_def api_ok_def
  by (intro keeps_intros keeps_newAddress keeps_writes newTicket_fresh) auto

text \<open>A handler run on a context whose ticket is the stored one.\<close>

abbreviation handled :: "('s, 'x, 'f) api \<Rightarrow> dbst \<Rightarrow> 's handler \<Rightarrow> ctx \<Rightarrow> bool" where
  "handled W d h c \<equiv> tri (\<lambda>w. ready (wBolt W) d c (mem w)) (h c)
     (\<lambda>_ w. good (wBolt W) d (mem w)) (\<lambda>w. good (wBolt W) d (mem w))"

lemma feeAddress_steps: "api_ok W \<Longrightarrow> handled W d (feeAddress W) c"
  unfolding feeAddress_def Let_def
  by (rule tri_get tri_if tri_try_lift, erule ready_good
      | rule tri_if
      | (rule tri_bind_keeps tri_try_keeps, (intro keeps_intros; fail), erule ready_good)
      | (rule tri_pre [OF renewFee_steps], assumption, (blast; fail), (erule ready_at; simp; fail))
      | (rule tri_pre [OF tri_leaf [OF keeps_register]], assumption, assumption, erule ready_good)
      | (rule tri_leaf, (intro keeps_intros; fail), erule ready_good))+

subsection \<open>Paying the fee\<close>

lemma acceptFee_prefs:
  obtains a b c where "acceptFee l n req v tx t = prefs a b c (t\<lparr>VotingWIF := wifString v, FeeTxHex := pfFeeTx req,
      FeeTxHash := lbHashStr l (txHash tx), FeeTxStatus := FeeReceieved\<rparr>)"
    "a \<in> {VoteChoices t, pfVoteChoices req}" "b \<in> {TSpendPolicy t, pfTSpendPolicy req}"
    "c \<in> {TreasuryPolicy t, pfTreasuryPolicy req}"
proof
  let ?a = "if validConsensusVoteChoices n (CurrentVoteVersion n) (pfVoteChoices req) = None
    then pfVoteChoices req else VoteChoices t"
  let ?b = "if validTSpendPolicy l (pfTSpendPolicy req) = None then pfTSpendPolicy req else TSpendPolicy t"
  let ?c = "if validTreasuryPolicy (pfTreasuryPolicy req) = None then pfTreasuryPolicy req else TreasuryPolicy t"
  show "acceptFee l n req v tx t = prefs ?a ?b ?c (t\<lparr>VotingWIF := wifString v, FeeTxHex := pfFeeTx req,
      FeeTxHash := lbHashStr l (txHash tx), FeeTxStatus := FeeReceieved\<rparr>)"
    by (simp add: acceptFee_def Let_def prefs_def)
qed auto

lemma checkPayment_accepts:
  assumes "checkPayment l n req raw t = Ok (Inr u)"
  obtains v tx where "u = acceptFee l n req v tx t"
  using assms
  by (auto simp: checkPayment_def orRefuse_def Let_def outcome_simps split: outcome.splits if_splits)

text \<open>An accepted fee is one move of the ticket.\<close>

lemma accepted_moves:
  assumes acc: "checkPayment l n req raw t = Ok (Inr u)" and g: "gin_ok g" "bindPayFee g rb = Inr req"
    and t: "\<not> feeAccepted t" "ticket_ok t" "stored_ticket t = t"
  shows "Hash u = Hash t \<and> move t (stored_ticket u) \<and> ticket_ok u \<and> FeeTxStatus u = FeeReceieved
    \<and> Confirmed u = Confirmed t"
proof -
  obtain v tx where u: "u = acceptFee l n req v tx t" by (rule checkPayment_accepts [OF acc])
  obtain a b c where p: "u = prefs a b c (t\<lparr>VotingWIF := wifString v, FeeTxHex := pfFeeTx req,
      FeeTxHash := lbHashStr l (txHash tx), FeeTxStatus := FeeReceieved\<rparr>)"
    "a \<in> {VoteChoices t, pfVoteChoices req}" "b \<in> {TSpendPolicy t, pfTSpendPolicy req}"
    "c \<in> {TreasuryPolicy t, pfTreasuryPolicy req}"
    unfolding u by (rule acceptFee_prefs)
  have "strmap_ok a \<and> strmap_ok b \<and> strmap_ok c"
    using p(2-4) g t(2) by (auto simp: gin_ok_def ticket_ok_def)
  then show ?thesis using t by (simp add: p(1) move.pay)
qed

lemma keeps_at_vote:
  assumes B: "bolt_ok B" and st: "FeeTxStatus t \<noteq> NoFee"
  shows "keeps (\<lambda>w. holds_at B d t (mem w)) (commit (SaveVoteChange B n (Hash t) r))"
proof (rule keeps_commit)
  fix s i s' assume a: "holds_at B d t (s, i)" and Ok: "SaveVoteChange B n (Hash t) r s = Ok s'"
  then have g: "good B d (s, i)" "tickets B s (Hash t) = Some t" by (simp_all add: holds_at_def)
  then show "holds_at B d t (s', i)" using good_vote [OF B g st Ok] by (simp add: holds_at_def)
qed

lemma keeps_acknowledge:
  assumes "bolt_ok (wBolt W)" "FeeTxStatus t \<noteq> NoFee" "Hash t = h"
  shows "keeps (\<lambda>w. holds_at (wBolt W) d t (mem w)) (acknowledge W rb h c)"
  unfolding acknowledge_def assms(3) [symmetric]
  by (intro keeps_intros keeps_at_vote assms(1,2))

lemma ack_leaf:
  assumes "bolt_ok (wBolt W)" "FeeTxStatus t \<noteq> NoFee" "Hash t = h"
  shows "tri (\<lambda>w. holds_at (wBolt W) d t (mem w)) (acknowledge W rb h c)
     (\<lambda>_ w. good (wBolt W) d (mem w)) (\<lambda>w. good (wBolt W) d (mem w))"
  by (rule tri_leaf [OF keeps_acknowledge [OF assms]]) (rule at_good)

lemma broadcastFee_steps:
  assumes B: "bolt_ok (wBolt W)" and t: "FeeTxStatus t = FeeReceieved" "Confirmed t" "Hash u = Hash t"
    "stored_ticket u = t" "ticket_ok u"
  shows "tri (\<lambda>w. holds_at (wBolt W) d t (mem w)) (broadcastFee W x u c (acknowledge W rb (Hash u) c))
     (\<lambda>_ w. good (wBolt W) d (mem w)) (\<lambda>w. good (wBolt W) d (mem w))"
  unfolding broadcastFee_def
  by ((rule tri_try_keeps, (intro keeps_intros; fail), erule at_good)
      | (rule tri_bind_keeps, (intro keeps_intros | simp split del: if_split add: keeps_send split: if_split; fail)+, erule at_good)
      | (rule tri_try_update [OF B], (simp add: t move.fail move.send; fail), erule at_good)
      | (rule ack_leaf [OF B]; simp add: t; fail)
      | (rule tri_leaf, (intro keeps_intros; fail), erule at_good))+

lemma accepted_after:
  assumes W: "api_ok W" and acc: "checkPayment l n req raw t = Ok (Inr u)" "bindPayFee (wGin W) rb = Inr req"
    and t: "\<not> feeAccepted t"
  shows "tri (\<lambda>w. holds_at (wBolt W) d t (mem w))
    (tryA (commit (UpdateTicket (wBolt W) u)) (\<lambda>_. sendError W ErrInternalError c) (\<lambda>_.
         if Confirmed u then broadcastFee W x u c (acknowledge W rb (Hash u) c)
         else acknowledge W rb (Hash u) c))
     (\<lambda>_ w. good (wBolt W) d (mem w)) (\<lambda>w. good (wBolt W) d (mem w))"
proof -
  have B: "bolt_ok (wBolt W)" and g: "gin_ok (wGin W)" using W by (simp_all add: api_ok_def)
  note ok = accepted_moves [OF acc(1) g acc(2) t]
  let ?u = "stored_ticket u"
  consider "stored_ticket t = t" "ticket_ok t" | "\<And>w. \<not> holds_at (wBolt W) d t (mem w)"
    using at_ticket [OF B] by blast
  then show ?thesis
  proof cases
    case 1
    note ok = ok [OF 1(2,1)]
    have u: "FeeTxStatus ?u = FeeReceieved" "Confirmed ?u = Confirmed u" "Hash u = Hash ?u" "ticket_ok u"
      using ok by (simp_all add: stored_ticket_def)
    note cast = broadcastFee_steps [where t = ?u, OF B u(1) _ u(3) refl u(4), unfolded u(2)]
      and ack = ack_leaf [where t = ?u, OF B _ u(3) [symmetric], unfolded u(1)]
    show ?thesis
    proof (rule tri_try_update [OF B])
      show "Hash u = Hash t \<and> move t ?u \<and> ticket_ok u" using ok by blast
      show "tri (\<lambda>w. holds_at (wBolt W) d t (mem w)) (sendError W ErrInternalError c)
        (\<lambda>_ w. good (wBolt W) d (mem w)) (\<lambda>w. good (wBolt W) d (mem w))"
        by (rule tri_leaf, intro keeps_intros) (rule at_good)
    qed (erule at_good, rule tri_if, erule cast, rule ack, simp)
  next
    case 2
    then show ?thesis by (simp add: tri_def act_post_def)
  qed
qed

lemma payFee_steps:
  assumes W: "api_ok W"
  shows "handled W d (payFee W) c"
proof -
  show ?thesis
    unfolding payFee_def Let_def
    by (rule tri_get tri_if tri_try_lift, erule ready_good
        | rule tri_if
        | (rule tri_bind_lift, erule ready_good)
        | (rule tri_bind_keeps tri_try_keeps, (intro keeps_intros; fail), erule ready_good)
        | (rule tri_leaf, (intro keeps_intros; fail), erule ready_good)
        | (rule tri_sum, rule tri_leaf, (intro keeps_intros; fail), erule ready_good)
        | (rule tri_pre [OF accepted_after [OF W]], (simp only:; fail), (erule fromSum_eq(1) [THEN iffD1]; fail), assumption,
            (erule ready_at; simp; fail)))+
qed

subsection \<open>Vote choices\<close>

lemma set_assign: "set (assign k v xs) \<subseteq> insert (k, v) (set xs)"
  by (induction xs) (auto split: if_splits)

lemma merge_ok:
  assumes "gomap_merge m kvs = Ok m'" "strmap_ok m" "\<And>k v. (k, v) \<in> set kvs \<Longrightarrow> valid_utf8 k \<and> valid_utf8 v"
  shows "strmap_ok m'"
  using assms
proof (induction m kvs rule: gomap_merge.induct)
  case (2 m k v kvs)
  then obtain xs where m: "m = Some xs" "gomap_merge (Some (assign k v xs)) kvs = Ok m'"
    by (cases m) (auto simp: outcome_simps)
  have "strmap_ok (Some (assign k v xs))"
    using 2(3,4) set_assign [of k v xs]
    by (fastforce simp: m(1) strmap_ok_def gomap_ok_def entries_def distinct_assign)
  then show ?case by (rule 2(1) [OF m(2)]) (rule 2(4), simp)
qed simp

lemma mergeChoices_prefs:
  assumes m: "mergeChoices req t = Ok t'" and g: "gin_ok g" "bindSetVoteChoices g rb = Inr req" and t: "ticket_ok t"
  obtains a b c where "t' = prefs a b c t" "ticket_ok t'"
proof -
  obtain a b c where v: "gomap_merge (VoteChoices t) (entries (vcVoteChoices req)) = Ok a"
    "gomap_merge (TSpendPolicy t) (entries (vcTSpendPolicy req)) = Ok b"
    "gomap_merge (TreasuryPolicy t) (entries (vcTreasuryPolicy req)) = Ok c" "t' = prefs a b c t"
    using m by (auto simp: mergeChoices_def outcome_simps prefs_def)
  have r: "strmap_ok (vcVoteChoices req)" "strmap_ok (vcTSpendPolicy req)" "strmap_ok (vcTreasuryPolicy req)"
    using g by (simp_all add: gin_ok_def)
  have utf: "\<And>m k v. strmap_ok m \<Longrightarrow> (k, v) \<in> set (entries m) \<Longrightarrow> valid_utf8 k \<and> valid_utf8 v"
    by (auto simp: strmap_ok_def)
  have "strmap_ok a" "strmap_ok b" "strmap_ok c"
    using t utf [OF r(1)] utf [OF r(2)] utf [OF r(3)]
    by (auto simp: ticket_ok_def intro: merge_ok [OF v(1)] merge_ok [OF v(2)] merge_ok [OF v(3)])
  with v(4) that show thesis by simp
qed

lemma chosen_after:
  assumes W: "api_ok W" and m: "mergeChoices req t = Ok u" "bindSetVoteChoices (wGin W) rb = Inr req"
    and t: "FeeTxStatus t \<noteq> NoFee"
  shows "tri (\<lambda>w. holds_at (wBolt W) d t (mem w))
    (tryA (commit (UpdateTicket (wBolt W) u)) (\<lambda>_. sendError W ErrInternalError c) (\<lambda>_.
       bindA (if FeeTxStatus u = FeeConfirmed then eachA (setOnWallet (wEnv W) u) wallets else ret ()) (\<lambda>_.
       acknowledge W rb (Hash u) c)))
     (\<lambda>_ w. good (wBolt W) d (mem w)) (\<lambda>w. good (wBolt W) d (mem w))"
proof -
  have B: "bolt_ok (wBolt W)" and g: "gin_ok (wGin W)" using W by (simp_all add: api_ok_def)
  consider "stored_ticket t = t" "ticket_ok t" | "\<And>w. \<not> holds_at (wBolt W) d t (mem w)"
    using at_ticket [OF B] by blast
  then show ?thesis
  proof cases
    case 1
    obtain a b c' where u: "u = prefs a b c' t" "ticket_ok u"
      by (rule mergeChoices_prefs [OF m(1) g m(2) 1(2)])
    have s: "FeeTxStatus (stored_ticket u) \<noteq> NoFee" "Hash (stored_ticket u) = Hash u"
      using t by (simp_all add: u(1) stored_ticket_def)
    show ?thesis
    proof (rule tri_try_update [OF B])
      show "Hash u = Hash t \<and> move t (stored_ticket u) \<and> ticket_ok u"
        using u 1 by (simp add: move.choose)
      show "tri (\<lambda>w. holds_at (wBolt W) d t (mem w)) (sendError W ErrInternalError c)
        (\<lambda>_ w. good (wBolt W) d (mem w)) (\<lambda>w. good (wBolt W) d (mem w))"
        by (rule tri_leaf, intro keeps_intros) (rule at_good)
      show "tri (\<lambda>w. holds_at (wBolt W) d (stored_ticket u) (mem w))
        (bindA (if FeeTxStatus u = FeeConfirmed then eachA (setOnWallet (wEnv W) u) wallets else ret ())
           (\<lambda>_. acknowledge W rb (Hash u) c))
        (\<lambda>_ w. good (wBolt W) d (mem w)) (\<lambda>w. good (wBolt W) d (mem w))"
        by (rule tri_bind_keeps, simp split: if_split, intro conjI impI keeps_intros, erule at_good)
           (rule ack_leaf [OF B s])
    qed (erule at_good)
  next
    case 2
    then show ?thesis by (simp add: tri_def act_post_def)
  qed
qed

lemma setVoteChoices_steps: "api_ok W \<Longrightarrow> handled W d (setVoteChoices W) c"
  unfolding setVoteChoices_def
  by (rule tri_get tri_if tri_try_lift, erule ready_good
      | rule tri_if
      | (rule tri_option)
      | (rule tri_bind_lift, erule ready_good)
      | (rule tri_bind_keeps tri_try_keeps, (intro keeps_intros; fail), erule ready_good)
      | (rule tri_leaf, (intro keeps_intros; fail), erule ready_good)
      | (rule tri_pre [OF chosen_after], assumption, assumption, (erule fromSum_eq(1) [THEN iffD1]; fail), assumption,
            (erule ready_at; simp; fail)))+

subsection \<open>The other handlers\<close>

lemma setAltSignAddr_steps: "api_ok W \<Longrightarrow> keeps (\<lambda>w. good (wBolt W) d (mem w)) (setAltSignAddr W c)"
  unfolding setAltSignAddr_def Let_def api_ok_def
  by (intro keeps_intros keeps_writes keeps_ifs; (erule conjunct1)?)

lemma ticketStatus_steps: "keeps (\<lambda>w. P (mem w)) (ticketStatus W c)"
  unfolding ticketStatus_def Let_def by (intro keeps_intros keeps_ifs)

section \<open>Middleware\<close>

lemma sendError_aborts: "tri P (sendErrorWithMsg W m e c) (\<lambda>c' _. cxAborted c') P"
  "tri P (sendError W e c) (\<lambda>c' _. cxAborted c') P"
  by (rule triI, simp add: sendError_def sendErrorWithMsg_def Let_def bindA_def respond_def ret_def)+

lemma keeps_clients [keeps_intros]: "keeps (\<lambda>w. P (mem w)) (cacheUpdate W)"
  unfolding cacheUpdate_def Let_def by (intro keeps_intros keeps_ifs)

lemma keeps_retry [keeps_intros]: "keeps (\<lambda>w. P (mem w)) (retryBroadcast n E tx)"
  by (induction n) (auto intro!: keeps_intros)

lemma keeps_slot [keeps_intros]: "keeps (\<lambda>w. P (mem w)) (freeSlot E)"
proof -
  have "snd (freeSlot E w) = snd (ask E (Call Ctx ''broadcastSem'' []) w)" for w
    by (cases "ask E (Call Ctx ''broadcastSem'' []) w") (simp add: freeSlot_def split: outcome.split reply.split)
  then show ?thesis using keeps_ask [of P E "Call Ctx ''broadcastSem'' []"] by (simp add: keeps_def)
qed

lemma keeps_parent:
  "keeps (\<lambda>w. P (mem w)) k \<Longrightarrow> keeps (\<lambda>w. P (mem w)) (broadcastParent W req tx ph c k)"
  unfolding broadcastParent_def by (intro keeps_intros keeps_ifs)

lemma keeps_middleware:
  "keeps (\<lambda>w. P (mem w)) (vspMustBeOpen W c)" "keeps (\<lambda>w. P (mem w)) (withMondClient W c)"
  "keeps (\<lambda>w. P (mem w)) (withWalletClients W c)" "keeps (\<lambda>w. P (mem w)) (broadcastTicket W c)"
  "keeps (\<lambda>w. P (mem w)) (requireWebCache W c)"
  unfolding vspMustBeOpen_def withMondClient_def withWalletClients_def broadcastTicket_def requireWebCache_def
  by (intro keeps_intros keeps_ifs keeps_parent)+

text \<open>What a middleware leaves: an aborted request, or one whose ticket is the stored one.\<close>

definition passed :: "'s bolt \<Rightarrow> dbst \<Rightarrow> ctx \<Rightarrow> 's \<times> uint32 \<Rightarrow> bool" where
  "passed B d c m \<longleftrightarrow> good B d m \<and> (\<not> cxAborted c \<longrightarrow> ready B d c m)"

definition looked_up :: "'s bolt \<Rightarrow> dbst \<Rightarrow> ticket \<times> bool \<Rightarrow> 's \<times> uint32 \<Rightarrow> bool" where
  "looked_up B d r m \<longleftrightarrow> good B d m \<and> (snd r \<longrightarrow> tickets B (fst m) (Hash (fst r)) = Some (fst r))"

lemma looked_up_good: "looked_up B d r m \<Longrightarrow> good B d m"
  by (simp add: looked_up_def)

lemma looked_up_ticket:
  assumes B: "bolt_ok B" and g: "good B d (mem w)" and r: "GetTicketByHash B h (wdb w) = Ok r"
  shows "looked_up B d r (mem w)"
proof -
  obtain t found where r': "r = (t, found)" by (cases r)
  have g': "good B d (wdb w, lastIdx w)" using g by (simp add: mem_def)
  have "tickets B (wdb w) (Hash t) = Some t" if "found"
  proof -
    have t: "tickets B (wdb w) h = Some t"
      using GetTicketByHash_ret [OF B good_wf(2) [OF g'] r [unfolded r']] that by simp
    with good_wf(5) [OF g' t B] show ?thesis by simp
  qed
  with g r' show ?thesis by (simp add: looked_up_def mem_def)
qed

lemma send_passed:
  "tri (\<lambda>w. good B d (mem w)) (sendErrorWithMsg W m e c) (\<lambda>c w. passed B d c (mem w)) (\<lambda>w. good B d (mem w))"
  "tri (\<lambda>w. good B d (mem w)) (sendError W er c) (\<lambda>c w. passed B d c (mem w)) (\<lambda>w. good B d (mem w))"
  by (rule triI, simp add: sendError_def sendErrorWithMsg_def Let_def bindA_def respond_def ret_def passed_def)+

lemma vspAuth_passes:
  assumes B: "bolt_ok (wBolt W)"
  shows "tri (\<lambda>w. good (wBolt W) d (mem w)) (vspAuth W c)
    (\<lambda>c w. passed (wBolt W) d c (mem w)) (\<lambda>w. good (wBolt W) d (mem w))"
  unfolding vspAuth_def authAddress_def Let_def
  by (rule tri_case tri_if
    | (rule tri_get, (erule looked_up_good | assumption))
    | (rule tri_try_lift tri_bind_lift, (erule looked_up_good | assumption))
    | (rule tri_try_query, assumption, (rule send_passed; fail),
        (rule tri_pre [where P = "\<lambda>w. looked_up (wBolt W) d _ (mem w)", rotated],
         (erule conjE, erule (1) looked_up_ticket [OF B]; fail)))
    | (rule tri_bind_keeps tri_try_keeps, (intro keeps_intros; fail), (erule looked_up_good | assumption))
    | (rule send_passed; fail)
    | (rule tri_pre [OF send_passed(1)], (erule looked_up_good; fail))
    | (rule tri_pre [OF send_passed(2)], (erule looked_up_good; fail))
    | (rule tri_ret, (simp add: passed_def looked_up_def ready_def; fail)))+

text \<open>Routes: middleware, then \<open>vspAuth\<close>, then the handler.\<close>

lemma chain_keeps: "(\<And>h c. h \<in> set hs \<Longrightarrow> keeps I (h c)) \<Longrightarrow> keeps I (runChain hs c)"
  by (induction hs arbitrary: c) (auto intro!: keeps_intros)

lemma chain_tail:
  assumes h: "handled W d h c"
  shows "tri (\<lambda>w. passed (wBolt W) d c (mem w)) (runChain [h] c)
     (\<lambda>_ w. good (wBolt W) d (mem w)) (\<lambda>w. good (wBolt W) d (mem w))"
proof (cases "cxAborted c")
  case True
  then show ?thesis by (auto simp: passed_def intro: tri_ret)
next
  case False
  then have "tri (\<lambda>w. passed (wBolt W) d c (mem w)) (h c)
     (\<lambda>_ w. good (wBolt W) d (mem w)) (\<lambda>w. good (wBolt W) d (mem w))"
    by (intro tri_pre [OF h]) (simp add: passed_def)
  then have "tri (\<lambda>w. passed (wBolt W) d c (mem w)) (bindA (h c) (runChain []))
     (\<lambda>_ w. good (wBolt W) d (mem w)) (\<lambda>w. good (wBolt W) d (mem w))"
    by (rule tri_bind) (auto intro: tri_ret)
  with False show ?thesis by simp
qed

lemma route_keeps:
  assumes B: "bolt_ok (wBolt W)" and h: "\<And>c. handled W d h c"
    and ms: "\<And>m c. m \<in> set ms \<Longrightarrow> keeps (\<lambda>w. good (wBolt W) d (mem w)) (m c)"
  shows "keeps (\<lambda>w. good (wBolt W) d (mem w)) (runChain (ms @ [vspAuth W, h]) c)"
  using ms
proof (induction ms arbitrary: c)
  case Nil
  have "tri (\<lambda>w. good (wBolt W) d (mem w)) (bindA (vspAuth W c) (runChain [h]))
    (\<lambda>_ w. good (wBolt W) d (mem w)) (\<lambda>w. good (wBolt W) d (mem w))"
    by (rule tri_bind [OF vspAuth_passes [OF B]]) (rule chain_tail [OF h])
  then show ?case by (auto simp del: runChain.simps(2) simp: runChain.simps(2) [of "vspAuth W"] keeps_tri intro: tri_ret)
next
  case (Cons m ms)
  then show ?case by (auto intro!: keeps_intros)
qed

text \<open>Every route, a panic of its handler included.\<close>

lemma keeps_serve:
  assumes "\<And>c. keeps (\<lambda>w. P (mem w)) (runChain hs c)"
  shows "keeps (\<lambda>w. P (mem w)) (serve hs body sig)"
proof (rule keepsI)
  fix w r w' assume w: "P (mem w)" and run: "serve hs body sig w = (r, w')"
  obtain x w1 where x: "runChain hs (newCtx body sig) w = (x, w1)"
    by (cases "runChain hs (newCtx body sig) w")
  have "P (mem w1)" using assms w x by (rule keepsD)
  with run show "P (mem w')" by (cases x) (auto simp: serve_def x respond_def)
qed

definition routes :: "('s, 'x, 'f) api \<Rightarrow> 's handler list set" where
  "routes W = {routeSetAltSignAddr W, routeFeeAddress W, routeTicketStatus W, routePayFee W, routeSetVoteChoices W}"

lemma handled_keeps: "keeps (\<lambda>w. good (wBolt W) d (mem w)) (h c) \<Longrightarrow> handled W d h c"
  by (rule tri_pre [OF tri_keeps], assumption, erule ready_good)

lemma routes_keep:
  assumes W: "api_ok W" and r: "hs \<in> routes W"
  shows "keeps (\<lambda>w. good (wBolt W) d (mem w)) (serve hs body sig)"
proof (rule keeps_serve)
  fix c
  have B: "bolt_ok (wBolt W)" using W by (simp add: api_ok_def)
  note ms = keeps_middleware [of "good (wBolt W) d" W]
  note route = route_keeps [OF B, of d]
  have "keeps (\<lambda>w. good (wBolt W) d (mem w)) (runChain (routeSetAltSignAddr W) c)"
    unfolding routeSetAltSignAddr_def
    by (rule route [of "setAltSignAddr W" "[vspMustBeOpen W, withMondClient W, broadcastTicket W]", unfolded append.simps])
      (rule handled_keeps, rule setAltSignAddr_steps [OF W], auto simp: ms)
  moreover have "keeps (\<lambda>w. good (wBolt W) d (mem w)) (runChain (routeFeeAddress W) c)"
    unfolding routeFeeAddress_def
    by (rule route [of "feeAddress W" "[vspMustBeOpen W, withMondClient W, broadcastTicket W]", unfolded append.simps])
      (rule feeAddress_steps [OF W], auto simp: ms)
  moreover have "keeps (\<lambda>w. good (wBolt W) d (mem w)) (runChain (routeTicketStatus W) c)"
    unfolding routeTicketStatus_def
    by (rule route [of "ticketStatus W" "[withMondClient W]", unfolded append.simps])
      (rule handled_keeps, rule ticketStatus_steps, auto simp: ms)
  moreover have "keeps (\<lambda>w. good (wBolt W) d (mem w)) (runChain (routePayFee W) c)"
    unfolding routePayFee_def
    by (rule route [of "payFee W" "[vspMustBeOpen W, withMondClient W]", unfolded append.simps])
      (rule payFee_steps [OF W], auto simp: ms)
  moreover have "keeps (\<lambda>w. good (wBolt W) d (mem w)) (runChain (routeSetVoteChoices W) c)"
    unfolding routeSetVoteChoices_def
    by (rule route [of "setVoteChoices W" "[withMondClient W, withWalletClients W]", unfolded append.simps])
      (rule setVoteChoices_steps [OF W], auto simp: ms)
  ultimately show "keeps (\<lambda>w. good (wBolt W) d (mem w)) (runChain hs c)"
    using r by (auto simp: routes_def)
qed

end
