(* ===== verification/Auth.thy ===== *)
theory Auth
  imports ServerSteps Responses
begin

text \<open>
  Authentication: \<open>vspAuth\<close> lets a request through only with a signature that verifies under the
  commitment address of its ticket or the alternate address registered for it, and no request
  changes the database without passing it.
\<close>

section \<open>Signatures\<close>

lemma validateSignature_Ok:
  assumes "bolt_ok B" "alts_wf B s" "validateSignature B l h addr sg msg s = Ok ()"
  shows "lbVerifyMessage l addr sg msg = None \<or>
    (\<exists>d. altAddrs B s h = Some d \<and> lbVerifyMessage l (AltSignAddr d) sg msg = None)"
proof (cases "lbVerifyMessage l addr sg msg")
  case (Some e)
  with assms(3) obtain d where "AltSignAddrData B h s = Ok (Some d)" "lbVerifyMessage l (AltSignAddr d) sg msg = None"
    by (auto simp: validateSignature_def outcome_simps split: option.splits if_splits)
  with AltSignAddrData_ret [OF assms(1,2) this(1), symmetric] show ?thesis by auto
qed simp

text \<open>
  The request was signed: the address is the stored one of the ticket or, for a ticket not in the
  database, one that some mond answered.
\<close>

definition signedBy :: "('s, 'x, 'f) api \<Rightarrow> 's \<Rightarrow> bytes \<Rightarrow> string \<Rightarrow> bool" where
  "signedBy W s rb sg \<longleftrightarrow> (\<exists>h addr t known. bindHash (wGin W) rb = Inr h \<and> validateTicketHash (wLib W) h = None \<and>
     GetTicketByHash (wBolt W) h s = Ok (t, known) \<and> (known \<longrightarrow> addr = CommitmentAddress t) \<and> sg \<noteq> [] \<and>
     validateSignature (wBolt W) (wLib W) h addr sg rb s = Ok ())"

text \<open>What a context keeps of its request.\<close>

definition ofRequest :: "err + bytes \<Rightarrow> string \<Rightarrow> ctx \<Rightarrow> bool" where
  "ofRequest body sg c \<longleftrightarrow> cxSignature c = sg \<and> map_sum id (take 4194304) (cxBody c) = map_sum id (take 4194304) body"

definition yields :: "('a \<Rightarrow> bool) \<Rightarrow> ('s, 'a) act \<Rightarrow> bool" where
  "yields Q m \<longleftrightarrow> (\<forall>w a w'. m w = (Ok a, w') \<longrightarrow> Q a)"

named_theorems yields_intros \<open>what an action can return\<close>

lemma yields_rules [yields_intros]:
  "(\<And>a. yields Q (k a)) \<Longrightarrow> yields Q (bindA m k)"
  "(\<And>e. yields Q (h e)) \<Longrightarrow> (\<And>a. yields Q (k a)) \<Longrightarrow> yields Q (tryA m h k)"
  "yields Q x \<Longrightarrow> yields Q y \<Longrightarrow> yields Q (if b then x else y)"
  "Q a \<Longrightarrow> yields Q (ret a)"
  by (auto simp: yields_def bindA_def tryA_def ret_def split: prod.splits outcome.splits)

lemma yields_case [yields_intros]: "(\<And>a b. yields Q (f a b)) \<Longrightarrow> yields Q (case p of (a, b) \<Rightarrow> f a b)"
  by (cases p) simp

lemma yields_send [yields_intros]: "ofRequest body sg c \<Longrightarrow> yields (ofRequest body sg) (sendErrorWithMsg W msg e c)"
  "ofRequest body sg c \<Longrightarrow> yields (ofRequest body sg) (sendError W er c)"
  unfolding sendError_def sendErrorWithMsg_def Let_def
  by (intro yields_intros; simp add: ofRequest_def)+

lemma drain_bytes:
  assumes "ofRequest body sg c" "drainAndReplaceBody c = Ok (rb, c')"
  shows "ofRequest body sg c'" "\<exists>raw. body = Inr raw \<and> rb = take 4194304 raw" "cxSignature c' = sg" "cxAborted c' = cxAborted c"
  using assms by (cases "cxBody c"; cases body; auto simp: ofRequest_def drainAndReplaceBody_def Let_def)+

lemma yields_drain:
  assumes "ofRequest body sg c" "\<And>e. yields Q (h e)"
    "\<And>rb c'. ofRequest body sg c' \<Longrightarrow> yields Q (k (rb, c'))"
  shows "yields Q (tryA (lift (drainAndReplaceBody c)) h k)"
proof (cases "drainAndReplaceBody c")
  case (Ok r)
  obtain rb c' where r: "r = (rb, c')" by (cases r)
  have "yields Q (k (rb, c'))" using Ok unfolding r by (intro assms(3) drain_bytes(1) [OF assms(1)])
  then show ?thesis by (simp add: yields_def tryA_def lift_def Ok r)
qed (use assms(2) in \<open>auto simp: yields_def tryA_def lift_def\<close>)

lemma middleware_yields:
  assumes "ofRequest body sg c"
  shows "yields (ofRequest body sg) (vspMustBeOpen W c)" "yields (ofRequest body sg) (withMondClient W c)"
    "yields (ofRequest body sg) (withWalletClients W c)" "yields (ofRequest body sg) (broadcastTicket W c)"
proof -
  show "yields (ofRequest body sg) (vspMustBeOpen W c)" "yields (ofRequest body sg) (withMondClient W c)"
    "yields (ofRequest body sg) (withWalletClients W c)"
    unfolding vspMustBeOpen_def withMondClient_def withWalletClients_def
    using assms by (intro yields_intros; simp add: ofRequest_def)+
  show "yields (ofRequest body sg) (broadcastTicket W c)"
    unfolding broadcastTicket_def broadcastParent_def
    by (rule yields_drain [OF assms]) ((simp only: prod.case)?, intro yields_intros; (assumption | rule assms))+
qed

section \<open>\<open>vspAuth\<close>\<close>

lemma send_aborts: "(\<And>w. P w \<Longrightarrow> wdb w = s) \<Longrightarrow> tri P (sendErrorWithMsg W m e c) (\<lambda>c' w. wdb w = s \<and> (cxAborted c' \<or> X c')) I"
  "(\<And>w. P w \<Longrightarrow> wdb w = s) \<Longrightarrow> tri P (sendError W er c) (\<lambda>c' w. wdb w = s \<and> (cxAborted c' \<or> X c')) I"
  by (rule triI, simp add: sendError_def sendErrorWithMsg_def Let_def bindA_def respond_def ret_def)+

lemma keeps_db: "(\<And>P. keeps (\<lambda>w. P (mem w)) m) \<Longrightarrow> keeps (\<lambda>w. wdb w = s) m"
  by (drule meta_spec [of _ "\<lambda>m. fst m = s"]) (simp add: mem_def)

text \<open>The end of \<open>vspAuth\<close>: the signature is checked under the address found.\<close>

lemma signature_checked:
  assumes known: "GetTicketByHash (wBolt W) h s = Ok (t, found)" "found \<longrightarrow> addr = CommitmentAddress t"
    and h: "bindHash (wGin W) rb = Inr h" "validateTicketHash (wLib W) h = None" and sg: "cxSignature c = sg"
  shows "tri (\<lambda>w. wdb w = s)
      (if cxSignature c = [] then sendErrorWithMsg W msg e c
       else
       tryA (query (validateSignature (wBolt W) (wLib W) h addr (cxSignature c) rb))
         (\<lambda>_. sendError W er c) (\<lambda>_.
       ret (c\<lparr>cxTicket := Some t, cxKnownTicket := Some found, cxCommitmentAddress := Some addr\<rparr>)))
    (\<lambda>c' w. wdb w = s \<and> (cxAborted c' \<or> signedBy W s rb sg)) (\<lambda>w. wdb w = s)"
proof (rule tri_if, rule send_aborts, assumption, rule tri_try_query, assumption, rule send_aborts, assumption, rule tri_ret)
  fix w u assume c: "cxSignature c \<noteq> []"
    and v: "wdb w = s \<and> validateSignature (wBolt W) (wLib W) h addr (cxSignature c) rb (wdb w) = Ok u"
  have "signedBy W s rb sg"
    unfolding signedBy_def sg [symmetric]
    by (rule exI [of _ h], rule exI [of _ addr], rule exI [of _ t], rule exI [of _ found]) (use known h c v in auto)
  then show "wdb w = s \<and> (cxAborted (c\<lparr>cxTicket := Some t, cxKnownTicket := Some found, cxCommitmentAddress := Some addr\<rparr>)
      \<or> signedBy W s rb sg)" using v by simp
qed

lemma tri_try_query_at:
  assumes "\<And>w. wdb w = s \<Longrightarrow> I w" "\<And>e. tri (\<lambda>w. wdb w = s) (h e) N I"
    "\<And>a. f s = Ok a \<Longrightarrow> tri (\<lambda>w. wdb w = s) (k a) N I"
  shows "tri (\<lambda>w. wdb w = s) (tryA (query f) h k) N I"
proof (rule tri_try_query, erule assms(1), rule assms(2))
  fix a
  have "tri (\<lambda>w. wdb w = s \<and> f s = Ok a) (k a) N I"
    by (rule tri_pure) (rule assms(3))
  then show "tri (\<lambda>w. wdb w = s \<and> f (wdb w) = Ok a) (k a) N I"
    by (rule tri_pre) auto
qed

lemma vspAuth_signed:
  fixes W :: "('s, 'x, 'f) api"
  assumes c: "ofRequest (Inr raw) sg c"
  shows "tri (\<lambda>w. wdb w = s) (vspAuth W c)
    (\<lambda>c' w. wdb w = s \<and> (cxAborted c' \<or> signedBy W s (take 4194304 raw) sg)) (\<lambda>w. wdb w = s)"
proof (cases "drainAndReplaceBody c")
  case (Ok r)
  obtain rb c1 where r: "drainAndReplaceBody c = Ok (rb, c1)" using Ok by (cases r) simp
  note d = drain_bytes [OF c r]
  have rb: "take 4194304 raw = rb" using d(2) by auto
  have drained: "tryA (lift (drainAndReplaceBody c)) h k = k (rb, c1)" for h :: "err \<Rightarrow> ('s, ctx) act" and k
    by (simp add: fun_eq_iff tryA_def lift_def r)
  show ?thesis
    unfolding vspAuth_def drained rb prod.case authAddress_def Let_def
    by (rule signature_checked
      | (rule tri_try_lift tri_get tri_bind_lift, assumption)
      | (rule send_aborts, assumption)
      | (rule tri_try_query_at)
      | (rule tri_try_keeps, (rule keeps_db, intro keeps_intros; fail), assumption)
      | rule tri_if | rule tri_case
      | (simp add: outcome_simps d(3); fail) | assumption)+
next
  case (Fail e)
  then have "tryA (lift (drainAndReplaceBody c)) h k = h e" for h :: "err \<Rightarrow> ('s, ctx) act" and k
    by (simp add: fun_eq_iff tryA_def lift_def)
  then show ?thesis unfolding vspAuth_def by (simp add: send_aborts)
next
  case Panic
  then show ?thesis using c by (cases "cxBody c") (auto simp: drainAndReplaceBody_def Let_def)
qed

section \<open>Routes\<close>

definition authentic :: "('s, 'x, 'f) api \<Rightarrow> 's \<Rightarrow> err + bytes \<Rightarrow> string \<Rightarrow> bool" where
  "authentic W s body sg \<longleftrightarrow> (\<exists>raw. body = Inr raw \<and> signedBy W s (take 4194304 raw) sg)"

lemma vspAuth_authentic:
  fixes W :: "('s, 'x, 'f) api"
  assumes c: "ofRequest body sg c"
  shows "tri (\<lambda>w. wdb w = s) (vspAuth W c) (\<lambda>c' w. wdb w = s \<and> (cxAborted c' \<or> authentic W s body sg)) (\<lambda>w. wdb w = s)"
proof (cases body)
  case (Inr raw)
  have post: "(cxAborted c' \<or> signedBy W s (take 4194304 raw) sg) = (cxAborted c' \<or> authentic W s body sg)" for c'
    by (simp add: authentic_def Inr)
  show ?thesis using vspAuth_signed [OF c [unfolded Inr], of s W] unfolding post .
next
  case (Inl e)
  with c obtain e where "drainAndReplaceBody c = Fail e"
    by (cases "cxBody c") (auto simp: drainAndReplaceBody_def ofRequest_def)
  then have "tryA (lift (drainAndReplaceBody c)) h k = h e" for h :: "err \<Rightarrow> ('s, ctx) act" and k
    by (simp add: fun_eq_iff tryA_def lift_def)
  then show ?thesis unfolding vspAuth_def by (simp add: send_aborts)
qed

lemma tri_true: "(\<And>w. I w) \<Longrightarrow> tri P m (\<lambda>_. I) I"
  by (rule triI) (simp split: prod.split outcome.split)

lemma tri_none: "tri (\<lambda>_. False) m N I"
  by (simp add: tri_def act_post_def)

lemma chain_authentic:
  fixes W :: "('s, 'x, 'f) api"
  assumes ms: "\<And>m c. m \<in> set ms \<Longrightarrow> ofRequest body sg c \<Longrightarrow> yields (ofRequest body sg) (m c)"
    "\<And>m c. m \<in> set ms \<Longrightarrow> keeps (\<lambda>w. wdb w = s) (m c)"
    and c: "ofRequest body sg c"
  shows "tri (\<lambda>w. wdb w = s) (runChain (ms @ [vspAuth W, h]) c)
    (\<lambda>_ w. wdb w = s \<or> authentic W s body sg) (\<lambda>w. wdb w = s \<or> authentic W s body sg)"
  using ms c
proof (induction ms arbitrary: c)
  case Nil
  show ?case
  proof (cases "cxAborted c")
    case False
    have "tri (\<lambda>w. wdb w = s \<and> (cxAborted c' \<or> authentic W s body sg)) (runChain [h] c')
      (\<lambda>_ w. wdb w = s \<or> authentic W s body sg) (\<lambda>w. wdb w = s \<or> authentic W s body sg)" for c'
      by (cases "authentic W s body sg") (auto intro: tri_true tri_pure tri_ret tri_none)
    note tail = this
    have "tri (\<lambda>w. wdb w = s) (bindA (vspAuth W c) (runChain [h]))
      (\<lambda>_ w. wdb w = s \<or> authentic W s body sg) (\<lambda>w. wdb w = s \<or> authentic W s body sg)"
      by (rule tri_bind [OF tri_conseq [OF vspAuth_authentic [OF Nil(3), of s W]] tail]) auto
    then show ?thesis using False by simp
  qed (auto intro: tri_ret)
next
  case (Cons m ms)
  show ?case
  proof (cases "cxAborted c")
    case False
    have "tri (\<lambda>w. wdb w = s) (m c) (\<lambda>c' w. wdb w = s \<and> ofRequest body sg c') (\<lambda>w. wdb w = s \<or> authentic W s body sg)"
      using Cons.prems(1) [of m c] Cons.prems(2) [of m c] Cons.prems(3)
      by (auto simp: tri_def act_post_def yields_def dest: keepsD split: outcome.split)
    then have "tri (\<lambda>w. wdb w = s) (bindA (m c) (runChain (ms @ [vspAuth W, h])))
      (\<lambda>_ w. wdb w = s \<or> authentic W s body sg) (\<lambda>w. wdb w = s \<or> authentic W s body sg)"
      by (rule tri_bind) (rule tri_pure, rule Cons.IH, auto intro: Cons.prems)
    then show ?thesis using False by simp
  qed (auto intro: tri_ret)
qed

lemma serve_authentic:
  fixes W :: "('s, 'x, 'f) api"
  assumes r: "hs \<in> routes W" and run: "serve hs body sg w = (r, w')" and changed: "wdb w' \<noteq> wdb w"
  shows "authentic W (wdb w) body sg"
proof (rule ccontr)
  assume no: "\<not> authentic W (wdb w) body sg"
  have c: "ofRequest body sg (newCtx body sg)" by (simp add: ofRequest_def newCtx_def)
  let ?M = "{vspMustBeOpen W, withMondClient W, withWalletClients W, broadcastTicket W}"
  have M: "keeps (\<lambda>w'. wdb w' = wdb w) (m c)" "ofRequest body sg c \<Longrightarrow> yields (ofRequest body sg) (m c)"
    if "m \<in> ?M" for m c
    using that keeps_db [OF keeps_middleware(1)] keeps_db [OF keeps_middleware(2)] keeps_db [OF keeps_middleware(3)]
      keeps_db [OF keeps_middleware(4)] middleware_yields [of body sg c W] by auto
  obtain ms h where hs: "hs = ms @ [vspAuth W, h]" "set ms \<subseteq> ?M"
    using r unfolding routes_def routeSetAltSignAddr_def routeFeeAddress_def routeTicketStatus_def routePayFee_def
      routeSetVoteChoices_def
    by (elim insertE emptyE) (force intro: that [where ms = "[_]"] that [where ms = "[_, _]"] that [where ms = "[_, _, _]"])+
  have "tri (\<lambda>w'. wdb w' = wdb w) (runChain hs (newCtx body sg))
    (\<lambda>_ w'. wdb w' = wdb w \<or> authentic W (wdb w) body sg) (\<lambda>w'. wdb w' = wdb w \<or> authentic W (wdb w) body sg)"
    unfolding hs(1) by (rule chain_authentic) (use M hs(2) c in auto)
  then have "keeps (\<lambda>w'. wdb w' = wdb w) (runChain hs (newCtx body sg))"
    using no by (simp add: keeps_tri)
  moreover obtain x w1 where x: "runChain hs (newCtx body sg) w = (x, w1)"
    by (cases "runChain hs (newCtx body sg) w")
  ultimately have "wdb w1 = wdb w" by (auto dest: keepsD)
  with run changed x show False by (cases x) (auto simp: serve_def respond_def)
qed

end
