(* ===== verification/Payments.thy ===== *)
theory Payments
  imports Auth
begin

text \<open>
  What the payment and the vote handlers check before they act: the fee that is accepted pays
  the asked amount to the ticket's address and comes with the voting key of the ticket; it is
  stored before it is broadcast; choices are only taken from a request newer than all earlier
  ones, and reach the wallets only once the fee is confirmed.
\<close>

section \<open>The accepted fee\<close>

lemma feePaidBy_Some:
  "feePaidBy script outs \<noteq> 0 \<Longrightarrow>
    \<exists>out\<in>set outs. (outVersion out, outPkScript out) = script \<and> outValue out = feePaidBy script outs"
  by (induction outs) auto

lemma feePaidBy_first:
  "feePaidBy script outs = (case List.find (\<lambda>out. (outVersion out, outPkScript out) = script) outs of
     None \<Rightarrow> 0 | Some out \<Rightarrow> outValue out)"
  by (induction outs) auto

lemma orRefuse_Inr: "orRefuse r e k = Ok (Inr b) \<longleftrightarrow> (\<exists>a. r = Ok a \<and> k a = Ok (Inr b))"
  by (cases r) (simp_all add: orRefuse_def)

lemma checkPayment_Inr:
  assumes "checkPayment l n req raw t = Ok (Inr u)"
  obtains v tx script ticketTx vscript where "lbDecodeWIF l (pfVotingKey req) = Inr v"
    "decodeTransaction l (pfFeeTx req) = Ok tx" "lbSanity l tx = None"
    "lbDecodeAddress l (FeeAddress t) = Inr script"
    "\<exists>out\<in>set (txOuts tx). (outVersion out, outPkScript out) = script \<and> sint (FeeAmount t) \<le> sint (outValue out)"
    "lbVotingScript l (wifPubKey v) = Inr vscript" "decodeTransaction l (rHex raw) = Ok ticketTx"
    "txOuts ticketTx \<noteq> []" "(outVersion (txOuts ticketTx ! 0), outPkScript (txOuts ticketTx ! 0)) = vscript"
    "u = acceptFee l n req v tx t"
proof -
  obtain v tx script ticketTx vscript where a: "lbDecodeWIF l (pfVotingKey req) = Inr v"
    "decodeTransaction l (pfFeeTx req) = Ok tx" "lbSanity l tx = None"
    "lbDecodeAddress l (FeeAddress t) = Inr script"
    "feePaidBy script (txOuts tx) \<noteq> 0" "sint (FeeAmount t) \<le> sint (feePaidBy script (txOuts tx))"
    "lbVotingScript l (wifPubKey v) = Inr vscript" "decodeTransaction l (rHex raw) = Ok ticketTx"
    "txOuts ticketTx \<noteq> []" "(outVersion (txOuts ticketTx ! 0), outPkScript (txOuts ticketTx ! 0)) = vscript"
    "u = acceptFee l n req v tx t"
    using assms
    by (auto simp: checkPayment_def orRefuse_Inr outcome_simps Let_def index_def split: if_splits)
  show thesis
    by (rule that [OF a(1-4) _ a(7-11)]) (use feePaidBy_Some [OF a(5)] a(6) in metis)
qed

section \<open>Stored before it is sent\<close>

text \<open>The events that matter: what is written and what is broadcast.\<close>

fun marks :: "'s event \<Rightarrow> bool" where
  "marks (Wrote s) = True"
| "marks (Asked (Call t m as)) = (m = ''sendrawtransaction'')"
| "marks (Responded n b g) = False"

lemma marks_reads: "reads (\<lambda>e. \<not> marks e)"
  by (simp add: reads_def)

lemma dbAfter_quiet: "list_all (\<lambda>e. \<not> marks e) es \<Longrightarrow> dbAfter s es = s"
  by (induction s es rule: dbAfter.induct) simp_all

lemma quiet_keeps:
  assumes "emits (\<lambda>e. \<not> marks e) m"
  shows "keeps (\<lambda>w. wdb w = s \<and> filter marks (events w) = fs) m"
proof (rule keepsI)
  fix w r w' assume w: "wdb w = s \<and> filter marks (events w) = fs" and run: "m w = (r, w')"
  obtain es where es: "events w' = events w @ es" "list_all (\<lambda>e. \<not> marks e) es" "wdb w' = dbAfter (wdb w) es"
    using emitsD [OF assms run] unfolding traced_def by blast
  moreover have "filter marks es = []" using es(2) by (simp add: filter_empty_conv list_all_iff)
  ultimately show "wdb w' = s \<and> filter marks (events w') = fs"
    using w dbAfter_quiet [OF es(2)] by simp
qed

lemma emits_grow: "emits A m \<Longrightarrow> m w = (r, w') \<Longrightarrow> \<exists>es. events w' = events w @ es"
  using emitsD unfolding traced_def by blast

lemma marks_mustGet: "emits A (mustGet v)"
  unfolding mustGet_def by (intro emits_intros)

lemma emits_send_response:
  assumes "\<And>n b g. A (Responded n b g)"
  shows "emits A (sendErrorWithMsg W m e c)" "emits A (sendError W er c)" "emits A (refuse W rf c)"
    "emits A (sendJSONResponse W x c)"
  unfolding sendError_def sendErrorWithMsg_def refuse_def sendJSONResponse_def Let_def
  by (intro emits_intros assms)+

lemma emits_canVote: "reads A \<Longrightarrow> emits A (canTicketVote l E n raw)"
  unfolding canTicketVote_def by (intro emits_intros emits_reads)

lemma emits_all:
  "emits (\<lambda>_. True) (acknowledge W rb h c)" "emits (\<lambda>_. True) k \<Longrightarrow> emits (\<lambda>_. True) (broadcastFee W x u c k)"
proof -
  show "emits (\<lambda>_. True) (acknowledge W rb h c)"
    unfolding acknowledge_def by (intro emits_intros emits_send_response TrueI)
  show "emits (\<lambda>_. True) k \<Longrightarrow> emits (\<lambda>_. True) (broadcastFee W x u c k)"
    unfolding broadcastFee_def by (intro emits_intros emits_send_response emits_send) (simp_all add: calls_def)
qed

text \<open>
  \<open>storedFirst\<close>: the marked events since \<open>fs\<close> are none, or begin with the write of a ticket whose
  payment passed every check.
\<close>

definition storedFirst :: "('s, 'x, 'f) api \<Rightarrow> ctx \<Rightarrow> 's \<Rightarrow> 's event list \<Rightarrow> 's world \<Rightarrow> bool" where
  "storedFirst W c s fs w \<longleftrightarrow> filter marks (events w) = fs \<or>
     (\<exists>t req rb raw u s' es. cxTicket c = Some t \<and> bindPayFee (wGin W) rb = Inr req \<and>
        checkPayment (wLib W) (wNet W) req raw t = Ok (Inr u) \<and> UpdateTicket (wBolt W) u s = Ok s' \<and>
        filter marks (events w) = fs @ Wrote s' # es)"

lemma payFee_stores:
  fixes W :: "('s, 'x, 'f) api"
  shows "tri (\<lambda>w. wdb w = s \<and> filter marks (events w) = fs) (payFee W c) (\<lambda>_. storedFirst W c s fs) (storedFirst W c s fs)"
proof -
  let ?P = "\<lambda>w. wdb w = s \<and> filter marks (events w) = fs"
  have start: "?P w \<Longrightarrow> storedFirst W c s fs w" for w by (simp add: storedFirst_def)
  note quiet = quiet_keeps [OF emits_canVote] quiet_keeps [OF emits_reads(2)] quiet_keeps [OF emits_now]
    quiet_keeps [OF emits_send_response(1)] quiet_keeps [OF emits_send_response(2)] quiet_keeps [OF emits_send_response(3)]
  have store: "tri ?P (tryA (commit (UpdateTicket (wBolt W) u)) (\<lambda>_. sendError W ErrInternalError c) (\<lambda>_.
         if Confirmed u then broadcastFee W x u c (acknowledge W rb (Hash u) c)
         else acknowledge W rb (Hash u) c)) (\<lambda>_. storedFirst W c s fs) (storedFirst W c s fs)"
    if acc: "cxTicket c = Some t" "bindPayFee (wGin W) rb = Inr req" "checkPayment (wLib W) (wNet W) req raw t = Ok (Inr u)"
    for u t req raw rb x
  proof -
    let ?Q = "\<lambda>w. \<exists>s' es. UpdateTicket (wBolt W) u s = Ok s' \<and> filter marks (events w) = fs @ Wrote s' # es"
    have Q: "keeps ?Q m" if "emits (\<lambda>_. True) m" for m :: "('s, ctx) act"
    proof (rule keepsI)
      fix w r w' assume w: "?Q w" and run: "m w = (r, w')"
      from emits_grow [OF that run] obtain fs' where "events w' = events w @ fs'" by blast
      with w show "?Q w'" by auto
    qed
    have stored: "?Q w \<Longrightarrow> storedFirst W c s fs w" for w
      using acc unfolding storedFirst_def by blast
    show ?thesis
      by (rule tri_try_commit [where Q = ?Q], force, erule start, rule tri_leaf, rule quiet, simp, erule start,
          rule tri_leaf, rule Q, intro emits_intros emits_all, erule stored)
  qed
  show ?thesis
    unfolding payFee_def
    by (rule tri_get tri_if tri_try_lift tri_bind_lift, erule start
        | rule tri_if
        | (rule tri_sum)
        | (rule tri_try_keeps tri_bind_keeps, (rule quiet; simp add: marks_reads; fail), erule start)
        | (rule tri_leaf, (rule quiet; simp; fail), erule start)
        | (rule store, assumption, (erule fromSum_eq(1) [THEN iffD1]; fail), (simp; fail)))+
qed

lemma payFee_order:
  fixes W :: "('s, 'x, 'f) api"
  assumes run: "payFee W c w = (r, w')"
  shows "storedFirst W c (wdb w) (filter marks (events w)) w'"
  using triD [OF payFee_stores [of "wdb w" "filter marks (events w)" W c], of w] run
  by (cases r) auto

section \<open>Vote choices\<close>

lemma replayCheck_None:
  "replayCheck t chs = None \<longleftrightarrow> (\<forall>ch\<in>set chs. \<exists>p. prevTimestamp ch = Ok p \<and> sint p < sint t)"
  by (induction t chs rule: replayCheck.induct) (auto split: outcome.split)

text \<open>The conditions under which \<open>setVoteChoices\<close> writes.\<close>

definition newChoice :: "('s, 'x, 'f) api \<Rightarrow> ctx \<Rightarrow> 's \<Rightarrow> bool" where
  "newChoice W c s \<longleftrightarrow> (\<exists>t rb req changes. cxTicket c = Some t \<and> cxKnownTicket c = Some True \<and>
     cxRequestBytes c = Some rb \<and> bindSetVoteChoices (wGin W) rb = Inr req \<and>
     FeeTxStatus t \<noteq> NoFee \<and> Outcome t = [] \<and>
     GetVoteChanges (wBolt W) (Hash t) s = Ok changes \<and>
     (\<forall>(k, ch)\<in>set changes. \<exists>p. prevTimestamp ch = Ok p \<and> sint p < sint (vcTimestamp req)) \<and>
     validConsensusVoteChoices (wNet W) (CurrentVoteVersion (wNet W)) (vcVoteChoices req) = None \<and>
     validTreasuryPolicy (vcTreasuryPolicy req) = None \<and> validTSpendPolicy (wLib W) (vcTSpendPolicy req) = None)"

lemma tri_done: "(\<And>w. N w) \<Longrightarrow> tri P m (\<lambda>_. N) N"
  by (rule triI) (simp split: prod.split outcome.split)

lemma setVoteChoices_writes:
  fixes W :: "('s, 'x, 'f) api"
  shows "tri (\<lambda>w. wdb w = s) (setVoteChoices W c) (\<lambda>_ w. wdb w = s \<or> newChoice W c s) (\<lambda>w. wdb w = s \<or> newChoice W c s)"
proof -
  let ?N = "\<lambda>w. wdb w = s \<or> newChoice W c s"
  have quiet: "keeps (\<lambda>w. wdb w = s) (sendErrorWithMsg W m e c)" "keeps (\<lambda>w. wdb w = s) (sendError W er c)" for m e er
    by (rule keeps_db, intro keeps_intros)+
  have chosen: "tri (\<lambda>w. wdb w = s) m (\<lambda>_. ?N) ?N"
    if "cxTicket c = Some t" "cxKnownTicket c = Some k" "\<not> \<not> k" "cxRequestBytes c = Some rb" "bindSetVoteChoices (wGin W) rb = Inr req"
      "FeeTxStatus t \<noteq> NoFee" "\<not> Outcome t \<noteq> []" "GetVoteChanges (wBolt W) (Hash t) s = Ok changes"
      "replayCheck (vcTimestamp req) (map snd changes) = None"
      "firstFailure id [validConsensusVoteChoices (wNet W) (CurrentVoteVersion (wNet W)) (vcVoteChoices req),
          validTreasuryPolicy (vcTreasuryPolicy req), validTSpendPolicy (wLib W) (vcTSpendPolicy req)] = None"
    for t k rb req changes and m :: "('s, ctx) act"
  proof -
    have "\<forall>(k, ch)\<in>set changes. \<exists>p. prevTimestamp ch = Ok p \<and> sint p < sint (vcTimestamp req)"
      using that(9) unfolding replayCheck_None by auto
    moreover have "validConsensusVoteChoices (wNet W) (CurrentVoteVersion (wNet W)) (vcVoteChoices req) = None \<and>
      validTreasuryPolicy (vcTreasuryPolicy req) = None \<and> validTSpendPolicy (wLib W) (vcTSpendPolicy req) = None"
      using that(10) unfolding firstFailure_None by simp
    ultimately have "newChoice W c s" using that(1-8) unfolding newChoice_def by auto
    then show ?thesis by (intro tri_done) simp
  qed
  show ?thesis
    unfolding setVoteChoices_def
    by (rule tri_get tri_try_lift, (erule disjI1)
        | rule tri_if tri_option
        | (rule tri_try_query_at, erule disjI1)
        | (rule tri_leaf, (rule quiet; fail), erule disjI1)
        | (rule chosen, assumption, assumption, assumption, assumption, erule fromSum_eq(1) [THEN iffD1], assumption, assumption,
            assumption, assumption, assumption)
        | assumption | (erule disjI1))+
qed

text \<open>The wallets are only asked when the fee of the ticket is confirmed.\<close>

fun noWallet :: "'s event \<Rightarrow> bool" where
  "noWallet (Asked (Call (Wallet i) m as)) = False"
| "noWallet e = True"

lemma emits_bind_lift: "(\<And>a. r = Ok a \<Longrightarrow> emits A (k a)) \<Longrightarrow> emits A (bindA (lift r) k)"
  by (cases r) (auto simp: emits_def bindA_def lift_def)

lemma mergeChoices_status: "mergeChoices req t = Ok t' \<Longrightarrow> FeeTxStatus t' = FeeTxStatus t"
  by (auto simp: mergeChoices_def outcome_simps)

lemma setVoteChoices_noWallet:
  assumes "cxTicket c = Some t" "FeeTxStatus t \<noteq> FeeConfirmed"
  shows "emits noWallet (setVoteChoices W c)"
proof -
  have ack: "emits noWallet (acknowledge W rb h c)" for rb h
    unfolding acknowledge_def by (intro emits_intros emits_send_response; simp)
  have mine: "mustGet (cxTicket c) = ret t" by (simp add: assms(1) mustGet_def)
  have "bindA (ret t) k = k t" for k :: "ticket \<Rightarrow> ('s, ctx) act"
    by (simp add: fun_eq_iff bindA_def ret_def)
  note [simp] = this
  show ?thesis
    unfolding setVoteChoices_def mine
    using assms(2)
    by (auto intro!: emits_intros emits_send_response marks_mustGet ack emits_bind_lift dest: mergeChoices_status)
qed

end
