(* ===== verification/SpentTickets.thy ===== *)
theory SpentTickets
  imports Helpers
begin

text \<open>
  \<open>internal/vspm/spentticket.go\<close>: the search for the transactions that spend tickets. Two slices
  run in parallel, the tickets still looked for and the payment scripts of their commitment
  addresses; an entry is removed from both by moving the last one into its place.
\<close>

section \<open>State\<close>

record ('s, 'x, 'f) vspm =
  vBolt :: "'s bolt"
  vEnv :: "'s env"
  vLib :: "('x, 'f) lib"
  vNet :: network
  vWallets :: "nat list"

record spentTicket =
  dbTicket :: ticket
  expiryHeight :: int64
  heightSpent :: int64
  spendingTx :: msgTx

definition voted :: "('x, 'f) lib \<Rightarrow> spentTicket \<Rightarrow> bool" where
  "voted l s = lbIsSSGen l (spendingTx s)"

definition missed :: "spentTicket \<Rightarrow> bool" where
  "missed s =
     (if sint (heightSpent s) < sint (expiryHeight s) then True
      else if heightSpent s = expiryHeight s then False
      else if heightSpent s = expiryHeight s + 1 then False
      else True)"

section \<open>The search\<close>

definition txSpendsTicket :: "msgTx \<Rightarrow> hash \<Rightarrow> bool" where
  "txSpendsTicket tx outputHash \<longleftrightarrow> list_ex (\<lambda>i. prevIndex i = 0 \<and> prevHash i = outputHash) (txIns tx)"

definition nonOrderPreservingRemove :: "'a list \<Rightarrow> nat \<Rightarrow> 'a list" where
  "nonOrderPreservingRemove s i = butlast (s[i := last s])"

text \<open>A ticket with its parsed hash (\<open>ticketTuple\<close>).\<close>

type_synonym tuple = "ticket \<times> hash"

fun ticketTuples :: "('x, 'f) lib \<Rightarrow> ticket list \<Rightarrow> (tuple list \<times> bytes list) outcome" where
  "ticketTuples l [] = Ok ([], [])"
| "ticketTuples l (t # ts) =
     andThen (fromSum (lbDecodeAddress l (CommitmentAddress t))) (\<lambda>(ver, script).
     andThen (fromSum (lbHashOf l (Hash t))) (\<lambda>h.
     andThen (ticketTuples l ts) (\<lambda>(tuples, scripts). Ok ((t, h) # tuples, script # scripts))))"

definition spentOf :: "network \<Rightarrow> int64 \<Rightarrow> ticket \<Rightarrow> msgTx \<Rightarrow> spentTicket" where
  "spentOf n height t tx = \<lparr>dbTicket = t,
     expiryHeight = PurchaseHeight t + ucast (TicketMaturity n) + ucast (TicketExpiry n),
     heightSpent = height, spendingTx = tx\<rparr>"

text \<open>
  The loop over the tickets of one block, from index \<open>i\<close>: a spent ticket is removed and its index
  is looked at again.
\<close>

function scanBlock :: "network \<Rightarrow> int64 \<Rightarrow> msgTx list \<Rightarrow> nat \<Rightarrow> tuple list \<times> bytes list \<times> spentTicket list
    \<Rightarrow> tuple list \<times> bytes list \<times> spentTicket list" where
  "scanBlock n height txs i (tuples, scripts, spent) =
     (if i < length tuples then
        (case List.find (\<lambda>tx. txSpendsTicket tx (snd (tuples ! i))) txs of
           Some tx \<Rightarrow> scanBlock n height txs i
             (nonOrderPreservingRemove tuples i, nonOrderPreservingRemove scripts i,
              spent @ [spentOf n height (fst (tuples ! i)) tx])
         | None \<Rightarrow> scanBlock n height txs (Suc i) (tuples, scripts, spent))
      else (tuples, scripts, spent))"
  by pat_completeness auto
termination
  by (relation "measure (\<lambda>(n, height, txs, i, tuples, _). length tuples - i)")
     (auto simp: nonOrderPreservingRemove_def)

declare scanBlock.simps [simp del]

text \<open>One height: the block is fetched only when its filter matches one of the scripts.\<close>

definition scanHeight :: "('s, 'x, 'f) vspm \<Rightarrow> int \<Rightarrow> tuple list \<times> bytes list \<times> spentTicket list
    \<Rightarrow> ('s, (tuple list \<times> bytes list \<times> spentTicket list, spentTicket list) flow) act" where
  "scanHeight V h st = (case st of (tuples, scripts, spent) \<Rightarrow>
     let iHeight = of_int h :: int64 in
     bindA (canceled (vEnv V)) (\<lambda>c.
     if c then failA Canceled
     else
     bindA (GetBlockHash (vEnv V) iHeight) (\<lambda>iHash.
     bindA (GetBlockHeader (vLib V) (vEnv V) iHash) (\<lambda>iHeader.
     bindA (GetCFilterV2 (vLib V) (vEnv V) iHeader (DCP5Active (vNet V) iHeight)) (\<lambda>(key, filt).
     if \<not> lbMatchAny (vLib V) filt key scripts then ret (Next (tuples, scripts, spent))
     else
     bindA (GetBlock (vLib V) (vEnv V) iHash) (\<lambda>iBlock.
     case scanBlock (vNet V) iHeight (blkSTransactions iBlock) 0 (tuples, scripts, spent) of
       (tuples', scripts', spent') \<Rightarrow>
         ret (if tuples' = [] then Return spent' else Next (tuples', scripts', spent'))))))))"

definition findSpentTickets :: "('s, 'x, 'f) vspm \<Rightarrow> ticket list \<Rightarrow> int64 \<Rightarrow> ('s, spentTicket list \<times> int64) act" where
  "findSpentTickets V toCheck startHeight =
     bindA (wrapA ''mond.GetBlockCount error'' (GetBlockCount (vEnv V))) (\<lambda>endHeight.
     if sint startHeight > sint endHeight
     then failA (Plain ''start height greater than best block height'')
     else
     bindA (lift (ticketTuples (vLib V) toCheck)) (\<lambda>(tuples, scripts).
     bindA (forA (scanHeight V) [sint startHeight..sint endHeight] (tuples, scripts, []))
     (\<lambda>r. case r of
        Next (tuples', scripts', spent) \<Rightarrow> ret (spent, endHeight)
      | Return spent \<Rightarrow> ret (spent, endHeight))))"

text \<open>\<open>pluralize\<close>, used in log lines.\<close>

definition pluralize :: "int \<Rightarrow> string \<Rightarrow> string" where
  "pluralize n noun = dec_of_int n @ '' '' @ (if n \<noteq> 1 then noun @ ''s'' else noun)"

end
