(* ===== verification/Vspm.thy ===== *)
theory Vspm
  imports SpentTickets
begin

text \<open>
  \<open>internal/vspm\<close>: the background task. \<open>update\<close> runs on every block, \<open>checkWalletConsistency\<close> every
  half hour, \<open>checkDatabaseIntegrity\<close> once at start. Each loop works on the tickets read when it
  starts and writes each of them back; an error of one ticket is logged and the loop goes on.
\<close>

definition requiredConfs :: int where "requiredConfs = 6"

text \<open>\<open>v.mond.Client()\<close>: the background task's mond client notifies of new blocks.\<close>

definition vspmMond :: "('s, 'x, 'f) vspm \<Rightarrow> ('s, unit) act" where
  "vspmMond V = mondClient (vEnv V) (vNet V) True"

section \<open>\<open>update.go\<close>\<close>

definition confirmTicket :: "('s, 'x, 'f) vspm \<Rightarrow> ticket \<Rightarrow> ('s, unit) act" where
  "confirmTicket V ticket =
     tryA (GetRawTransaction (vEnv V) (Hash ticket))
       (\<lambda>e. if rpc_code e = Some ErrNoTxInfo then
            bindA (logged (commit (DeleteTicket (vBolt V) ticket))) (\<lambda>_.
            logged (commit (DeleteAltSignAddr (vBolt V) (Hash ticket))))
          else ret ())
       (\<lambda>tktTx. if sint (rConfirmations tktTx) \<ge> requiredConfs then
            logged (commit (UpdateTicket (vBolt V)
              (ticket\<lparr>PurchaseHeight := rBlockHeight tktTx, Confirmed := True\<rparr>)))
          else ret ())"

definition updateUnconfirmed :: "('s, 'x, 'f) vspm \<Rightarrow> ('s, unit) act" where
  "updateUnconfirmed V =
     tryA (query (GetUnconfirmedTickets (vBolt V))) (\<lambda>_. ret ()) (\<lambda>unconfirmed.
     untilCanceled (vEnv V) (confirmTicket V) unconfirmed)"

definition broadcastPending :: "('s, 'x, 'f) vspm \<Rightarrow> ticket \<Rightarrow> ('s, unit) act" where
  "broadcastPending V ticket =
     bindA (tryA (SendRawTransaction (vEnv V) (FeeTxHex ticket))
              (\<lambda>_. ret FeeError) (\<lambda>_. ret FeeBroadcast)) (\<lambda>status.
     logged (commit (UpdateTicket (vBolt V) (ticket\<lparr>FeeTxStatus := status\<rparr>))))"

definition broadcastFees :: "('s, 'x, 'f) vspm \<Rightarrow> ('s, unit) act" where
  "broadcastFees V =
     tryA (query (GetPendingFees (vBolt V))) (\<lambda>_. ret ()) (\<lambda>pending.
     untilCanceled (vEnv V) (broadcastPending V) pending)"

text \<open>
  Setting one vote choice on a wallet. An agenda the wallet does not know is removed from the
  ticket, whose map is shared by all later uses of the ticket.
\<close>

definition setChoice :: "('s, 'x, 'f) vspm \<Rightarrow> nat \<Rightarrow> string \<times> string \<Rightarrow> ticket \<Rightarrow> ('s, ticket) act" where
  "setChoice V i ac ticket = (case ac of (agenda, choice) \<Rightarrow>
     tryA (SetVoteChoice (vEnv V) i agenda choice (Hash ticket))
       (\<lambda>e. if contains (err_msg e) ''no agenda with ID'' then
            let t = ticket\<lparr>VoteChoices := gomap_delete (VoteChoices ticket) agenda\<rparr> in
            bindA (logged (commit (UpdateTicket (vBolt V) t))) (\<lambda>_. ret t)
          else ret ticket)
       (\<lambda>_. ret ticket))"

definition addToWallet :: "('s, 'x, 'f) vspm \<Rightarrow> rawTx \<Rightarrow> nat \<Rightarrow> ticket \<Rightarrow> ('s, ticket) act" where
  "addToWallet V rawTicket i ticket =
     tryA (AddTicketForVoting (vEnv V) i (VotingWIF ticket) (rBlockHash rawTicket) (rHex rawTicket))
       (\<lambda>_. ret ticket) (\<lambda>_.
     bindA (foldA (setChoice V i) (entries (VoteChoices ticket)) ticket) (\<lambda>t.
     bindA (eachA (\<lambda>(tspend, policy). logged (SetTSpendPolicy (vEnv V) i tspend policy (Hash t)))
              (entries (TSpendPolicy t))) (\<lambda>_.
     bindA (eachA (\<lambda>(key, policy). logged (SetTreasuryPolicy (vEnv V) i key policy (Hash t)))
              (entries (TreasuryPolicy t))) (\<lambda>_.
     ret t))))"

definition confirmFee :: "('s, 'x, 'f) vspm \<Rightarrow> nat list \<Rightarrow> ticket \<Rightarrow> ('s, unit) act" where
  "confirmFee V clients ticket =
     tryA (GetRawTransaction (vEnv V) (FeeTxHash ticket))
       (\<lambda>_. logged (commit (UpdateTicket (vBolt V) (ticket\<lparr>FeeTxStatus := FeeError\<rparr>)))) (\<lambda>feeTx.
     if sint (rConfirmations feeTx) \<ge> requiredConfs then
       (let t = ticket\<lparr>FeeTxHex := [], FeeTxStatus := FeeConfirmed\<rparr> in
        tryA (commit (UpdateTicket (vBolt V) t)) (\<lambda>_. ret ()) (\<lambda>_.
        tryA (GetRawTransaction (vEnv V) (Hash t)) (\<lambda>_. ret ()) (\<lambda>rawTicket.
        bindA (foldA (addToWallet V rawTicket) clients t) (\<lambda>_. ret ()))))
     else ret ())"

definition addToWallets :: "('s, 'x, 'f) vspm \<Rightarrow> ('s, unit) act" where
  "addToWallets V =
     tryA (query (GetUnconfirmedFees (vBolt V))) (\<lambda>_. ret ()) (\<lambda>unconfirmedFees.
     bindA (walletClients (vEnv V) (vNet V) (vWallets V)) (\<lambda>(clients, failedConnections).
     if clients = [] then ret ()
     else untilCanceled (vEnv V) (confirmFee V clients) unconfirmedFees))"

definition outcomeOf :: "('x, 'f) lib \<Rightarrow> spentTicket \<Rightarrow> string" where
  "outcomeOf l s = (if voted l s then Voted else if missed s then Missed else Expired)"

text \<open>Where to start the scan: None when there is nothing to scan yet.\<close>

definition scanStart :: "('s, 'x, 'f) vspm \<Rightarrow> ticket list \<Rightarrow> ('s, int64 option) act" where
  "scanStart V votableTickets =
     bindA (peek scanned) (\<lambda>lastScannedBlock.
     if lastScannedBlock = 0 then
       (let startHeight = EarliestPurchaseHeight votableTickets + ucast (TicketMaturity (vNet V)) in
        tryA (GetBlockCount (vEnv V)) (\<lambda>_. ret None) (\<lambda>bestBlock.
        if sint startHeight > sint bestBlock then ret None else ret (Some startHeight)))
     else ret (Some lastScannedBlock))"

definition setOutcomes :: "('s, 'x, 'f) vspm \<Rightarrow> ('s, unit) act" where
  "setOutcomes V =
     tryA (query (GetVotableTickets (vBolt V))) (\<lambda>_. ret ()) (\<lambda>votableTickets.
     if votableTickets = [] then ret ()
     else
     bindA (scanStart V votableTickets) (\<lambda>start. case start of
       None \<Rightarrow> ret ()
     | Some startHeight \<Rightarrow>
     tryA (findSpentTickets V votableTickets startHeight) (\<lambda>_. ret ()) (\<lambda>(spent, endHeight).
     bindA (putScanned endHeight) (\<lambda>_.
     untilCanceled (vEnv V) (\<lambda>s. logged (commit (UpdateTicket (vBolt V)
       ((dbTicket s)\<lparr>Outcome := outcomeOf (vLib V) s\<rparr>)))) spent))))"

definition update :: "('s, 'x, 'f) vspm \<Rightarrow> ('s, unit) act" where
  "update V =
     tryA (vspmMond V) (\<lambda>_. ret ()) (\<lambda>_.
     bindA (updateUnconfirmed V) (\<lambda>_.
     bindA (canceled (vEnv V)) (\<lambda>c. if c then ret () else
     bindA (broadcastFees V) (\<lambda>_.
     bindA (canceled (vEnv V)) (\<lambda>c. if c then ret () else
     bindA (addToWallets V) (\<lambda>_.
     bindA (canceled (vEnv V)) (\<lambda>c. if c then ret () else setOutcomes V)))))))"

section \<open>\<open>walletconsistency.go\<close>\<close>

text \<open>Adding a missing ticket: the flag and the least height so far.\<close>

definition addMissing :: "('s, 'x, 'f) vspm \<Rightarrow> nat \<Rightarrow> (string \<times> walletTicket) list \<Rightarrow> ticket \<Rightarrow> bool \<times> int64
    \<Rightarrow> ('s, bool \<times> int64) act" where
  "addMissing V i walletTickets t acc = (case acc of (added, minHeight) \<Rightarrow>
     if map_of walletTickets (Hash t) \<noteq> None then ret (added, minHeight)
     else
     tryA (GetRawTransaction (vEnv V) (Hash t)) (\<lambda>_. ret (added, minHeight)) (\<lambda>rawTicket.
     tryA (AddTicketForVoting (vEnv V) i (VotingWIF t) (rBlockHash rawTicket) (rHex rawTicket))
       (\<lambda>_. ret (added, minHeight)) (\<lambda>_.
     ret (True, if minHeight = 0 \<or> sint minHeight > sint (rBlockHeight rawTicket)
                then rBlockHeight rawTicket else minHeight))))"

definition addAllMissing :: "('s, 'x, 'f) vspm \<Rightarrow> ticket list \<Rightarrow> int64 \<Rightarrow> nat \<Rightarrow> ('s, unit) act" where
  "addAllMissing V votableTickets oldestHeight i =
     tryA (TicketInfo (vEnv V) i oldestHeight) (\<lambda>_. ret ()) (\<lambda>walletTickets.
     bindA (foldA (addMissing V i walletTickets) votableTickets (False, 0)) (\<lambda>(added, minHeight).
     if added then logged (RescanFrom (vEnv V) i minHeight) else ret ()))"

text \<open>
  Step 2 for one wallet: the tickets in order, with the maps as they are left; Return when the
  context is canceled.
\<close>

definition fixChoice :: "('s, 'x, 'f) vspm \<Rightarrow> nat \<Rightarrow> walletTicket \<Rightarrow> string \<times> string \<Rightarrow> ticket \<Rightarrow> ('s, ticket) act" where
  "fixChoice V i wt ac t = (if ac \<in> set (wtChoices wt) then ret t else setChoice V i ac t)"

definition fixTicket :: "('s, 'x, 'f) vspm \<Rightarrow> nat \<Rightarrow> (string \<times> walletTicket) list \<Rightarrow> ticket \<Rightarrow> ('s, ticket) act" where
  "fixTicket V i walletTickets t = (case map_of walletTickets (Hash t) of
     None \<Rightarrow> ret t
   | Some wt \<Rightarrow> foldA (fixChoice V i wt) (entries (VoteChoices t)) t)"

definition fixWallet :: "('s, 'x, 'f) vspm \<Rightarrow> int64 \<Rightarrow> nat \<Rightarrow> ticket list \<Rightarrow> ('s, (ticket list, unit) flow) act" where
  "fixWallet V oldestHeight i votableTickets =
     bindA (canceled (vEnv V)) (\<lambda>c. if c then ret (Return ())
     else
     tryA (TicketInfo (vEnv V) i oldestHeight) (\<lambda>_. ret (Next votableTickets)) (\<lambda>walletTickets.
     forA (\<lambda>t done.
       bindA (canceled (vEnv V)) (\<lambda>c. if c then ret (Return ())
       else bindA (fixTicket V i walletTickets t) (\<lambda>t'. ret (Next (done @ [t'])))))
       votableTickets []))"

definition checkWalletConsistency :: "('s, 'x, 'f) vspm \<Rightarrow> ('s, unit) act" where
  "checkWalletConsistency V =
     tryA (vspmMond V) (\<lambda>_. ret ()) (\<lambda>_.
     bindA (walletClients (vEnv V) (vNet V) (vWallets V)) (\<lambda>(clients, failedConnections).
     if clients = [] then ret ()
     else
     tryA (query (GetVotableTickets (vBolt V))) (\<lambda>_. ret ()) (\<lambda>votableTickets.
     if votableTickets = [] then ret ()
     else
     let oldestHeight = EarliestPurchaseHeight votableTickets in
     bindA (forA (\<lambda>i _. bindA (canceled (vEnv V)) (\<lambda>c. if c then ret (Return ())
         else bindA (addAllMissing V votableTickets oldestHeight i) (\<lambda>_. ret (Next ())))) clients ()) (\<lambda>r.
     case r of
       Return _ \<Rightarrow> ret ()
     | Next _ \<Rightarrow> bindA (forA (fixWallet V oldestHeight) clients votableTickets) (\<lambda>_. ret ())))))"

section \<open>\<open>databaseintegrity.go\<close>\<close>

definition checkPurchaseHeights :: "('s, 'x, 'f) vspm \<Rightarrow> ('s, unit) act" where
  "checkPurchaseHeights V =
     bindA (wrapA ''db.GetMissingPurchaseHeight error'' (query (GetMissingPurchaseHeight (vBolt V)))) (\<lambda>missing.
     if missing = [] then ret ()
     else
     bindA (vspmMond V) (\<lambda>_.
     eachA (\<lambda>ticket.
       tryA (GetRawTransaction (vEnv V) (Hash ticket)) (\<lambda>_. ret ()) (\<lambda>tktTx.
       logged (commit (UpdateTicket (vBolt V) (ticket\<lparr>PurchaseHeight := rBlockHeight tktTx\<rparr>))))) missing))"

definition checkRevoked :: "('s, 'x, 'f) vspm \<Rightarrow> ('s, unit) act" where
  "checkRevoked V =
     bindA (wrapA ''db.GetRevoked error'' (query (GetRevokedTickets (vBolt V)))) (\<lambda>revoked.
     if revoked = [] then ret ()
     else
     bindA (vspmMond V) (\<lambda>_.
     let startHeight = EarliestPurchaseHeight revoked + ucast (TicketMaturity (vNet V)) in
     bindA (wrapA ''findSpentTickets error'' (findSpentTickets V revoked startHeight)) (\<lambda>(spent, endHeight).
     eachA (\<lambda>s.
       if voted (vLib V) s then ret ()
       else logged (commit (UpdateTicket (vBolt V)
              ((dbTicket s)\<lparr>Outcome := (if missed s then Missed else Expired)\<rparr>)))) spent)))"

definition checkDatabaseIntegrity :: "('s, 'x, 'f) vspm \<Rightarrow> ('s, unit) act" where
  "checkDatabaseIntegrity V =
     bindA (wrapA ''checkPurchaseHeights error'' (checkPurchaseHeights V)) (\<lambda>_.
     wrapA ''checkRevoked error'' (checkRevoked V))"

section \<open>\<open>vspm.go\<close>\<close>

text \<open>The start of \<open>Run\<close>: True when the loop is entered.\<close>

definition runStart :: "('s, 'x, 'f) vspm \<Rightarrow> ('s, bool) act" where
  "runStart V =
     bindA (tryA (checkDatabaseIntegrity V) (\<lambda>e. ret (\<not> is_canceled e)) (\<lambda>_. ret True)) (\<lambda>go.
     if \<not> go then ret False else
     bindA (canceled (vEnv V)) (\<lambda>c. if c then ret False else
     bindA (update V) (\<lambda>_.
     bindA (canceled (vEnv V)) (\<lambda>c. if c then ret False else
     bindA (checkWalletConsistency V) (\<lambda>_.
     bindA (canceled (vEnv V)) (\<lambda>c. ret (\<not> c)))))))"

datatype signal = ConsistencyTick | MondTick | BlockConnected | Done

text \<open>The loop over the signals in the order \<open>select\<close> takes them, up to the end of the context.\<close>

fun runLoop :: "('s, 'x, 'f) vspm \<Rightarrow> signal list \<Rightarrow> ('s, unit) act" where
  "runLoop V [] = ret ()"
| "runLoop V (Done # sigs) = ret ()"
| "runLoop V (ConsistencyTick # sigs) = bindA (checkWalletConsistency V) (\<lambda>_. runLoop V sigs)"
| "runLoop V (MondTick # sigs) = bindA (logged (vspmMond V)) (\<lambda>_. runLoop V sigs)"
| "runLoop V (BlockConnected # sigs) = bindA (update V) (\<lambda>_. runLoop V sigs)"

definition Run :: "('s, 'x, 'f) vspm \<Rightarrow> signal list \<Rightarrow> ('s, unit) act" where
  "Run V sigs = bindA (runStart V) (\<lambda>go. if go then runLoop V sigs else ret ())"

end
