(* ===== verification/SpentLemmas.thy ===== *)
theory SpentLemmas
  imports SpentTickets RpcLemmas "HOL-Library.Multiset"
begin

text \<open>
  The search for spent tickets: the two slices stay aligned, no ticket is lost or reported
  twice, what is reported is spent, and what is left is not spent by the scanned block.
\<close>

section \<open>\<open>nonOrderPreservingRemove\<close>\<close>

lemma length_remove: "i < length s \<Longrightarrow> length (nonOrderPreservingRemove s i) = length s - 1"
  by (simp add: nonOrderPreservingRemove_def)

lemma remove_mset:
  assumes "i < length s"
  shows "mset (nonOrderPreservingRemove s i) = mset s - {#s ! i#}"
proof -
  have s: "s \<noteq> []" using assms by auto
  have "last (s[i := last s]) = last s"
    using s assms by (simp add: last_conv_nth nth_list_update)
  then have "mset (s[i := last s]) = add_mset (last s) (mset (nonOrderPreservingRemove s i))"
    using s unfolding nonOrderPreservingRemove_def
    by (metis append_butlast_last_id length_0_conv length_list_update mset_append mset.simps union_commute add_mset_add_single)
  moreover have "mset (s[i := last s]) = add_mset (last s) (mset s - {#s ! i#})"
    using assms by (rule mset_update)
  ultimately show ?thesis by simp
qed

lemma remove_zip:
  assumes "length xs = length ys" "i < length xs"
  shows "zip (nonOrderPreservingRemove xs i) (nonOrderPreservingRemove ys i) = nonOrderPreservingRemove (zip xs ys) i"
proof -
  have "xs \<noteq> []" "ys \<noteq> []" using assms by auto
  then have "last (zip xs ys) = (last xs, last ys)"
    using assms by (simp add: last_conv_nth)
  then show ?thesis
    using assms by (simp add: nonOrderPreservingRemove_def butlast_conv_take update_zip take_zip)
qed

lemma remove_map: "i < length xs \<Longrightarrow> nonOrderPreservingRemove (map f xs) i = map f (nonOrderPreservingRemove xs i)"
  by (cases xs rule: rev_cases) (simp_all add: nonOrderPreservingRemove_def map_update map_butlast)

lemma remove_take: "j \<le> i \<Longrightarrow> i < length xs \<Longrightarrow> take j (nonOrderPreservingRemove xs i) = take j xs"
  unfolding nonOrderPreservingRemove_def butlast_conv_take take_take length_list_update
  by (subst min_absorb1) auto

section \<open>One block\<close>

definition spent_by :: "msgTx list \<Rightarrow> hash \<Rightarrow> bool" where
  "spent_by txs h \<longleftrightarrow> (\<exists>tx\<in>set txs. txSpendsTicket tx h)"

lemma scanBlock_spec:
  assumes "scanBlock n height txs i (tuples, scripts, spent) = (tuples', scripts', spent')"
    "length tuples = length scripts" "i \<le> length tuples"
  shows "length tuples' = length scripts' \<and> mset (zip tuples' scripts') \<subseteq># mset (zip tuples scripts)
    \<and> mset (map fst tuples') + mset (map dbTicket spent') = mset (map fst tuples) + mset (map dbTicket spent)
    \<and> take i tuples' = take i tuples \<and> i \<le> length tuples'
    \<and> (\<forall>tp\<in>set (drop i tuples'). \<not> spent_by txs (snd tp))
    \<and> (\<forall>x\<in>set spent'. x \<in> set spent \<or> (\<exists>(t, h)\<in>set tuples. \<exists>tx\<in>set txs. txSpendsTicket tx h \<and> x = spentOf n height t tx))"
  using assms
proof (induction n height txs i "(tuples, scripts, spent)" arbitrary: tuples scripts spent rule: scanBlock.induct)
  case (1 n height txs i tuples scripts spent)
  let ?rm = "\<lambda>xs. nonOrderPreservingRemove xs i"
  note step = 1(3) [THEN trans [OF scanBlock.simps [symmetric]]]
  consider "\<not> i < length tuples"
    | (hit) tx where "i < length tuples" "List.find (\<lambda>tx. txSpendsTicket tx (snd (tuples ! i))) txs = Some tx"
    | (none) "i < length tuples" "List.find (\<lambda>tx. txSpendsTicket tx (snd (tuples ! i))) txs = None"
    by (cases "List.find (\<lambda>tx. txSpendsTicket tx (snd (tuples ! i))) txs") auto
  then show ?case
  proof cases
    case 1
    then show ?thesis using step \<open>length tuples = _\<close> \<open>i \<le> _\<close> by auto
  next
    case hit
    have len: "length (?rm tuples) = length (?rm scripts)" "i \<le> length (?rm tuples)"
      using 1(4) hit(1) by (auto simp: length_remove)
    have "scanBlock n height txs i (?rm tuples, ?rm scripts, spent @ [spentOf n height (fst (tuples ! i)) tx])
        = (tuples', scripts', spent')"
      using step hit by simp
    note IH = 1(2) [OF hit this len]
    have z: "mset (zip (?rm tuples) (?rm scripts)) \<subseteq># mset (zip tuples scripts)"
      using 1(4) hit(1) by (simp add: remove_zip remove_mset)
    have f: "mset (map fst (?rm tuples)) = mset (map fst tuples) - {#fst (tuples ! i)#}"
      using hit(1) remove_mset [of i "map fst tuples"] by (simp add: remove_map)
    have sub: "set (?rm tuples) \<subseteq> set tuples"
      using arg_cong [OF remove_mset [OF hit(1)], of set_mset] by (auto dest: in_diffD)
    have tx: "tx \<in> set txs" "txSpendsTicket tx (snd (tuples ! i))" "tuples ! i \<in> set tuples"
      using hit by (auto simp: find_Some_iff)
    have in_f: "fst (tuples ! i) \<in># mset (map fst tuples)" using tx(3) by auto
    show ?thesis
    proof (intro conjI)
      show "mset (zip tuples' scripts') \<subseteq># mset (zip tuples scripts)"
        using IH z by (meson subset_mset.trans)
      show "mset (map fst tuples') + mset (map dbTicket spent') = mset (map fst tuples) + mset (map dbTicket spent)"
        using IH in_f unfolding f by (simp add: spentOf_def)
      show "take i tuples' = take i tuples" using IH hit(1) by (simp add: remove_take)
      show "\<forall>x\<in>set spent'. x \<in> set spent \<or> (\<exists>(t, h)\<in>set tuples. \<exists>tx\<in>set txs. txSpendsTicket tx h \<and> x = spentOf n height t tx)"
        using IH sub tx by (fastforce simp: case_prod_unfold)
    qed (use IH in blast)+
  next
    case none
    then have "scanBlock n height txs (Suc i) (tuples, scripts, spent) = (tuples', scripts', spent')"
      using step by simp
    note IH = 1(1) [OF none this 1(4)]
    have "\<not> spent_by txs (snd (tuples ! i))"
      using none(2) by (auto simp: find_None_iff spent_by_def)
    moreover have "tuples' ! i = tuples ! i" "Suc i \<le> length tuples'"
      using IH none(1) nth_take [of i "Suc i" tuples'] nth_take [of i "Suc i" tuples] by auto
    ultimately have "\<forall>tp\<in>set (drop i tuples'). \<not> spent_by txs (snd tp)"
      using IH none(1) Cons_nth_drop_Suc [of i tuples', symmetric] by auto
    moreover have "take i tuples' = take i tuples"
      using IH none(1) take_take [of i "Suc i" tuples'] take_take [of i "Suc i" tuples] by (metis Suc_leI min.absorb1 lessI less_imp_le_nat)
    ultimately show ?thesis using IH none(1) by simp
  qed
qed

section \<open>All blocks\<close>

text \<open>
  What holds between two blocks: the tickets still looked for and the ones found are the given
  ones; every slot of the two slices belongs to one ticket; every ticket found is spent, by the
  first output of its purchase, in the range of heights.
\<close>

definition found_spent :: "('x, 'f) lib \<Rightarrow> network \<Rightarrow> int64 \<Rightarrow> int64 \<Rightarrow> spentTicket \<Rightarrow> bool" where
  "found_spent l n lo hi x \<longleftrightarrow>
     (\<exists>h tx height. lbHashOf l (Hash (dbTicket x)) = Inr h \<and> txSpendsTicket tx h \<and>
        x = spentOf n height (dbTicket x) tx \<and> sint lo \<le> sint height \<and> sint height \<le> sint hi)"

fun scan_inv :: "('x, 'f) lib \<Rightarrow> network \<Rightarrow> int64 \<Rightarrow> int64 \<Rightarrow> ticket list \<Rightarrow> tuple list \<times> bytes list \<times> spentTicket list \<Rightarrow> bool" where
  "scan_inv l n lo hi toCheck (tuples, scripts, spent) \<longleftrightarrow>
     length tuples = length scripts \<and>
     mset (map fst tuples) + mset (map dbTicket spent) = mset toCheck \<and>
     (\<forall>((t, h), script)\<in>set (zip tuples scripts). lbHashOf l (Hash t) = Inr h \<and>
        (\<exists>ver. lbDecodeAddress l (CommitmentAddress t) = Inr (ver, script))) \<and>
     (\<forall>x\<in>set spent. found_spent l n lo hi x)"

lemma scan_start: "ticketTuples l ts = Ok (tuples, scripts) \<Longrightarrow> scan_inv l n lo hi ts (tuples, scripts, [])"
proof (induction ts arbitrary: tuples scripts)
  case (Cons t ts)
  then show ?case by (fastforce simp: outcome_simps split: prod.splits)
qed simp

lemma scan_block:
  assumes "scan_inv l n lo hi ts (tuples, scripts, spent)"
    "scanBlock n height txs 0 (tuples, scripts, spent) = (tuples', scripts', spent')"
    "sint lo \<le> sint height" "sint height \<le> sint hi"
  shows "scan_inv l n lo hi ts (tuples', scripts', spent')"
proof -
  have len: "length tuples = length scripts" using assms(1) by simp
  note spec = scanBlock_spec [OF assms(2) len le0]
  have "set (zip tuples' scripts') \<subseteq> set (zip tuples scripts)"
    using spec set_mset_mono by fastforce
  moreover have "found_spent l n lo hi x" if x: "x \<in> set spent'" for x
  proof (cases "x \<in> set spent")
    case True
    then show ?thesis using assms(1) by simp
  next
    case False
    then obtain t h tx where t: "(t, h) \<in> set tuples" "txSpendsTicket tx h" "x = spentOf n height t tx"
      using spec x by blast
    then obtain script where "((t, h), script) \<in> set (zip tuples scripts)"
      using len by (metis in_set_impl_in_set_zip1)
    then have "lbHashOf l (Hash t) = Inr h" using assms(1) by auto
    then show ?thesis using t assms(3,4) by (auto simp: found_spent_def spentOf_def)
  qed
  ultimately show ?thesis using assms(1) spec by auto
qed

text \<open>The heights of the scan fit.\<close>

lemma sint_height:
  assumes "h \<in> set [sint (lo :: int64)..sint (hi :: int64)]"
  shows "sint (of_int h :: int64) = h"
proof -
  have "- (2 ^ 63) \<le> sint lo" "sint hi < 2 ^ 63"
    using sint_range_size [of lo] sint_range_size [of hi] by (simp_all add: word_size)
  with assms have "- (2 ^ 63) \<le> h" "h < 2 ^ 63" by (simp_all only: set_upto atLeastAtMost_iff) linarith+
  then show ?thesis
    by (simp add: signed_of_int signed_take_bit_int_eq_self)
qed

lemma scanHeight_tri:
  assumes h: "h \<in> set [sint lo..sint hi]"
  shows "tri (\<lambda>w. P (mem w) \<and> scan_inv (vLib V) (vNet V) lo hi ts x) (scanHeight V h x)
     (\<lambda>r w. case r of Next x \<Rightarrow> P (mem w) \<and> scan_inv (vLib V) (vNet V) lo hi ts x
      | Return spent \<Rightarrow> P (mem w) \<and> (\<exists>a b. scan_inv (vLib V) (vNet V) lo hi ts (a, b, spent)))
     (\<lambda>w. P (mem w))" (is "tri _ _ ?N _")
proof -
  let ?inv = "scan_inv (vLib V) (vNet V) lo hi ts"
  have scan: "tri (\<lambda>w. P (mem w) \<and> ?inv (tuples, scripts, spent))
      (case scanBlock (vNet V) (of_int h) txs 0 (tuples, scripts, spent) of
         (tuples', scripts', spent') \<Rightarrow> ret (if tuples' = [] then Return spent' else Next (tuples', scripts', spent')))
      ?N (\<lambda>w. P (mem w))" for txs tuples scripts spent
  proof -
    obtain t s sp where r: "scanBlock (vNet V) (of_int h) txs 0 (tuples, scripts, spent) = (t, s, sp)"
      by (cases "scanBlock (vNet V) (of_int h) txs 0 (tuples, scripts, spent)")
    have "?inv (t, s, sp)" if "?inv (tuples, scripts, spent)"
      using scan_block [OF that r] sint_height [OF h] h by simp
    moreover have "?N (if t = [] then Return sp else Next (t, s, sp)) w" if "P (mem w)" "?inv (t, s, sp)" for w
      using that by (cases "t = []") (auto intro!: exI [of _ t] exI [of _ s] simp del: scan_inv.simps)
    ultimately show ?thesis unfolding r prod.case by (intro tri_ret) blast
  qed
  show ?thesis
    unfolding scanHeight_def Let_def
    by ((rule tri_case)+, simp only: prod.case)
      ((rule tri_bind_keeps, (intro keeps_intros; fail), erule conjunct1)
        | rule tri_if | (rule tri_fail, erule conjunct1) | (rule tri_ret, simp; fail) | rule scan | rule tri_case)+
qed

lemma findSpentTickets_tri:
  "tri (\<lambda>w. P (mem w)) (findSpentTickets V toCheck lo)
     (\<lambda>(spent, hi) w. P (mem w) \<and> mset (map dbTicket spent) \<subseteq># mset toCheck \<and>
        (\<forall>x\<in>set spent. found_spent (vLib V) (vNet V) lo hi x))
     (\<lambda>w. P (mem w))" (is "tri _ _ ?N _")
proof -
  have found: "?N (spent, hi) w" if "P (mem w)" "scan_inv (vLib V) (vNet V) lo hi toCheck (a, b, spent)" for a b spent hi w
    using that mset_subset_eq_add_right [of "mset (map dbTicket spent)" "mset (map fst a)"] by simp
  have loop: "tri (\<lambda>w. P (mem w))
      (bindA (forA (scanHeight V) [sint lo..sint hi] (tuples, scripts, []))
        (\<lambda>r. case r of Next (tuples', scripts', spent) \<Rightarrow> ret (spent, hi) | Return spent \<Rightarrow> ret (spent, hi)))
      ?N (\<lambda>w. P (mem w))"
    if start: "ticketTuples (vLib V) toCheck = Ok (tuples, scripts)" for hi tuples scripts
  proof (rule tri_bind [OF tri_pre [OF tri_for [OF scanHeight_tri]]])
    fix r
    show "tri (\<lambda>w. case r of Next x \<Rightarrow> P (mem w) \<and> scan_inv (vLib V) (vNet V) lo hi toCheck x
        | Return spent \<Rightarrow> P (mem w) \<and> (\<exists>a b. scan_inv (vLib V) (vNet V) lo hi toCheck (a, b, spent)))
      (case r of Next (tuples', scripts', spent) \<Rightarrow> ret (spent, hi) | Return spent \<Rightarrow> ret (spent, hi)) ?N (\<lambda>w. P (mem w))"
      using found by (cases r) (force intro!: tri_ret simp del: scan_inv.simps split: prod.split)+
  qed (use scan_start [OF start] in auto)
  show ?thesis
    unfolding findSpentTickets_def wrapA_def
    by (rule tri_bind_keeps, (intro keeps_intros; fail), assumption, rule tri_if, rule tri_fail, assumption,
        rule tri_bind_lift, assumption, rule tri_case, simp only: prod.case, rule loop, assumption)
qed

end
