(* ===== verification/VspmSteps.thy ===== *)
theory VspmSteps
  imports ServerSteps Vspm SpentLemmas
begin

text \<open>
  The background task takes only steps of the abstract database. Its loops work on tickets
  read when they start and write them back, so what is carried through a loop is that the
  tickets still to be processed are the stored ones, up to their voting preferences.
\<close>

section \<open>Tickets in memory\<close>

definition near :: "'s bolt \<Rightarrow> dbst \<Rightarrow> ticket list \<Rightarrow> 's \<times> uint32 \<Rightarrow> bool" where
  "near B d ts m \<longleftrightarrow> good B d m \<and> distinct (map Hash ts) \<and>
     (\<forall>t\<in>set ts. ticket_ok t \<and> (\<exists>a b c. tickets B (fst m) (Hash t) = Some (prefs a b c t)))"

lemma near_good: "near B d ts m \<Longrightarrow> good B d m"
  by (simp add: near_def)

lemma near_nil [simp]: "near B d [] m = good B d m"
  by (simp add: near_def)

lemma near_tl: "near B d (t # ts) m \<Longrightarrow> near B d ts m"
  by (simp add: near_def)

lemma near_sub: "near B d ts m \<Longrightarrow> set us \<subseteq> set ts \<Longrightarrow> distinct (map Hash us) \<Longrightarrow> near B d us m"
  by (auto simp: near_def)

lemma near_swap: "near B d (xs @ t # ys) m \<longleftrightarrow> near B d (t # xs @ ys) m"
  by (auto simp: near_def)

lemma near_idx: "near B d ts (s, i) \<longleftrightarrow> near B d ts (s, j)"
  by (simp add: near_def good_def)

lemma prefs_prefs [simp]: "prefs a b c (prefs x y z t) = prefs a b c t"
  by (simp add: prefs_def)

lemma prefs_same: "prefs (VoteChoices t) (TSpendPolicy t) (TreasuryPolicy t) t = t"
  by (simp add: prefs_def)

lemma prefs_inv [simp]: "ticket_inv (prefs a b c t) = ticket_inv t"
  by (simp add: ticket_inv_def)

lemma stored_prefs: "stored_ticket t = prefs (stored_map (VoteChoices t)) (stored_map (TSpendPolicy t)) (stored_map (TreasuryPolicy t)) t"
  by (simp add: stored_ticket_def prefs_def)

lemma near_inv: "near B d (t # ts) m \<Longrightarrow> ticket_inv t"
  by (cases m) (force simp: near_def dest: good_wf(4))

text \<open>A list of stored tickets.\<close>

lemma near_read:
  assumes B: "bolt_ok B" and g: "good B d (mem w)"
    and ts: "\<And>t. t \<in> set ts \<Longrightarrow> t \<in> set (allTickets B (wdb w))" "distinct (map Hash ts)"
  shows "near B d ts (mem w)"
proof -
  have g': "good B d (wdb w, lastIdx w)" using g by (simp add: mem_def)
  have "ticket_ok t \<and> tickets B (wdb w) (Hash t) = Some (prefs (VoteChoices t) (TSpendPolicy t) (TreasuryPolicy t) t)"
    if mem: "t \<in> set ts" for t
  proof -
    obtain h where t: "tickets B (wdb w) h = Some t"
      using ts(1) [OF mem] set_allTickets [OF B good_wf(2) [OF g']] by (auto simp: ran_def)
    with good_wf(5) [OF g' t B] show ?thesis by (simp add: prefs_same)
  qed
  with g ts(2) show ?thesis by (auto simp: near_def mem_def)
qed

text \<open>Writing one of them: its preferences are set to the ones in memory, then it moves.\<close>

lemma near_update:
  assumes B: "bolt_ok B" and n: "near B d (t # ts) (s, i)"
    and t': "Hash t' = Hash t" "move (stored_ticket t) (stored_ticket t')" "ticket_ok t'"
    and Ok: "UpdateTicket B t' s = Ok s'"
  shows "near B d (t' # ts) (s', j)"
proof -
  have g: "good B d (s, i)" using n by (rule near_good)
  obtain a b c where u: "tickets B s (Hash t) = Some (prefs a b c t)"
    using n by (auto simp: near_def)
  note w = UpdateTicket_abs [OF B good_wf(1) [OF g] t'(3) Ok]
  have ts': "tickets B s' = (tickets B s)(Hash t \<mapsto> stored_ticket t')"
    using w t'(1) by (metis absDb_simps(1) dbst.select_convs(1) dbst.surjective dbst.update_convs(1))
  let ?d = "(absDb B s)\<lparr>dTickets := (tickets B s)(Hash t \<mapsto> stored_ticket t)\<rparr>"
  have "move (prefs a b c t) (stored_ticket t)"
    using move.choose [of "prefs a b c t"] by (simp add: stored_prefs [of t])
  then have "db_step (absDb B s) ?d"
    using u by (simp add: db_step.ticket [of "absDb B s", simplified])
  moreover have "db_step ?d (absDb B s')"
    using db_step.ticket [of ?d "Hash t" "stored_ticket t" "stored_ticket t'"] t' w by simp
  moreover have "ticket_inv (stored_ticket t')"
    using move_inv [OF t'(2)] near_inv [OF n] by (simp add: stored_prefs [of t])
  ultimately have "good B d (s', j)"
    using g w by (auto simp: good_def tickets_inv_def ts' intro: db_steps.more split: if_splits)
  moreover have "Hash u \<noteq> Hash t" if "u \<in> set ts" for u
    using n imageI [OF that, of Hash] by (auto simp: near_def simp del: imageI)
  ultimately show ?thesis
    using n t'(1,3) by (auto simp: near_def ts' stored_prefs [of t'])
qed

section \<open>Loops\<close>

text \<open>A loop body processes its ticket and leaves the others to the rest.\<close>

abbreviation processes :: "'s bolt \<Rightarrow> dbst \<Rightarrow> ticket \<Rightarrow> ('s, 'a) act \<Rightarrow> bool" where
  "processes B d t m \<equiv> (\<forall>ts. tri (\<lambda>w. near B d (t # ts) (mem w)) m
     (\<lambda>_ w. near B d ts (mem w)) (\<lambda>w. near B d ts (mem w)))"

lemma until_near:
  assumes "\<And>x. x \<in> set xs \<Longrightarrow> processes B d (g x) (f x)"
  shows "tri (\<lambda>w. near B d (map g xs) (mem w)) (untilCanceled E f xs)
    (\<lambda>_ w. good B d (mem w)) (\<lambda>w. good B d (mem w))"
  using assms
proof (induction xs)
  case Nil
  then show ?case by (auto intro: tri_ret)
next
  case (Cons x xs)
  have x: "tri (\<lambda>w. near B d (map g (x # xs)) (mem w)) (f x)
     (\<lambda>_ w. near B d (map g xs) (mem w)) (\<lambda>w. good B d (mem w))"
    by (rule tri_conseq [OF Cons.prems [of x, THEN spec]]) (simp | erule near_good)+
  show ?case
    by (simp only: untilCanceled.simps, rule tri_bind_keeps, intro keeps_intros, erule near_good,
        rule tri_if, rule tri_ret, erule near_good, rule tri_bind [OF x])
       (rule Cons.IH, simp add: Cons.prems)
qed

lemma each_near:
  assumes "\<And>x. x \<in> set xs \<Longrightarrow> processes B d (g x) (f x)"
  shows "tri (\<lambda>w. near B d (map g xs) (mem w)) (eachA f xs)
    (\<lambda>_ w. good B d (mem w)) (\<lambda>w. good B d (mem w))"
  using assms
proof (induction xs)
  case Nil
  then show ?case by (auto intro: tri_ret)
next
  case (Cons x xs)
  have x: "tri (\<lambda>w. near B d (map g (x # xs)) (mem w)) (f x)
     (\<lambda>_ w. near B d (map g xs) (mem w)) (\<lambda>w. good B d (mem w))"
    by (rule tri_conseq [OF Cons.prems [of x, THEN spec]]) (simp | erule near_good)+
  show ?case
    by (simp only: eachA.simps, rule tri_bind [OF x]) (rule Cons.IH, simp add: Cons.prems)
qed

text \<open>Writing the ticket back, an error being only logged.\<close>

lemma logged_update:
  assumes B: "bolt_ok B"
    and t': "ticket_inv t \<Longrightarrow> Hash t' = Hash t \<and> move (stored_ticket t) (stored_ticket t')"
      "ticket_ok t \<Longrightarrow> ticket_ok t'"
  shows "processes B d t (logged (commit (UpdateTicket B t')))"
proof (intro allI tri_logged tri_conseq [OF tri_commit])
  fix ts w s' assume n: "near B d (t # ts) (mem w)" and Ok: "UpdateTicket B t' (wdb w) = Ok s'"
  have "ticket_ok t" using n by (simp add: near_def)
  with near_update [OF B n [unfolded mem_def] _ _ _ Ok] t' near_inv [OF n]
  have "near B d (t' # ts) (s', lastIdx w)" by blast
  then show "near B d ts (mem (w\<lparr>wdb := s', events := events w @ [Wrote s']\<rparr>))"
    by (simp add: near_tl mem_def)
qed (auto intro: near_tl)

section \<open>\<open>update\<close>\<close>

text \<open>Deleting a ticket that the chain does not know.\<close>

lemma delete_near:
  assumes B: "bolt_ok B" and t: "\<not> Confirmed t"
  shows "processes B d t (bindA (logged (commit (DeleteTicket B t))) (\<lambda>_. logged (commit (DeleteAltSignAddr B (Hash t)))))"
proof -
  let ?P = "\<lambda>ts m. near B d ts m \<and> Hash t \<notin> Hash ` set ts \<and> (\<forall>u. tickets B (fst m) (Hash t) = Some u \<longrightarrow> \<not> Confirmed u)"
  have del: "tri (\<lambda>w. near B d (t # ts) (mem w)) (commit (DeleteTicket B t)) (\<lambda>_ w. ?P ts (mem w)) (\<lambda>w. ?P ts (mem w))" for ts
  proof (rule tri_conseq [OF tri_commit])
    fix w s' assume n: "near B d (t # ts) (mem w)" and Ok: "DeleteTicket B t (wdb w) = Ok s'"
    obtain a b c where u: "tickets B (wdb w) (Hash t) = Some (prefs a b c t)"
      using n by (auto simp: near_def mem_def)
    note g = good_delete [OF B near_good [OF n [unfolded mem_def]] u _ Ok, simplified prefs_simps, OF t]
    show "?P ts (mem (w\<lparr>wdb := s', events := events w @ [Wrote s']\<rparr>))"
      using n g by (auto simp: near_def image_iff mem_def)
  qed (use t in \<open>auto simp: near_def\<close>)
  have alt: "tri (\<lambda>w. ?P ts (mem w)) (commit (DeleteAltSignAddr B (Hash t))) (\<lambda>_ w. near B d ts (mem w)) (\<lambda>w. near B d ts (mem w))" for ts
  proof (rule tri_conseq [OF tri_commit])
    fix w s' assume n: "?P ts (mem w)" and Ok: "DeleteAltSignAddr B (Hash t) (wdb w) = Ok s'"
    have "good B d (wdb w, lastIdx w)" using n by (simp add: near_def mem_def)
    note g = good_unalt [OF B this _ Ok]
    show "near B d ts (mem (w\<lparr>wdb := s', events := events w @ [Wrote s']\<rparr>))"
      using n g by (auto simp: near_def mem_def)
  qed auto
  show ?thesis
    by (intro allI, rule tri_bind [OF tri_conseq [OF tri_logged [OF del]] tri_logged [OF alt]]) auto
qed

lemma processes_leaf: "(\<And>P. keeps (\<lambda>w. P (mem w)) m) \<Longrightarrow> processes B d t m"
  by (intro allI, rule tri_leaf, assumption) (erule near_tl)

lemma confirmTicket_near:
  assumes B: "bolt_ok (vBolt V)" and t: "\<not> Confirmed t"
  shows "processes (vBolt V) d t (confirmTicket V t)"
proof -
  have u: "processes (vBolt V) d t (logged (commit (UpdateTicket (vBolt V) (t\<lparr>PurchaseHeight := p, Confirmed := True\<rparr>))))" for p
    using t by (intro logged_update [OF B]) (auto intro: move.confirm)
  show ?thesis
    unfolding confirmTicket_def
    by (intro allI, rule tri_try_keeps, (intro keeps_intros; fail), erule near_tl)
       (rule tri_if, rule delete_near [OF B t, THEN spec] u [THEN spec], rule tri_ret, erule near_tl)+
qed

lemma broadcastPending_near:
  assumes B: "bolt_ok (vBolt V)" and t: "Confirmed t" "FeeTxStatus t = FeeReceieved"
  shows "processes (vBolt V) d t (broadcastPending V t)"
proof -
  have u: "processes (vBolt V) d t (logged (commit (UpdateTicket (vBolt V) (t\<lparr>FeeTxStatus := st\<rparr>))))"
    if "st \<in> {FeeError, FeeBroadcast}" for st
    using t that by (intro logged_update [OF B]) (auto intro: move.fail move.send)
  have send: "tri (\<lambda>w. near (vBolt V) d (t # ts) (mem w))
      (tryA (SendRawTransaction (vEnv V) (FeeTxHex t)) (\<lambda>_. ret FeeError) (\<lambda>_. ret FeeBroadcast))
      (\<lambda>st w. near (vBolt V) d (t # ts) (mem w) \<and> st \<in> {FeeError, FeeBroadcast}) (\<lambda>w. near (vBolt V) d ts (mem w))" for ts
    by (rule tri_try_keeps, intro keeps_intros, erule near_tl) (rule tri_ret, simp)+
  show ?thesis
    unfolding broadcastPending_def
    by (intro allI, rule tri_bind [OF send], rule tri_pure) (rule u [THEN spec])
qed

text \<open>Voting preferences: only an agenda unknown to a wallet is dropped.\<close>

lemma gomap_delete_ok: "strmap_ok m \<Longrightarrow> strmap_ok (gomap_delete m k)"
  by (cases m) (auto simp: strmap_ok_def gomap_ok_def gomap_delete_def entries_def distinct_map inj_on_def)

lemma setChoice_near:
  assumes B: "bolt_ok (vBolt V)"
  shows "tri (\<lambda>w. near (vBolt V) d (t # ts) (mem w)) (setChoice V i ac t)
    (\<lambda>t' w. near (vBolt V) d (t' # ts) (mem w) \<and> Hash t' = Hash t) (\<lambda>w. near (vBolt V) d ts (mem w))"
proof -
  let ?n = "\<lambda>t w. near (vBolt V) d (t # ts) (mem w)"
  have drop: "tri (?n t) (bindA (logged (commit (UpdateTicket (vBolt V) t'))) (\<lambda>_. ret t'))
     (\<lambda>t' w. ?n t' w \<and> Hash t' = Hash t) (\<lambda>w. near (vBolt V) d ts (mem w))"
    if t': "t' = t\<lparr>VoteChoices := gomap_delete (VoteChoices t) a\<rparr>" for t' a
  proof (rule tri_bind)
    have same: "prefs x y z t' = prefs x y z t" "Hash t' = Hash t" for x y z by (simp_all add: t' prefs_def)
    have ok: "ticket_ok t \<Longrightarrow> ticket_ok t'" by (simp add: t' ticket_ok_def gomap_delete_ok)
    have kept: "?n t' w" if "?n t w" for w
      using that ok by (auto simp: near_def same)
    have "move (stored_ticket t) (stored_ticket t')"
      using move.choose [of "stored_ticket t"] by (simp add: stored_prefs [of t] stored_prefs [of t'] same)
    note up = near_update [OF B _ same(2) this ok]
    have "tri (?n t) (commit (UpdateTicket (vBolt V) t')) (\<lambda>_. ?n t') (?n t')"
    proof (rule tri_conseq [OF tri_commit])
      fix w s' assume n: "?n t w" and Ok: "UpdateTicket (vBolt V) t' (wdb w) = Ok s'"
      have "ticket_ok t" using n by (simp add: near_def)
      from up [OF n [unfolded mem_def] this Ok]
      show "?n t' (w\<lparr>wdb := s', events := events w @ [Wrote s']\<rparr>)" by simp
    qed (auto intro: kept)
    from tri_logged [OF this]
    show "tri (?n t) (logged (commit (UpdateTicket (vBolt V) t'))) (\<lambda>_. ?n t') (\<lambda>w. near (vBolt V) d ts (mem w))"
      by (rule tri_conseq) (assumption | erule near_tl)+
    show "tri (?n t') (ret t') (\<lambda>t' w. ?n t' w \<and> Hash t' = Hash t) (\<lambda>w. near (vBolt V) d ts (mem w))"
      by (rule tri_ret) (simp add: same)
  qed
  show ?thesis
    unfolding setChoice_def Let_def
    by (rule tri_case, rule tri_try_keeps, intro keeps_intros, erule near_tl)
       (rule tri_if | (rule drop, rule refl) | (rule tri_ret, simp; fail))+
qed

lemma addToWallet_near:
  assumes B: "bolt_ok (vBolt V)"
  shows "tri (\<lambda>w. near (vBolt V) d (t # ts) (mem w) \<and> Hash t = h) (addToWallet V raw i t)
    (\<lambda>t' w. near (vBolt V) d (t' # ts) (mem w) \<and> Hash t' = h) (\<lambda>w. near (vBolt V) d ts (mem w))"
proof -
  have choices: "tri (\<lambda>w. near (vBolt V) d (t # ts) (mem w) \<and> Hash t = h)
      (foldA (setChoice V i) acs t)
      (\<lambda>t' w. near (vBolt V) d (t' # ts) (mem w) \<and> Hash t' = h) (\<lambda>w. near (vBolt V) d ts (mem w))" for acs
  proof (rule tri_fold)
    fix a x
    show "tri (\<lambda>w. near (vBolt V) d (x # ts) (mem w) \<and> Hash x = h) (setChoice V i a x)
      (\<lambda>t' w. near (vBolt V) d (t' # ts) (mem w) \<and> Hash t' = h) (\<lambda>w. near (vBolt V) d ts (mem w))"
      by (rule tri_pure, rule tri_conseq [OF setChoice_near [OF B]]) auto
  qed (auto intro: near_tl)
  have n: "\<And>x w. near (vBolt V) d (x # ts) (mem w) \<and> Hash x = h \<Longrightarrow> near (vBolt V) d ts (mem w)"
    by (auto intro: near_tl)
  show ?thesis
    unfolding addToWallet_def
    by (rule tri_try_keeps, (intro keeps_intros; fail), erule n, rule tri_ret, assumption,
        rule tri_bind [OF choices], (rule tri_bind_keeps, (intro keeps_intros; fail), erule n)+, rule tri_ret)
qed

lemma confirmFee_near:
  assumes B: "bolt_ok (vBolt V)" and t: "FeeTxStatus t = FeeBroadcast"
  shows "processes (vBolt V) d t (confirmFee V clients t)"
proof (rule allI)
  fix ts
  have u: "processes (vBolt V) d t (logged (commit (UpdateTicket (vBolt V) (t\<lparr>FeeTxStatus := FeeError\<rparr>))))"
    using t by (intro logged_update [OF B]) (auto simp: ticket_inv_def intro: move.fail)
  let ?t = "t\<lparr>FeeTxHex := [], FeeTxStatus := FeeConfirmed\<rparr>"
  have m: "move (stored_ticket t) (stored_ticket ?t)"
    using t by (simp add: move.settle)
  have c: "near (vBolt V) d (?t # ts) (mem (w\<lparr>wdb := s', events := es\<rparr>)) \<and> Hash ?t = Hash t"
    if n: "near (vBolt V) d (t # ts) (mem w)" and Ok: "UpdateTicket (vBolt V) ?t (wdb w) = Ok s'" for w s' es
  proof -
    have "ticket_ok ?t" using n by (simp add: near_def)
    from near_update [OF B n [unfolded mem_def] _ m this Ok] show ?thesis by simp
  qed
  have wallets: "tri (\<lambda>w. near (vBolt V) d (?t # ts) (mem w) \<and> Hash ?t = Hash t) (foldA (addToWallet V raw) clients ?t)
    (\<lambda>t' w. near (vBolt V) d (t' # ts) (mem w) \<and> Hash t' = Hash t) (\<lambda>w. near (vBolt V) d ts (mem w))" for raw
    by (rule tri_fold [OF addToWallet_near [OF B]]) (auto intro: near_tl)
  have n: "\<And>x w. near (vBolt V) d (x # ts) (mem w) \<and> Hash x = Hash t \<Longrightarrow> near (vBolt V) d ts (mem w)"
    by (auto intro: near_tl)
  show "tri (\<lambda>w. near (vBolt V) d (t # ts) (mem w)) (confirmFee V clients t)
    (\<lambda>_ w. near (vBolt V) d ts (mem w)) (\<lambda>w. near (vBolt V) d ts (mem w))"
    unfolding confirmFee_def Let_def
    by (rule tri_try_keeps, intro keeps_intros, erule near_tl, rule u [THEN spec], rule tri_if,
        rule tri_try_commit, erule (1) c, erule near_tl, rule tri_ret, erule near_tl,
        rule tri_try_keeps, intro keeps_intros, erule n, rule tri_ret, erule n,
        rule tri_bind [OF wallets], rule tri_ret, erule n, rule tri_ret, erule near_tl)
qed

text \<open>The loops over what is read.\<close>

lemma read_loop:
  assumes B: "bolt_ok B" and q: "\<And>s ts. tickets_wf B s \<Longrightarrow> q s = Ok ts \<Longrightarrow> ts = filter F (allTickets B s)"
    and h: "\<And>e. keeps (\<lambda>w. good B d (mem w)) (h e)"
    and k: "\<And>ts. (\<And>t. t \<in> set ts \<Longrightarrow> F t) \<Longrightarrow> tri (\<lambda>w. near B d ts (mem w)) (k ts) (\<lambda>_ w. good B d (mem w)) (\<lambda>w. good B d (mem w))"
  shows "keeps (\<lambda>w. good B d (mem w)) (tryA (query q) h k)"
  unfolding keeps_tri
proof (rule tri_try_query)
  fix ts
  show "tri (\<lambda>w. good B d (mem w) \<and> q (wdb w) = Ok ts) (k ts) (\<lambda>_ w. good B d (mem w)) (\<lambda>w. good B d (mem w))"
  proof (cases "\<forall>t\<in>set ts. F t")
    case True
    have "near B d ts (mem w)" if g: "good B d (mem w)" and Ok: "q (wdb w) = Ok ts" for w
    proof -
      have wf: "tickets_wf B (wdb w)" using good_wf(2) [OF g [unfolded mem_def]] .
      show ?thesis
        using q [OF wf Ok] distinct_allTickets [OF B wf]
        by (intro near_read [OF B g]) (auto simp: distinct_map inj_on_def)
    qed
    then show ?thesis using True by (intro tri_pre [OF k]) auto
  next
    case False
    have "\<not> (good B d (mem w) \<and> q (wdb w) = Ok ts)" for w
    proof (intro notI, elim conjE)
      assume g: "good B d (mem w)" and Ok: "q (wdb w) = Ok ts"
      from q [OF good_wf(2) [OF g [unfolded mem_def]] Ok] False show False by auto
    qed
    then show ?thesis unfolding tri_def act_post_def by blast
  qed
qed (use h in \<open>auto simp: keeps_tri\<close>)

lemma near_mset: "near B d ts m \<Longrightarrow> mset us \<subseteq># mset ts \<Longrightarrow> near B d us m"
proof (rule near_sub)
  assume n: "near B d ts m" and us: "mset us \<subseteq># mset ts"
  then show "set us \<subseteq> set ts" by (metis set_mset_mono set_mset_mset)
  obtain vs where "mset ts = mset (us @ vs)"
    using us by (metis ex_mset mset_append subset_mset.add_diff_inverse)
  then have "mset (map Hash ts) = mset (map Hash (us @ vs))" by (metis mset_map)
  moreover have "distinct (map Hash ts)" using n by (simp add: near_def)
  ultimately have "distinct (map Hash (us @ vs))" by (metis mset_eq_imp_distinct_iff)
  then show "distinct (map Hash us)" by simp
qed

lemma spent_near:
  assumes "\<And>spent hi. (\<And>x. x \<in> set spent \<Longrightarrow> dbTicket x \<in> set ts) \<Longrightarrow>
     tri (\<lambda>w. near B d (map dbTicket spent) (mem w)) (k (spent, hi)) (\<lambda>_ w. good B d (mem w)) (\<lambda>w. good B d (mem w))"
    "\<And>e. keeps (\<lambda>w. good B d (mem w)) (h e)"
  shows "tri (\<lambda>w. near B d ts (mem w)) (tryA (findSpentTickets V ts lo) h k) (\<lambda>_ w. good B d (mem w)) (\<lambda>w. good B d (mem w))"
proof (rule tri_try)
  show "tri (\<lambda>w. near B d ts (mem w)) (findSpentTickets V ts lo)
     (\<lambda>r w. near B d (map dbTicket (fst r)) (mem w) \<and> (\<forall>x\<in>set (fst r). dbTicket x \<in> set ts)) (\<lambda>w. good B d (mem w))"
  proof (rule tri_conseq [OF findSpentTickets_tri])
    fix r w assume "(case r of (spent, hi) \<Rightarrow> \<lambda>w. near B d ts (mem w) \<and> mset (map dbTicket spent) \<subseteq># mset ts \<and>
        (\<forall>x\<in>set spent. found_spent (vLib V) (vNet V) lo hi x)) w"
    then have r: "near B d ts (mem w)" "mset (map dbTicket (fst r)) \<subseteq># mset ts" by (auto split: prod.splits)
    then have "set (map dbTicket (fst r)) \<subseteq> set ts" by (metis set_mset_mono set_mset_mset)
    with near_mset [OF r] show "near B d (map dbTicket (fst r)) (mem w) \<and> (\<forall>x\<in>set (fst r). dbTicket x \<in> set ts)"
      by auto
  qed (auto simp: near_def)
next
  fix r show "tri (\<lambda>w. near B d (map dbTicket (fst r)) (mem w) \<and> (\<forall>x\<in>set (fst r). dbTicket x \<in> set ts)) (k r)
    (\<lambda>_ w. good B d (mem w)) (\<lambda>w. good B d (mem w))"
    by (cases r) (auto intro!: tri_pure assms(1))
  fix e show "tri (\<lambda>w. good B d (mem w)) (h e) (\<lambda>_ w. good B d (mem w)) (\<lambda>w. good B d (mem w))"
    using assms(2) by (simp add: keeps_tri)
qed

text \<open>The four parts of an update.\<close>

lemma keeps_unconfirmed: "bolt_ok (vBolt V) \<Longrightarrow> keeps (\<lambda>w. good (vBolt V) d (mem w)) (updateUnconfirmed V)"
  unfolding updateUnconfirmed_def
  by (rule read_loop [where F = "\<lambda>t. \<not> Confirmed t"], assumption, erule (2) GetUnconfirmedTickets_ret, intro keeps_intros)
     (rule until_near [where g = "\<lambda>t. t", simplified list.map_ident], rule confirmTicket_near)

lemma keeps_broadcastFees: "bolt_ok (vBolt V) \<Longrightarrow> keeps (\<lambda>w. good (vBolt V) d (mem w)) (broadcastFees V)"
  unfolding broadcastFees_def
  by (rule read_loop [where F = "\<lambda>t. Confirmed t \<and> FeeTxStatus t = FeeReceieved"], assumption,
      erule (2) GetPendingFees_ret, intro keeps_intros)
     (rule until_near [where g = "\<lambda>t. t", simplified list.map_ident], rule broadcastPending_near, blast+)

lemma keeps_addToWallets: "bolt_ok (vBolt V) \<Longrightarrow> keeps (\<lambda>w. good (vBolt V) d (mem w)) (addToWallets V)"
  unfolding addToWallets_def
  by (rule read_loop [where F = "\<lambda>t. FeeTxStatus t = FeeBroadcast"], assumption,
      erule (2) GetUnconfirmedFees_ret, intro keeps_intros,
      rule tri_bind_keeps, intro keeps_intros, erule near_good, rule tri_case, rule tri_if, rule tri_ret, erule near_good)
     (rule until_near [where g = "\<lambda>t. t", simplified list.map_ident], rule confirmFee_near, blast+)

lemma keeps_wrapA: "keeps I m \<Longrightarrow> keeps I (wrapA p m)"
  unfolding wrapA_def by (rule keeps_try) (auto intro: keeps_intros)

lemma bind_wrapA: "bindA (wrapA p m) k = tryA m (\<lambda>e. failA (Wrapped p e)) k"
  by (auto simp: wrapA_def bindA_def tryA_def failA_def ret_def split: prod.splits outcome.splits)

lemma outcome_near:
  assumes B: "bolt_ok B" and t: "(FeeTxStatus (dbTicket s) = FeeConfirmed \<and> Outcome (dbTicket s) = [] \<and> out \<in> {Voted, Missed, Expired})
    \<or> (Outcome (dbTicket s) = Revoked \<and> out \<in> {Missed, Expired})"
  shows "processes B d (dbTicket s) (logged (commit (UpdateTicket B ((dbTicket s)\<lparr>Outcome := out\<rparr>))))"
  using t by (intro logged_update [OF B]) (auto intro: move.outcome move.revoked)

lemma keeps_scanStart: "keeps (\<lambda>w. P (mem w)) (scanStart V ts)"
  unfolding scanStart_def Let_def by (intro keeps_intros keeps_ifs)

lemma keeps_setOutcomes:
  assumes B: "bolt_ok (vBolt V)"
  shows "keeps (\<lambda>w. good (vBolt V) d (mem w)) (setOutcomes V)"
proof -
  have scan: "tri (\<lambda>w. near (vBolt V) d ts (mem w))
      (tryA (findSpentTickets V ts lo) (\<lambda>_. ret ()) (\<lambda>(spent, endHeight).
       bindA (putScanned endHeight) (\<lambda>_.
       untilCanceled (vEnv V) (\<lambda>s. logged (commit (UpdateTicket (vBolt V)
       ((dbTicket s)\<lparr>Outcome := outcomeOf (vLib V) s\<rparr>)))) spent)))
      (\<lambda>_ w. good (vBolt V) d (mem w)) (\<lambda>w. good (vBolt V) d (mem w))"
    if ts: "\<And>t. t \<in> set ts \<Longrightarrow> FeeTxStatus t = FeeConfirmed \<and> Outcome t = []" for ts lo
  proof (rule spent_near, simp only: prod.case, rule tri_bind_keeps, (intro keeps_intros; fail), erule near_good)
    fix spent :: "spentTicket list" and hi :: int64
    assume "\<And>x. x \<in> set spent \<Longrightarrow> dbTicket x \<in> set ts"
    with ts show "tri (\<lambda>w. near (vBolt V) d (map dbTicket spent) (mem w))
       (untilCanceled (vEnv V) (\<lambda>s. logged (commit (UpdateTicket (vBolt V)
         ((dbTicket s)\<lparr>Outcome := outcomeOf (vLib V) s\<rparr>)))) spent)
       (\<lambda>_ w. good (vBolt V) d (mem w)) (\<lambda>w. good (vBolt V) d (mem w))"
      by (intro until_near outcome_near [OF B]) (simp add: outcomeOf_def)
  qed (rule keeps_ret)
  show ?thesis
    unfolding setOutcomes_def
    by (rule read_loop [where F = "\<lambda>t. FeeTxStatus t = FeeConfirmed \<and> Outcome t = []"], rule B,
        erule (1) GetVotableTickets_ret [OF B], intro keeps_intros,
        rule tri_if, rule tri_ret, erule near_good, rule tri_bind_keeps, rule keeps_scanStart, erule near_good)
      (rule tri_option, rule scan, assumption, rule tri_ret, erule near_good)
qed

lemma keeps_update:
  assumes B: "bolt_ok (vBolt V)"
  shows "keeps (\<lambda>w. good (vBolt V) d (mem w)) (update V)"
  unfolding update_def vspmMond_def
  by (intro keeps_intros keeps_ifs keeps_unconfirmed keeps_broadcastFees keeps_addToWallets keeps_setOutcomes B)

section \<open>\<open>checkWalletConsistency\<close>\<close>

lemma keeps_missing: "keeps (\<lambda>w. P (mem w)) (addAllMissing V ts h i)"
  unfolding addAllMissing_def addMissing_def
  by (intro keeps_intros keeps_ifs)

lemma fixTicket_near:
  assumes B: "bolt_ok (vBolt V)"
  shows "tri (\<lambda>w. near (vBolt V) d (t # ts) (mem w)) (fixTicket V i wts t)
    (\<lambda>t' w. near (vBolt V) d (t' # ts) (mem w)) (\<lambda>w. near (vBolt V) d ts (mem w))"
proof -
  have fix_: "tri (\<lambda>w. near (vBolt V) d (t # ts) (mem w)) (fixChoice V i wt ac t)
    (\<lambda>t' w. near (vBolt V) d (t' # ts) (mem w)) (\<lambda>w. near (vBolt V) d ts (mem w))" for wt ac t
    unfolding fixChoice_def
    by (rule tri_if, rule tri_ret, assumption, rule tri_conseq [OF setChoice_near [OF B]]) auto
  show ?thesis
    unfolding fixTicket_def
    by (rule tri_option, rule tri_fold, rule fix_, erule near_tl, rule tri_ret)
qed

lemma fixWallet_near:
  assumes B: "bolt_ok (vBolt V)"
  shows "tri (\<lambda>w. near (vBolt V) d ts (mem w)) (fixWallet V h i ts)
    (\<lambda>r w. case r of Next ts' \<Rightarrow> near (vBolt V) d ts' (mem w) | Return _ \<Rightarrow> good (vBolt V) d (mem w))
    (\<lambda>w. good (vBolt V) d (mem w))" (is "tri _ _ ?N _")
proof -
  have loop: "tri (\<lambda>w. near (vBolt V) d (done' @ ts) (mem w))
      (forA (\<lambda>t done'. bindA (canceled (vEnv V)) (\<lambda>c. if c then ret (Return ())
       else bindA (fixTicket V i wts t) (\<lambda>t'. ret (Next (done' @ [t']))))) ts done') ?N (\<lambda>w. good (vBolt V) d (mem w))"
    for wts done'
  proof (induction ts arbitrary: done')
    case Nil
    show ?case by (auto intro: tri_ret)
  next
    case (Cons t ts)
    have "tri (\<lambda>w. near (vBolt V) d (done' @ t # ts) (mem w)) (fixTicket V i wts t)
      (\<lambda>t' w. near (vBolt V) d ((done' @ [t']) @ ts) (mem w)) (\<lambda>w. good (vBolt V) d (mem w))"
      by (rule tri_conseq [OF fixTicket_near [OF B, where ts = "done' @ ts"]])
        (simp_all only: near_swap append.assoc append_Cons append_Nil, erule near_good)
    note fix_ = this
    show ?case
      unfolding forA.simps
      by (rule tri_bind [where ?N0.0 = "\<lambda>r w. case r of Next x \<Rightarrow> near (vBolt V) d (x @ ts) (mem w)
            | Return _ \<Rightarrow> good (vBolt V) d (mem w)"], rule tri_bind_keeps, (intro keeps_intros; fail), erule near_good,
          rule tri_if, rule tri_ret, simp, erule near_good, rule tri_bind [OF fix_], rule tri_ret, simp)
        (use Cons in \<open>auto split: flow.split intro: tri_ret\<close>)
  qed
  show ?thesis
    unfolding fixWallet_def
    by (rule tri_bind_keeps, (intro keeps_intros; fail), erule near_good, rule tri_if, rule tri_ret, simp, erule near_good,
        rule tri_try_keeps, (intro keeps_intros; fail), erule near_good, rule tri_ret, simp,
        rule tri_pre [OF loop [where done' = "[]"]], simp)
qed

lemma keeps_consistency:
  assumes B: "bolt_ok (vBolt V)"
  shows "keeps (\<lambda>w. good (vBolt V) d (mem w)) (checkWalletConsistency V)"
proof -
  have check: "tri (\<lambda>w. near (vBolt V) d ts (mem w))
      (bindA (forA (\<lambda>i _. bindA (canceled (vEnv V)) (\<lambda>c. if c then ret (Return ())
         else bindA (addAllMissing V ts h i) (\<lambda>_. ret (Next ())))) clients ()) (\<lambda>r.
     case r of
       Return _ \<Rightarrow> ret ()
     | Next _ \<Rightarrow> bindA (forA (fixWallet V h) clients ts) (\<lambda>_. ret ())))
      (\<lambda>_ w. good (vBolt V) d (mem w)) (\<lambda>w. good (vBolt V) d (mem w))" for ts h clients
  proof (rule tri_bind_keeps, intro keeps_intros keeps_ifs keeps_missing, erule near_good)
    fix r :: "(unit, unit) flow"
    have all: "tri (\<lambda>w. near (vBolt V) d ts (mem w)) (bindA (forA (fixWallet V h) clients ts) (\<lambda>_. ret ()))
        (\<lambda>_ w. good (vBolt V) d (mem w)) (\<lambda>w. good (vBolt V) d (mem w))"
      by (rule tri_bind [OF tri_for [OF fixWallet_near [OF B]]], rule tri_ret) (auto split: flow.splits simp: near_good)
    show "tri (\<lambda>w. near (vBolt V) d ts (mem w))
       (case r of Next _ \<Rightarrow> bindA (forA (fixWallet V h) clients ts) (\<lambda>_. ret ()) | Return _ \<Rightarrow> ret ())
        (\<lambda>_ w. good (vBolt V) d (mem w)) (\<lambda>w. good (vBolt V) d (mem w))"
      by (cases r) (simp_all add: all tri_ret near_good)
  qed
  show ?thesis
    unfolding checkWalletConsistency_def Let_def vspmMond_def
    by (rule keeps_try, intro keeps_intros, intro keeps_intros, rule keeps_bind, intro keeps_intros,
        rule keeps_case, rule keeps_ifs, rule keeps_ret,
        rule read_loop [where F = "\<lambda>t. FeeTxStatus t = FeeConfirmed \<and> Outcome t = []"], rule B,
        erule (1) GetVotableTickets_ret [OF B], rule keeps_ret, rule tri_if, rule tri_ret, erule near_good, rule check)
qed

section \<open>\<open>checkDatabaseIntegrity\<close> and \<open>Run\<close>\<close>

lemma keeps_heights:
  assumes B: "bolt_ok (vBolt V)"
  shows "keeps (\<lambda>w. good (vBolt V) d (mem w)) (checkPurchaseHeights V)"
proof -
  have u: "processes (vBolt V) d t (tryA (GetRawTransaction (vEnv V) (Hash t)) (\<lambda>_. ret ()) (\<lambda>tktTx.
       logged (commit (UpdateTicket (vBolt V) (t\<lparr>PurchaseHeight := rBlockHeight tktTx\<rparr>)))))"
    if t: "Confirmed t" "PurchaseHeight t = 0" for t
  proof (rule allI, rule tri_try_keeps, (intro keeps_intros; fail), erule near_tl, rule tri_ret, erule near_tl)
    fix ts and tx :: rawTx
    have "processes (vBolt V) d t (logged (commit (UpdateTicket (vBolt V) (t\<lparr>PurchaseHeight := rBlockHeight tx\<rparr>))))"
      using t by (intro logged_update [OF B]) (auto intro: move.height)
    then show "tri (\<lambda>w. near (vBolt V) d (t # ts) (mem w))
       (logged (commit (UpdateTicket (vBolt V) (t\<lparr>PurchaseHeight := rBlockHeight tx\<rparr>))))
       (\<lambda>_ w. near (vBolt V) d ts (mem w)) (\<lambda>w. near (vBolt V) d ts (mem w))" by (rule spec)
  qed
  show ?thesis
    unfolding checkPurchaseHeights_def bind_wrapA vspmMond_def
    by (rule read_loop [where F = "\<lambda>t. Confirmed t \<and> PurchaseHeight t = 0"], rule B,
        erule (1) GetMissingPurchaseHeight_ret [OF B], rule keeps_fail, rule tri_if, rule tri_ret, erule near_good,
        rule tri_bind_keeps, intro keeps_intros, erule near_good,
        rule each_near [where g = "\<lambda>t. t", simplified list.map_ident], rule u, blast+)
qed

lemma processes_ret: "processes B d t (ret ())"
  by (intro allI tri_ret) (erule near_tl)

lemma keeps_revoked:
  assumes B: "bolt_ok (vBolt V)"
  shows "keeps (\<lambda>w. good (vBolt V) d (mem w)) (checkRevoked V)"
proof -
  have scan: "tri (\<lambda>w. near (vBolt V) d ts (mem w))
      (tryA (findSpentTickets V ts lo) (\<lambda>e. failA (Wrapped p e)) (\<lambda>(spent, endHeight).
       eachA (\<lambda>s. if voted (vLib V) s then ret ()
         else logged (commit (UpdateTicket (vBolt V)
              ((dbTicket s)\<lparr>Outcome := (if missed s then Missed else Expired)\<rparr>)))) spent))
      (\<lambda>_ w. good (vBolt V) d (mem w)) (\<lambda>w. good (vBolt V) d (mem w))"
    if ts: "\<And>t. t \<in> set ts \<Longrightarrow> Outcome t = Revoked" for ts lo p
  proof (rule spent_near, simp only: prod.case)
    fix spent :: "spentTicket list"
    assume s: "\<And>x. x \<in> set spent \<Longrightarrow> dbTicket x \<in> set ts"
    have "processes (vBolt V) d (dbTicket x) (if voted (vLib V) x then ret ()
         else logged (commit (UpdateTicket (vBolt V) ((dbTicket x)\<lparr>Outcome := (if missed x then Missed else Expired)\<rparr>))))"
      if "x \<in> set spent" for x
    proof (cases "voted (vLib V) x")
      case True
      then show ?thesis unfolding if_P [OF True] by (intro processes_ret)
    next
      case False
      then show ?thesis
        unfolding if_not_P [OF False] by (intro outcome_near [OF B]) (simp add: ts [OF s [OF that]])
    qed
    then show "tri (\<lambda>w. near (vBolt V) d (map dbTicket spent) (mem w))
       (eachA (\<lambda>s. if voted (vLib V) s then ret () else logged (commit (UpdateTicket (vBolt V)
         ((dbTicket s)\<lparr>Outcome := (if missed s then Missed else Expired)\<rparr>)))) spent)
       (\<lambda>_ w. good (vBolt V) d (mem w)) (\<lambda>w. good (vBolt V) d (mem w))"
      by (rule each_near)
  qed (rule keeps_fail)
  show ?thesis
    unfolding checkRevoked_def bind_wrapA Let_def vspmMond_def
    by (rule read_loop [where F = "\<lambda>t. Outcome t = Revoked"], rule B,
        erule (1) GetRevokedTickets_ret [OF B], rule keeps_fail, rule tri_if, rule tri_ret, erule near_good,
        rule tri_bind_keeps, intro keeps_intros, erule near_good, rule scan)
qed

lemma keeps_integrity: "bolt_ok (vBolt V) \<Longrightarrow> keeps (\<lambda>w. good (vBolt V) d (mem w)) (checkDatabaseIntegrity V)"
  unfolding checkDatabaseIntegrity_def
  by (intro keeps_bind keeps_wrapA keeps_heights keeps_revoked)

lemma keeps_runLoop: "bolt_ok (vBolt V) \<Longrightarrow> keeps (\<lambda>w. good (vBolt V) d (mem w)) (runLoop V sigs)"
  by (induction V sigs rule: runLoop.induct)
    (simp_all add: keeps_intros keeps_update keeps_consistency vspmMond_def)

lemma keeps_Run:
  assumes B: "bolt_ok (vBolt V)"
  shows "keeps (\<lambda>w. good (vBolt V) d (mem w)) (Run V sigs)"
  unfolding Run_def runStart_def
  by (intro keeps_intros keeps_ifs keeps_integrity keeps_update keeps_consistency keeps_runLoop B)

end
