(* ===== verification/System.thy ===== *)
theory System
  imports VspmSteps Migration
begin

text \<open>
  The whole program: the web server and the background task on one database. A step of the
  system is one request served, one refresh of the cached statistics, the start of the
  background task or one signal it handles; between steps the environment may add events of its
  own and drop connections. Requests and signals are whole steps here; what their interleaving
  inside can do is the subject of \<open>Race\<close>.
\<close>

section \<open>Simulation\<close>

text \<open>
  The interface between a transition system with a database and the specification \<open>db_steps\<close>:
  an invariant under which every step is simulated.
\<close>

text \<open>What stays of a ticket whose fee is confirmed.\<close>

definition settled :: "ticket \<Rightarrow> ticket \<Rightarrow> bool" where
  "settled t t' \<longleftrightarrow> FeeTxStatus t' = FeeConfirmed \<and> Hash t' = Hash t \<and> CommitmentAddress t' = CommitmentAddress t \<and>
     FeeAddress t' = FeeAddress t \<and> FeeAddressIndex t' = FeeAddressIndex t \<and> FeeTxHash t' = FeeTxHash t \<and>
     VotingWIF t' = VotingWIF t \<and> FeeAmount t' = FeeAmount t \<and>
     (Outcome t \<notin> {[], Revoked} \<longrightarrow> Outcome t' = Outcome t)"

lemma settled_move: "move t t' \<Longrightarrow> FeeTxStatus t = FeeConfirmed \<Longrightarrow> settled t t'"
  by (induction rule: move.induct) (auto simp: settled_def feeAccepted_def)

locale simulated =
  fixes step :: "'w \<Rightarrow> 'w \<Rightarrow> bool" and abs :: "'w \<Rightarrow> dbst" and inv :: "'w \<Rightarrow> bool"
  assumes step_inv: "inv w \<Longrightarrow> step w w' \<Longrightarrow> inv w'"
    and step_sim: "inv w \<Longrightarrow> step w w' \<Longrightarrow> db_steps (abs w) (abs w')"
    and inv_tickets: "inv w \<Longrightarrow> dTickets (abs w) h = Some t \<Longrightarrow> ticket_inv t"
begin

lemma run_inv:
  assumes "step\<^sup>*\<^sup>* w w'" "inv w"
  shows "inv w' \<and> db_steps (abs w) (abs w')"
  using assms
proof (induction rule: rtranclp_induct)
  case base
  then show ?case by (simp add: db_steps.start)
next
  case (step y z)
  then show ?case using step_inv step_sim db_steps_trans by blast
qed

text \<open>A relation that moves respect holds between any two states of a confirmed ticket.\<close>

lemma run_ticket:
  assumes "step\<^sup>*\<^sup>* w w'" "inv w" "dTickets (abs w) h = Some t" "Confirmed t"
    "\<And>u. R u u" "\<And>a b c. move b c \<Longrightarrow> R a b \<Longrightarrow> R a c"
  shows "\<exists>t'. dTickets (abs w') h = Some t' \<and> Confirmed t' \<and> R t t'"
proof -
  have "db_steps (abs w) (abs w')" using run_inv [OF assms(1,2)] by simp
  then obtain t' where "dTickets (abs w') h = Some t'" "Confirmed t'" "R t t'"
    by (rule db_steps_ticket [where R = R, OF _ assms(3-5)]) (erule (1) assms(6))
  then show ?thesis by blast
qed

lemma run_paid:
  assumes run: "step\<^sup>*\<^sup>* w w'" and inv: "inv w" and t: "dTickets (abs w) h = Some t" "FeeTxStatus t = FeeConfirmed"
  shows "\<exists>t'. dTickets (abs w') h = Some t' \<and> settled t t'"
proof -
  have c: "Confirmed t" using inv_tickets [OF inv t(1)] t(2) by (simp add: ticket_inv_def)
  define R where "R a b \<longleftrightarrow> (FeeTxStatus a = FeeConfirmed \<longrightarrow> settled a b)" for a b :: ticket
  have "R u u" for u by (simp add: R_def settled_def)
  moreover have "R x z" if "move y z" "R x y" for x y z
    using that settled_move [of y z] unfolding R_def settled_def by simp
  ultimately show ?thesis
    using run_ticket [OF run inv t(1) c, of R] t(2) by (auto simp: R_def)
qed

end

section \<open>The system\<close>

inductive sys_step :: "('s, 'x, 'f) api \<Rightarrow> ('s, 'x, 'f) vspm \<Rightarrow> 's world \<Rightarrow> 's world \<Rightarrow> bool" for W V where
  request: "hs \<in> routes W \<Longrightarrow> serve hs body sig w = (r, w') \<Longrightarrow> sys_step W V w w'"
| refresh: "cacheUpdate W w = (r, w') \<Longrightarrow> sys_step W V w w'"
| launch: "runStart V w = (r, w') \<Longrightarrow> sys_step W V w w'"
| signal: "runLoop V [s] w = (r, w') \<Longrightarrow> sys_step W V w w'"
| env: "sys_step W V w (w\<lparr>events := events w @ es, conns := cs\<rparr>)"

inductive_cases sys_stepE: "sys_step W V w w'"

text \<open>Both parts are given the same database.\<close>

definition sys_inv :: "('s, 'x, 'f) api \<Rightarrow> ('s, 'x, 'f) vspm \<Rightarrow> 's world \<Rightarrow> bool" where
  "sys_inv W V w \<longleftrightarrow> api_ok W \<and> vBolt V = wBolt W \<and> db_wf (wBolt W) (wdb w) \<and> tickets_inv (wBolt W) (wdb w)"

definition sys_abs :: "('s, 'x, 'f) api \<Rightarrow> 's world \<Rightarrow> dbst" where
  "sys_abs W w = absDb (wBolt W) (wdb w)"

lemma sys_inv_good: "sys_inv W V w \<longleftrightarrow> api_ok W \<and> vBolt V = wBolt W \<and> good (wBolt W) (sys_abs W w) (mem w)"
  by (auto simp: sys_inv_def good_def sys_abs_def mem_def intro: db_steps.start)

lemma keeps_runStart: "bolt_ok (vBolt V) \<Longrightarrow> keeps (\<lambda>w. good (vBolt V) d (mem w)) (runStart V)"
  unfolding runStart_def
  by (intro keeps_intros keeps_ifs keeps_integrity keeps_update keeps_consistency)

lemma sys_step_good:
  assumes W: "api_ok W" "vBolt V = wBolt W" and step: "sys_step W V w w'" and g: "good (wBolt W) d (mem w)"
  shows "good (wBolt W) d (mem w')"
proof -
  have B: "bolt_ok (wBolt W)" "bolt_ok (vBolt V)" using W by (simp_all add: api_ok_def)
  from step show ?thesis
  proof (cases rule: sys_step.cases)
    case request
    show ?thesis by (rule keepsD [OF routes_keep [OF W(1) request(1)] g request(2)])
  next
    case refresh
    show ?thesis by (rule keepsD [OF keeps_clients [of "good (wBolt W) d"] g refresh])
  next
    case launch
    show ?thesis using keepsD [OF keeps_runStart [OF B(2)] _ launch] g W(2) by simp
  next
    case signal
    show ?thesis using keepsD [OF keeps_runLoop [OF B(2)] _ signal] g W(2) by simp
  next
    case env
    then show ?thesis using g by simp
  qed
qed

interpretation sys: simulated "sys_step W V" "sys_abs W" "sys_inv W V"
  for W :: "('s, 'x, 'f) api" and V :: "('s, 'x, 'f) vspm"
proof
  fix w w' h t
  show "sys_inv W V w'" if inv: "sys_inv W V w" and step: "sys_step W V w w'"
  proof -
    have "good (wBolt W) (sys_abs W w) (mem w')"
      using sys_step_good [OF _ _ step] inv by (simp add: sys_inv_good)
    then show ?thesis using inv by (simp add: sys_inv_def good_def mem_def)
  qed
  show "db_steps (sys_abs W w) (sys_abs W w')" if inv: "sys_inv W V w" and step: "sys_step W V w w'"
  proof -
    have "good (wBolt W) (sys_abs W w) (mem w')"
      using sys_step_good [OF _ _ step] inv by (simp add: sys_inv_good)
    then show ?thesis by (simp add: good_def mem_def sys_abs_def)
  qed
  show "ticket_inv t" if "sys_inv W V w" "dTickets (sys_abs W w) h = Some t"
    using that by (auto simp: sys_inv_def sys_abs_def tickets_inv_def)
qed

end
