(* ===== verification/Allocation.thy ===== *)
theory Allocation
  imports ServerSteps
begin

text \<open>
  Fee addresses are not handed out twice: the counter of the address generator moves past every
  index in use, and the index of a new ticket is recorded before the ticket is stored.
\<close>

section \<open>The counter\<close>

lemma of_nat_less_word:
  "unat (i :: uint32) + d < 2 ^ 32 \<Longrightarrow> 1 \<le> d \<Longrightarrow> i < i + of_nat d"
  by (simp add: word_less_nat_alt unat_word_ariths unat_of_nat)

lemma nextAddress_steps:
  assumes "nextAddress l g = (r, j)" "unat (lastUsedIndex g) + 3 < 2 ^ 32"
  shows "lastUsedIndex g < j" "unat j \<le> unat (lastUsedIndex g) + 3"
    "r = Ok (addr, k) \<Longrightarrow> k = j \<and> (\<exists>x. lbChild l (external g) j = Child x \<and> lbKeyAddress l x = Inr addr)"
proof -
  obtain x where x: "nextKey l (external g) (lastUsedIndex g) 0 = (x, j)"
    "r = andThen x (\<lambda>k. andThen (fromSum (lbKeyAddress l k)) (\<lambda>addr. Ok (addr, j)))"
    using assms(1) by (auto simp: nextAddress_def split: prod.splits)
  obtain d where d: "1 \<le> d" "d + 0 \<le> 3" "j = lastUsedIndex g + of_nat d"
    "\<And>k. x = Ok k \<Longrightarrow> lbChild l (external g) j = Child k"
    by (rule nextKey_steps [OF x(1)]) auto
  show "lastUsedIndex g < j" using d assms(2) by (simp add: of_nat_less_word)
  show "unat j \<le> unat (lastUsedIndex g) + 3"
    using d assms(2) by (simp add: unat_word_ariths unat_of_nat)
  show "r = Ok (addr, k) \<Longrightarrow> k = j \<and> (\<exists>x. lbChild l (external g) j = Child x \<and> lbKeyAddress l x = Inr addr)"
    using x(2) d(4) by (auto simp: outcome_simps)
qed

section \<open>Indexes in use\<close>

text \<open>
  The tickets whose fee address comes from the key \<open>cur\<close> have indexes up to the counter, and no
  two of them the same.
\<close>

definition indexed :: "'s bolt \<Rightarrow> uint32 \<Rightarrow> 's \<times> uint32 \<Rightarrow> bool" where
  "indexed B cur m \<longleftrightarrow> db_wf B (fst m) \<and>
     (\<forall>h t. tickets B (fst m) h = Some t \<and> FeeAddressXPubID t = cur \<longrightarrow> FeeAddressIndex t \<le> snd m) \<and>
     (\<forall>h h' t t'. tickets B (fst m) h = Some t \<and> tickets B (fst m) h' = Some t' \<and> FeeAddressXPubID t = cur \<and>
        FeeAddressXPubID t' = cur \<and> FeeAddressIndex t = FeeAddressIndex t' \<longrightarrow> h = h')"

definition below :: "'s bolt \<Rightarrow> uint32 \<Rightarrow> uint32 \<Rightarrow> 's \<times> uint32 \<Rightarrow> bool" where
  "below B cur j m \<longleftrightarrow> indexed B cur m \<and> snd m = j \<and>
     (\<forall>h t. tickets B (fst m) h = Some t \<and> FeeAddressXPubID t = cur \<longrightarrow> FeeAddressIndex t < j)"

lemma below_indexed: "below B cur j m \<Longrightarrow> indexed B cur m"
  by (simp add: below_def)

lemma indexed_below: "indexed B cur (s, i) \<Longrightarrow> i < j \<Longrightarrow> below B cur j (s, j)"
  by (fastforce simp: below_def indexed_def intro: order.strict_implies_order order.strict_trans1)

text \<open>The counter is written first, then the database, then the ticket.\<close>

lemma getNewFeeAddress_below:
  fixes W :: "('s, 'x, 'f) api"
  assumes B: "bolt_ok (wBolt W)"
  shows "tri (\<lambda>w. indexed (wBolt W) cur (mem w) \<and> unat (lastIdx w) + 3 < 2 ^ 32) (getNewFeeAddress W)
    (\<lambda>(addr, j) w. below (wBolt W) cur j (mem w)) (\<lambda>w. indexed (wBolt W) cur (mem w))"
proof (rule triI)
  fix w :: "'s world" assume w: "indexed (wBolt W) cur (mem w) \<and> unat (lastIdx w) + 3 < 2 ^ 32"
  let ?g = "(wAddrGen W)\<lparr>lastUsedIndex := lastIdx w\<rparr>"
  obtain r j where r: "nextAddress (wLib W) ?g = (r, j)" by (cases "nextAddress (wLib W) ?g")
  have lt: "lastIdx w < j" using nextAddress_steps(1) [OF r] w by simp
  have b: "below (wBolt W) cur j (wdb w, j)"
    using indexed_below [of "wBolt W" cur "wdb w" "lastIdx w" j] w lt by (simp add: mem_def)
  have com: "below (wBolt W) cur j (s', j)" if Ok: "SetLastAddressIndex (wBolt W) j (wdb w) = Ok s'" for s'
  proof -
    have wf: "db_wf (wBolt W) (wdb w)" using w by (simp add: indexed_def mem_def)
    obtain x where "db_wf (wBolt W) s'"
      "absDb (wBolt W) s' = (absDb (wBolt W) (wdb w))\<lparr>dXpubs := (xpubs (wBolt W) (wdb w))(xID x \<mapsto> x\<lparr>xLastUsedIdx := j\<rparr>)\<rparr>"
      by (rule SetLastAddressIndex_abs [OF B wf Ok]) blast
    then have "tickets (wBolt W) s' = tickets (wBolt W) (wdb w)"
      by (metis absDb_simps(1) dbst.select_convs(1) dbst.surjective dbst.update_convs(4))
    with b \<open>db_wf (wBolt W) s'\<close> show ?thesis by (simp add: below_def indexed_def, blast)
  qed
  show "case getNewFeeAddress W w of
      (Ok a, w') \<Rightarrow> (case a of (addr, j) \<Rightarrow> \<lambda>w. below (wBolt W) cur j (mem w)) w'
    | (_, w') \<Rightarrow> indexed (wBolt W) cur (mem w')"
  proof (cases r)
    case (Ok ai)
    obtain addr k where ai: "ai = (addr, k)" by (cases ai)
    have k: "k = j" using nextAddress_steps(3) [OF r, of addr k] w Ok ai by simp
    show ?thesis
      using b com below_indexed [OF b]
      by (cases "SetLastAddressIndex (wBolt W) j (wdb w)")
        (simp_all add: getNewFeeAddress_def bindA_def peek_def putIdx_def r Ok ai k lift_def commit_def ret_def mem_def)
  qed (use below_indexed [OF b] in \<open>simp_all add: getNewFeeAddress_def bindA_def peek_def putIdx_def r lift_def mem_def\<close>)
qed

lemma below_insert:
  assumes B: "bolt_ok B" and b: "below B cur j (s, i)" and t: "ticket_ok t" "FeeAddressXPubID t = cur" "FeeAddressIndex t = j"
    and Ok: "InsertNewTicket B t s = Ok s'"
  shows "indexed B cur (s', i)" "tickets B s (Hash t) = None" "tickets B s' = (tickets B s)(Hash t \<mapsto> stored_ticket t)"
proof -
  have wf: "db_wf B s" using b by (simp add: below_def indexed_def)
  note a = InsertNewTicket_abs [OF B wf t(1) Ok]
  have ts: "tickets B s' = (tickets B s)(Hash t \<mapsto> stored_ticket t)"
    using a by (metis absDb_simps(1) dbst.select_convs(1) dbst.surjective dbst.update_convs(1))
  have st: "FeeAddressXPubID (stored_ticket t) = cur" "FeeAddressIndex (stored_ticket t) = j"
    using t by (simp_all add: stored_ticket_def)
  have new: "FeeAddressIndex u < j" if "tickets B s h = Some u" "FeeAddressXPubID u = cur" for h u
    using b that by (simp add: below_def)
  show "indexed B cur (s', i)"
    using b a st new by (fastforce simp: below_def indexed_def ts split: if_splits)
  show "tickets B s (Hash t) = None" using a by blast
  show "tickets B s' = (tickets B s)(Hash t \<mapsto> stored_ticket t)" by (rule ts)
qed

lemma registerTicket_indexed:
  fixes W :: "('s, 'x, 'f) api"
  assumes B: "bolt_ok (wBolt W)" and cur: "cur = feeXPubID (wAddrGen W)"
  shows "tri (\<lambda>w. indexed (wBolt W) cur (mem w) \<and> unat (lastIdx w) + 3 < 2 ^ 32) (registerTicket W rb h ca raw c)
    (\<lambda>_ w. indexed (wBolt W) cur (mem w)) (\<lambda>w. indexed (wBolt W) cur (mem w))"
proof -
  let ?P = "\<lambda>w. indexed (wBolt W) cur (mem w) \<and> unat (lastIdx w) + 3 < 2 ^ 32"
  have P: "keeps ?P m" if "\<And>Q. keeps (\<lambda>w. Q (mem w)) m" for m :: "('s, 'a) act"
    using that [of "\<lambda>m. indexed (wBolt W) cur m \<and> unat (snd m) + 3 < 2 ^ 32"] by (simp add: mem_def)
  have insert: "tri (\<lambda>w. below (wBolt W) cur (snd addrIdx) (mem w))
      (tryA (commit (InsertNewTicket (wBolt W) (newTicket h ca raw addrIdx (feeXPubID (wAddrGen W)) fee e)))
        (\<lambda>_. sendError W er c) k)
      (\<lambda>_ w. indexed (wBolt W) cur (mem w)) (\<lambda>w. indexed (wBolt W) cur (mem w))"
    if "\<And>u P. keeps (\<lambda>w. P (mem w)) (k u)" for addrIdx fee e er k
  proof (rule tri_try_commit [where Q = "\<lambda>w. indexed (wBolt W) cur (mem w)"])
    fix w s' assume b: "below (wBolt W) cur (snd addrIdx) (mem w)"
      and Ok: "InsertNewTicket (wBolt W) (newTicket h ca raw addrIdx (feeXPubID (wAddrGen W)) fee e) (wdb w) = Ok s'"
    have "FeeAddressXPubID (newTicket h ca raw addrIdx (feeXPubID (wAddrGen W)) fee e) = cur"
      "FeeAddressIndex (newTicket h ca raw addrIdx (feeXPubID (wAddrGen W)) fee e) = snd addrIdx"
      by (simp_all add: newTicket_def Let_def cur)
    from below_insert(1) [OF B b [unfolded mem_def] newTicket_fresh(1) this Ok]
    show "indexed (wBolt W) cur (mem (w\<lparr>wdb := s', events := events w @ [Wrote s']\<rparr>))" by (simp add: mem_def)
  qed (auto intro: below_indexed tri_leaf [OF keeps_send(2)] tri_keeps that)
  show ?thesis
    unfolding registerTicket_def Let_def
  proof (rule tri_try_keeps, rule P, intro keeps_intros, erule conjunct1)
    fix e
    show "tri ?P (sendError W ErrInternalError c) (\<lambda>_ w. indexed (wBolt W) cur (mem w)) (\<lambda>w. indexed (wBolt W) cur (mem w))"
      by (rule tri_leaf, rule P, intro keeps_intros, erule conjunct1)
  next
    fix fee
    show "tri ?P (tryA (getNewFeeAddress W) (\<lambda>_. sendError W ErrInternalError c) (\<lambda>addrIdx.
       bindA (now (wEnv W)) (\<lambda>n.
       tryA (commit (InsertNewTicket (wBolt W)
           (newTicket h ca raw addrIdx (feeXPubID (wAddrGen W)) fee (unixOf (n + feeAddressExpiration)))))
         (\<lambda>_. sendError W ErrInternalError c) (\<lambda>_.
       bindA (sendJSONResponse W (Inr (feeAddressJSON (unixOf n) (fst addrIdx) fee (unixOf (n + feeAddressExpiration)) (base64 rb))) c)
       (\<lambda>(c', _). ret c')))))
      (\<lambda>_ w. indexed (wBolt W) cur (mem w)) (\<lambda>w. indexed (wBolt W) cur (mem w))"
    proof (rule tri_try [OF getNewFeeAddress_below [OF B]])
      fix e
      show "tri (\<lambda>w. indexed (wBolt W) cur (mem w)) (sendError W ErrInternalError c)
        (\<lambda>_ w. indexed (wBolt W) cur (mem w)) (\<lambda>w. indexed (wBolt W) cur (mem w))"
        by (rule tri_keeps, intro keeps_intros)
    next
      fix a :: "string \<times> uint32"
      have "(case a of (addr, j) \<Rightarrow> \<lambda>w. below (wBolt W) cur j (mem w)) = (\<lambda>w. below (wBolt W) cur (snd a) (mem w))"
        by (cases a) simp
      then show "tri ((case a of (addr, j) \<Rightarrow> \<lambda>w. below (wBolt W) cur j (mem w)))
         (bindA (now (wEnv W)) (\<lambda>n.
          tryA (commit (InsertNewTicket (wBolt W)
             (newTicket h ca raw a (feeXPubID (wAddrGen W)) fee (unixOf (n + feeAddressExpiration)))))
            (\<lambda>_. sendError W ErrInternalError c) (\<lambda>_.
          bindA (sendJSONResponse W (Inr (feeAddressJSON (unixOf n) (fst a) fee (unixOf (n + feeAddressExpiration)) (base64 rb))) c)
          (\<lambda>(c', _). ret c'))))
        (\<lambda>_ w. indexed (wBolt W) cur (mem w)) (\<lambda>w. indexed (wBolt W) cur (mem w))"
        by (simp only:) (rule tri_bind_keeps, intro keeps_intros, erule below_indexed, rule insert, intro keeps_intros)
    qed
  qed
qed

end
