(* ===== verification/Race.thy ===== *)
theory Race
  imports System
begin

text \<open>
  Requests and updates run on different threads, and a ticket is read in one transaction and
  written in another. This theory shows what can happen in between: the update of unconfirmed
  tickets writes back the ticket it read, and a fee accepted since then is lost.
\<close>

text \<open>No sequence of steps of the specification forgets a received fee.\<close>

lemma move_keeps_fee: "move t t' \<Longrightarrow> FeeTxStatus t \<noteq> NoFee \<Longrightarrow> FeeTxStatus t' \<noteq> NoFee"
  by (induction rule: move.induct) (auto simp: feeAccepted_def)

lemma step_keeps_fee:
  assumes "db_step d d'" "dTickets d h = Some u" "FeeTxStatus u \<noteq> NoFee" "dTickets d' h = Some t'"
  shows "FeeTxStatus t' \<noteq> NoFee"
  using assms
proof (cases rule: db_step.cases)
  case (ticket k t t2)
  then show ?thesis using assms(2-) move_keeps_fee [of t t2] by (cases "h = k") auto
qed (auto split: if_splits)

lemma confirm_overwrites:
  assumes B: "bolt_ok (vBolt V)" and wf: "db_wf (vBolt V) (wdb w)" and t: "ticket_ok t"
    and reply: "vEnv V (events w) (Call Mond ''getrawtransaction'' [AStr (Hash t), AInt 1]) = Inr (RRaw raw)"
      "sint (rConfirmations raw) \<ge> 6"
    and Ok: "UpdateTicket (vBolt V) (t\<lparr>PurchaseHeight := rBlockHeight raw, Confirmed := True\<rparr>) (wdb w) = Ok s'"
    and run: "confirmTicket V t w = (r, w')"
  shows "wdb w' = s' \<and> tickets (vBolt V) (wdb w') (Hash t) =
    Some (stored_ticket (t\<lparr>PurchaseHeight := rBlockHeight raw, Confirmed := True\<rparr>))"
proof -
  let ?t = "t\<lparr>PurchaseHeight := rBlockHeight raw, Confirmed := True\<rparr>"
  have "ticket_ok ?t" using t by simp
  from UpdateTicket_abs [OF B wf this Ok]
  have "tickets (vBolt V) s' = (tickets (vBolt V) (wdb w))(Hash ?t \<mapsto> stored_ticket ?t)"
    by (metis absDb_simps(1) dbst.select_convs(1) dbst.surjective dbst.update_convs(1))
  moreover have "wdb w' = s'"
    using run reply Ok
    by (auto simp: confirmTicket_def GetRawTransaction_def askRaw_def ask_def bindA_def tryA_def ret_def logged_def
        commit_def Vspm.requiredConfs_def)
  ultimately show ?thesis by simp
qed

end
