(* ===== verification/DemoApi.thy ===== *)
theory DemoApi
  imports DatabaseProps Responses Payments System Allocation Race
begin

text \<open>
  A concrete program for the witnesses: the database of \<open>Demo\<close>, a chain library of simple
  functions, a gin that binds nothing or one fixed request, and the answers of the remote sides.
\<close>

section \<open>A library\<close>

definition demo_script :: "uint16 \<times> bytes" where
  "demo_script = (0, ''s'')"

text \<open>Every transaction has one output of 500 to the script, and every ticket three outputs.\<close>

definition demo_out :: txOut where
  "demo_out = \<lparr>outValue = 500, outVersion = 0, outPkScript = ''s''\<rparr>"

definition demo_tx :: msgTx where
  "demo_tx = \<lparr>txHash = ''h'', txIns = [], txOuts = [demo_out]\<rparr>"

definition demo_header :: header where
  "demo_header = \<lparr>hdHash = ''b'', hdHeight = 9, hdSBits = 3, hdPoolSize = 1\<rparr>"

definition demo_lib :: "(nat, unit) lib" where
  "demo_lib = \<lparr>lbFromBytes = (\<lambda>b. Inr demo_tx), lbHashStr = (\<lambda>h. h), lbHashOf = Inr,
     lbHeader = (\<lambda>b. Inr demo_header), lbBlock = (\<lambda>b. Inr \<lparr>blkSTransactions = []\<rparr>), lbFilter = (\<lambda>b. Inr ()),
     lbVerifyInclusion = (\<lambda>h f i hs. True), lbFilterKey = (\<lambda>h. ''k''), lbMatchAny = (\<lambda>f k s. True),
     lbBitsetGet = (\<lambda>b i. Ok True), lbSanity = (\<lambda>tx. None), lbDecodeAddress = (\<lambda>a. Inr demo_script),
     lbAddressKind = (\<lambda>a. Inr True), lbDecodeWIF = (\<lambda>s. Inr \<lparr>wifString = s, wifPubKey = ''p''\<rparr>),
     lbVotingScript = (\<lambda>p. Inr demo_script), lbIsSStx = (\<lambda>tx. True), lbIsSSGen = (\<lambda>tx. False),
     lbCommitmentAddr = (\<lambda>p. Inr ''c''), lbVerifyMessage = (\<lambda>a sg m. if sg = ''ok'' then None else Some (Plain ''bad'')),
     lbKeyFromString = (\<lambda>k. Inr 0), lbIsPrivate = (\<lambda>k. False),
     lbChild = (\<lambda>k i. if i = 1 then InvalidChild else Child (k + 1)), lbKeyAddress = (\<lambda>k. Inr ''addr''),
     lbTicketFee = (\<lambda>a b h x y. 100)\<rparr>"

definition demo_net :: network where
  "demo_net = \<lparr>netName = ''testnet'', netID = 5, TicketMaturity = 16, TicketExpiry = 6144,
     Deployments = [(9, [(''agenda'', [''yes'', ''no''])])], DCP0005Height = 1, DCP0010Height = 1, DCP0012Height = 1\<rparr>"

definition demo_payReq :: payFeeRequest where
  "demo_payReq = \<lparr>pfTimestamp = 7, pfTicketHash = ''aa'', pfFeeTx = ''00'', pfVotingKey = ''wif'',
     pfVoteChoices = Some [], pfTSpendPolicy = Some [], pfTreasuryPolicy = Some []\<rparr>"

definition demo_choiceReq :: setVoteChoicesRequest where
  "demo_choiceReq = \<lparr>vcTimestamp = 8, vcTicketHash = ''aa'', vcVoteChoices = Some [(''agenda'', ''yes'')],
     vcTSpendPolicy = Some [], vcTreasuryPolicy = Some []\<rparr>"

definition demo_gin :: gin where
  "demo_gin = \<lparr>bindHash = (\<lambda>b. Inr (replicate 64 CHR ''a'')), bindBroadcast = (\<lambda>b. Inl (Plain ''bad'')),
     bindFeeAddress = (\<lambda>b. Inl (Plain ''bad'')), bindPayFee = (\<lambda>b. Inr demo_payReq),
     bindSetVoteChoices = (\<lambda>b. Inr demo_choiceReq), bindSetAltSignAddr = (\<lambda>b. Inl (Plain ''bad''))\<rparr>"

lemma demo_texts: "valid_utf8 ''agenda''" "valid_utf8 ''yes''"
  by (rule ascii_valid, simp)+

lemma demo_gin_ok: "gin_ok demo_gin"
  by (auto simp: gin_ok_def demo_gin_def demo_payReq_def demo_choiceReq_def strmap_ok_def gomap_ok_def entries_def
      demo_texts simp del: valid_utf8.simps)

section \<open>The program\<close>

text \<open>
  mond is connected and knows every transaction with ten confirmations, the clock stands at 0;
  nothing else is answered.
\<close>

definition demo_raw :: rawTx where
  "demo_raw = \<lparr>rHex = ''00'', rTxid = ''aa'', rConfirmations = 10, rBlockHash = ''b'', rBlockHeight = 33\<rparr>"

definition demo_env :: "flat env" where
  "demo_env es c = (case c of Call t m as \<Rightarrow>
     if t = Mond \<and> m = ''getrawtransaction'' then Inr (RRaw demo_raw)
     else if t = Mond \<and> m = ''done'' then Inr (RBool False)
     else if t = Clock then Inr (RInt 0)
     else Inl (Plain ''refused''))"

definition demo_api :: "(flat, nat, unit) api" where
  "demo_api = \<lparr>wBolt = ref_bolt, wEnv = demo_env, wLib = demo_lib, wGin = demo_gin, wNet = demo_net,
     wVspClosed = False, wSign = (\<lambda>b. ''sig''), wAddrGen = \<lparr>external = 0, lastUsedIndex = 0, feeXPubID = 0\<rparr>,
     wWallets = [0], wNotify = False, wMaxVoteChanges = 10\<rparr>"

definition demo_vspm :: "(flat, nat, unit) vspm" where
  "demo_vspm = \<lparr>vBolt = ref_bolt, vEnv = demo_env, vLib = demo_lib, vNet = demo_net, vWallets = [0]\<rparr>"

definition demo_world :: "flat \<Rightarrow> flat world" where
  "demo_world s = \<lparr>wdb = s, events = [], conns = (\<lambda>t. t = Mond), lastIdx = 0,
     cached = \<lparr>Initialized = False, nVoting = 0, nVoted = 0, nExpired = 0, nMissed = 0, nWalletsOnline = 0,
       nTotalWallets = 0, nBlockHeight = 0,
       nNetworkProportion = 0, nExpiredProportion = 0, nMissedProportion = 0\<rparr>, scanned = 0\<rparr>"

lemma demo_api_simps [simp]: "wBolt demo_api = ref_bolt" "wGin demo_api = demo_gin" "wLib demo_api = demo_lib"
    "wNet demo_api = demo_net" "vBolt demo_vspm = ref_bolt" "wVspClosed demo_api = False" "wEnv demo_api = demo_env"
    "vEnv demo_vspm = demo_env" "vLib demo_vspm = demo_lib" "vNet demo_vspm = demo_net"
    "feeXPubID (wAddrGen demo_api) = 0" "wdb (demo_world s) = s" "events (demo_world s) = []" "lastIdx (demo_world s) = 0"
  by (simp_all add: demo_api_def demo_vspm_def demo_world_def)

lemma demo_api_ok: "api_ok demo_api"
  by (simp add: api_ok_def demo_gin_ok ref_bolt_ok)

lemma demo_db_wf: "db_wf ref_bolt demo_db"
  using demo_wf by (simp add: db_wf_def)

lemma demo_db_inv: "tickets_inv ref_bolt demo_db"
  using demo_wf by (simp add: tickets_inv_def)

lemma demo_sys_inv: "sys_inv demo_api demo_vspm (demo_world demo_db)"
  by (simp add: sys_inv_def demo_api_ok demo_db_wf demo_db_inv)

text \<open>A ticket with a confirmed fee, in the database \<open>demo_ins\<close>.\<close>

lemma demo_ins_db_wf: "db_wf ref_bolt demo_ins"
  using InsertNewTicket_abs [OF ref_bolt_ok demo_db_wf demo_ticket_ok(1) demo_inserted] by simp

lemma demo_ins_tickets: "tickets ref_bolt demo_ins = [''aa'' \<mapsto> stored_ticket demo_ticket]"
  by (rule demo_ins_wf(2))

lemma demo_ticket_inv: "ticket_inv (stored_ticket demo_ticket)"
  by (simp add: ticket_inv_def stored_ticket_def demo_ticket_def zeroTicket_def)

lemma demo_ins_inv: "tickets_inv ref_bolt demo_ins"
  by (simp add: tickets_inv_def demo_ins_tickets demo_ticket_inv split: if_splits)

lemma demo_ins_sys_inv: "sys_inv demo_api demo_vspm (demo_world demo_ins)"
  by (simp add: sys_inv_def demo_api_ok demo_ins_db_wf demo_ins_inv)

section \<open>A payment\<close>

text \<open>The ticket of the requests, with a fee address and no payment yet.\<close>

definition demo_unpaid :: ticket where
  "demo_unpaid = zeroTicket\<lparr>Hash := replicate 64 CHR ''a'', FeeAddress := ''addr'', FeeAmount := 100,
     FeeExpiration := 10, FeeTxStatus := NoFee, VoteChoices := Some [], TSpendPolicy := Some [], TreasuryPolicy := Some []\<rparr>"

lemma demo_unpaid_simps [simp]: "Hash demo_unpaid = replicate 64 CHR ''a''" "FeeTxStatus demo_unpaid = NoFee"
    "Confirmed demo_unpaid = False" "Outcome demo_unpaid = []" "FeeAmount demo_unpaid = 100"
    "FeeAddress demo_unpaid = ''addr''" "FeeExpiration demo_unpaid = 10"
  by (simp_all add: demo_unpaid_def zeroTicket_def)

lemma demo_unpaid_ok: "ticket_ok demo_unpaid" "stored_ticket demo_unpaid = demo_unpaid" "fresh demo_unpaid"
  by (simp_all add: ticket_ok_def demo_unpaid_def zeroTicket_def strmap_ok_def gomap_ok_def entries_def
      stored_ticket_def stored_map_def fresh_def)

definition demo_reg :: flat where
  "demo_reg = (case InsertNewTicket ref_bolt demo_unpaid demo_db of Ok s \<Rightarrow> s | _ \<Rightarrow> [])"

lemma demo_registered: "InsertNewTicket ref_bolt demo_unpaid demo_db = Ok demo_reg"
proof -
  have "key_ok (Hash demo_unpaid)" by (simp add: key_ok_def)
  moreover have "val_ok v" if "(k, v) \<in> set (ticketFields demo_unpaid)" for k v
    using that by (auto simp: ticketFields_def demo_unpaid_def zeroTicket_def val_ok_def
      NoFee_def stringMapToBytes_def boolToBytes_def object_text_def)
  ultimately have "\<exists>s'. InsertNewTicket ref_bolt demo_unpaid demo_db = Ok s'"
    by (intro InsertNewTicket_succeeds [OF ref_bolt_ok ref_disk_ok demo_wf(1)]) (auto simp: demo_wf)
  then show ?thesis by (auto simp: demo_reg_def)
qed

lemma demo_reg_wf: "db_wf ref_bolt demo_reg"
  using InsertNewTicket_abs [OF ref_bolt_ok demo_db_wf demo_unpaid_ok(1) demo_registered] by simp

lemma demo_reg_tickets: "tickets ref_bolt demo_reg = [replicate 64 CHR ''a'' \<mapsto> demo_unpaid]"
  using tdb.ins_Ok [OF ref_bolt_ok demo_wf(1) demo_unpaid_ok(1) demo_registered]
  by (simp add: demo_wf demo_unpaid_ok)

lemma demo_reg_inv: "tickets_inv ref_bolt demo_reg"
  using fresh_inv [OF demo_unpaid_ok(3)] by (auto simp: tickets_inv_def demo_reg_tickets split: if_splits)

lemma demo_reg_found: "GetTicketByHash ref_bolt (replicate 64 CHR ''a'') demo_reg = Ok (demo_unpaid, True)"
  using GetTicketByHash_spec [OF ref_bolt_ok ref_disk_ok, of demo_reg "replicate 64 CHR ''a''"] demo_reg_wf
  by (simp add: demo_reg_tickets db_wf_def)

text \<open>The payment of \<open>demo_payReq\<close> is accepted.\<close>

definition demo_paid :: ticket where
  "demo_paid = demo_unpaid\<lparr>VotingWIF := ''wif'', FeeTxHex := ''00'', FeeTxHash := ''h'', FeeTxStatus := FeeReceieved\<rparr>"

lemma demo_check: "checkPayment demo_lib demo_net demo_payReq demo_raw demo_unpaid = Ok (Inr demo_paid)"
  by (simp add: checkPayment_def orRefuse_def demo_lib_def demo_payReq_def demo_raw_def demo_script_def demo_tx_def
      demo_out_def decodeTransaction_def hexDecodeE_def hexVal_def Let_def index_def acceptFee_def demo_paid_def
      validConsensusVoteChoices_def validTreasuryPolicy_def validTSpendPolicy_def entries_def demo_unpaid_def
      zeroTicket_def)

text \<open>What serving the payment does.\<close>

lemma demo_env_asks [simp]: "demo_env es (Call Clock m as) = Inr (RInt 0)" 
  "demo_env es (Call Mond ''getrawtransaction'' as) = Inr (RRaw demo_raw)"
  "demo_env es (Call Mond ''done'' as) = Inr (RBool False)"
  by (simp_all add: demo_env_def)

lemma demo_mond: "conns w Mond \<Longrightarrow> mondClient demo_env n b w = (Ok (), w\<lparr>events := events w @ [Asked (Call Mond ''done'' [])]\<rparr>)"
  by (simp add: mondClient_def tryA_def bindA_def dial_def hasConn_def ask_def ret_def)

lemma demo_signed: "validateSignature ref_bolt demo_lib h addr ''ok'' msg s = Ok ()"
  by (simp add: validateSignature_def demo_lib_def)

lemma demo_vote: "canTicketVote demo_lib demo_env demo_net demo_raw = ret True"
  by (simp add: canTicketVote_def demo_raw_def demo_net_def)

definition demo_ctx :: "bytes \<Rightarrow> ctx" where
  "demo_ctx raw = (newCtx (Inr (take 4194304 raw)) ''ok'')\<lparr>cxMondErr := Some None, cxRequestBytes := Some (take 4194304 raw),
     cxTicket := Some demo_unpaid, cxKnownTicket := Some True, cxCommitmentAddress := Some []\<rparr>"

lemma demo_hash_valid: "validateTicketHash demo_lib (replicate 64 CHR ''a'') = None"
  by (simp add: validateTicketHash_def MaxHashStringSize_def demo_lib_def)

lemma demo_ctx_simps [simp]: "cxMondErr (demo_ctx raw) = Some None" "cxRequestBytes (demo_ctx raw) = Some (take 4194304 raw)"
    "cxTicket (demo_ctx raw) = Some demo_unpaid" "cxKnownTicket (demo_ctx raw) = Some True"
  by (simp_all add: demo_ctx_def)

lemma demo_auth:
  "wdb w = demo_reg \<Longrightarrow> vspAuth demo_api ((newCtx (Inr raw) ''ok'')\<lparr>cxMondErr := Some None\<rparr>) w = (Ok (demo_ctx raw), w)"
  by (simp add: vspAuth_def tryA_def lift_def drainAndReplaceBody_def newCtx_def Let_def demo_gin_def demo_hash_valid
      query_def demo_signed ret_def demo_reg_found demo_ctx_def demo_unpaid_def zeroTicket_def)

definition demo_stored :: flat where
  "demo_stored = (case UpdateTicket ref_bolt demo_paid demo_reg of Ok s \<Rightarrow> s | _ \<Rightarrow> [])"

lemma demo_paid_simps [simp]: "Hash demo_paid = replicate 64 CHR ''a''" "FeeTxStatus demo_paid = FeeReceieved"
    "Confirmed demo_paid = False" "ticket_ok demo_paid"
  using demo_unpaid_ok(1) by (simp_all add: demo_paid_def ticket_ok_def demo_unpaid_def zeroTicket_def)

lemma demo_update: "UpdateTicket ref_bolt demo_paid demo_reg = Ok demo_stored"
proof -
  have "val_ok v" if "(k, v) \<in> set (ticketFields demo_paid)" for k v
    using that by (auto simp: ticketFields_def demo_paid_def demo_unpaid_def zeroTicket_def val_ok_def
      FeeReceieved_def stringMapToBytes_def boolToBytes_def object_text_def)
  then have "\<exists>s'. UpdateTicket ref_bolt demo_paid demo_reg = Ok s'"
    by (intro UpdateTicket_succeeds [OF ref_bolt_ok ref_disk_ok])
      (use demo_reg_wf in \<open>auto simp: db_wf_def demo_reg_tickets\<close>)
  then show ?thesis by (auto simp: demo_stored_def)
qed


lemma demo_at: "holds_at ref_bolt (absDb ref_bolt demo_reg) demo_paid (demo_stored, i)"
proof -
  have "stored_ticket demo_paid = demo_paid"
    using demo_unpaid_ok(2) by (simp add: demo_paid_def stored_ticket_def demo_unpaid_def zeroTicket_def)
  moreover have "good ref_bolt (absDb ref_bolt demo_reg) (demo_reg, i)"
    by (simp add: good_def demo_reg_wf demo_reg_inv db_steps.start)
  moreover have "move demo_unpaid demo_paid"
    using accepted_moves [OF demo_check demo_gin_ok, of "[]"] demo_unpaid_ok \<open>stored_ticket demo_paid = demo_paid\<close>
    by (simp add: demo_gin_def feeAccepted_def)
  ultimately show ?thesis
    using good_update [OF ref_bolt_ok _ _ _ _ demo_update] demo_reg_tickets by (simp add: holds_at_def)
qed


lemma demo_pay:
  assumes "wdb w = demo_reg" "payFee demo_api (demo_ctx raw) w = (r, w')"
  shows "holds_at ref_bolt (absDb ref_bolt demo_reg) demo_paid (mem w')"
proof -
  let ?w = "w\<lparr>wdb := demo_stored, events := events w @ [Asked (Call Mond ''getrawtransaction'' [AStr (replicate 64 CHR ''a''), AInt 1]),
    Asked (Call Clock ''now'' []), Wrote demo_stored]\<rparr>"
  have eq: "payFee demo_api (demo_ctx raw) w = acknowledge demo_api (take 4194304 raw) (replicate 64 CHR ''a'') (demo_ctx raw) ?w"
    using assms(1)
    by (simp add: payFee_def bindA_def mustGet_def ret_def tryA_def lift_def demo_gin_def feeAccepted_def
      GetRawTransaction_def askRaw_def ask_def demo_vote now_def FeeExpired_def demo_check commit_def demo_update)
  have "holds_at (wBolt demo_api) (absDb ref_bolt demo_reg) demo_paid (mem ?w)"
    using demo_at [of "lastIdx w"] by (simp add: mem_def)
  from keepsD [OF keeps_acknowledge this assms(2) [unfolded eq]] show ?thesis
    by (simp add: ref_bolt_ok)
qed

lemma demo_unpaid_paid: "demo_unpaid \<noteq> demo_paid"
  by (metis demo_paid_simps(2) demo_unpaid_simps(2) status_distinct(1))

lemma demo_pays: "wdb (snd (serve (routePayFee demo_api) (Inr raw) ''ok'' (demo_world demo_reg))) \<noteq> demo_reg"
proof -
  let ?w = "(demo_world demo_reg)\<lparr>events := [Asked (Call Mond ''done'' [])]\<rparr>"
  obtain r w' where run: "payFee demo_api (demo_ctx raw) ?w = (r, w')" by (cases "payFee demo_api (demo_ctx raw) ?w")
  have "serve (routePayFee demo_api) (Inr raw) ''ok'' (demo_world demo_reg) =
    (case (r, w') of (Panic, w') \<Rightarrow> respond 500 [] [] w' | (_, w') \<Rightarrow> (Ok (), w'))"
    using run demo_auth [of ?w raw]
    by (simp add: serve_def routePayFee_def bindA_def vspMustBeOpen_def ret_def newCtx_def demo_mond demo_world_def withMondClient_def tryA_def demo_ctx_def split: outcome.split)
  then have "mem (snd (serve (routePayFee demo_api) (Inr raw) ''ok'' (demo_world demo_reg))) = mem w'"
    by (cases r) (simp_all add: respond_def)
  then have "holds_at ref_bolt (absDb ref_bolt demo_reg) demo_paid (mem (snd (serve (routePayFee demo_api) (Inr raw) ''ok'' (demo_world demo_reg))))"
    using demo_pay [OF _ run] by simp
  then show ?thesis
    using demo_unpaid_paid by (auto simp: holds_at_def mem_def demo_reg_tickets)
qed

section \<open>A vote choice\<close>

text \<open>The context of a vote choice for the ticket just paid, and the ticket as it is stored then.\<close>

definition demo_voteCtx :: ctx where
  "demo_voteCtx = (demo_ctx [])\<lparr>cxTicket := Some demo_paid, cxWallets := Some [0]\<rparr>"

definition demo_chosen :: ticket where
  "demo_chosen = demo_paid\<lparr>VoteChoices := Some [(''agenda'', ''yes'')]\<rparr>"

lemma demo_chosen_simps [simp]: "Hash demo_chosen = replicate 64 CHR ''a''" "FeeTxStatus demo_chosen = FeeReceieved"
    "Outcome demo_paid = []" "demo_chosen \<noteq> demo_paid"
  by (simp_all add: demo_chosen_def demo_paid_def demo_unpaid_def zeroTicket_def)

lemma demo_chosen_ok: "ticket_ok demo_chosen" "stored_ticket demo_chosen = demo_chosen" "move demo_paid demo_chosen"
proof -
  show "ticket_ok demo_chosen" "stored_ticket demo_chosen = demo_chosen"
    by (simp_all add: ticket_ok_def demo_chosen_def demo_paid_def demo_unpaid_def zeroTicket_def strmap_ok_def gomap_ok_def
        entries_def stored_ticket_def stored_map_def demo_texts del: valid_utf8.simps)
  have "demo_chosen = prefs (Some [(''agenda'', ''yes'')]) (TSpendPolicy demo_paid) (TreasuryPolicy demo_paid) demo_paid"
    by (simp add: demo_chosen_def prefs_def)
  then show "move demo_paid demo_chosen" by (metis move.choose)
qed

lemma demo_no_votes: "GetVoteChanges ref_bolt (replicate 64 CHR ''a'') demo_stored = Ok []"
proof -
  have wf: "db_wf ref_bolt demo_stored" using demo_at [of 0] by (auto simp: holds_at_def dest: good_wf(1))
  have "absDb ref_bolt demo_stored = (absDb ref_bolt demo_reg)\<lparr>dTickets := (tickets ref_bolt demo_reg)(Hash demo_paid \<mapsto> stored_ticket demo_paid)\<rparr>"
    using UpdateTicket_abs [OF ref_bolt_ok demo_reg_wf _ demo_update] by simp
  moreover have "absDb ref_bolt demo_reg = (absDb ref_bolt demo_db)\<lparr>dTickets := (tickets ref_bolt demo_db)(Hash demo_unpaid \<mapsto> stored_ticket demo_unpaid)\<rparr>"
    using InsertNewTicket_abs [OF ref_bolt_ok demo_db_wf demo_unpaid_ok(1) demo_registered] by simp
  ultimately have "voteLog ref_bolt demo_stored = voteLog ref_bolt demo_db"
    by (metis absDb_simps(2) dbst.select_convs(2) dbst.surjective dbst.update_convs(1))
  moreover have "voteLog ref_bolt demo_db h = Map.empty" for h
    using voteLog_finite [OF ref_bolt_ok demo_wf(3), of h] demo_wf(4) [of h] by (simp add: voteHistory_def)
  ultimately show ?thesis
    using GetVoteChanges_Ok [OF ref_bolt_ok ref_disk_ok, of demo_stored "replicate 64 CHR ''a''"] wf
    by (auto simp: db_wf_def)
qed

definition demo_voted :: flat where
  "demo_voted = (case UpdateTicket ref_bolt demo_chosen demo_stored of Ok s \<Rightarrow> s | _ \<Rightarrow> [])"

lemma demo_vote_update: "UpdateTicket ref_bolt demo_chosen demo_stored = Ok demo_voted"
proof -
  have "val_ok v" if "(k, v) \<in> set (ticketFields demo_chosen)" for k v
    using that by (auto simp: ticketFields_def demo_chosen_def demo_paid_def demo_unpaid_def zeroTicket_def val_ok_def
      FeeReceieved_def stringMapToBytes_def boolToBytes_def object_text_def marshal_eval)
  then have "\<exists>s'. UpdateTicket ref_bolt demo_chosen demo_stored = Ok s'"
    by (intro UpdateTicket_succeeds [OF ref_bolt_ok ref_disk_ok])
      (use demo_at [of 0] in \<open>auto simp: holds_at_def dest: good_wf(2)\<close>)
  then show ?thesis by (auto simp: demo_voted_def)
qed

lemma demo_vote_at: "holds_at ref_bolt (absDb ref_bolt demo_reg) demo_chosen (demo_voted, i)"
proof -
  have "good ref_bolt (absDb ref_bolt demo_reg) (demo_stored, i)" "tickets ref_bolt demo_stored (Hash demo_chosen) = Some demo_paid"
    using demo_at [of i] by (simp_all add: holds_at_def)
  from good_update [OF ref_bolt_ok this _ demo_chosen_ok(1) demo_vote_update] show ?thesis
    by (simp add: holds_at_def demo_chosen_ok)
qed

lemma demo_votes:
  assumes "wdb w = demo_stored" "setVoteChoices demo_api demo_voteCtx w = (r, w')"
  shows "wdb w' \<noteq> demo_stored"
proof -
  let ?w = "w\<lparr>wdb := demo_voted, events := events w @ [Wrote demo_voted]\<rparr>"
  have "mergeChoices demo_choiceReq demo_paid = Ok demo_chosen"
    by (simp add: mergeChoices_def demo_choiceReq_def entries_def demo_paid_def demo_chosen_def demo_unpaid_def zeroTicket_def)
  moreover have "validConsensusVoteChoices demo_net (CurrentVoteVersion demo_net) (vcVoteChoices demo_choiceReq) = None"
    "validTreasuryPolicy (vcTreasuryPolicy demo_choiceReq) = None"
    "validTSpendPolicy demo_lib (vcTSpendPolicy demo_choiceReq) = None"
    by (simp_all add: validConsensusVoteChoices_def validTreasuryPolicy_def validTSpendPolicy_def demo_choiceReq_def
        entries_def demo_net_def agendas_def CurrentVoteVersion_def)
  ultimately have eq: "setVoteChoices demo_api demo_voteCtx w = acknowledge demo_api [] (replicate 64 CHR ''a'') demo_voteCtx ?w"
    using assms(1)
    by (simp add: setVoteChoices_def demo_voteCtx_def bindA_def mustGet_def ret_def tryA_def lift_def demo_gin_def query_def
      demo_no_votes commit_def demo_vote_update)
  have "holds_at (wBolt demo_api) (absDb ref_bolt demo_reg) demo_chosen (mem ?w)"
    using demo_vote_at [of "lastIdx w"] by (simp add: mem_def)
  from keepsD [OF keeps_acknowledge this assms(2) [unfolded eq]]
  have "holds_at ref_bolt (absDb ref_bolt demo_reg) demo_chosen (mem w')" by (simp add: ref_bolt_ok)
  then show ?thesis
    using demo_at [of "lastIdx w'"] demo_chosen_simps(4) [symmetric] by (auto simp: holds_at_def mem_def)
qed

end
