(* ===== verification/ServerProps.thy ===== *)
theory ServerProps
  imports DemoApi
begin

text \<open>
  The properties of the web API, each with a witness on the concrete program of \<open>DemoApi\<close>.
\<close>

section \<open>Requests\<close>

text \<open>
  C1: Serving a request on any of the five API routes, whatever it contains and whatever mond,
  the wallets and the disk answer, keeps the database well-formed and every ticket in its
  invariant, and changes the database only by steps of the specification \<open>db_step\<close>: tickets are
  inserted fresh, their fee moves along its life cycle, votes are logged for paid tickets,
  alternate addresses are set once and the address counter is recorded.
\<close>

theorem request_steps:
  assumes "api_ok W" "hs \<in> {routeSetAltSignAddr W, routeFeeAddress W, routeTicketStatus W, routePayFee W, routeSetVoteChoices W}"
    "db_wf (wBolt W) (wdb w)" "tickets_inv (wBolt W) (wdb w)" "serve hs body sig w = (r, w')"
  shows "db_wf (wBolt W) (wdb w') \<and> tickets_inv (wBolt W) (wdb w') \<and>
    db_steps (absDb (wBolt W) (wdb w)) (absDb (wBolt W) (wdb w'))"
proof -
  have "good (wBolt W) (absDb (wBolt W) (wdb w)) (mem w)"
    using assms(3,4) by (simp add: good_def mem_def db_steps.start)
  with keepsD [OF routes_keep [OF assms(1)] this assms(5)] assms(2)
  have "good (wBolt W) (absDb (wBolt W) (wdb w)) (mem w')" by (simp add: routes_def)
  then show ?thesis by (simp add: good_def mem_def)
qed

theorem request_steps_witness:
  "\<exists>w'. snd (serve (routePayFee demo_api) (Inr ''{}'') ''ok'' (demo_world demo_ins)) = w' \<and> db_wf ref_bolt (wdb w') \<and>
    db_steps (absDb ref_bolt demo_ins) (absDb ref_bolt (wdb w'))"
  using request_steps [OF demo_api_ok, of "routePayFee demo_api" "demo_world demo_ins" "Inr ''{}''" "''ok''"]
    demo_ins_db_wf demo_ins_inv
  by (cases "serve (routePayFee demo_api) (Inr ''{}'') ''ok'' (demo_world demo_ins)") simp





text \<open>
  A closed VSP refuses new tickets, payments and alternate addresses at once: the only effect
  of such a request is the signed refusal, nothing is asked of mond or the wallets and nothing
  is written.
\<close>

lemma closed_refuses:
  assumes "wVspClosed W" "hs \<in> {routeSetAltSignAddr W, routeFeeAddress W, routePayFee W}"
  shows "serve hs body sig w = (Ok (), w\<lparr>events := events w @
    [Responded 400 (errorJSON ErrVspClosed ''vsp is closed'')
       (base64 (wSign W (errorJSON ErrVspClosed ''vsp is closed'')))]\<rparr>)"
  using assms
  by (auto simp: routeSetAltSignAddr_def routeFeeAddress_def routePayFee_def closed_serve)

lemma closed_refuses_witness:
  "length (events (snd (serve (routePayFee (demo_api\<lparr>wVspClosed := True\<rparr>)) (Inr []) [] (demo_world demo_db)))) = 1"
  by (simp add: closed_refuses [of "demo_api\<lparr>wVspClosed := True\<rparr>"])

end
