(* ===== verification/HandlerProps.thy ===== *)
theory HandlerProps
  imports ServerProps
begin

text \<open>
  The properties of the handlers: which fee is accepted, in which order it is stored and sent,
  when vote choices are taken and passed on, and how fee addresses are allocated.
\<close>

section \<open>Payments\<close>

text \<open>
  C5: A fee is only accepted if it pays. Whatever request \<open>checkPayment\<close> accepts, its
  transaction is sane and has an output to the fee address of the ticket of at least the asked
  amount, and its private key is the voting key of the ticket: the first output of the ticket
  pays the voting script of the key. The stored ticket holds exactly this key and transaction
  and counts as received, and it is the same ticket with the same fee address and amount.
\<close>

theorem accepted_fee_pays:
  assumes "checkPayment l n req raw t = Ok (Inr u)"
  shows "\<exists>v tx script ticketTx. lbDecodeWIF l (pfVotingKey req) = Inr v \<and> decodeTransaction l (pfFeeTx req) = Ok tx \<and>
    lbSanity l tx = None \<and> lbDecodeAddress l (FeeAddress t) = Inr script \<and>
    (\<exists>out\<in>set (txOuts tx). (outVersion out, outPkScript out) = script \<and> sint (FeeAmount t) \<le> sint (outValue out)) \<and>
    decodeTransaction l (rHex raw) = Ok ticketTx \<and> txOuts ticketTx \<noteq> [] \<and>
    lbVotingScript l (wifPubKey v) = Inr (outVersion (txOuts ticketTx ! 0), outPkScript (txOuts ticketTx ! 0)) \<and>
    VotingWIF u = wifString v \<and> FeeTxHex u = pfFeeTx req \<and> FeeTxHash u = lbHashStr l (txHash tx) \<and>
    FeeTxStatus u = FeeReceieved \<and> Hash u = Hash t \<and> FeeAddress u = FeeAddress t \<and> FeeAmount u = FeeAmount t"
proof -
  obtain v tx script ticketTx vscript where a: "lbDecodeWIF l (pfVotingKey req) = Inr v"
    "decodeTransaction l (pfFeeTx req) = Ok tx" "lbSanity l tx = None"
    "lbDecodeAddress l (FeeAddress t) = Inr script"
    "\<exists>out\<in>set (txOuts tx). (outVersion out, outPkScript out) = script \<and> sint (FeeAmount t) \<le> sint (outValue out)"
    "lbVotingScript l (wifPubKey v) = Inr vscript" "decodeTransaction l (rHex raw) = Ok ticketTx"
    "txOuts ticketTx \<noteq> []" "(outVersion (txOuts ticketTx ! 0), outPkScript (txOuts ticketTx ! 0)) = vscript"
    "u = acceptFee l n req v tx t"
    by (rule checkPayment_Inr [OF assms]) blast
  then show ?thesis
    by (intro exI [of _ v] exI [of _ tx] exI [of _ script] exI [of _ ticketTx] conjI)
      (simp_all add: acceptFee_def Let_def)
qed

theorem accepted_fee_pays_witness:
  "\<exists>tx. decodeTransaction demo_lib ''00'' = Ok tx \<and> FeeTxStatus demo_paid = FeeReceieved \<and>
    (\<exists>out\<in>set (txOuts tx). sint (FeeAmount demo_unpaid) \<le> sint (outValue out))"
  using accepted_fee_pays [OF demo_check] by (auto simp: demo_payReq_def)

text \<open>
  C6: A fee is stored before it is sent. In every run of the payment handler either nothing is
  written and no transaction is broadcast, or the first of these events is the write of the
  ticket with a fee that \<open>checkPayment\<close> accepted for the ticket of the request: a fee that the
  network knows is never unknown to the database.
\<close>

theorem fee_stored_first:
  assumes "payFee W c w = (r, w')"
  shows "filter marks (events w') = filter marks (events w) \<or>
    (\<exists>t req rb raw u s' es. cxTicket c = Some t \<and> bindPayFee (wGin W) rb = Inr req \<and>
       checkPayment (wLib W) (wNet W) req raw t = Ok (Inr u) \<and> UpdateTicket (wBolt W) u (wdb w) = Ok s' \<and>
       filter marks (events w') = filter marks (events w) @ Wrote s' # es)"
  using payFee_order [OF assms] unfolding storedFirst_def .

theorem fee_stored_first_witness:
  "\<exists>r w'. payFee demo_api (demo_ctx []) (demo_world demo_reg) = (r, w') \<and>
    (filter marks (events w') = [] \<or> (\<exists>s' es. filter marks (events w') = Wrote s' # es))"
  using fee_stored_first [of demo_api "demo_ctx []" "demo_world demo_reg"]
  by (cases "payFee demo_api (demo_ctx []) (demo_world demo_reg)") auto

section \<open>Vote choices\<close>

text \<open>
  C7: Vote choices are taken only from a fresh, valid request for a paid ticket: when the handler
  changes the database, the fee of the ticket was received and the ticket has no outcome, the
  request is strictly newer than every vote change recorded for the ticket, so that none can be
  replayed, and its choices are valid for the current vote version.
\<close>

theorem choices_not_replayed:
  assumes "bolt_ok (wBolt W)" "votes_wf (wBolt W) (wdb w)" "setVoteChoices W c w = (r, w')" "wdb w' \<noteq> wdb w"
  shows "\<exists>t rb req. cxTicket c = Some t \<and> cxRequestBytes c = Some rb \<and> bindSetVoteChoices (wGin W) rb = Inr req \<and>
    FeeTxStatus t \<noteq> NoFee \<and> Outcome t = [] \<and>
    (\<forall>k ch. voteLog (wBolt W) (wdb w) (Hash t) k = Some ch \<longrightarrow>
       (\<exists>p. prevTimestamp ch = Ok p \<and> sint p < sint (vcTimestamp req))) \<and>
    validConsensusVoteChoices (wNet W) (CurrentVoteVersion (wNet W)) (vcVoteChoices req) = None \<and>
    validTreasuryPolicy (vcTreasuryPolicy req) = None \<and> validTSpendPolicy (wLib W) (vcTSpendPolicy req) = None"
proof -
  have "newChoice W c (wdb w)"
    using triD [OF setVoteChoices_writes [of "wdb w" W c] _ assms(3)] assms(4) by (cases r) auto
  then obtain t rb req changes where t: "cxTicket c = Some t" "cxRequestBytes c = Some rb"
    "bindSetVoteChoices (wGin W) rb = Inr req" "FeeTxStatus t \<noteq> NoFee" "Outcome t = []"
    "GetVoteChanges (wBolt W) (Hash t) (wdb w) = Ok changes"
    "\<forall>(k, ch)\<in>set changes. \<exists>p. prevTimestamp ch = Ok p \<and> sint p < sint (vcTimestamp req)"
    "validConsensusVoteChoices (wNet W) (CurrentVoteVersion (wNet W)) (vcVoteChoices req) = None"
    "validTreasuryPolicy (vcTreasuryPolicy req) = None" "validTSpendPolicy (wLib W) (vcTSpendPolicy req) = None"
    unfolding newChoice_def by blast
  have "\<exists>p. prevTimestamp ch = Ok p \<and> sint p < sint (vcTimestamp req)"
    if "voteLog (wBolt W) (wdb w) (Hash t) k = Some ch" for k ch
    using t(7) map_of_SomeD [of changes k ch] that GetVoteChanges_ret(2) [OF assms(1,2) t(6)] by auto
  with t show ?thesis by blast
qed

theorem choices_not_replayed_witness:
  "\<exists>rb req. cxRequestBytes demo_voteCtx = Some rb \<and> bindSetVoteChoices demo_gin rb = Inr req \<and> vcTimestamp req = 8"
proof -
  obtain r w' where run: "setVoteChoices demo_api demo_voteCtx (demo_world demo_stored) = (r, w')"
    by (cases "setVoteChoices demo_api demo_voteCtx (demo_world demo_stored)")
  have "votes_wf ref_bolt demo_stored" using demo_at [of 0] by (auto simp: holds_at_def db_wf_def dest: good_wf(1))
  with choices_not_replayed [of demo_api "demo_world demo_stored", OF _ _ run] demo_votes [OF _ run] ref_bolt_ok
  show ?thesis by (fastforce simp: demo_gin_def demo_choiceReq_def)
qed

text \<open>
  C12: The wallets only hear of a vote choice once the fee is confirmed: while it is not, no call
  to any wallet is made by the handler.
\<close>

theorem wallets_after_fee:
  assumes "cxTicket c = Some t" "FeeTxStatus t \<noteq> FeeConfirmed" "setVoteChoices W c w = (r, w')"
  shows "\<exists>es. events w' = events w @ es \<and> (\<forall>i m as. Asked (Call (Wallet i) m as) \<notin> set es)"
proof -
  obtain es where "events w' = events w @ es" "list_all noWallet es"
    using emitsD [OF setVoteChoices_noWallet [OF assms(1,2), of W] assms(3)] unfolding traced_def by blast
  then show ?thesis by (auto simp: list_all_iff)
qed

theorem wallets_after_fee_witness:
  "\<exists>es. events (snd (setVoteChoices demo_api (demo_ctx []) (demo_world demo_reg))) = es \<and>
    (\<forall>i m as. Asked (Call (Wallet i) m as) \<notin> set es)"
  using wallets_after_fee [of "demo_ctx []" demo_unpaid demo_api "demo_world demo_reg"]
  by (cases "setVoteChoices demo_api (demo_ctx []) (demo_world demo_reg)") auto

text \<open>
  C13: The preferences of a request are valid exactly when each agenda and choice is one of the
  current vote version, each treasury key is 33 bytes in hex, each tspend hash is a hash, and
  each policy is a policy: the loops with their early returns decide this specification.
\<close>

theorem preferences_valid:
  assumes "distinct (map fst (agendas n v))"
  shows "(validConsensusVoteChoices n v m = None \<longleftrightarrow>
      (\<forall>(agenda, choice)\<in>set (entries m). \<exists>cs. (agenda, cs) \<in> set (agendas n v) \<and> choice \<in> set cs)) \<and>
    (validTreasuryPolicy m = None \<longleftrightarrow> (\<forall>(key, policy)\<in>set (entries m).
      (\<exists>b. hexDecode key = Some b \<and> length b = 33) \<and> policy \<in> {''yes'', ''no'', ''abstain'', ''invalid'', ''''})) \<and>
    (validTSpendPolicy l m = None \<longleftrightarrow> (\<forall>(h, policy)\<in>set (entries m).
      length h = 64 \<and> (\<exists>x. lbHashOf l h = Inr x) \<and> policy \<in> {''yes'', ''no'', ''abstain'', ''invalid'', ''''}))"
proof -
  have "validPolicyOption p = None \<longleftrightarrow> p \<in> {''yes'', ''no'', ''abstain'', ''invalid'', ''''}" for p
    by (simp add: validPolicyOption_def)
  then show ?thesis
    by (simp only: validConsensusVoteChoices_None [OF assms] validTreasuryPolicy_None validTSpendPolicy_None)
qed

theorem preferences_valid_witness: "validConsensusVoteChoices demo_net 9 (Some [(''agenda'', ''yes'')]) = None"
proof -
  have "distinct (map fst (agendas demo_net 9))" by (simp add: agendas_def demo_net_def)
  from preferences_valid [OF this, THEN conjunct1, of "Some [(''agenda'', ''yes'')]"] show ?thesis
    by (simp add: agendas_def demo_net_def entries_def)
qed

section \<open>Fee addresses\<close>

text \<open>
  The derivation of the next key ends after at most three children, skips only children
  that do not exist, and leaves the counter at the index of the key it returns.
\<close>

lemma next_key_bounded:
  "\<exists>d. 1 \<le> d \<and> d \<le> (3::nat) \<and> snd (nextKey l ext i 0) = i + of_nat d \<and>
    (\<forall>c\<in>{1..<d}. lbChild l ext (i + of_nat c) = InvalidChild) \<and>
    (case fst (nextKey l ext i 0) of Ok k \<Rightarrow> lbChild l ext (i + of_nat d) = Child k | _ \<Rightarrow> True)"
proof -
  obtain r j where r: "nextKey l ext i 0 = (r, j)" by (cases "nextKey l ext i 0")
  obtain d where d: "1 \<le> d" "d + 0 \<le> 3" "j = i + of_nat d"
    "\<And>c. 1 \<le> c \<Longrightarrow> c < d \<Longrightarrow> lbChild l ext (i + of_nat c) = InvalidChild"
    "\<And>k. r = Ok k \<Longrightarrow> lbChild l ext j = Child k"
    by (rule nextKey_steps [OF r]) auto
  then show ?thesis by (intro exI [of _ d]) (auto simp: r split: outcome.split)
qed

lemma next_key_bounded_witness: "\<exists>d\<in>{1..3::nat}. snd (nextKey demo_lib 0 0 0) = of_nat d"
  using next_key_bounded [of demo_lib 0 0] by auto

text \<open>
  C8: Fee addresses are not handed out twice. While no two tickets share an address index of the
  current key and none lies above the counter, registering a ticket keeps it so, whether it
  succeeds, fails at any point or panics; the counter has to be at least three away from the end
  of its 32 bits.
\<close>

theorem fee_address_fresh:
  fixes W :: "('s, 'x, 'f) api"
  assumes "bolt_ok (wBolt W)" "indexed (wBolt W) (feeXPubID (wAddrGen W)) (wdb w, lastIdx w)"
    "unat (lastIdx w) + 3 < 2 ^ 32" "registerTicket W rb h ca raw c w = (r, w')"
  shows "indexed (wBolt W) (feeXPubID (wAddrGen W)) (wdb w', lastIdx w')"
  using triD [OF registerTicket_indexed [OF assms(1) refl] _ assms(4)] assms(2,3)
  by (cases r) (auto simp: mem_def)

theorem fee_address_fresh_witness:
  "\<exists>w'. indexed ref_bolt 0 (wdb w', lastIdx w') \<and>
    w' = snd (registerTicket demo_api [] ''t'' ''c'' demo_raw (demo_ctx []) (demo_world demo_reg))"
proof -
  have "indexed ref_bolt 0 (demo_reg, 0)"
    by (auto simp: indexed_def demo_reg_wf demo_reg_tickets demo_unpaid_def zeroTicket_def split: if_splits)
  then show ?thesis
    using fee_address_fresh [of demo_api "demo_world demo_reg" "[]" "''t''" "''c''" demo_raw "demo_ctx []"] ref_bolt_ok
    by (cases "registerTicket demo_api [] ''t'' ''c'' demo_raw (demo_ctx []) (demo_world demo_reg)") simp
qed

section \<open>Reads, errors and retries\<close>

lemma keeps_vspAuth: "keeps (\<lambda>w. P (mem w)) (vspAuth W c)"
  unfolding vspAuth_def authAddress_def Let_def
  by (intro keeps_intros keeps_ifs)

text \<open>
  The status of a ticket can be asked for by anybody who can sign, and whatever the request
  and the answers, the route changes neither the database nor the address counter.
\<close>

lemma status_reads_only:
  "wdb (snd (serve (routeTicketStatus W) body sig w)) = wdb w \<and>
   lastIdx (snd (serve (routeTicketStatus W) body sig w)) = lastIdx w"
proof -
  have "keeps (\<lambda>w'. mem w' = mem w) (serve (routeTicketStatus W) body sig)"
  proof (rule keeps_serve, rule chain_keeps)
    fix h c assume "h \<in> set (routeTicketStatus W)"
    then show "keeps (\<lambda>w'. mem w' = mem w) (h c)"
      using keeps_middleware(2) [of "\<lambda>m. m = mem w" W c] ticketStatus_steps [of "\<lambda>m. m = mem w" W c] keeps_vspAuth [of "\<lambda>m. m = mem w" W c]
      by (auto simp: routeTicketStatus_def)
  qed
  then show ?thesis by (simp add: keeps_def mem_def)
qed

text \<open>
  C15: Every error code of the API is answered with its own message, signed, and ends the request;
  the status is 500 exactly for the faults of the server (an internal error, a ticket or fee that
  could not be broadcast) and for codes that do not exist, 428 for a fee with unknown inputs, and
  400 for all that the client got wrong.
\<close>

theorem errors_answered:
  "sendError W e c w = (Ok (c\<lparr>cxAborted := True\<rparr>), w\<lparr>events := events w @
     [Responded (if e \<in> {0..17} - {ErrInternalError, ErrCannotBroadcastTicket, ErrCannotBroadcastFee}
        then if e = ErrCannotBroadcastFeeUnknownOutputs then 428 else 400 else 500)
        (errorJSON e (DefaultMessage e)) (base64 (wSign W (errorJSON e (DefaultMessage e))))]\<rparr>) \<and>
   inj_on DefaultMessage {0, 1, 2, 3, 4, 5, 6, 7, 8, 9, 10, 11, 12, 13, 14, 15, 16, 17}"
proof -
  have "HTTPStatus e \<in> {400, 500} \<or> e = ErrCannotBroadcastFeeUnknownOutputs"
    by (cases "e = ErrCannotBroadcastFeeUnknownOutputs") (simp_all add: HTTPStatus_def)
  moreover have "HTTPStatus ErrCannotBroadcastFeeUnknownOutputs = 428" by (simp add: HTTPStatus_def code_defs)
  ultimately have st: "HTTPStatus e = (if e \<in> {ErrInternalError, ErrCannotBroadcastTicket, ErrCannotBroadcastFee} \<or> e \<notin> {0..17} then 500
        else if e = ErrCannotBroadcastFeeUnknownOutputs then 428 else 400)"
    unfolding HTTPStatus_server [symmetric] by auto
  have "inj_on DefaultMessage {0, 1, 2, 3, 4, 5, 6, 7, 8, 9, 10, 11, 12, 13, 14, 15, 16, 17}"
    by (simp add: DefaultMessage_def code_defs)
  moreover have "HTTPStatus e = (if e \<in> {0..17} - {ErrInternalError, ErrCannotBroadcastTicket, ErrCannotBroadcastFee}
        then if e = ErrCannotBroadcastFeeUnknownOutputs then 428 else 400 else 500)"
    by (simp only: st Diff_iff de_Morgan_conj not_not disj_commute split: if_split) auto
  ultimately show ?thesis
    unfolding st [symmetric]
    by (simp add: sendError_def sendErrorWithMsg_def Let_def bindA_def respond_def ret_def)
qed

fun isSend :: "'s event \<Rightarrow> bool" where
  "isSend (Asked (Call t m as)) = (m = ''sendrawtransaction'')"
| "isSend e = False"

lemma send_once: "\<exists>es r. SendRawTransaction E tx w = (r, w\<lparr>events := events w @ es\<rparr>) \<and> r \<noteq> Panic \<and> length es \<le> 2 \<and>
    length (filter isSend es) = 1"
proof -
  let ?s = "Asked (Call Mond ''sendrawtransaction'' [AStr tx, ABool False])"
  let ?g = "Asked (Call Mond ''getrawtransaction'' [AStr tx, AInt 1])"
  have "\<exists>r. SendRawTransaction E tx w = (r, w\<lparr>events := events w @ [?s]\<rparr>) \<and> r \<noteq> Panic \<or>
      SendRawTransaction E tx w = (r, w\<lparr>events := events w @ [?s, ?g]\<rparr>) \<and> r \<noteq> Panic"
    by (auto simp: SendRawTransaction_def tryA_def bindA_def ask_def ret_def failA_def GetRawTransaction_def askRaw_def
      split: sum.splits reply.splits)
  then obtain r es where "SendRawTransaction E tx w = (r, w\<lparr>events := events w @ es\<rparr>)" "r \<noteq> Panic" "es \<in> {[?s], [?s, ?g]}"
    by blast
  then show ?thesis by (intro exI [of _ es] exI [of _ r]) auto
qed


end
