(* ===== verification/VspmProps.thy ===== *)
theory VspmProps
  imports DemoApi
begin

text \<open>
  The properties of the background task and of the system it forms with the web server: what
  its steps do to the database, what the search for spent tickets finds, what is reachable, and
  what the lack of a lock around a ticket can lose.
\<close>

section \<open>The background task\<close>

text \<open>
  C20: The background task, from its start-up checks through any sequence of block notifications,
  ticks and its end, whatever mond, the wallets and the disk answer, keeps the database
  well-formed and every ticket in its invariant, and changes the database only by steps of the
  specification.
\<close>

theorem background_steps:
  assumes "bolt_ok (vBolt V)" "db_wf (vBolt V) (wdb w)" "tickets_inv (vBolt V) (wdb w)" "Run V sigs w = (r, w')"
  shows "db_wf (vBolt V) (wdb w') \<and> tickets_inv (vBolt V) (wdb w') \<and>
    db_steps (absDb (vBolt V) (wdb w)) (absDb (vBolt V) (wdb w'))"
proof -
  have "good (vBolt V) (absDb (vBolt V) (wdb w)) (mem w)"
    using assms(2,3) by (simp add: good_def mem_def db_steps.start)
  with keepsD [OF keeps_Run [OF assms(1)] this assms(4)] show ?thesis by (simp add: good_def mem_def)
qed

theorem background_steps_witness:
  "\<exists>w'. snd (Run demo_vspm [BlockConnected, ConsistencyTick, Done] (demo_world demo_reg)) = w' \<and> db_wf ref_bolt (wdb w') \<and>
    db_steps (absDb ref_bolt demo_reg) (absDb ref_bolt (wdb w'))"
  using background_steps [of demo_vspm "demo_world demo_reg" "[BlockConnected, ConsistencyTick, Done]"]
    ref_bolt_ok demo_reg_wf demo_reg_inv
  by (cases "Run demo_vspm [BlockConnected, ConsistencyTick, Done] (demo_world demo_reg)") simp

section \<open>Spent tickets\<close>


text \<open>A chain whose block 9 votes with the ticket, and a mond that serves it.\<close>

definition demo_vote_tx :: msgTx where
  "demo_vote_tx = \<lparr>txHash = ''v'', txIns = [\<lparr>prevHash = ''x'', prevIndex = 0\<rparr>,
     \<lparr>prevHash = replicate 64 CHR ''a'', prevIndex = 0\<rparr>], txOuts = []\<rparr>"

definition demo_scan :: "(flat, nat, unit) vspm" where
  "demo_scan = demo_vspm\<lparr>vLib := demo_lib\<lparr>lbBlock := (\<lambda>b. Inr \<lparr>blkSTransactions = [demo_tx, demo_vote_tx]\<rparr>)\<rparr>,
     vEnv := (\<lambda>es c. case c of Call t m as \<Rightarrow>
       if m = ''getblockcount'' then Inr (RInt 9)
       else if m = ''getcfilterv2'' then Inr (RFilter ''00'' [] 0)
       else if t = Mond then Inr (RStr ''00'') else Inl (Plain ''refused''))\<rparr>"

lemma demo_scan_finds:
  "\<exists>w'. findSpentTickets demo_scan [demo_ticket, demo_unpaid] 9 w =
     (Ok ([spentOf demo_net 9 demo_unpaid demo_vote_tx], 9), w')"
proof -
  have range: "[sint (9 :: int64)..sint (9 :: int64)] = [9]" by simp
  have scan: "scanBlock demo_net 9 [demo_tx, demo_vote_tx] 0
      ([(demo_ticket, ''aa''), (demo_unpaid, replicate 64 CHR ''a'')], [''s'', ''s''], []) =
      ([(demo_ticket, ''aa'')], [''s''], [spentOf demo_net 9 demo_unpaid demo_vote_tx])"
    by (simp add: scanBlock.simps txSpendsTicket_def demo_tx_def demo_vote_tx_def nonOrderPreservingRemove_def eval_nat_numeral)
  show ?thesis
    by (simp add: findSpentTickets_def demo_scan_def demo_vspm_def wrapA_def GetBlockCount_def askInt_def tryA_def bindA_def
      ask_def ret_def lift_def range demo_lib_def demo_script_def demo_ticket_def[symmetric] scanHeight_def canceled_def
      GetBlockHash_def askStr_def GetBlockHeader_def hexDecodeE_def hexVal_def GetCFilterV2_def GetBlock_def scan Let_def DCP5Active_def)
qed


text \<open>
  C24: One block is searched completely, although the loop removes entries from both slices while
  it runs over them: no ticket is lost or reported twice, the slices stay aligned, every ticket
  that is still looked for afterwards is spent by no transaction of the block, and every one
  reported is spent by one.
\<close>

theorem block_scan_complete:
  assumes "scanBlock n height txs 0 (tuples, scripts, spent) = (tuples', scripts', spent')" "length tuples = length scripts"
  shows "mset (map fst tuples') + mset (map dbTicket spent') = mset (map fst tuples) + mset (map dbTicket spent) \<and>
    length tuples' = length scripts' \<and> mset (zip tuples' scripts') \<subseteq># mset (zip tuples scripts) \<and>
    (\<forall>(t, h)\<in>set tuples'. \<forall>tx\<in>set txs. \<not> txSpendsTicket tx h) \<and>
    (\<forall>x\<in>set spent' - set spent. \<exists>(t, h)\<in>set tuples. \<exists>tx\<in>set txs. txSpendsTicket tx h \<and> x = spentOf n height t tx)"
  using scanBlock_spec [OF assms le0] unfolding spent_by_def by (auto simp: case_prod_unfold)

theorem block_scan_complete_witness:
  "\<exists>spent. scanBlock demo_net 9 [demo_vote_tx] 0 ([(demo_unpaid, replicate 64 CHR ''a'')], [''s''], []) = ([], [], spent) \<and>
    mset (map dbTicket spent) = {#demo_unpaid#}"
proof -
  have run: "scanBlock demo_net 9 [demo_vote_tx] 0 ([(demo_unpaid, replicate 64 CHR ''a'')], [''s''], []) =
      ([], [], [spentOf demo_net 9 demo_unpaid demo_vote_tx])"
    by (simp add: scanBlock.simps txSpendsTicket_def demo_vote_tx_def nonOrderPreservingRemove_def)
  from block_scan_complete [OF run] run show ?thesis by simp
qed

section \<open>Reachable states\<close>

text \<open>
  C21: Every database the program can reach is well-typed. Starting from a new database, after any
  sequence of requests, cache refreshes, starts of the background task and signals, every stored
  ticket has one of the five fee states and five outcomes; its fee is only on its way, settled or
  failed when the ticket is confirmed; it has an outcome only when its fee is settled; without a
  payment it has no key and no fee transaction; and the text of a settled fee is forgotten.
\<close>

theorem reachable_typed:
  fixes W :: "('s, 'x, 'f) api" and V :: "('s, 'x, 'f) vspm"
  assumes "(sys_step W V)\<^sup>*\<^sup>* w w'" "api_ok W" "vBolt V = wBolt W" "disk_ok (wBolt W)" "valid_utf8 key"
    "\<And>p. ents (wBolt W) s0 p = Map.empty" "CreateNew (wBolt W) None (Ok seed) secret key s0 = Ok (wdb w)"
    "tickets (wBolt W) (wdb w') h = Some t"
  shows "db_wf (wBolt W) (wdb w') \<and>
    FeeTxStatus t \<in> {NoFee, FeeReceieved, FeeBroadcast, FeeConfirmed, FeeError} \<and>
    Outcome t \<in> {[], Voted, Missed, Expired, Revoked} \<and>
    (FeeTxStatus t \<in> {FeeBroadcast, FeeConfirmed, FeeError} \<longrightarrow> Confirmed t) \<and>
    (Outcome t \<noteq> [] \<longrightarrow> FeeTxStatus t = FeeConfirmed) \<and>
    (FeeTxStatus t = NoFee \<longrightarrow> VotingWIF t = [] \<and> FeeTxHex t = [] \<and> FeeTxHash t = []) \<and>
    (FeeTxStatus t = FeeConfirmed \<longrightarrow> FeeTxHex t = [])"
proof -
  have "bolt_ok (wBolt W)" using assms(2) by (simp add: api_ok_def)
  from CreateNew_Ok [OF this assms(4,6,5,7), where f = "\<lambda>_. ()"]
  have "db_wf (wBolt W) (wdb w)" "tickets (wBolt W) (wdb w) = Map.empty" by (simp_all add: db_wf_def)
  then have "sys_inv W V w" using assms(2,3) by (simp add: sys_inv_def tickets_inv_def)
  then have "sys_inv W V w'" using sys.run_inv [OF assms(1)] by blast
  then show ?thesis
    using assms(8) by (simp add: sys_inv_def tickets_inv_def ticket_inv_def)
qed

lemma step_serve: "hs \<in> routes W \<Longrightarrow> sys_step W V w (snd (serve hs body sig w))"
  by (rule sys_step.request [of hs W body sig w "fst (serve hs body sig w)"]) simp_all

text \<open>A registration on the new database: the request of a ticket that mond already knows.\<close>

definition demo_open :: "(flat, nat, unit) api" where
  "demo_open = demo_api\<lparr>
     wLib := demo_lib\<lparr>lbFromBytes := (\<lambda>b. Inr \<lparr>txHash = ''h'', txIns = [], txOuts = replicate 3 demo_out\<rparr>)\<rparr>,
     wEnv := (\<lambda>es c. case c of Call t m as \<Rightarrow> if m \<in> {''getbestblockhash'', ''getblockheader''} then Inr (RStr ''00'') else demo_env es c),
     wGin := demo_gin\<lparr>bindBroadcast := (\<lambda>b. Inr \<lparr>brTicketHex = ''00'', brTicketHash = ''h'', brParentHex = ''00''\<rparr>),
       bindFeeAddress := (\<lambda>b. Inr \<lparr>faTimestamp = 1, faTicketHash = replicate 64 CHR ''a'', faTicketHex = ''00'', faParentHex = ''00''\<rparr>)\<rparr>\<rparr>"

definition demo_new :: ticket where
  "demo_new = newTicket (replicate 64 CHR ''a'') ''c'' demo_raw (''addr'', 2) 0 100 3600"

definition demo_indexed :: flat where
  "demo_indexed = (case SetLastAddressIndex ref_bolt 2 demo_db of Ok s \<Rightarrow> s | _ \<Rightarrow> [])"

lemma demo_sets: "SetLastAddressIndex ref_bolt 2 demo_db = Ok demo_indexed"
proof -
  have "val_ok (marshalXPub \<lparr>xID = 0, xKey = ''xpub0'', xLastUsedIdx = 2, xRetired = 0\<rparr>)"
    by (simp add: marshal_eval)
  then have "\<exists>s'. SetLastAddressIndex ref_bolt 2 demo_db = Ok s'"
    using insertFeeXPub_succeeds [OF ref_bolt_ok demo_wf(7)]
    by (simp add: SetLastAddressIndex_def demo_active disk_ok_update)
  then show ?thesis by (auto simp: demo_indexed_def)
qed

lemma demo_new_simps: "Hash demo_new = replicate 64 CHR ''a''" "ticket_ok demo_new" "FeeTxStatus (stored_ticket demo_new) = NoFee"
  by (simp_all add: demo_new_def newTicket_fresh) (simp_all add: newTicket_def Let_def stored_ticket_def)

lemma demo_indexed_wf: "db_wf ref_bolt demo_indexed" "tickets ref_bolt demo_indexed = Map.empty"
proof -
  obtain x where "db_wf ref_bolt demo_indexed"
    "absDb ref_bolt demo_indexed = (absDb ref_bolt demo_db)\<lparr>dXpubs := (xpubs ref_bolt demo_db)(xID x \<mapsto> x\<lparr>xLastUsedIdx := 2\<rparr>)\<rparr>"
    by (rule SetLastAddressIndex_abs [OF ref_bolt_ok demo_db_wf demo_sets]) blast
  then show "db_wf ref_bolt demo_indexed" "tickets ref_bolt demo_indexed = Map.empty"
    using demo_wf(2) absDb_simps(1) by (metis dbst.select_convs(1) dbst.surjective dbst.update_convs(4))+
qed

definition demo_entered :: flat where
  "demo_entered = (case InsertNewTicket ref_bolt demo_new demo_indexed of Ok s \<Rightarrow> s | _ \<Rightarrow> [])"

lemma demo_enters: "InsertNewTicket ref_bolt demo_new demo_indexed = Ok demo_entered"
proof -
  have "val_ok v" if "(k, v) \<in> set (ticketFields demo_new)" for k v
    using that by (auto simp: ticketFields_def demo_new_def newTicket_def zeroTicket_def val_ok_def
      NoFee_def stringMapToBytes_def boolToBytes_def object_text_def Let_def)
  then have "\<exists>s'. InsertNewTicket ref_bolt demo_new demo_indexed = Ok s'"
    by (intro InsertNewTicket_succeeds [OF ref_bolt_ok ref_disk_ok])
      (use demo_indexed_wf in \<open>auto simp: db_wf_def demo_new_simps key_ok_def\<close>)
  then show ?thesis by (auto simp: demo_entered_def)
qed

lemma demo_unknown: "GetTicketByHash ref_bolt (replicate 64 CHR ''a'') demo_db = Ok (zeroTicket, False)"
  using GetTicketByHash_spec [OF ref_bolt_ok ref_disk_ok, of demo_db "replicate 64 CHR ''a''"] demo_wf by simp

lemma demo_open_env [simp]: "wEnv demo_open es (Call Mond ''getrawtransaction'' as) = Inr (RRaw demo_raw)"
  "wEnv demo_open es (Call Mond ''done'' as) = Inr (RBool False)" "wEnv demo_open es (Call Clock ''now'' as) = Inr (RInt 0)"
  "wEnv demo_open es (Call Mond ''getbestblockhash'' as) = Inr (RStr ''00'')"
  "wEnv demo_open es (Call Mond ''getblockheader'' as) = Inr (RStr ''00'')"
  by (auto simp: demo_open_def demo_env_def)

lemma demo_open_simps [simp]: "wBolt demo_open = ref_bolt" "wVspClosed demo_open = False" "wNet demo_open = demo_net"
  "wAddrGen demo_open = \<lparr>external = 0, lastUsedIndex = 0, feeXPubID = 0\<rparr>"
  by (simp_all add: demo_open_def demo_api_def)

text \<open>Each middleware passes the request on.\<close>

definition demo_ctx1 :: ctx where
  "demo_ctx1 = (newCtx (Inr ''{}'') ''ok'')\<lparr>cxMondErr := Some None\<rparr>"

definition demo_ctx2 :: ctx where
  "demo_ctx2 = demo_ctx1\<lparr>cxRequestBytes := Some ''{}'', cxTicket := Some zeroTicket, cxKnownTicket := Some False,
     cxCommitmentAddress := Some ''c''\<rparr>"

lemma demo_hex: "hexDecodeE ''00'' = Ok [char_of (0 :: nat)]"
  by (simp add: hexDecodeE_def hexVal_def)

lemma demo_open_tx: "decodeTransaction (wLib demo_open) ''00'' = Ok \<lparr>txHash = ''h'', txIns = [], txOuts = replicate 3 demo_out\<rparr>"
  by (simp add: decodeTransaction_def demo_hex demo_open_def)

lemma demo_open_ticket: "isValidTicket (wLib demo_open) \<lparr>txHash = ''h'', txIns = [], txOuts = replicate 3 demo_out\<rparr> = None"
  by (simp add: isValidTicket_def demo_open_def demo_lib_def)

lemma demo_open_hash: "lbHashStr (wLib demo_open) h = h"
  by (simp add: demo_open_def demo_lib_def)

lemma demo_open_mond:
  "conns w Mond \<Longrightarrow> withMondClient demo_open (newCtx (Inr ''{}'') ''ok'') w =
     (Ok demo_ctx1, w\<lparr>events := events w @ [Asked (Call Mond ''done'' [])]\<rparr>)"
  by (simp add: withMondClient_def mondClient_def tryA_def bindA_def dial_def hasConn_def ask_def ret_def demo_ctx1_def)

lemma demo_open_raw: "GetRawTransaction (wEnv demo_open) h w =
    (Ok demo_raw, w\<lparr>events := events w @ [Asked (Call Mond ''getrawtransaction'' [AStr h, AInt 1])]\<rparr>)"
  by (simp add: GetRawTransaction_def askRaw_def bindA_def ask_def ret_def)

lemma demo_open_broadcast: "\<exists>es. broadcastTicket demo_open demo_ctx1 w = (Ok demo_ctx1, w\<lparr>events := events w @ es\<rparr>)"
proof -
  have drain: "drainAndReplaceBody demo_ctx1 = Ok (''{}'', demo_ctx1)"
    by (simp add: drainAndReplaceBody_def demo_ctx1_def newCtx_def Let_def)
  have bind: "bindBroadcast (wGin demo_open) b = Inr \<lparr>brTicketHex = ''00'', brTicketHash = ''h'', brParentHex = ''00''\<rparr>" for b
    by (simp add: demo_open_def)
  have err: "cxMondErr demo_ctx1 = Some None" by (simp add: demo_ctx1_def)
  show ?thesis
    by (simp add: broadcastTicket_def broadcastParent_def tryA_def lift_def drain bind demo_open_tx demo_open_ticket
      demo_open_hash bindA_def mustGet_def err ret_def demo_open_raw) (rule exI, rule refl)
qed

lemma demo_open_auth: "wdb w = demo_db \<Longrightarrow> \<exists>es. vspAuth demo_open demo_ctx1 w = (Ok demo_ctx2, w\<lparr>events := events w @ es\<rparr>)"
proof -
  assume w: "wdb w = demo_db"
  have drain: "drainAndReplaceBody demo_ctx1 = Ok (''{}'', demo_ctx1)"
    by (simp add: drainAndReplaceBody_def demo_ctx1_def newCtx_def Let_def)
  have bind: "bindHash (wGin demo_open) b = Inr (replicate 64 CHR ''a'')" for b by (simp add: demo_open_def demo_gin_def)
  have valid: "validateTicketHash (wLib demo_open) (replicate 64 CHR ''a'') = None"
    by (simp add: validateTicketHash_def MaxHashStringSize_def demo_open_def demo_lib_def)
  have sig: "validateSignature ref_bolt (wLib demo_open) h addr ''ok'' msg s = Ok ()" for h addr msg s
    by (simp add: validateSignature_def demo_open_def demo_lib_def)
  have hex: "rHex demo_raw = ''00''" by (simp add: demo_raw_def)
  have addr: "lbCommitmentAddr (wLib demo_open) p = Inr ''c''" for p by (simp add: demo_open_def demo_lib_def)
  have c: "cxMondErr demo_ctx1 = Some None" "cxSignature demo_ctx1 = ''ok''" by (simp_all add: demo_ctx1_def newCtx_def)
  show ?thesis
    by (simp add: vspAuth_def authAddress_def tryA_def lift_def drain bind valid query_def w demo_unknown Let_def bindA_def
      mustGet_def c ret_def demo_open_raw hex demo_open_tx demo_open_ticket index_def addr sig demo_ctx2_def)
      (rule exI, rule refl)
qed

lemma demo_open_fee:
  assumes "wdb w = demo_db" "lastIdx w = 0"
  shows "wdb (snd (feeAddress demo_open demo_ctx2 w)) = demo_entered \<and> fst (feeAddress demo_open demo_ctx2 w) \<noteq> Panic"
proof -
  have bind: "bindFeeAddress (wGin demo_open) b = Inr \<lparr>faTimestamp = 1, faTicketHash = replicate 64 CHR ''a'', faTicketHex = ''00'', faParentHex = ''00''\<rparr>" for b
    by (simp add: demo_open_def)
  have c: "cxMondErr demo_ctx2 = Some None" "cxTicket demo_ctx2 = Some zeroTicket" "cxKnownTicket demo_ctx2 = Some False"
    "cxCommitmentAddress demo_ctx2 = Some ''c''" "cxRequestBytes demo_ctx2 = Some ''{}''"
    by (simp_all add: demo_ctx2_def demo_ctx1_def)
  have vote: "canTicketVote (wLib demo_open) (wEnv demo_open) demo_net demo_raw w = (Ok True, w)" for w :: "flat world"
    by (simp add: canTicketVote_def demo_raw_def demo_net_def ret_def)
  have lib: "lbHeader (wLib demo_open) b = Inr demo_header" "lbTicketFee (wLib demo_open) x y z u v = 100" for b x y z u v
    by (simp_all add: demo_open_def demo_lib_def)
  have fee: "getCurrentFee demo_open w = (Ok 100, w\<lparr>events := events w @
      [Asked (Call Mond ''getbestblockhash'' []), Asked (Call Mond ''getblockheader'' [AStr ''00'', ABool False])]\<rparr>)" for w
    by (simp add: getCurrentFee_def GetBestBlockHeader_def GetBlockHeader_def askStr_def bindA_def ask_def ret_def lift_def
      demo_hex lib Let_def)
  have nxt: "nextAddress (wLib demo_open) \<lparr>external = 0, lastUsedIndex = 0, feeXPubID = 0\<rparr> = (Ok (''addr'', 2), 2)"
    by (simp add: nextAddress_def nextKey.simps demo_open_def demo_lib_def)
  have new: "newTicket (replicate 64 CHR ''a'') ''c'' demo_raw (''addr'', 2) 0 100 (unixOf (0 + feeAddressExpiration)) = demo_new"
    by (simp add: demo_new_def unixOf_def feeAddressExpiration_def)
  show ?thesis
    using assms
    by (simp add: feeAddress_def bindA_def mustGet_def c ret_def tryA_def lift_def bind demo_open_raw vote registerTicket_def
      fee getNewFeeAddress_def peek_def nxt putIdx_def commit_def demo_sets now_def ask_def Let_def new [simplified] demo_enters
      sendJSONResponse_def respond_def)
qed

lemma demo_registers:
  "wdb (snd (serve (routeFeeAddress demo_open) (Inr ''{}'') ''ok'' (demo_world demo_db))) = demo_entered"
proof -
  let ?w = "(demo_world demo_db)\<lparr>events := [Asked (Call Mond ''done'' [])]\<rparr>"
  have conn: "conns (demo_world demo_db) Mond" by (simp add: demo_world_def)
  obtain es where b: "broadcastTicket demo_open demo_ctx1 ?w = (Ok demo_ctx1, ?w\<lparr>events := events ?w @ es\<rparr>)"
    using demo_open_broadcast by blast
  let ?w1 = "?w\<lparr>events := events ?w @ es\<rparr>"
  obtain fs where a: "vspAuth demo_open demo_ctx1 ?w1 = (Ok demo_ctx2, ?w1\<lparr>events := events ?w1 @ fs\<rparr>)"
    using demo_open_auth [of ?w1] by auto
  let ?w2 = "?w1\<lparr>events := events ?w1 @ fs\<rparr>"
  have f: "wdb (snd (feeAddress demo_open demo_ctx2 ?w2)) = demo_entered" "fst (feeAddress demo_open demo_ctx2 ?w2) \<noteq> Panic"
    using demo_open_fee [of ?w2] by simp_all
  obtain r w' where r: "feeAddress demo_open demo_ctx2 ?w2 = (r, w')" by (cases "feeAddress demo_open demo_ctx2 ?w2")
  have ab: "cxAborted (newCtx b sg) = False" "cxAborted demo_ctx1 = False" "cxAborted demo_ctx2 = False" for b sg
    by (simp_all add: demo_ctx2_def demo_ctx1_def newCtx_def)
  have "runChain (routeFeeAddress demo_open) (newCtx (Inr ''{}'') ''ok'') (demo_world demo_db) = (r, w')"
    using b a r by (simp add: routeFeeAddress_def vspMustBeOpen_def bindA_def ret_def ab demo_open_mond [OF conn] split: outcome.split)
  then show ?thesis using f r by (cases r) (simp_all add: serve_def)
qed

theorem reachable_typed_witness:
  "\<exists>t. tickets ref_bolt (wdb (snd (serve (routeFeeAddress demo_open) (Inr ''{}'') ''ok'' (demo_world demo_db))))
      (replicate 64 CHR ''a'') = Some t \<and> Outcome t \<in> {[], Voted, Missed, Expired, Revoked}"
proof -
  let ?w = "snd (serve (routeFeeAddress demo_open) (Inr ''{}'') ''ok'' (demo_world demo_db))"
  have "tickets ref_bolt (wdb ?w) (replicate 64 CHR ''a'') = Some (stored_ticket demo_new)"
    using InsertNewTicket_abs [OF ref_bolt_ok demo_indexed_wf(1) demo_new_simps(2) demo_enters]
    by (metis absDb_simps(1) dbst.select_convs(1) dbst.surjective dbst.update_convs(1) demo_registers fun_upd_same demo_new_simps(1))
  moreover have "sys_step demo_open demo_vspm (demo_world demo_db) ?w" by (rule step_serve) (simp add: routes_def)
  moreover have "api_ok demo_open"
    using demo_api_ok by (simp add: api_ok_def demo_open_def gin_ok_def)
  ultimately show ?thesis
    using reachable_typed [OF r_into_rtranclp [of "sys_step demo_open demo_vspm"], of "demo_world demo_db" ?w _ "[]"
      "demo_seed" "''secret''" "replicate 64 CHR ''a''" "stored_ticket demo_new", OF _ _ _ _ demo_valid] flat_empty demo_created ref_disk_ok
    by (simp add: demo_open_def)
qed



section \<open>A lost payment\<close>

text \<open>
  C25: A payment can be lost. A ticket is read, changed and written in two transactions, and
  requests run beside the background task: when the update read the ticket \<open>t\<close> as unpaid and
  unconfirmed, and a payment for it is stored before the update writes it back, the write erases
  the payment. The database then has the ticket without fee and key although its owner holds a
  signed receipt, which no step of the specification can do.
\<close>

theorem lost_fee:
  assumes "bolt_ok (vBolt V)" "db_wf (vBolt V) (wdb w)"
    and t: "ticket_ok t" "FeeTxStatus t = NoFee" "VotingWIF t = []" "FeeTxHex t = []"
    and u: "tickets (vBolt V) (wdb w) (Hash t) = Some u" "FeeTxStatus u = FeeReceieved"
    and mond: "vEnv V (events w) (Call Mond ''getrawtransaction'' [AStr (Hash t), AInt 1]) = Inr (RRaw raw)"
      "sint (rConfirmations raw) \<ge> 6"
    and "UpdateTicket (vBolt V) (t\<lparr>PurchaseHeight := rBlockHeight raw, Confirmed := True\<rparr>) (wdb w) = Ok s'"
      "confirmTicket V t w = (r, w')"
  shows "\<exists>t'. tickets (vBolt V) (wdb w') (Hash t) = Some t' \<and> FeeTxStatus t' = NoFee \<and> VotingWIF t' = [] \<and> FeeTxHex t' = [] \<and>
    \<not> db_step (absDb (vBolt V) (wdb w)) (absDb (vBolt V) (wdb w'))"
proof -
  let ?t = "stored_ticket (t\<lparr>PurchaseHeight := rBlockHeight raw, Confirmed := True\<rparr>)"
  have now: "tickets (vBolt V) (wdb w') (Hash t) = Some ?t"
    by (rule confirm_overwrites [OF assms(1,2) t(1) mond assms(11,12), THEN conjunct2])
  have st: "FeeTxStatus ?t = NoFee" "VotingWIF ?t = []" "FeeTxHex ?t = []" "Confirmed ?t"
    using t by (simp_all add: stored_ticket_def)
  have "\<not> db_step (absDb (vBolt V) (wdb w)) (absDb (vBolt V) (wdb w'))"
    using step_keeps_fee [of "absDb (vBolt V) (wdb w)" "absDb (vBolt V) (wdb w')" "Hash t" u ?t] st(1) u now by auto
  with now st show ?thesis by (intro exI [of _ ?t]) simp
qed

theorem lost_fee_witness:
  "\<exists>t'. tickets ref_bolt demo_reg (replicate 64 CHR ''a'') = Some demo_unpaid \<and>
    tickets ref_bolt (wdb (snd (confirmTicket demo_vspm demo_unpaid (demo_world demo_stored)))) (replicate 64 CHR ''a'') = Some t' \<and>
    FeeTxStatus t' = NoFee"
proof -
  let ?t = "demo_unpaid\<lparr>PurchaseHeight := 33, Confirmed := True\<rparr>"
  have st: "db_wf ref_bolt demo_stored" "tickets ref_bolt demo_stored (replicate 64 CHR ''a'') = Some demo_paid"
    using demo_at [of 0] by (auto simp: holds_at_def dest: good_wf(1))
  have "val_ok v" if "(k, v) \<in> set (ticketFields ?t)" for k v
    using that by (auto simp: ticketFields_def demo_unpaid_def zeroTicket_def val_ok_def
      NoFee_def stringMapToBytes_def boolToBytes_def object_text_def)
  then have "\<exists>s'. UpdateTicket ref_bolt ?t demo_stored = Ok s'"
    by (intro UpdateTicket_succeeds [OF ref_bolt_ok ref_disk_ok]) (use st in \<open>auto simp: db_wf_def\<close>)
  then obtain s' where s': "UpdateTicket (vBolt demo_vspm) (demo_unpaid\<lparr>PurchaseHeight := rBlockHeight demo_raw, Confirmed := True\<rparr>)
      (wdb (demo_world demo_stored)) = Ok s'"
    by (auto simp: demo_raw_def)
  obtain r w' where run: "confirmTicket demo_vspm demo_unpaid (demo_world demo_stored) = (r, w')"
    by (cases "confirmTicket demo_vspm demo_unpaid (demo_world demo_stored)")
  have t: "VotingWIF demo_unpaid = []" "FeeTxHex demo_unpaid = []"
    by (simp_all add: demo_unpaid_def zeroTicket_def)
  have confs: "sint (rConfirmations demo_raw) \<ge> 6" by (simp add: demo_raw_def)
  have pre: "bolt_ok (vBolt demo_vspm)" "db_wf (vBolt demo_vspm) (wdb (demo_world demo_stored))"
    "tickets (vBolt demo_vspm) (wdb (demo_world demo_stored)) (Hash demo_unpaid) = Some demo_paid"
    "vEnv demo_vspm (events (demo_world demo_stored)) (Call Mond ''getrawtransaction'' [AStr (Hash demo_unpaid), AInt 1])
      = Inr (RRaw demo_raw)"
    using st by (simp_all add: ref_bolt_ok)
  from lost_fee [OF pre(1,2) demo_unpaid_ok(1) demo_unpaid_simps(2) t pre(3) demo_paid_simps(2) pre(4) confs s' run]
  obtain t' where "tickets (vBolt demo_vspm) (wdb w') (Hash demo_unpaid) = Some t'" "FeeTxStatus t' = NoFee" by blast
  then show ?thesis by (simp add: run demo_reg_tickets)
qed

end
