(* ===== verification/Config.thy ===== *)
theory Config
  imports Chain
begin

text \<open>
  The configuration of the daemon: \<open>internal/config/network.go\<close> and \<open>internal/vspm/config.go\<close>, on a
  Unix system. The option parsers of \<open>go-flags\<close> and the file system are parameters; \<open>filepath\<close>,
  \<open>strings\<close> and \<open>net\<close> are the standard library's and are defined here. The fee is a floating-point
  number, which the code only passes on and tests. Messages to the terminal are left out.
\<close>

section \<open>Standard library\<close>

text \<open>\<open>strings.Split\<close> at one character.\<close>

fun splitAt :: "char \<Rightarrow> string \<Rightarrow> string list" where
  "splitAt c [] = [[]]"
| "splitAt c (x # s) = (if x = c then [] # splitAt c s
     else case splitAt c s of p # ps \<Rightarrow> (x # p) # ps | [] \<Rightarrow> [[x]])"

text \<open>\<open>strings.Join\<close> with one character.\<close>

fun joinWith :: "char \<Rightarrow> string list \<Rightarrow> string" where
  "joinWith c [] = []"
| "joinWith c [p] = p"
| "joinWith c (p # ps) = p @ c # joinWith c ps"

text \<open>
  \<open>filepath.Clean\<close>: the elements of the path are pushed on a stack (its top first); an element
  ".." removes the one before it, unless there is none to remove.
\<close>

definition cleanStep :: "bool \<Rightarrow> string list \<Rightarrow> string \<Rightarrow> string list" where
  "cleanStep rooted stack p =
     (if p = [] \<or> p = ''.'' then stack
      else if p = ''..'' then
        (case stack of
           [] \<Rightarrow> if rooted then [] else [''..'']
         | p' # rest \<Rightarrow> if p' = ''..'' then ''..'' # stack else rest)
      else p # stack)"

definition pathClean :: "string \<Rightarrow> string" where
  "pathClean path =
     (let rooted = hasPrefix path ''/'';
          out = joinWith CHR ''/'' (rev (foldl (cleanStep rooted) [] (splitAt CHR ''/'' path))) in
      if rooted then CHR ''/'' # out else if out = [] then ''.'' else out)"

definition pathJoin :: "string list \<Rightarrow> string" where
  "pathJoin elems = (case filter (\<lambda>e. e \<noteq> []) elems of [] \<Rightarrow> [] | es \<Rightarrow> pathClean (joinWith CHR ''/'' es))"

text \<open>The parts of a text before and after the last occurrence of a character.\<close>

definition lastIndex :: "char \<Rightarrow> string \<Rightarrow> (string \<times> string) option" where
  "lastIndex c s = (if c \<notin> set s then None
     else Some (rev (tl (dropWhile (\<lambda>x. x \<noteq> c) (rev s))), rev (takeWhile (\<lambda>x. x \<noteq> c) (rev s))))"

text \<open>\<open>net.SplitHostPort\<close>: the host and the port, or an error. A host in brackets may hold colons.\<close>

definition splitHostPort :: "string \<Rightarrow> (string \<times> string) outcome" where
  "splitHostPort hostport = (case lastIndex CHR '':'' hostport of
     None \<Rightarrow> Fail (Plain ''missing port in address'')
   | Some (before, port) \<Rightarrow>
       if hasPrefix hostport ''['' then
         (if CHR '']'' \<notin> set hostport then Fail (Plain ''missing ']' in address'')
          else
            let host = takeWhile (\<lambda>x. x \<noteq> CHR '']'') (tl hostport);
                rest = drop (length host + 2) hostport in
            if rest = [] then Fail (Plain ''missing port in address'')
            else if rest \<noteq> CHR '':'' # port then
              Fail (Plain (if hasPrefix rest '':'' then ''too many colons in address'' else ''missing port in address''))
            else if CHR ''['' \<in> set (tl hostport) then Fail (Plain ''unexpected '[' in address'')
            else if CHR '']'' \<in> set port then Fail (Plain ''unexpected ']' in address'')
            else Ok (host, port))
       else if CHR '':'' \<in> set before then Fail (Plain ''too many colons in address'')
       else if CHR ''['' \<in> set hostport then Fail (Plain ''unexpected '[' in address'')
       else if CHR '']'' \<in> set hostport then Fail (Plain ''unexpected ']' in address'')
       else Ok (before, port))"

definition joinHostPort :: "string \<Rightarrow> string \<Rightarrow> string" where
  "joinHostPort host port =
     (if CHR '':'' \<in> set host then CHR ''['' # host @ '']:'' @ port else host @ CHR '':'' # port)"

section \<open>\<open>network.go\<close>\<close>

text \<open>A network: the parameters of \<open>chaincfg\<close> and what the program adds to them.\<close>

record netConfig =
  ncParams :: network
  MondRPCServerPort :: string
  WalletRPCServerPort :: string
  BlockExplorerURL :: string
  MinWallets :: int

text \<open>\<open>params\<close> gives \<open>chaincfg.MainNetParams\<close> and the others; the activation heights are the program's.\<close>

datatype whichNet = Main | Test | Sim

definition activeFromOne :: "network \<Rightarrow> network" where
  "activeFromOne n = n\<lparr>DCP0005Height := 1, DCP0010Height := 1, DCP0012Height := 1\<rparr>"

definition MainNet :: "(whichNet \<Rightarrow> network) \<Rightarrow> netConfig" where
  "MainNet params = \<lparr>ncParams = activeFromOne (params Main), MondRPCServerPort = ''9509'', WalletRPCServerPort = ''9510'',
     BlockExplorerURL = ''https://monetarium.online'', MinWallets = 3\<rparr>"

definition TestNet3 :: "(whichNet \<Rightarrow> network) \<Rightarrow> netConfig" where
  "TestNet3 params = \<lparr>ncParams = activeFromOne (params Test), MondRPCServerPort = ''19509'', WalletRPCServerPort = ''19510'',
     BlockExplorerURL = ''https://testnet.monetarium.online'', MinWallets = 1\<rparr>"

definition SimNet :: "(whichNet \<Rightarrow> network) \<Rightarrow> netConfig" where
  "SimNet params = \<lparr>ncParams = activeFromOne (params Sim), MondRPCServerPort = ''19556'', WalletRPCServerPort = ''19557'',
     BlockExplorerURL = ''...'', MinWallets = 1\<rparr>"

definition NetworkFromName :: "(whichNet \<Rightarrow> network) \<Rightarrow> string \<Rightarrow> netConfig outcome" where
  "NetworkFromName params name =
     (if name = ''mainnet'' then Ok (MainNet params)
      else if name = ''testnet'' then Ok (TestNet3 params)
      else if name = ''simnet'' then Ok (SimNet params)
      else Fail (Plain (name @ '' is not a supported network'')))"

section \<open>\<open>config.go\<close>\<close>

record mondDetails =
  mdUser :: string
  mdPassword :: string
  mdHost :: string
  mdCert :: bytes

record walletDetails =
  wdUsers :: "string list"
  wdPasswords :: "string list"
  wdHosts :: "string list"
  wdCerts :: "bytes list"

text \<open>The options, and the fields derived from them, which are nil at first. Times are in nanoseconds.\<close>

record 'p config =
  cfListen :: string
  cfLogLevel :: string
  cfMaxLogSize :: int64
  cfLogsToKeep :: int64
  cfNetworkName :: string
  cfVSPFee :: 'p
  cfMondHost :: string
  cfMondUser :: string
  cfMondPass :: string
  cfMondCert :: string
  cfWalletHosts :: string
  cfWalletUsers :: string
  cfWalletPasswords :: string
  cfWalletCerts :: string
  cfWebServerDebug :: bool
  cfSupportEmail :: string
  cfBackupInterval :: int64
  cfVspClosed :: bool
  cfVspClosedMsg :: string
  cfAdminPass :: string
  cfDesignation :: string
  cfShowVersion :: bool
  cfFeeXPub :: string
  cfHomeDir :: string
  cfConfigFile :: string
  cfNetwork :: "netConfig option"
  cfMondDetails :: "mondDetails option"
  cfWalletDetails :: "walletDetails option"

text \<open>
  What the code asks of the system and of the flags library: whether \<open>os.Stat\<close> reports that a file
  does not exist, the contents of a file, creating a directory, environment variables and home
  directories (of the current user for an empty name); the command line and the configuration file,
  which overwrite options, and whether the command line asks for help.
\<close>

record 'p system =
  syMissing :: "string \<Rightarrow> bool"
  syReadFile :: "string \<Rightarrow> err + bytes"
  syMkdirAll :: "string \<Rightarrow> err option"
  syExpandEnv :: "string \<Rightarrow> string"
  syHomeDir :: "string \<Rightarrow> err + string"
  syHelp :: bool
  syCommandLine :: "'p config \<Rightarrow> err + 'p config"
  syIniFile :: "string \<Rightarrow> 'p config \<Rightarrow> err + 'p config"

definition configFilename :: string where "configFilename = ''vspm.conf''"
definition dbFilename :: string where "dbFilename = ''vspm.db''"

text \<open>\<open>one\<close> is the fee of 1.0 and \<open>appData\<close> the directory of \<open>dcrutil.AppDataDir\<close>.\<close>

definition DefaultConfig :: "'p \<Rightarrow> string \<Rightarrow> 'p config" where
  "DefaultConfig one appData = \<lparr>cfListen = '':8800'', cfLogLevel = ''debug'', cfMaxLogSize = 10, cfLogsToKeep = 20,
     cfNetworkName = ''testnet'', cfVSPFee = one, cfMondHost = ''127.0.0.1'', cfMondUser = [], cfMondPass = [],
     cfMondCert = [], cfWalletHosts = ''127.0.0.1'', cfWalletUsers = [], cfWalletPasswords = [], cfWalletCerts = [],
     cfWebServerDebug = False, cfSupportEmail = [], cfBackupInterval = 180 * 1000000000, cfVspClosed = False,
     cfVspClosedMsg = [], cfAdminPass = [], cfDesignation = ''Voting Service Provider'', cfShowVersion = False,
     cfFeeXPub = [], cfHomeDir = appData, cfConfigFile = [], cfNetwork = None, cfMondDetails = None, cfWalletDetails = None\<rparr>"

definition fileExists :: "'p system \<Rightarrow> string \<Rightarrow> bool" where
  "fileExists S name \<longleftrightarrow> \<not> syMissing S name"

definition LogDir :: "'p config \<Rightarrow> string outcome" where
  "LogDir cfg = (case cfNetwork cfg of
     None \<Rightarrow> Panic | Some n \<Rightarrow> Ok (pathJoin [cfHomeDir cfg, ''logs'', netName (ncParams n)]))"

definition DatabaseFile :: "'p config \<Rightarrow> string outcome" where
  "DatabaseFile cfg = (case cfNetwork cfg of
     None \<Rightarrow> Panic | Some n \<Rightarrow> Ok (pathJoin [cfHomeDir cfg, ''data'', netName (ncParams n), dbFilename]))"

definition cleanAndExpandPath :: "'p system \<Rightarrow> string \<Rightarrow> string" where
  "cleanAndExpandPath S path =
     (if path = [] then []
      else
        let path = syExpandEnv S path in
        if \<not> hasPrefix path ''~'' then pathClean path
        else
          let path = tl path;
              userName = takeWhile (\<lambda>c. c \<noteq> CHR ''/'') path;
              (userName, path) = (if CHR ''/'' \<in> set path then (userName, drop (length userName) path) else ([], path));
              homeDir = (case syHomeDir S userName of Inl _ \<Rightarrow> [] | Inr d \<Rightarrow> d);
              homeDir = (if homeDir = [] then ''.'' else homeDir) in
          pathJoin [homeDir, path])"

definition normalizeAddress :: "string \<Rightarrow> string \<Rightarrow> string" where
  "normalizeAddress addr defaultPort = (case splitHostPort addr of
     Ok _ \<Rightarrow> addr | _ \<Rightarrow> joinHostPort addr defaultPort)"

text \<open>A fee rate from 0.01 to 100 percent: \<open>floorOf\<close> is \<open>math.Floor(feeRate * 100)\<close>, None if that is not finite.\<close>

definition validPoolFeeRate :: "('p \<Rightarrow> int option) \<Rightarrow> 'p \<Rightarrow> bool" where
  "validPoolFeeRate floorOf feeRate = (case floorOf feeRate of None \<Rightarrow> False | Some t \<Rightarrow> 1 \<le> t \<and> t \<le> 10000)"

text \<open>The first option of a list that is not set.\<close>

fun required :: "(string \<times> string) list \<Rightarrow> unit outcome" where
  "required [] = Ok ()"
| "required ((name, v) # vs) = (if v = [] then Fail (Plain (''the '' @ name @ '' option is not set'')) else required vs)"

text \<open>Reading the options: the defaults, overwritten by the file and then by the command line. None is an exit.\<close>

definition readOptions :: "'p system \<Rightarrow> 'p config \<Rightarrow> 'p config option outcome" where
  "readOptions S defaults =
     (if syHelp S then Ok None
      else andThen (fromSum (syCommandLine S defaults)) (\<lambda>preCfg.
      if cfShowVersion preCfg then Ok None
      else
        let cfg = (if cfHomeDir preCfg \<noteq> [] then defaults\<lparr>cfHomeDir := cleanAndExpandPath S (cfHomeDir preCfg)\<rparr> else defaults) in
        case syMkdirAll S (cfHomeDir cfg) of
          Some e \<Rightarrow> Fail (Wrapped ''failed to create home directory'' e)
        | None \<Rightarrow>
            let configFile = pathJoin [cfHomeDir cfg, configFilename] in
            if \<not> fileExists S configFile then Fail (Plain (''config file does not exist at '' @ configFile))
            else andThen (wrapErr ''error parsing config file'' (fromSum (syIniFile S configFile cfg))) (\<lambda>cfg.
              andThen (fromSum (syCommandLine S cfg)) (\<lambda>cfg. Ok (Some cfg)))))"

text \<open>The checks of the general options, and the connection to mond.\<close>

definition checkGeneral :: "('p \<Rightarrow> int option) \<Rightarrow> 'p config \<Rightarrow> 'p config outcome" where
  "checkGeneral floorOf cfg =
     (if sint (cfBackupInterval cfg) < 30 * 1000000000 then Fail (Plain ''minimum backupinterval is 30 seconds'')
      else if \<not> validPoolFeeRate floorOf (cfVSPFee cfg)
      then Fail (Plain ''invalid vspfee - should be greater than 0.01 and less than 100.0'')
      else
        let cfg = (if cfVspClosed cfg then cfg else cfg\<lparr>cfVspClosedMsg := []\<rparr>) in
        andThen (required [(''supportemail'', cfSupportEmail cfg), (''adminpass'', cfAdminPass cfg)]) (\<lambda>_. Ok cfg))"

definition loadMond :: "'p system \<Rightarrow> netConfig \<Rightarrow> 'p config \<Rightarrow> 'p config outcome" where
  "loadMond S net cfg =
     andThen (required [(''monduser'', cfMondUser cfg), (''mondpass'', cfMondPass cfg), (''mondcert'', cfMondCert cfg)]) (\<lambda>_.
     let cfg = cfg\<lparr>cfMondCert := cleanAndExpandPath S (cfMondCert cfg)\<rparr> in
     andThen (wrapErr ''failed to read mond cert file'' (fromSum (syReadFile S (cfMondCert cfg)))) (\<lambda>mondCert.
     let cfg = cfg\<lparr>cfMondHost := normalizeAddress (cfMondHost cfg) (MondRPCServerPort net)\<rparr> in
     Ok (cfg\<lparr>cfMondDetails := Some \<lparr>mdUser = cfMondUser cfg, mdPassword = cfMondPass cfg, mdHost = cfMondHost cfg,
       mdCert = mondCert\<rparr>\<rparr>)))"

fun readCerts :: "'p system \<Rightarrow> string list \<Rightarrow> bytes list outcome" where
  "readCerts S [] = Ok []"
| "readCerts S (c # cs) =
     andThen (wrapErr ''failed to read monwallet cert file'' (fromSum (syReadFile S (cleanAndExpandPath S c)))) (\<lambda>b.
     andThen (readCerts S cs) (\<lambda>bs. Ok (b # bs)))"

definition countMismatch :: "nat \<Rightarrow> string \<Rightarrow> nat \<Rightarrow> err" where
  "countMismatch numHost what n = Plain (dec_of_nat numHost @ '' wallet hosts specified, expected '' @ dec_of_nat numHost @
     '' RPC '' @ what @ '', got '' @ dec_of_nat n)"

definition loadWallets :: "'p system \<Rightarrow> netConfig \<Rightarrow> 'p config \<Rightarrow> 'p config outcome" where
  "loadWallets S net cfg =
     andThen (required [(''walletuser'', cfWalletUsers cfg), (''walletpass'', cfWalletPasswords cfg),
       (''walletcert'', cfWalletCerts cfg)]) (\<lambda>_.
     let walletHosts = splitAt CHR '','' (cfWalletHosts cfg); numHost = length walletHosts;
         walletUsers = splitAt CHR '','' (cfWalletUsers cfg); walletPasswords = splitAt CHR '','' (cfWalletPasswords cfg);
         certs = splitAt CHR '','' (cfWalletCerts cfg) in
     if length walletUsers \<noteq> numHost then Fail (countMismatch numHost ''usernames'' (length walletUsers))
     else if length walletPasswords \<noteq> numHost then Fail (countMismatch numHost ''passwords'' (length walletPasswords))
     else if length certs \<noteq> numHost then Fail (countMismatch numHost ''certificates'' (length certs))
     else andThen (readCerts S certs) (\<lambda>walletCerts.
       if int numHost < MinWallets net then
         Fail (Plain (''minimum required voting wallets has not been met: '' @ dec_of_nat numHost @ '' < '' @ dec_of_int (MinWallets net)))
       else Ok (cfg\<lparr>cfWalletDetails := Some \<lparr>wdUsers = walletUsers, wdPasswords = walletPasswords,
         wdHosts = map (\<lambda>h. normalizeAddress h (WalletRPCServerPort net)) walletHosts, wdCerts = walletCerts\<rparr>\<rparr>)))"

definition LoadConfig :: "(whichNet \<Rightarrow> network) \<Rightarrow> 'p system \<Rightarrow> ('p \<Rightarrow> int option) \<Rightarrow> 'p config \<Rightarrow> 'p config option outcome" where
  "LoadConfig params S floorOf defaults =
     andThen (readOptions S defaults) (\<lambda>options. case options of None \<Rightarrow> Ok None | Some cfg \<Rightarrow>
     andThen (NetworkFromName params (cfNetworkName cfg)) (\<lambda>net.
     andThen (checkGeneral floorOf (cfg\<lparr>cfNetwork := Some net\<rparr>)) (\<lambda>cfg.
     andThen (loadMond S net cfg) (\<lambda>cfg.
     andThen (loadWallets S net cfg) (\<lambda>cfg.
     andThen (DatabaseFile cfg) (\<lambda>dbFile.
     if \<not> fileExists S dbFile then
       Fail (Plain (''no '' @ netName (ncParams net) @ '' database exists in '' @ cfHomeDir cfg))
     else Ok (Some cfg)))))))"

section \<open>Facts\<close>

lemma splitAt_not_Nil: "splitAt c s \<noteq> []"
  by (induction s) (auto split: list.splits)

lemma joinWith_splitAt: "joinWith c (splitAt c s) = s"
proof (induction s)
  case (Cons x s)
  obtain p ps where p: "splitAt c s = p # ps" using splitAt_not_Nil by (cases "splitAt c s") auto
  then show ?case using Cons by (cases ps) auto
qed simp

lemma splitAt_plain: "p \<in> set (splitAt c s) \<Longrightarrow> c \<notin> set p"
  by (induction s arbitrary: p) (auto split: list.splits if_splits)

lemma while_stop: "c \<notin> set xs \<Longrightarrow> takeWhile (\<lambda>x. x \<noteq> c) (xs @ c # ys) = xs" "c \<notin> set xs \<Longrightarrow> dropWhile (\<lambda>x. x \<noteq> c) (xs @ c # ys) = c # ys"
  by (induction xs) auto

lemma lastIndex_append: "c \<notin> set port \<Longrightarrow> lastIndex c (host @ c # port) = Some (host, port)"
  by (simp add: lastIndex_def while_stop)

text \<open>An address without brackets has a port once it is normalised.\<close>

lemma normalizeAddress_port:
  assumes "CHR ''['' \<notin> set addr" "CHR '']'' \<notin> set addr" "set port \<inter> {CHR '':'', CHR ''['', CHR '']''} = {}"
  shows "\<exists>host p. splitHostPort (normalizeAddress addr port) = Ok (host, p)"
proof (cases "splitHostPort addr")
  case (Ok hp)
  then show ?thesis by (cases hp) (simp add: normalizeAddress_def)
next
  case (Fail e)
  show ?thesis
  proof (cases "CHR '':'' \<in> set addr")
    case True
    have "lastIndex CHR '':'' (CHR ''['' # addr @ '']:'' @ port) = Some (CHR ''['' # addr @ '']'', port)"
      using lastIndex_append [of "CHR '':''" port "CHR ''['' # addr @ '']''"] assms(3) by simp
    moreover have "takeWhile (\<lambda>x. x \<noteq> CHR '']'') (addr @ '']:'' @ port) = addr"
      using while_stop(1) [OF assms(2)] by simp
    ultimately have "splitHostPort (CHR ''['' # addr @ '']:'' @ port) = Ok (addr, port)"
      using assms by (auto simp: splitHostPort_def Let_def)
    then show ?thesis by (simp add: normalizeAddress_def Fail joinHostPort_def True)
  next
    case False
    have "lastIndex CHR '':'' (addr @ CHR '':'' # port) = Some (addr, port)"
      using assms(3) by (intro lastIndex_append) auto
    moreover have "\<not> hasPrefix (addr @ CHR '':'' # port) ''[''" using assms(1) by (cases addr) auto
    ultimately have "splitHostPort (addr @ CHR '':'' # port) = Ok (addr, port)"
      using assms False by (auto simp: splitHostPort_def)
    then show ?thesis by (simp add: normalizeAddress_def Fail joinHostPort_def False)
  qed
next
  case Panic
  then show ?thesis by (auto simp: splitHostPort_def Let_def split: option.splits if_splits)
qed

text \<open>A bracketed host without a port gets brackets twice, which is no address.\<close>

lemma normalizeAddress_brackets: "normalizeAddress ''[::1]'' ''9510'' = ''[[::1]]:9510''"
    "splitHostPort ''[[::1]]:9510'' = Fail (Plain ''missing port in address'')"
  by code_simp+

end
