(* ===== verification/Admin.thy ===== *)
theory Admin
  imports VoteHandlers TicketQueries FeeXPub
begin

text \<open>
  The website: the session middleware and \<open>requireAdmin\<close> of \<open>internal/webapi/middleware.go\<close>, the
  admin handlers of \<open>internal/webapi/admin.go\<close>, \<open>homepage.go\<close>, and the routes of
  \<open>internal/webapi/webapi.go\<close>. The cookie store of gorilla, the hash of passwords, the rate limiter
  and the check of cross-origin requests are not part of the repository: the first two are
  parameters, the others are asked of the environment. The text of a page is left to its template;
  the model keeps the name of the template and the data it is filled with.
\<close>

section \<open>State\<close>

text \<open>
  The cookie store: what the cookie of a request decodes to (whether \<open>Values["admin"]\<close> is set, with
  the error of \<open>Get\<close>), and the cookie that \<open>Save\<close> sets. A session with an error is a new one.
\<close>

record cookieStore =
  ckGet :: "string \<Rightarrow> bool \<times> err option"
  ckSave :: "bool \<Rightarrow> err + string"

record walletStatus =
  wsConnected :: bool
  wsInfoError :: bool
  wsDaemonConnected :: bool
  wsVoteVersion :: uint32
  wsUnlocked :: bool
  wsVoting :: bool
  wsBestBlockError :: bool
  wsBestBlockHeight :: int64

record mondStatus =
  msConnected :: bool
  msBestBlockError :: bool
  msBestBlockHeight :: uint32

record searchResult =
  srHash :: string
  srFound :: bool
  srTicket :: ticket
  srFeeTxDecoded :: string
  srAltSignAddrData :: "altsign option"
  srVoteChanges :: "(uint32 \<times> votechange) list"
  srMaxVoteChanges :: int

record adminData =
  adSearchResult :: "searchResult option"
  adCache :: cacheData
  adWalletStatus :: "(nat \<times> walletStatus) list"
  adMondStatus :: mondStatus
  adMissed :: "ticket list"
  adCurrentXPub :: feexpub
  adOldXPubs :: "(uint32 \<times> feexpub) list"

text \<open>What is sent back: text, a page, a redirect, the status as JSON, or the database.\<close>

datatype 's page = Text string | Homepage cacheData | Login cacheData "string option" | AdminPage adminData
  | Redirect string | StatusPage "(nat \<times> walletStatus) list" mondStatus | Backup 's

text \<open>
  The context of a request to the website: the values shared with the API, the cookie, the form, the
  credentials of HTTP basic authentication and the address of the client; the session and what has
  been answered so far: pages with their status, and cookies.
\<close>

record 's webctx =
  wxCtx :: ctx
  wxCookie :: string
  wxForm :: "string \<Rightarrow> string"
  wxBasic :: "(string \<times> string) option"
  wxClientIP :: string
  wxSession :: "bool option"
  wxSent :: "(nat \<times> 's page) list"
  wxSetCookie :: "string list"

type_synonym 's webhandler = "'s webctx \<Rightarrow> ('s, 's webctx) act"

record ('s, 'x, 'f) website =
  wbApi :: "('s, 'x, 'f) api"
  wbStore :: cookieStore
  wbAdminPassHash :: bytes
  wbSha256 :: "string \<Rightarrow> bytes"
  wbAdminPass :: string

definition aborted :: "'s webctx \<Rightarrow> bool" where
  "aborted x = cxAborted (wxCtx x)"

definition abort :: "'s webctx \<Rightarrow> 's webctx" where
  "abort x = x\<lparr>wxCtx := (wxCtx x)\<lparr>cxAborted := True\<rparr>\<rparr>"

definition send :: "nat \<Rightarrow> 's page \<Rightarrow> 's webctx \<Rightarrow> 's webctx" where
  "send status p x = x\<lparr>wxSent := wxSent x @ [(status, p)]\<rparr>"

text \<open>Middleware shared with the API.\<close>

definition shared :: "'s handler \<Rightarrow> 's webhandler" where
  "shared h x = bindA (h (wxCtx x)) (\<lambda>c. ret (x\<lparr>wxCtx := c\<rparr>))"

fun runWeb :: "'s webhandler list \<Rightarrow> 's webhandler" where
  "runWeb [] x = ret x"
| "runWeb (h # hs) x = (if aborted x then ret x else bindA (h x) (runWeb hs))"

section \<open>\<open>middleware.go\<close>\<close>

text \<open>What a library the code only calls decides: True or False, or False if it does not say.\<close>

definition decided :: "'s env \<Rightarrow> string \<Rightarrow> string \<Rightarrow> ('s, bool) act" where
  "decided E what who = (\<lambda>w. case ask E (Call Ctx what [AStr who]) w of
     (Ok (RBool b), w') \<Rightarrow> (Ok b, w') | (_, w') \<Rightarrow> (Ok False, w'))"

text \<open>One limiter per client address; \<open>Allow\<close> takes a token if there is one.\<close>

definition rateLimit :: "'s env \<Rightarrow> 's webhandler \<Rightarrow> 's webhandler" where
  "rateLimit E limitExceeded x =
     bindA (decided E ''limiter.Allow'' (wxClientIP x)) (\<lambda>allowed.
     if allowed then ret x else bindA (limitExceeded x) (\<lambda>x'. ret (abort x')))"

definition invalidCookieErr :: string where
  "invalidCookieErr = ''securecookie: the value is not valid''"

definition withSession :: "('s, 'x, 'f) website \<Rightarrow> 's webhandler" where
  "withSession B x = (case ckGet (wbStore B) (wxCookie x) of
     (admin, None) \<Rightarrow> ret (x\<lparr>wxSession := Some admin\<rparr>)
   | (admin, Some e) \<Rightarrow>
       if contains (err_msg e) invalidCookieErr then
         (case ckSave (wbStore B) admin of
            Inl _ \<Rightarrow> ret (abort (send 500 (Text ''Error saving session'') x))
          | Inr cookie \<Rightarrow> ret (x\<lparr>wxSetCookie := wxSetCookie x @ [cookie], wxSession := Some admin\<rparr>))
       else ret (abort (send 500 (Text ''Error getting session'') x)))"

definition csrf :: "'s env \<Rightarrow> 's webhandler" where
  "csrf E x =
     bindA (decided E ''csrf.Check'' (wxClientIP x)) (\<lambda>ok.
     if ok then ret x else ret (abort (send 400 (Text ''CSRF failure'') x)))"

definition requireAdmin :: "'s webhandler" where
  "requireAdmin x =
     bindA (mustGet (cxCache (wxCtx x))) (\<lambda>cacheData.
     bindA (mustGet (wxSession x)) (\<lambda>admin.
     if \<not> admin then ret (abort (send 401 (Login cacheData None) x)) else ret x))"

section \<open>\<open>admin.go\<close>\<close>

definition WalletInfo :: "'s env \<Rightarrow> nat \<Rightarrow> ('s, bool \<times> uint32 \<times> bool \<times> bool) act" where
  "WalletInfo E i = bindA (ask E (Call (Wallet i) ''walletinfo'' [])) (\<lambda>r. case r of
     RWalletInfo daemonConnected voteVersion unlocked voting \<Rightarrow> ret (daemonConnected, voteVersion, unlocked, voting)
   | _ \<Rightarrow> failA badReply)"

definition getMondStatus :: "('s, 'x, 'f) website \<Rightarrow> 's webctx \<Rightarrow> ('s, mondStatus) act" where
  "getMondStatus B x =
     (let status = \<lparr>msConnected = False, msBestBlockError = False, msBestBlockHeight = 0\<rparr> in
      bindA (mustGet (cxMondErr (wxCtx x))) (\<lambda>mondErr.
      if mondErr \<noteq> None then ret status
      else
        let status = status\<lparr>msConnected := True\<rparr> in
        tryA (GetBlockCount (wEnv (wbApi B))) (\<lambda>_. ret (status\<lparr>msBestBlockError := True\<rparr>))
          (\<lambda>bestBlock. ret (status\<lparr>msBestBlockHeight := ucast bestBlock\<rparr>))))"

definition offline :: walletStatus where
  "offline = \<lparr>wsConnected = False, wsInfoError = False, wsDaemonConnected = False, wsVoteVersion = 0, wsUnlocked = False,
     wsVoting = False, wsBestBlockError = False, wsBestBlockHeight = 0\<rparr>"

text \<open>The status of one wallet.\<close>

definition oneWallet :: "'s env \<Rightarrow> nat \<Rightarrow> ('s, walletStatus) act" where
  "oneWallet E v =
     (let ws = offline\<lparr>wsConnected := True\<rparr> in
      bindA (tryA (WalletInfo E v) (\<lambda>_. ret (ws\<lparr>wsInfoError := True\<rparr>)) (\<lambda>(daemonConnected, voteVersion, unlocked, voting).
        ret (ws\<lparr>wsDaemonConnected := daemonConnected, wsVoteVersion := voteVersion, wsUnlocked := unlocked,
          wsVoting := voting\<rparr>))) (\<lambda>ws.
      tryA (GetBestBlockHeight E v) (\<lambda>_. ret (ws\<lparr>wsBestBlockError := True\<rparr>))
        (\<lambda>height. ret (ws\<lparr>wsBestBlockHeight := height\<rparr>))))"

text \<open>The map from the hosts of the wallets to their status.\<close>

definition getWalletStatus :: "('s, 'x, 'f) website \<Rightarrow> 's webctx \<Rightarrow> ('s, (nat \<times> walletStatus) list) act" where
  "getWalletStatus B x =
     bindA (mustGet (cxWallets (wxCtx x))) (\<lambda>walletClients.
     bindA (mustGet (cxFailedWallets (wxCtx x))) (\<lambda>failedWalletClients.
     bindA (foldA (\<lambda>v status. bindA (oneWallet (wEnv (wbApi B)) v) (\<lambda>ws. ret (assign v ws status))) walletClients [])
       (\<lambda>status. ret (fold (\<lambda>v. assign v offline) failedWalletClients status))))"

definition walletTrouble :: "walletStatus \<Rightarrow> bool" where
  "walletTrouble ws \<longleftrightarrow> wsInfoError ws \<or> wsBestBlockError ws \<or> \<not> wsConnected ws \<or> \<not> wsDaemonConnected ws \<or>
     \<not> wsVoting ws \<or> \<not> wsUnlocked ws"

definition statusJSON :: "('s, 'x, 'f) website \<Rightarrow> 's webhandler" where
  "statusJSON B x =
     bindA (getWalletStatus B x) (\<lambda>wallets.
     let httpStatus = (if list_ex (\<lambda>(_, ws). walletTrouble ws) wallets then 500 else 200) in
     bindA (getMondStatus B x) (\<lambda>mond.
     let httpStatus = (if \<not> msConnected mond \<or> msBestBlockError mond then 500 else httpStatus) in
     ret (abort (send httpStatus (StatusPage wallets mond) x))))"

text \<open>The admin page. The map of old keys loses the current one.\<close>

definition renderAdmin :: "('s, 'x, 'f) website \<Rightarrow> searchResult option \<Rightarrow> 's webhandler" where
  "renderAdmin B searchResult x =
     (let failed = (\<lambda>msg. ret (send 500 (Text msg) x)); D = wBolt (wbApi B) in
      bindA (mustGet (cxCache (wxCtx x))) (\<lambda>cacheData.
      tryA (query (GetMissedTickets D)) (\<lambda>_. failed ''Error getting missed tickets from db'') (\<lambda>missed.
      tryA (query (FeeXPub D)) (\<lambda>_. failed ''Error getting current xpub from db'') (\<lambda>currentXPub.
      tryA (query (AllXPubs D)) (\<lambda>_. failed ''Error getting all xpubs from db'') (\<lambda>oldXPubs.
      bindA (getWalletStatus B x) (\<lambda>wallets.
      bindA (getMondStatus B x) (\<lambda>mond.
      ret (send 200 (AdminPage \<lparr>adSearchResult = searchResult, adCache = cacheData, adWalletStatus = wallets,
        adMondStatus = mond, adMissed = SortByPurchaseHeight missed, adCurrentXPub = currentXPub,
        adOldXPubs = filter (\<lambda>(i, _). i \<noteq> xID currentXPub) oldXPubs\<rparr>) x))))))))"

definition adminPage :: "('s, 'x, 'f) website \<Rightarrow> 's webhandler" where
  "adminPage B x = renderAdmin B None x"

text \<open>The answer is the JSON text of the decoded transaction, as \<open>json.Marshal\<close> writes it again.\<close>

definition DecodeRawTransaction :: "'s env \<Rightarrow> string \<Rightarrow> ('s, string) act" where
  "DecodeRawTransaction E txHex = askStr E (Call Mond ''decoderawtransaction'' [AStr txHex])"

definition ticketSearch :: "('s, 'x, 'f) website \<Rightarrow> 's webhandler" where
  "ticketSearch B x =
     (let failed = (\<lambda>msg. ret (send 500 (Text msg) x)); D = wBolt (wbApi B); h = wxForm x ''hash'' in
      tryA (query (GetTicketByHash D h)) (\<lambda>_. failed ''Error getting ticket from db'') (\<lambda>(t, found).
      tryA (query (GetVoteChanges D h)) (\<lambda>_. failed ''Error getting vote changes from db'') (\<lambda>voteChanges.
      tryA (query (AltSignAddrData D h)) (\<lambda>_. failed ''Error getting alt sig from db'') (\<lambda>altSignAddrData.
      let render = (\<lambda>feeTxDecoded. renderAdmin B (Some \<lparr>srHash = h, srFound = found, srTicket = t,
            srFeeTxDecoded = feeTxDecoded, srAltSignAddrData = altSignAddrData, srVoteChanges = voteChanges,
            srMaxVoteChanges = wMaxVoteChanges (wbApi B)\<rparr>) x) in
      if FeeTxHex t \<noteq> [] then
        bindA (mustGet (cxMondErr (wxCtx x))) (\<lambda>mondErr.
        if mondErr \<noteq> None then failed ''Could not get mond client''
        else tryA (DecodeRawTransaction (wEnv (wbApi B)) (FeeTxHex t)) (\<lambda>_. failed ''Error decoding fee transaction'') render)
      else render []))))"

text \<open>\<open>setAdminStatus\<close>: the value is true or nil. A session that is not saved is not changed for later requests.\<close>

definition setAdminStatus :: "('s, 'x, 'f) website \<Rightarrow> bool \<Rightarrow> 's webhandler" where
  "setAdminStatus B admin x =
     bindA (mustGet (wxSession x)) (\<lambda>_.
     let x = x\<lparr>wxSession := Some admin\<rparr> in
     case ckSave (wbStore B) admin of
       Inl _ \<Rightarrow> ret (send 500 (Text ''Error saving session'') x)
     | Inr cookie \<Rightarrow> ret (abort (send 302 (Redirect ''/admin'') (x\<lparr>wxSetCookie := wxSetCookie x @ [cookie]\<rparr>))))"

definition adminLogin :: "('s, 'x, 'f) website \<Rightarrow> 's webhandler" where
  "adminLogin B x =
     bindA (mustGet (cxCache (wxCtx x))) (\<lambda>cacheData.
     if wbSha256 B (wxForm x ''password'') \<noteq> wbAdminPassHash B
     then ret (send 401 (Login cacheData (Some ''Incorrect password'')) x)
     else setAdminStatus B True x)"

definition adminLogout :: "('s, 'x, 'f) website \<Rightarrow> 's webhandler" where
  "adminLogout B x = setAdminStatus B False x"

text \<open>
  \<open>BackupDB\<close> streams the database inside a read transaction; if that fails, the status is the only
  sign of it.
\<close>

definition downloadDatabaseBackup :: "('s, 'x, 'f) website \<Rightarrow> 's webhandler" where
  "downloadDatabaseBackup B x =
     bindA (query (\<lambda>s. Ok s)) (\<lambda>s.
     bindA (decided (wEnv (wbApi B)) ''tx.WriteTo'' (wxClientIP x)) (\<lambda>written.
     ret (if written then send 200 (Backup s) x else send 500 (Text []) x)))"

definition homepage :: "'s webhandler" where
  "homepage x = bindA (mustGet (cxCache (wxCtx x))) (\<lambda>cacheData. ret (send 200 (Homepage cacheData) x))"

section \<open>Routes\<close>

definition loginRateLimiter :: "'s env \<Rightarrow> 's webhandler" where
  "loginRateLimiter E = rateLimit E (\<lambda>x.
     bindA (mustGet (cxCache (wxCtx x))) (\<lambda>cacheData. ret (send 429 (Login cacheData (Some ''Rate limit exceeded'')) x)))"

text \<open>\<open>gin.BasicAuth\<close> with one account.\<close>

definition basicAuth :: "('s, 'x, 'f) website \<Rightarrow> 's webhandler" where
  "basicAuth B x = (if wxBasic x = Some (''admin'', wbAdminPass B) then ret x else ret (abort (send 401 (Text []) x)))"

definition routeHome :: "('s, 'x, 'f) website \<Rightarrow> 's webhandler list" where
  "routeHome B = [shared (requireWebCache (wbApi B)), homepage]"

definition routeLogin :: "('s, 'x, 'f) website \<Rightarrow> 's webhandler list" where
  "routeLogin B = [withSession B, shared (requireWebCache (wbApi B)), loginRateLimiter (wEnv (wbApi B)), adminLogin B]"

text \<open>The middleware of the admin group, then the route's own.\<close>

definition adminGroup :: "('s, 'x, 'f) website \<Rightarrow> 's webhandler list" where
  "adminGroup B = [shared (requireWebCache (wbApi B)), shared (withWalletClients (wbApi B)), withSession B, requireAdmin]"

definition routeAdmin :: "('s, 'x, 'f) website \<Rightarrow> 's webhandler list" where
  "routeAdmin B = adminGroup B @ [shared (withMondClient (wbApi B)), adminPage B]"

definition routeTicket :: "('s, 'x, 'f) website \<Rightarrow> 's webhandler list" where
  "routeTicket B = adminGroup B @ [shared (withMondClient (wbApi B)), ticketSearch B]"

definition routeBackup :: "('s, 'x, 'f) website \<Rightarrow> 's webhandler list" where
  "routeBackup B = adminGroup B @ [downloadDatabaseBackup B]"

definition routeLogout :: "('s, 'x, 'f) website \<Rightarrow> 's webhandler list" where
  "routeLogout B = adminGroup B @ [adminLogout B]"

definition routeStatus :: "('s, 'x, 'f) website \<Rightarrow> 's webhandler list" where
  "routeStatus B = [shared (withMondClient (wbApi B)), shared (withWalletClients (wbApi B)), basicAuth B, statusJSON B]"

definition webRoutes :: "('s, 'x, 'f) website \<Rightarrow> 's webhandler list list" where
  "webRoutes B = [routeHome B, routeLogin B, routeAdmin B, routeTicket B, routeBackup B, routeLogout B, routeStatus B]"

text \<open>Every route runs behind the recovery and the cross-origin check.\<close>

definition serveWeb :: "('s, 'x, 'f) website \<Rightarrow> 's webhandler list \<Rightarrow> 's webhandler" where
  "serveWeb B hs x w = (case runWeb (csrf (wEnv (wbApi B)) # hs) x w of
     (Panic, w') \<Rightarrow> (Ok (abort (send 500 (Text []) x)), w')
   | r \<Rightarrow> r)"

text \<open>\<open>New\<close>: the website of a configuration keeps the hash of the password.\<close>

definition newWebsite :: "('s, 'x, 'f) api \<Rightarrow> cookieStore \<Rightarrow> (string \<Rightarrow> bytes) \<Rightarrow> string \<Rightarrow> ('s, 'x, 'f) website" where
  "newWebsite W store sha256 adminPass =
     \<lparr>wbApi = W, wbStore = store, wbAdminPassHash = sha256 adminPass, wbSha256 = sha256, wbAdminPass = adminPass\<rparr>"

end
