(* ===== verification/OpenDb.thy ===== *)
theory OpenDb
  imports Upgrades World
begin

text \<open>Opening the database as an action: the upgrade of an old file may write to it.\<close>

definition openDb :: "'s bolt \<Rightarrow> bool \<Rightarrow> err option \<Rightarrow> ('s, unit) act" where
  "openDb B exists openErr w = (case Open B exists openErr (wdb w) of (s, r) \<Rightarrow> (r, w\<lparr>wdb := s\<rparr>))"

end
