(* ===== verification/Daemon.thy ===== *)
theory Daemon
  imports Config Admin Vspm OpenDb
begin

text \<open>
  The start of the daemon (\<open>cmd/vspm/main.go\<close>, \<open>New\<close> of \<open>internal/webapi/webapi.go\<close>, the set-up of
  the RPC clients) and the administration tool (\<open>cmd/vspmadmin/main.go\<close>). What runs afterwards is
  the web server and the background task of the other theories; the backups written by a timer and
  at the end are in \<open>Backup\<close>. Warnings and the contents of log files are left out.
\<close>

section \<open>RPC clients\<close>

text \<open>The fixed part of a client: the address, the credentials, the certificate, the notifier.\<close>

record rpcClient =
  rcAddr :: string
  rcUser :: string
  rcPass :: string
  rcCert :: bytes
  rcNotifier :: bool

definition setupClient :: "string \<Rightarrow> string \<Rightarrow> string \<Rightarrow> bytes \<Rightarrow> rpcClient" where
  "setupClient user pass addr cert = \<lparr>rcAddr = ''wss://'' @ addr @ ''/ws'', rcUser = user, rcPass = pass, rcCert = cert, rcNotifier = False\<rparr>"

definition SetupMond :: "mondDetails \<Rightarrow> rpcClient" where
  "SetupMond d = (setupClient (mdUser d) (mdPassword d) (mdHost d) (mdCert d))\<lparr>rcNotifier := True\<rparr>"

text \<open>The lists are indexed by the addresses.\<close>

fun SetupWallet :: "string list \<Rightarrow> string list \<Rightarrow> string list \<Rightarrow> bytes list \<Rightarrow> rpcClient list outcome" where
  "SetupWallet us ps [] cs = Ok []"
| "SetupWallet (u # us) (p # ps) (a # as) (c # cs) = andThen (SetupWallet us ps as cs) (\<lambda>r. Ok (setupClient u p a c # r))"
| "SetupWallet _ _ (a # as) _ = Panic"

section \<open>The web server\<close>

text \<open>
  The parts outside the repository: the database library, the world, the chain library of a network,
  gin, ed25519 keys from a seed, the cookie store of a secret, SHA-256, and the key of an address
  generator that does not exist yet.
\<close>

record ('s, 'x, 'f) externals =
  exBolt :: "'s bolt"
  exEnv :: "'s env"
  exLib :: "netConfig \<Rightarrow> ('x, 'f) lib"
  exGin :: gin
  exSign :: "bytes \<Rightarrow> bytes \<Rightarrow> bytes"
  exStore :: "bytes option \<Rightarrow> cookieStore"
  exSha256 :: "string \<Rightarrow> bytes"
  exNoKey :: 'x

definition webAPI :: "('s, 'x, 'f) externals \<Rightarrow> netConfig \<Rightarrow> bool \<Rightarrow> nat list \<Rightarrow> int \<Rightarrow> (bytes \<Rightarrow> bytes)
    \<Rightarrow> 'x addressGenerator \<Rightarrow> ('s, 'x, 'f) api" where
  "webAPI X net shut wallets maxRecords sign gen = \<lparr>wBolt = exBolt X, wEnv = exEnv X, wLib = exLib X net, wGin = exGin X,
     wNet = ncParams net, wVspClosed = shut, wSign = sign, wAddrGen = gen, wWallets = wallets, wNotify = True,
     wMaxVoteChanges = maxRecords\<rparr>"

text \<open>
  \<open>New\<close>: a failed update of the cache is only logged. The counter of the address generator is memory
  of the server.
\<close>

definition newWebAPI :: "('s, 'x, 'f) externals \<Rightarrow> netConfig \<Rightarrow> bool \<Rightarrow> string \<Rightarrow> nat list \<Rightarrow> int \<Rightarrow> err option
    \<Rightarrow> ('s, ('s, 'x, 'f) website) act" where
  "newWebAPI X net shut adminPass wallets maxRecords listenErr =
     tryA (query (KeyPair (exBolt X) (exSign X))) (\<lambda>e. failA (Wrapped ''db.Keypair error'' e)) (\<lambda>sign.
     let server = webAPI X net shut wallets maxRecords sign in
     bindA (logged (cacheUpdate (server \<lparr>external = exNoKey X, lastUsedIndex = 0, feeXPubID = 0\<rparr>))) (\<lambda>_.
     tryA (query (FeeXPub (exBolt X))) (\<lambda>e. failA (Wrapped ''db.FeeXPub error'' e)) (\<lambda>feeXPub.
     tryA (lift (newAddressGenerator (exLib X net) feeXPub))
       (\<lambda>e. failA (Wrapped ''failed to initialize fee address generator'' e)) (\<lambda>addrGen.
     tryA (query (CookieSecret (exBolt X))) (\<lambda>e. failA (Wrapped ''db.GetCookieSecret error'' e)) (\<lambda>cookieSecret.
     case listenErr of
       Some e \<Rightarrow> failA e
     | None \<Rightarrow> bindA (putIdx (lastUsedIndex addrGen)) (\<lambda>_.
         ret (newWebsite (server addrGen) (exStore X cookieSecret) (exSha256 X) adminPass)))))))"

section \<open>\<open>cmd/vspm\<close>\<close>

definition maxVoteChangeRecords :: int where "maxVoteChangeRecords = 10"

text \<open>The program ends with an exit code, or serves.\<close>

record ('s, 'x, 'f, 'p) serving =
  svConfig :: "'p config"
  svSite :: "('s, 'x, 'f) website"
  svVspm :: "('s, 'x, 'f) vspm"
  svMond :: rpcClient
  svWallets :: "rpcClient list"

datatype ('s, 'x, 'f, 'p) started = Exit int | Serving "('s, 'x, 'f, 'p) serving"

text \<open>
  \<open>log.go\<close>: \<open>rotator\<close> tells how opening the rotated log file turns out; its limit of kilobytes is
  passed in bytes and may wrap around.
\<close>

definition newLogBackend :: "'p system \<Rightarrow> (string \<Rightarrow> int64 \<Rightarrow> int64 \<Rightarrow> err option) \<Rightarrow> string \<Rightarrow> string \<Rightarrow> int64 \<Rightarrow> int64 \<Rightarrow> unit outcome" where
  "newLogBackend S rotator logDir appName maxLogSize logsToKeep = (case syMkdirAll S logDir of
     Some e \<Rightarrow> Fail (Wrapped ''failed to create log directory'' e)
   | None \<Rightarrow> (case rotator (pathJoin [logDir, appName @ ''.log'']) (maxLogSize * 1024) logsToKeep of
       Some e \<Rightarrow> Fail (Wrapped ''failed to create log rotator'' e)
     | None \<Rightarrow> Ok ()))"

text \<open>
  \<open>run\<close>: how opening the database file and the TCP listener turn out are arguments, and \<open>levelOk\<close>
  tells which log levels the logger knows.
\<close>

definition initLogging :: "'p system \<Rightarrow> (string \<Rightarrow> int64 \<Rightarrow> int64 \<Rightarrow> err option) \<Rightarrow> (string \<Rightarrow> bool) \<Rightarrow> 'p config \<Rightarrow> unit outcome" where
  "initLogging S rotator levelOk cfg =
     andThen (LogDir cfg) (\<lambda>dir.
     andThen (wrapErr ''failed to initialize logger'' (newLogBackend S rotator dir ''vspm'' (cfMaxLogSize cfg) (cfLogsToKeep cfg))) (\<lambda>_.
     if levelOk (cfLogLevel cfg) then Ok () else Fail (Plain (''unknown log level: '' @ cfLogLevel cfg))))"

definition runDaemon :: "(whichNet \<Rightarrow> network) \<Rightarrow> 'p system \<Rightarrow> ('p \<Rightarrow> int option) \<Rightarrow> 'p config
    \<Rightarrow> (string \<Rightarrow> int64 \<Rightarrow> int64 \<Rightarrow> err option) \<Rightarrow> (string \<Rightarrow> bool) \<Rightarrow> err option \<Rightarrow> err option \<Rightarrow> ('s, 'x, 'f) externals \<Rightarrow> ('s, ('s, 'x, 'f, 'p) started) act" where
  "runDaemon params S floorOf defaults rotator levelOk openErr listenErr X =
     tryA (lift (LoadConfig params S floorOf defaults)) (\<lambda>_. ret (Exit 1)) (\<lambda>config. case config of None \<Rightarrow> ret (Exit 0) | Some cfg \<Rightarrow>
     tryA (lift (initLogging S rotator levelOk cfg)) (\<lambda>_. ret (Exit 1)) (\<lambda>_.
     bindA (mustGet (cfNetwork cfg)) (\<lambda>net.
     bindA (lift (DatabaseFile cfg)) (\<lambda>dbFile.
     tryA (openDb (exBolt X) (fileExists S dbFile) openErr) (\<lambda>_. ret (Exit 1)) (\<lambda>_.
     bindA (mustGet (cfMondDetails cfg)) (\<lambda>dd.
     bindA (mustGet (cfWalletDetails cfg)) (\<lambda>wd.
     bindA (lift (SetupWallet (wdUsers wd) (wdPasswords wd) (wdHosts wd) (wdCerts wd))) (\<lambda>wallets.
     tryA (newWebAPI X net (cfVspClosed cfg) (cfAdminPass cfg) [0..<length wallets] maxVoteChangeRecords listenErr)
       (\<lambda>_. ret (Exit 1)) (\<lambda>api.
     ret (Serving \<lparr>svConfig = cfg, svSite = api,
       svVspm = \<lparr>vBolt = exBolt X, vEnv = exEnv X, vLib = exLib X net, vNet = ncParams net, vWallets = [0..<length wallets]\<rparr>,
       svMond = SetupMond dd, svWallets = wallets\<rparr>))))))))))"

section \<open>\<open>cmd/vspmadmin\<close>\<close>

definition validatePubkey :: "('x, 'f) lib \<Rightarrow> string \<Rightarrow> unit outcome" where
  "validatePubkey l key =
     andThen (wrapErr ''failed to parse feexpub'' (fromSum (lbKeyFromString l key))) (\<lambda>parsedKey.
     if lbIsPrivate l parsedKey then Fail (Plain ''feexpub is a private key, should be public'') else Ok ())"

definition dataFile :: "string \<Rightarrow> netConfig \<Rightarrow> string" where
  "dataFile homeDir net = pathJoin [pathJoin [homeDir, ''data'', netName (ncParams net)], dbFilename]"

text \<open>The new database; \<open>blank\<close> is an empty file, \<open>seed\<close> and \<open>secret\<close> are random.\<close>

definition createDatabase :: "'p system \<Rightarrow> ('s, 'x, 'f) externals \<Rightarrow> err option \<Rightarrow> bytes outcome \<Rightarrow> bytes \<Rightarrow> 's
    \<Rightarrow> string \<Rightarrow> string \<Rightarrow> netConfig \<Rightarrow> 's outcome" where
  "createDatabase S X openErr seed secret blank homeDir feeXPub net =
     (let dataDir = pathJoin [homeDir, ''data'', netName (ncParams net)]; dbFile = dataFile homeDir net in
      if fileExists S dbFile then Fail (Plain (netName (ncParams net) @ '' database already exists in '' @ dataDir))
      else
        andThen (validatePubkey (exLib X net) feeXPub) (\<lambda>_.
        case syMkdirAll S dataDir of
          Some e \<Rightarrow> Fail (Wrapped ''failed to create data directory'' e)
        | None \<Rightarrow> wrapErr (''error creating db file '' @ dbFile) (CreateNew (exBolt X) openErr seed secret feeXPub blank)))"

text \<open>\<open>writeIni\<close> tells how writing the file of defaults turns out.\<close>

definition writeConfig :: "'p system \<Rightarrow> (string \<Rightarrow> err option) \<Rightarrow> string \<Rightarrow> unit outcome" where
  "writeConfig S writeIni homeDir =
     (let configFile = pathJoin [homeDir, configFilename] in
      if fileExists S configFile then Fail (Plain (''config file already exists in '' @ homeDir))
      else case syMkdirAll S homeDir of
        Some e \<Rightarrow> Fail (Wrapped ''failed to create directory'' e)
      | None \<Rightarrow> (case writeIni configFile of Some e \<Rightarrow> Fail (Wrapped ''failed to create config file'' e) | None \<Rightarrow> Ok ()))"

definition retireXPub :: "'p system \<Rightarrow> ('s, 'x, 'f) externals \<Rightarrow> err option \<Rightarrow> int64 \<Rightarrow> string \<Rightarrow> string \<Rightarrow> netConfig \<Rightarrow> 's \<Rightarrow> 's \<times> unit outcome" where
  "retireXPub S X openErr time homeDir feeXPub net s =
     (let dbFile = dataFile homeDir net in
      case validatePubkey (exLib X net) feeXPub of
        Fail e \<Rightarrow> (s, Fail e)
      | Panic \<Rightarrow> (s, Panic)
      | Ok _ \<Rightarrow> (case Open (exBolt X) (fileExists S dbFile) openErr s of
          (s1, Fail e) \<Rightarrow> (s1, Fail (Wrapped (''error opening db file '' @ dbFile) e))
        | (s1, Panic) \<Rightarrow> (s1, Panic)
        | (s1, Ok _) \<Rightarrow> (case RetireXPub (exBolt X) time feeXPub s1 of
            Ok s2 \<Rightarrow> (s2, Ok ())
          | Fail e \<Rightarrow> (s1, Fail (Wrapped ''db.RetireXPub failed'' e))
          | Panic \<Rightarrow> (s1, Panic))))"

text \<open>
  The commands: \<open>args\<close> is what the option parser leaves of the command line, with the home directory
  and the network it found. The result is the database, None if there is no file, and the exit code.
\<close>

definition runAdmin :: "(whichNet \<Rightarrow> network) \<Rightarrow> 'p system \<Rightarrow> ('s, 'x, 'f) externals \<Rightarrow> err option \<Rightarrow> bytes outcome \<Rightarrow> bytes \<Rightarrow> 's
    \<Rightarrow> (string \<Rightarrow> err option) \<Rightarrow> int64 \<Rightarrow> (string \<times> string \<times> string list) option \<Rightarrow> 's option \<Rightarrow> 's option \<times> int outcome" where
  "runAdmin params S X openErr seed secret blank writeIni time options db =
     (if syHelp S then (db, Ok 0)
      else case options of None \<Rightarrow> (db, Ok 1) | Some (homeDir, networkName, args) \<Rightarrow>
      (case NetworkFromName params networkName of
         Ok net \<Rightarrow>
           (case args of
              [] \<Rightarrow> (db, Ok 1)
            | cmd # rest \<Rightarrow>
                if cmd = ''createdatabase'' then
                  (case rest of
                     [feeXPub] \<Rightarrow> (case createDatabase S X openErr seed secret blank homeDir feeXPub net of
                         Ok s \<Rightarrow> (Some s, Ok 0) | Fail _ \<Rightarrow> (db, Ok 1) | Panic \<Rightarrow> (db, Panic))
                   | _ \<Rightarrow> (db, Ok 1))
                else if cmd = ''writeconfig'' then
                  (case writeConfig S writeIni homeDir of Ok _ \<Rightarrow> (db, Ok 0) | Fail _ \<Rightarrow> (db, Ok 1) | Panic \<Rightarrow> (db, Panic))
                else if cmd = ''retirexpub'' then
                  (case rest of
                     [feeXPub] \<Rightarrow> (case retireXPub S X openErr time homeDir feeXPub net (case db of Some s \<Rightarrow> s | None \<Rightarrow> blank) of
                         (s, r) \<Rightarrow> (map_option (\<lambda>_. s) db, case r of Ok _ \<Rightarrow> Ok 0 | Fail _ \<Rightarrow> Ok 1 | Panic \<Rightarrow> Panic))
                   | _ \<Rightarrow> (db, Ok 1))
                else (db, Ok 1))
       | _ \<Rightarrow> (db, Ok 1)))"

end
