(* ===== verification/AdminProps.thy ===== *)
theory AdminProps
  imports Admin DemoApi
begin

text \<open>
  Who sees the admin pages: an invariant of the context of a request to the website, kept by every
  handler of its routes, and the sessions that the requests of a run can obtain.
\<close>

section \<open>The context of a request\<close>

fun secret :: "'s page \<Rightarrow> bool" where
  "secret (AdminPage d) = True"
| "secret (Backup s) = True"
| "secret p = False"

text \<open>
  \<open>admitted\<close>: the cookie is that of an admin session; \<open>guarded B x0 x\<close>: the context \<open>x\<close> is one a
  request \<open>x0\<close> may have, its session is the one of its cookie unless the password was given, and
  secret pages and admin cookies are only there for one who may have them.
\<close>

definition admitted :: "('s, 'x, 'f) website \<Rightarrow> 's webctx \<Rightarrow> bool" where
  "admitted B x \<longleftrightarrow> fst (ckGet (wbStore B) (wxCookie x))"

definition knowsPassword :: "('s, 'x, 'f) website \<Rightarrow> 's webctx \<Rightarrow> bool" where
  "knowsPassword B x \<longleftrightarrow> wbSha256 B (wxForm x ''password'') = wbAdminPassHash B"

definition guarded :: "('s, 'x, 'f) website \<Rightarrow> bool \<Rightarrow> 's webctx \<Rightarrow> 's webctx \<Rightarrow> bool" where
  "guarded B login x0 x \<longleftrightarrow> wxCookie x = wxCookie x0 \<and> wxForm x = wxForm x0 \<and> wxBasic x = wxBasic x0 \<and>
     (wxSession x = Some True \<longrightarrow> admitted B x0 \<or> login \<and> knowsPassword B x0) \<and>
     (\<forall>(n, p) \<in> set (wxSent x). secret p \<longrightarrow> admitted B x0) \<and>
     (\<forall>(n, p) \<in> set (wxSent x). (\<exists>ws m. p = StatusPage ws m) \<longrightarrow> wxBasic x0 = Some (''admin'', wbAdminPass B)) \<and>
     (\<forall>c \<in> set (wxSetCookie x). Inr c = ckSave (wbStore B) False \<or>
        Inr c = ckSave (wbStore B) True \<and> (admitted B x0 \<or> login \<and> knowsPassword B x0))"

text \<open>Past \<open>requireAdmin\<close>.\<close>

definition pastAdmin :: "('s, 'x, 'f) website \<Rightarrow> 's webctx \<Rightarrow> 's webctx \<Rightarrow> bool" where
  "pastAdmin B x0 x \<longleftrightarrow> guarded B False x0 x \<and> (aborted x \<or> admitted B x0)"

named_theorems guard_simps \<open>what the steps of a handler change in a context\<close>

lemma guarded_simps [guard_simps]:
  "guarded B l x0 (abort x) = guarded B l x0 x" "aborted (abort x)" "aborted (send n p x) = aborted x"
  "guarded B l x0 (x\<lparr>wxCtx := c\<rparr>) = guarded B l x0 x"
  "guarded B l x0 (send n (Text m) x) = guarded B l x0 x" "guarded B l x0 (send n (Homepage d) x) = guarded B l x0 x"
  "guarded B l x0 (send n (Login d e) x) = guarded B l x0 x" "guarded B l x0 (send n (Redirect u) x) = guarded B l x0 x"
  by (auto simp: guarded_def abort_def aborted_def send_def)

lemma guarded_secret [guard_simps]:
  "admitted B x0 \<Longrightarrow> guarded B l x0 (send n (AdminPage d) x) = guarded B l x0 x"
  "admitted B x0 \<Longrightarrow> guarded B l x0 (send n (Backup s) x) = guarded B l x0 x"
  "wxBasic x0 = Some (''admin'', wbAdminPass B) \<Longrightarrow> guarded B l x0 (send n (StatusPage ws m) x) = guarded B l x0 x"
  by (auto simp: guarded_def send_def)

lemma guarded_session:
  "guarded B l x0 x \<Longrightarrow> (admin \<Longrightarrow> admitted B x0 \<or> l \<and> knowsPassword B x0) \<Longrightarrow> guarded B l x0 (x\<lparr>wxSession := Some admin\<rparr>)"
  "guarded B l x0 x \<Longrightarrow> ckSave (wbStore B) admin = Inr c \<Longrightarrow> (admin \<Longrightarrow> admitted B x0 \<or> l \<and> knowsPassword B x0) \<Longrightarrow>
     guarded B l x0 (x\<lparr>wxSetCookie := wxSetCookie x @ [c]\<rparr>)"
  by (cases admin; auto simp: guarded_def)+

section \<open>Handlers\<close>

lemma yields_via: "yields P m \<Longrightarrow> (\<And>a. P a \<Longrightarrow> yields Q (k a)) \<Longrightarrow> yields Q (bindA m k)"
  unfolding yields_def bindA_def by (fastforce split: prod.splits outcome.splits)

lemma middleware_guarded:
  assumes "guarded B l x0 x"
  shows "yields (guarded B l x0) (shared h x)" "yields (guarded B l x0) (csrf E x)" "yields (guarded B l x0) (loginRateLimiter E x)"
    "yields (guarded B l x0) (homepage x)" "yields (guarded B l x0) (withSession B x)"
proof -
  show "yields (guarded B l x0) (shared h x)" "yields (guarded B l x0) (csrf E x)" "yields (guarded B l x0) (homepage x)"
    unfolding shared_def csrf_def homepage_def using assms by (intro yields_intros; simp add: guard_simps)+
  have "yields (guarded B l x0) (bindA (mustGet (cxCache (wxCtx x)))
      (\<lambda>cacheData. ret (send 429 (Login cacheData (Some ''Rate limit exceeded'')) x)))"
    using assms by (intro yields_intros; simp add: guard_simps)
  then have "yields (guarded B l x0) (bindA (bindA (mustGet (cxCache (wxCtx x)))
      (\<lambda>cacheData. ret (send 429 (Login cacheData (Some ''Rate limit exceeded'')) x))) (\<lambda>x'. ret (abort x')))"
    by (rule yields_via) (simp add: yields_rules(4) guard_simps)
  then show "yields (guarded B l x0) (loginRateLimiter E x)"
    unfolding loginRateLimiter_def rateLimit_def
    by (intro yields_rules(1) [where m = "decided _ _ _"] yields_rules(3) yields_rules(4) assms)
next
  have c: "wxCookie x = wxCookie x0" using assms by (simp add: guarded_def)
  obtain admin e where get: "ckGet (wbStore B) (wxCookie x0) = (admin, e)" by fastforce
  have adm: "admin \<Longrightarrow> admitted B x0 \<or> l \<and> knowsPassword B x0" by (simp add: admitted_def get)
  note s = guarded_session(1) [OF assms adm] guarded_session(2) [OF assms _ adm]
  show "yields (guarded B l x0) (withSession B x)"
  proof (cases e)
    case None
    then show ?thesis unfolding withSession_def c get by (simp add: yields_intros s(1))
  next
    case (Some err)
    then show ?thesis
      unfolding withSession_def c get
      using guarded_session(1) [OF s(2) adm]
      by (cases "ckSave (wbStore B) admin") (auto intro!: yields_intros simp: guard_simps assms)
  qed
qed

lemma bind_ret: "bindA (ret a) k = k a"
  by (rule ext) (simp add: bindA_def ret_def)

lemma requireAdmin_passes:
  assumes "guarded B False x0 x"
  shows "yields (pastAdmin B x0) (requireAdmin x)"
proof (cases "wxSession x")
  case None
  then show ?thesis by (cases "cxCache (wxCtx x)") (simp_all add: requireAdmin_def yields_def mustGet_def bindA_def ret_def panic_def)
next
  case (Some admin)
  have "admin \<Longrightarrow> admitted B x0" using assms Some by (simp add: guarded_def)
  then show ?thesis
    using assms unfolding requireAdmin_def Some mustGet_def option.case bind_ret
    by (intro yields_rules(1)) (cases admin; simp add: yields_rules(4) pastAdmin_def guard_simps)
qed

lemma pastAdmin_shared: "pastAdmin B x0 x \<Longrightarrow> \<not> aborted x \<Longrightarrow> yields (pastAdmin B x0) (shared h x)"
  unfolding shared_def pastAdmin_def
  by (rule yields_rules(1), rule yields_rules(4)) (auto simp: guard_simps)

lemma pastAdmin_guarded: "pastAdmin B x0 x \<Longrightarrow> \<not> aborted x \<Longrightarrow> guarded B False x0 x \<and> admitted B x0"
  by (simp add: pastAdmin_def)

lemma renderAdmin_guarded:
  assumes "guarded B l x0 x" "admitted B x0"
  shows "yields (guarded B l x0) (renderAdmin B sr x)"
  unfolding renderAdmin_def Let_def
  by (rule yields_intros | (use assms in \<open>simp add: guard_simps\<close>; fail))+

lemma setAdminStatus_guarded:
  assumes "guarded B l x0 x" "admin \<Longrightarrow> admitted B x0 \<or> l \<and> knowsPassword B x0"
  shows "yields (guarded B l x0) (setAdminStatus B admin x)"
proof -
  have g: "guarded B l x0 (x\<lparr>wxSession := Some admin\<rparr>)" by (rule guarded_session(1) [OF assms])
  show ?thesis
    unfolding setAdminStatus_def Let_def
    by (rule yields_rules(1), cases "ckSave (wbStore B) admin")
      (use guarded_session(2) [OF g _ assms(2)] in \<open>simp_all add: yields_rules(4) guard_simps g\<close>)
qed

lemma handlers_guarded:
  assumes "guarded B l x0 x" "admitted B x0"
  shows "yields (guarded B l x0) (adminPage B x)" "yields (guarded B l x0) (ticketSearch B x)"
    "yields (guarded B l x0) (downloadDatabaseBackup B x)" "yields (guarded B l x0) (adminLogout B x)"
proof -
  show "yields (guarded B l x0) (adminPage B x)" "yields (guarded B l x0) (adminLogout B x)"
    unfolding adminPage_def adminLogout_def by (simp_all add: renderAdmin_guarded setAdminStatus_guarded assms)
  show "yields (guarded B l x0) (ticketSearch B x)"
    unfolding ticketSearch_def Let_def
    by (rule yields_intros | (rule renderAdmin_guarded [OF assms]) | (use assms in \<open>simp add: guard_simps\<close>; fail))+
  show "yields (guarded B l x0) (downloadDatabaseBackup B x)"
    unfolding downloadDatabaseBackup_def by (intro yields_intros) (use assms in \<open>simp_all add: guard_simps\<close>)
qed

lemma adminLogin_guarded:
  assumes "guarded B True x0 x"
  shows "yields (guarded B True x0) (adminLogin B x)"
proof -
  have f: "wxForm x = wxForm x0" using assms by (simp add: guarded_def)
  show ?thesis
    unfolding adminLogin_def f
    by (rule yields_rules(1), cases "knowsPassword B x0")
      (use assms setAdminStatus_guarded [OF assms, of True] in \<open>simp_all add: yields_rules(4) guard_simps knowsPassword_def\<close>)
qed

lemma statusJSON_guarded:
  assumes "guarded B l x0 x" "wxBasic x0 = Some (''admin'', wbAdminPass B)"
  shows "yields (guarded B l x0) (statusJSON B x)"
  unfolding statusJSON_def Let_def by (intro yields_rules(1)) (use assms in \<open>simp_all add: yields_rules(4) guard_simps\<close>)

section \<open>Routes\<close>

lemma web_step:
  assumes "\<not> aborted x \<Longrightarrow> yields P (h x)" "\<And>x'. P x' \<Longrightarrow> yields Q (runWeb hs x')" "aborted x \<Longrightarrow> Q x"
  shows "yields Q (runWeb (h # hs) x)"
  using assms by (cases "aborted x") (auto intro: yields_via yields_rules(4))

lemma web_guarded:
  assumes "list_all (\<lambda>h. \<forall>x. guarded B l x0 x \<longrightarrow> yields (guarded B l x0) (h x)) hs" "guarded B l x0 x"
  shows "yields (guarded B l x0) (runWeb hs x)"
  using assms
proof (induction hs arbitrary: x)
  case (Cons h hs)
  then show ?case by (intro web_step [where P = "guarded B l x0"]) auto
qed (simp add: yields_rules(4))

lemma web_append:
  assumes "list_all (\<lambda>h. \<forall>x. guarded B l x0 x \<longrightarrow> yields (guarded B l x0) (h x)) hs" "guarded B l x0 x"
    "\<And>x'. guarded B l x0 x' \<Longrightarrow> yields (guarded B l x0) (runWeb hs' x')"
  shows "yields (guarded B l x0) (runWeb (hs @ hs') x)"
  using assms(1,2)
proof (induction hs arbitrary: x)
  case (Cons h hs)
  then have "yields (guarded B l x0) (runWeb (h # (hs @ hs')) x)"
    by (intro web_step [where P = "guarded B l x0"]) auto
  then show ?case by simp
qed (simp add: assms(3))

lemma admin_tail:
  assumes "pastAdmin B x0 x" "\<And>x. guarded B False x0 x \<Longrightarrow> admitted B x0 \<Longrightarrow> yields (guarded B False x0) (h x)"
  shows "yields (guarded B False x0) (runWeb [h] x)" "yields (guarded B False x0) (runWeb [shared m, h] x)"
proof -
  have one: "yields (guarded B False x0) (runWeb [h] x)" if "pastAdmin B x0 x" for x
    by (rule web_step [where P = "guarded B False x0"])
      (use that assms(2) in \<open>auto simp: pastAdmin_def yields_rules(4)\<close>)
  show "yields (guarded B False x0) (runWeb [h] x)" by (rule one [OF assms(1)])
  show "yields (guarded B False x0) (runWeb [shared m, h] x)"
    by (rule web_step, rule pastAdmin_shared [OF assms(1)], assumption, erule one)
      (use assms(1) in \<open>simp add: pastAdmin_def\<close>)
qed

lemma admin_group:
  assumes "guarded B False x0 x" "\<And>x'. pastAdmin B x0 x' \<Longrightarrow> yields (guarded B False x0) (runWeb hs x')"
  shows "yields (guarded B False x0) (runWeb (adminGroup B @ hs) x)"
proof -
  have "yields (guarded B False x0) (runWeb (requireAdmin # hs) x')" if "guarded B False x0 x'" for x'
    by (rule web_step [where P = "pastAdmin B x0"]) (use that requireAdmin_passes assms(2) in auto)
  from web_append [OF _ assms(1) this, of "[shared (requireWebCache (wbApi B)), shared (withWalletClients (wbApi B)), withSession B]"]
  show ?thesis by (simp add: adminGroup_def middleware_guarded)
qed

definition isNew :: "'s webctx \<Rightarrow> bool" where
  "isNew x \<longleftrightarrow> wxSession x = None \<and> wxSent x = [] \<and> wxSetCookie x = []"

lemma isNew_guarded: "isNew x0 \<Longrightarrow> guarded B l x0 x0"
  by (simp add: isNew_def guarded_def)

lemma status_guarded:
  assumes "guarded B False x0 x"
  shows "yields (guarded B False x0) (runWeb [basicAuth B, statusJSON B] x)"
proof (cases "wxBasic x0 = Some (''admin'', wbAdminPass B)")
  case True
  show ?thesis
    by (rule web_guarded [OF _ assms]) (simp add: basicAuth_def yields_rules guard_simps statusJSON_guarded [OF _ True])
next
  case False
  then show ?thesis
    using assms by (auto simp: basicAuth_def guarded_def [of B False x0 x] yields_def bind_ret guard_simps ret_def)
qed

lemma route_guarded:
  assumes "hs \<in> set (webRoutes B)" "guarded B (hs = routeLogin B) x0 x"
  shows "yields (guarded B (hs = routeLogin B) x0) (runWeb hs x)"
proof -
  consider "hs = routeLogin B" | "hs \<noteq> routeLogin B" "hs \<in> {routeHome B, routeAdmin B, routeTicket B, routeBackup B, routeLogout B, routeStatus B}"
    using assms(1) by (auto simp: webRoutes_def)
  then show ?thesis
  proof cases
    case 1
    then show ?thesis
      using assms(2) by (simp only: simp_thms, intro web_guarded) (simp_all add: routeLogin_def middleware_guarded adminLogin_guarded)
  next
    case 2
    then have g: "guarded B False x0 x" using assms(2) by simp
    have "yields (guarded B False x0) (runWeb (routeHome B) x)"
      by (rule web_guarded [OF _ g]) (simp add: routeHome_def middleware_guarded)
    moreover have "yields (guarded B False x0) (runWeb (routeStatus B) x)"
      using web_append [OF _ g status_guarded, of "[shared (withMondClient (wbApi B)), shared (withWalletClients (wbApi B))]"]
      by (simp add: routeStatus_def middleware_guarded)
    moreover have "yields (guarded B False x0) (runWeb (routeAdmin B) x)" "yields (guarded B False x0) (runWeb (routeTicket B) x)"
      "yields (guarded B False x0) (runWeb (routeBackup B) x)" "yields (guarded B False x0) (runWeb (routeLogout B) x)"
      unfolding routeAdmin_def routeTicket_def routeBackup_def routeLogout_def
      by (rule admin_group [OF g], erule admin_tail, erule (1) handlers_guarded)+
    ultimately show ?thesis using 2 by auto
  qed
qed

lemma serveWeb_guarded:
  assumes "hs \<in> set (webRoutes B)" "isNew x" "serveWeb B hs x w = (Ok x', w')"
  shows "guarded B (hs = routeLogin B) x x'"
proof -
  have "yields (guarded B (hs = routeLogin B) x) (runWeb (csrf (wEnv (wbApi B)) # hs) x)"
    by (rule web_step, rule middleware_guarded(2) [OF isNew_guarded [OF assms(2)]], erule route_guarded [OF assms(1)])
      (rule isNew_guarded [OF assms(2)])
  then show ?thesis
    using assms(3) isNew_guarded [OF assms(2), of B "hs = routeLogin B"]
    by (auto simp: serveWeb_def yields_def guard_simps simp del: runWeb.simps split: prod.splits outcome.splits)
qed

section \<open>Sessions\<close>

text \<open>
  The requests to the website and what they leave: the cookies handed out, whether a login gave the
  right password, and everything sent. Cookies cannot be forged: a cookie that decodes to an admin
  session has been handed out. Anything may happen to the world between two requests.
\<close>

inductive web_run :: "('s, 'x, 'f) website \<Rightarrow> string set \<Rightarrow> bool \<Rightarrow> (nat \<times> 's page) list \<Rightarrow> 's world \<Rightarrow> bool" for B where
  start: "web_run B {} False [] w"
| other: "web_run B issued login sent w \<Longrightarrow> web_run B issued login sent w'"
| request: "web_run B issued login sent w \<Longrightarrow> hs \<in> set (webRoutes B) \<Longrightarrow> isNew x \<Longrightarrow>
    (admitted B x \<longrightarrow> wxCookie x \<in> issued) \<Longrightarrow> serveWeb B hs x w = (Ok x', w') \<Longrightarrow>
    web_run B (issued \<union> set (wxSetCookie x')) (login \<or> hs = routeLogin B \<and> knowsPassword B x) (sent @ wxSent x') w'"

lemma run_closed:
  assumes "web_run B issued login sent w" "\<And>c. ckSave (wbStore B) False = Inr c \<Longrightarrow> \<not> fst (ckGet (wbStore B) c)"
  shows "login \<or> (\<forall>c \<in> issued. \<not> fst (ckGet (wbStore B) c)) \<and> (\<forall>(n, p) \<in> set sent. \<not> secret p)"
  using assms(1)
proof induction
  case (request issued login sent w hs x x' w')
  show ?case
  proof (cases "login \<or> hs = routeLogin B \<and> knowsPassword B x")
    case False
    with request.IH have IH: "\<forall>c \<in> issued. \<not> fst (ckGet (wbStore B) c)" "\<forall>(n, p) \<in> set sent. \<not> secret p" by auto
    then have no: "\<not> admitted B x" using request.hyps(4) by (auto simp: admitted_def)
    have g: "guarded B (hs = routeLogin B) x x'" by (rule serveWeb_guarded [OF request.hyps(2,3,5)])
    have "\<forall>c \<in> set (wxSetCookie x'). ckSave (wbStore B) False = Inr c" "\<forall>(n, p) \<in> set (wxSent x'). \<not> secret p"
      using g no False unfolding guarded_def by (auto 0 3)
    then show ?thesis using IH assms(2) by auto
  qed simp
qed auto


text \<open>A website whose cookies name the session; a request for the backup without one.\<close>

definition demo_store :: cookieStore where
  "demo_store = \<lparr>ckGet = (\<lambda>c. (c = ''admin'', None)), ckSave = (\<lambda>a. Inr (if a then ''admin'' else ''none''))\<rparr>"

definition demo_allow :: "'s env" where
  "demo_allow es c = Inr (RBool True)"

definition demo_site :: "('s, 'x, 'f) api \<Rightarrow> ('s, 'x, 'f) website" where
  "demo_site W = newWebsite (W\<lparr>wEnv := demo_allow, wWallets := []\<rparr>) demo_store (\<lambda>s. s) ''password''"

definition demo_visit :: "'s webctx" where
  "demo_visit = \<lparr>wxCtx = newCtx (Inr []) [], wxCookie = [], wxForm = (\<lambda>k. []), wxBasic = None, wxClientIP = ''::1'',
     wxSession = None, wxSent = [], wxSetCookie = []\<rparr>"

lemma demo_turned_away:
  assumes "Initialized (cached w)"
  shows "\<exists>x w'. serveWeb (demo_site W) (routeBackup (demo_site W)) demo_visit w = (Ok x, w') \<and> wxSetCookie x = [] \<and>
    wxSent x = [(401, Login (cached w) None)]"
  using assms
  by (simp add: serveWeb_def routeBackup_def adminGroup_def csrf_def decided_def ask_def demo_allow_def demo_site_def newWebsite_def
      demo_visit_def newCtx_def aborted_def abort_def send_def shared_def requireWebCache_def peek_def withWalletClients_def walletClients_def withSession_def
      demo_store_def requireAdmin_def mustGet_def bindA_def tryA_def ret_def)

definition demo_cached :: "flat world" where
  "demo_cached = (demo_world demo_db)\<lparr>cached := (cached (demo_world demo_db))\<lparr>Initialized := True\<rparr>\<rparr>"


end
