(* ===== verification/Client.thy ===== *)
theory Client
  imports Rpc ApiErrors
begin

text \<open>
  \<open>client/client.go\<close>: the client library of the API. It signs the request, sends it over HTTP,
  authenticates a successful response with the key of the VSP and checks that the response
  echoes the request. The transport is an argument: an action that takes the HTTP request and
  answers it or fails. \<open>Sign\<close> is the function its user provides; \<open>ed25519.Verify\<close> and the URL
  parser are arguments too. Writing to the log is left out, and the texts of errors are shortened. \<open>VspInfo\<close> stands in the
  theory of this name.
\<close>

section \<open>Base64\<close>

definition b64val :: "char \<Rightarrow> nat option" where
  "b64val c = (let n = of_char c in
     if 65 \<le> n \<and> n \<le> 90 then Some (n - 65)
     else if 97 \<le> n \<and> n \<le> 122 then Some (n - 71)
     else if 48 \<le> n \<and> n \<le> 57 then Some (n + 4)
     else if n = 43 then Some 62 else if n = 47 then Some 63 else None)"

text \<open>Groups of four characters; only the last may be padded.\<close>

fun unb64 :: "string \<Rightarrow> bytes option" where
  "unb64 [] = Some []"
| "unb64 (a # b # c # d # s) =
     (case (b64val a, b64val b) of
        (Some w, Some x) \<Rightarrow>
          if c = CHR ''='' \<and> d = CHR ''='' \<and> s = [] then Some [char_of (w * 4 + x div 16)]
          else (case b64val c of
             None \<Rightarrow> None
           | Some y \<Rightarrow>
               if d = CHR ''='' \<and> s = [] then Some [char_of (w * 4 + x div 16), char_of (x mod 16 * 16 + y div 4)]
               else (case b64val d of
                  None \<Rightarrow> None
                | Some z \<Rightarrow> map_option (\<lambda>r. [char_of (w * 4 + x div 16), char_of (x mod 16 * 16 + y div 4),
                    char_of (y mod 4 * 64 + z)] @ r) (unb64 s)))
      | _ \<Rightarrow> None)"
| "unb64 _ = None"

text \<open>\<open>base64.StdEncoding.DecodeString\<close> skips line breaks.\<close>

definition base64Decode :: "string \<Rightarrow> bytes outcome" where
  "base64Decode s = (case unb64 (filter (\<lambda>c. c \<noteq> char_of (10 :: nat) \<and> c \<noteq> char_of (13 :: nat)) s) of
     Some b \<Rightarrow> Ok b | None \<Rightarrow> Fail (Plain ''illegal base64 data''))"

section \<open>Requests and responses\<close>

text \<open>\<open>json.Marshal\<close> of the requests.\<close>

definition feeAddressRequestJSON :: "feeAddressRequest \<Rightarrow> bytes" where
  "feeAddressRequestJSON r = object_text [(''timestamp'', LInt (sint (faTimestamp r))),
     (''tickethash'', LStr (faTicketHash r)), (''tickethex'', LStr (faTicketHex r)), (''parenthex'', LStr (faParentHex r))]"

definition payFeeRequestJSON :: "payFeeRequest \<Rightarrow> bytes" where
  "payFeeRequestJSON r = CHR ''{'' # raw_members
     [(''timestamp'', dec_of_int (sint (pfTimestamp r))), (''tickethash'', quote (pfTicketHash r)),
      (''feetx'', quote (pfFeeTx r)), (''votingkey'', quote (pfVotingKey r)),
      (''votechoices'', stringMapToBytes (pfVoteChoices r)), (''tspendpolicy'', stringMapToBytes (pfTSpendPolicy r)),
      (''treasurypolicy'', stringMapToBytes (pfTreasuryPolicy r))] @ ''}''"

definition setVoteChoicesRequestJSON :: "setVoteChoicesRequest \<Rightarrow> bytes" where
  "setVoteChoicesRequestJSON r = CHR ''{'' # raw_members
     [(''timestamp'', dec_of_int (sint (vcTimestamp r))), (''tickethash'', quote (vcTicketHash r)),
      (''votechoices'', stringMapToBytes (vcVoteChoices r)), (''tspendpolicy'', stringMapToBytes (vcTSpendPolicy r)),
      (''treasurypolicy'', stringMapToBytes (vcTreasuryPolicy r))] @ ''}''"

definition ticketStatusRequestJSON :: "string \<Rightarrow> bytes" where
  "ticketStatusRequestJSON h = object_text [(''tickethash'', LStr h)]"

record errorResponse =
  erCode :: int64
  erMessage :: string

record feeAddressResponse =
  frTimestamp :: int64
  frFeeAddress :: string
  frFeeAmount :: int64
  frExpiration :: int64
  frRequest :: bytes

text \<open>\<open>PayFeeResponse\<close> and \<open>SetVoteChoicesResponse\<close> have the same members.\<close>

record ackResponse =
  akTimestamp :: int64
  akRequest :: bytes

record ticketStatusResponse =
  tsTimestamp :: int64
  tsTicketConfirmed :: bool
  tsFeeTxStatus :: string
  tsFeeTxHash :: string
  tsAltSignAddress :: string
  tsVoteChoices :: gomap
  tsTSpendPolicy :: gomap
  tsTreasuryPolicy :: gomap
  tsRequest :: bytes

text \<open>
  A \<open>[]byte\<close> member: a string in base64, or an array of small numbers, in which null is a zero.
  A map member: the entries are added to those already there.
\<close>

fun byteElems :: "json list \<Rightarrow> bytes option" where
  "byteElems [] = Some []"
| "byteElems (JNull # vs) = map_option ((#) (char_of (0 :: nat))) (byteElems vs)"
| "byteElems (JNum t # vs) = (case int_of_literal t of
     None \<Rightarrow> None
   | Some i \<Rightarrow> if 0 \<le> i \<and> i \<le> 255 then map_option ((#) (char_of (nat i))) (byteElems vs) else None)"
| "byteElems (_ # vs) = None"

fun bytes_field :: "(bytes \<Rightarrow> 'a \<Rightarrow> 'a) \<Rightarrow> json \<Rightarrow> 'a \<Rightarrow> 'a option" where
  "bytes_field upd (JStr s) x = (case base64Decode s of Ok b \<Rightarrow> Some (upd b x) | _ \<Rightarrow> None)"
| "bytes_field upd JNull x = Some (upd [] x)"
| "bytes_field upd (JArr vs) x = map_option (\<lambda>b. upd b x) (byteElems vs)"
| "bytes_field upd _ x = None"

fun map_field :: "('a \<Rightarrow> gomap) \<Rightarrow> (gomap \<Rightarrow> 'a \<Rightarrow> 'a) \<Rightarrow> json \<Rightarrow> 'a \<Rightarrow> 'a option" where
  "map_field sel upd JNull x = Some (upd None x)"
| "map_field sel upd (JObj ms) x = (case strings_of ms (entries (sel x)) of Ok xs \<Rightarrow> Some (upd (Some xs) x) | _ \<Rightarrow> None)"
| "map_field sel upd _ x = None"

definition errorFields :: "errorResponse field list" where
  "errorFields = [(''code'', int64_field (\<lambda>v r. r\<lparr>erCode := v\<rparr>)), (''message'', str_field (\<lambda>v r. r\<lparr>erMessage := v\<rparr>))]"

definition feeAddressFields :: "feeAddressResponse field list" where
  "feeAddressFields = [(''timestamp'', int64_field (\<lambda>v r. r\<lparr>frTimestamp := v\<rparr>)),
     (''feeaddress'', str_field (\<lambda>v r. r\<lparr>frFeeAddress := v\<rparr>)), (''feeamount'', int64_field (\<lambda>v r. r\<lparr>frFeeAmount := v\<rparr>)),
     (''expiration'', int64_field (\<lambda>v r. r\<lparr>frExpiration := v\<rparr>)), (''request'', bytes_field (\<lambda>v r. r\<lparr>frRequest := v\<rparr>))]"

definition ackFields :: "ackResponse field list" where
  "ackFields = [(''timestamp'', int64_field (\<lambda>v r. r\<lparr>akTimestamp := v\<rparr>)), (''request'', bytes_field (\<lambda>v r. r\<lparr>akRequest := v\<rparr>))]"

definition ticketStatusFields :: "ticketStatusResponse field list" where
  "ticketStatusFields = [(''timestamp'', int64_field (\<lambda>v r. r\<lparr>tsTimestamp := v\<rparr>)),
     (''ticketconfirmed'', bool_field (\<lambda>v r. r\<lparr>tsTicketConfirmed := v\<rparr>)),
     (''feetxstatus'', str_field (\<lambda>v r. r\<lparr>tsFeeTxStatus := v\<rparr>)), (''feetxhash'', str_field (\<lambda>v r. r\<lparr>tsFeeTxHash := v\<rparr>)),
     (''altsignaddress'', str_field (\<lambda>v r. r\<lparr>tsAltSignAddress := v\<rparr>)),
     (''votechoices'', map_field tsVoteChoices (\<lambda>v r. r\<lparr>tsVoteChoices := v\<rparr>)),
     (''tspendpolicy'', map_field tsTSpendPolicy (\<lambda>v r. r\<lparr>tsTSpendPolicy := v\<rparr>)),
     (''treasurypolicy'', map_field tsTreasuryPolicy (\<lambda>v r. r\<lparr>tsTreasuryPolicy := v\<rparr>)),
     (''request'', bytes_field (\<lambda>v r. r\<lparr>tsRequest := v\<rparr>))]"

text \<open>\<open>json.Unmarshal\<close> into a nil struct pointer: null leaves it nil.\<close>

definition unmarshal_ptr :: "'a field list \<Rightarrow> 'a \<Rightarrow> bytes \<Rightarrow> 'a option outcome" where
  "unmarshal_ptr fs zero bs =
     (if json_parse bs = Some JNull then Ok None else andThen (unmarshal_struct fs zero bs) (\<lambda>r. Ok (Some r)))"

text \<open>
  \<open>Decode\<close> of a decoder with \<open>DisallowUnknownFields\<close>: only the first value of the text is read, and
  a member that belongs to no field is an error.
\<close>

definition decode_strict :: "'a field list \<Rightarrow> 'a \<Rightarrow> bytes \<Rightarrow> 'a outcome" where
  "decode_strict fs zero bs =
     (case jvalue (Suc (length bs)) bs of
        Some (JNull, _) \<Rightarrow> Ok zero
      | Some (JObj ms, _) \<Rightarrow>
          if list_all (\<lambda>(k, _). field_for fs k \<noteq> None) ms
          then (case set_fields fs ms zero True of
             (x, ok) \<Rightarrow> if ok then Ok x else Fail (Plain ''json: cannot unmarshal value''))
          else Fail (Plain ''json: unknown field'')
      | _ \<Rightarrow> Fail (Plain ''json: cannot decode''))"

section \<open>The client\<close>

datatype httpMethod = MethodGet | MethodPost

text \<open>A request: the signature header if there is one, and the body of a POST.\<close>

record httpReq =
  rqMethod :: httpMethod
  rqURL :: string
  rqSig :: "string option"
  rqBody :: "bytes option"

text \<open>A response: the signature header, empty if there is none, and the body or the error of reading it.\<close>

record httpResp =
  rsStatus :: nat
  rsSig :: string
  rsBody :: "err + bytes"

type_synonym 's transport = "httpReq \<Rightarrow> ('s, httpResp) act"

text \<open>\<open>cSign\<close> returns the signature of a text for an address, or nil.\<close>

record client =
  cURL :: string
  cPubKey :: bytes
  cSign :: "string \<Rightarrow> string \<Rightarrow> err + bytes option"
  cVerify :: "bytes \<Rightarrow> bytes \<Rightarrow> bytes \<Rightarrow> bool"
  cParseURL :: "string \<Rightarrow> err option"

text \<open>\<open>ed25519.Verify\<close> panics on a key of the wrong length.\<close>

definition ValidateServerSignature :: "client \<Rightarrow> string \<Rightarrow> bytes \<Rightarrow> unit outcome" where
  "ValidateServerSignature C sigBase64 body =
     (if sigBase64 = [] then Fail (Plain ''no signature provided'')
      else andThen (wrapErr ''failed to decode signature'' (base64Decode sigBase64)) (\<lambda>sig.
      if length (cPubKey C) \<noteq> 32 then Panic
      else if \<not> cVerify C (cPubKey C) body sig then Fail (Plain ''invalid signature'')
      else Ok ()))"

text \<open>
  \<open>do\<close>: the error the API reports, or what \<open>json.Unmarshal\<close> makes of an authentic response. The
  body is a \<open>json.RawMessage\<close> of text that \<open>json.Marshal\<close> produced, which marshals to itself.
\<close>

definition doRequest :: "client \<Rightarrow> 's transport \<Rightarrow> httpMethod \<Rightarrow> string \<Rightarrow> string \<Rightarrow> (bytes \<Rightarrow> 'r outcome) \<Rightarrow> bytes
    \<Rightarrow> ('s, errorResponse + 'r) act" where
  "doRequest C T method path addr unmarshal body =
     bindA (if method = MethodPost then wrapA ''sign request'' (lift (fromSum (cSign C body addr))) else ret None) (\<lambda>sig.
     case cParseURL C (cURL C @ path) of
       Some e \<Rightarrow> failA (Wrapped ''new request'' e)
     | None \<Rightarrow>
     bindA (wrapA ''http'' (T \<lparr>rqMethod = method, rqURL = cURL C @ path, rqSig = map_option base64 sig,
              rqBody = (if method = MethodPost then Some body else None)\<rparr>)) (\<lambda>reply.
     bindA (wrapA ''read response body'' (lift (fromSum (map_sum id (take 4194304) (rsBody reply))))) (\<lambda>respBody.
     if rsStatus reply \<noteq> 200 then
       (if respBody = [] then failA (Plain (''http status '' @ dec_of_nat (rsStatus reply) @ '' with no body''))
        else case decode_strict errorFields \<lparr>erCode = 0, erMessage = []\<rparr> respBody of
          Ok apiError \<Rightarrow> ret (Inl apiError)
        | _ \<Rightarrow> failA (Plain (''http status '' @ dec_of_nat (rsStatus reply) @ '' with body '' @ respBody)))
     else
       bindA (wrapA ''authenticate server response'' (lift (ValidateServerSignature C (rsSig reply) respBody))) (\<lambda>_.
       bindA (wrapA ''unmarshal response body'' (lift (unmarshal respBody))) (\<lambda>resp. ret (Inr resp))))))"

definition post :: "client \<Rightarrow> 's transport \<Rightarrow> string \<Rightarrow> string \<Rightarrow> (bytes \<Rightarrow> 'r outcome) \<Rightarrow> bytes \<Rightarrow> ('s, errorResponse + 'r) act" where
  "post C T path addr unmarshal body = doRequest C T MethodPost path addr unmarshal body"

text \<open>The check that the response echoes the request; it dereferences the response.\<close>

definition echoed :: "('r \<Rightarrow> bytes) \<Rightarrow> bytes \<Rightarrow> errorResponse + 'r option \<Rightarrow> ('s, errorResponse + 'r) act" where
  "echoed sel requestBody r = (case r of
     Inl e \<Rightarrow> ret (Inl e)
   | Inr None \<Rightarrow> panic
   | Inr (Some resp) \<Rightarrow>
       if requestBody \<noteq> sel resp then failA (Plain ''server response contains differing request'')
       else ret (Inr resp))"

definition clientFeeAddress :: "client \<Rightarrow> 's transport \<Rightarrow> feeAddressRequest \<Rightarrow> string
    \<Rightarrow> ('s, errorResponse + feeAddressResponse) act" where
  "clientFeeAddress C T req commitmentAddr =
     (let requestBody = feeAddressRequestJSON req in
      bindA (post C T ''/api/v3/feeaddress'' commitmentAddr
        (unmarshal_ptr feeAddressFields \<lparr>frTimestamp = 0, frFeeAddress = [], frFeeAmount = 0, frExpiration = 0, frRequest = []\<rparr>)
        requestBody) (echoed frRequest requestBody))"

text \<open>A nil map is sent as an empty one.\<close>

definition notNil :: "gomap \<Rightarrow> gomap" where
  "notNil m = Some (entries m)"

definition clientPayFee :: "client \<Rightarrow> 's transport \<Rightarrow> payFeeRequest \<Rightarrow> string \<Rightarrow> ('s, errorResponse + ackResponse) act" where
  "clientPayFee C T req commitmentAddr =
     (let req = req\<lparr>pfVoteChoices := notNil (pfVoteChoices req), pfTSpendPolicy := notNil (pfTSpendPolicy req),
            pfTreasuryPolicy := notNil (pfTreasuryPolicy req)\<rparr>;
          requestBody = payFeeRequestJSON req in
      bindA (post C T ''/api/v3/payfee'' commitmentAddr
        (unmarshal_ptr ackFields \<lparr>akTimestamp = 0, akRequest = []\<rparr>) requestBody) (echoed akRequest requestBody))"

definition clientTicketStatus :: "client \<Rightarrow> 's transport \<Rightarrow> string \<Rightarrow> string \<Rightarrow> ('s, errorResponse + ticketStatusResponse) act" where
  "clientTicketStatus C T ticketHash commitmentAddr =
     (let requestBody = ticketStatusRequestJSON ticketHash in
      bindA (post C T ''/api/v3/ticketstatus'' commitmentAddr
        (unmarshal_ptr ticketStatusFields \<lparr>tsTimestamp = 0, tsTicketConfirmed = False, tsFeeTxStatus = [], tsFeeTxHash = [],
           tsAltSignAddress = [], tsVoteChoices = None, tsTSpendPolicy = None, tsTreasuryPolicy = None, tsRequest = []\<rparr>)
        requestBody) (echoed tsRequest requestBody))"

definition clientSetVoteChoices :: "client \<Rightarrow> 's transport \<Rightarrow> setVoteChoicesRequest \<Rightarrow> string \<Rightarrow> ('s, errorResponse + ackResponse) act" where
  "clientSetVoteChoices C T req commitmentAddr =
     (let req = req\<lparr>vcVoteChoices := notNil (vcVoteChoices req), vcTSpendPolicy := notNil (vcTSpendPolicy req),
            vcTreasuryPolicy := notNil (vcTreasuryPolicy req)\<rparr>;
          requestBody = setVoteChoicesRequestJSON req in
      bindA (post C T ''/api/v3/setvotechoices'' commitmentAddr
        (unmarshal_ptr ackFields \<lparr>akTimestamp = 0, akRequest = []\<rparr>) requestBody) (echoed akRequest requestBody))"

section \<open>Round trips\<close>

lemma of_b64char: "n < 64 \<Longrightarrow> of_char (b64char n) = (if n < 26 then 65 + n else if n < 52 then 71 + n
    else if n < 62 then n - 4 else if n = 62 then 43 else (47 :: nat))"
  by (simp add: b64char_def)

lemma b64val_char: "n < 64 \<Longrightarrow> b64val (b64char n) = Some n"
  by (auto simp: b64val_def of_b64char Let_def)

lemma b64char_plain:
  assumes "n < 64"
  shows "b64char n \<noteq> CHR ''=''" "b64char n \<noteq> char_of (10 :: nat)" "b64char n \<noteq> char_of (13 :: nat)"
    "(of_char (b64char n) :: nat) < 128"
proof -
  have neq: "b64char n \<noteq> c" if "of_char c \<in> {10, 13, 61 :: nat}" for c
    using that of_b64char [OF assms] assms by (auto split: if_splits)
  show "b64char n \<noteq> CHR ''=''" by (rule neq) simp
  show "b64char n \<noteq> char_of (10 :: nat)" "b64char n \<noteq> char_of (13 :: nat)" by (rule neq, simp)+
  show "(of_char (b64char n) :: nat) < 128" using of_b64char [OF assms] assms by (simp split: if_splits)
qed

text \<open>Cutting bytes into groups of six bits and joining them again.\<close>

lemma sextets:
  fixes x y z :: nat
  assumes "x < 256" "y < 256" "z < 256"
  shows "x div 4 < 64" "x mod 4 * 16 < 64" "x mod 4 * 16 + y div 16 < 64" "y mod 16 * 4 < 64" "y mod 16 * 4 + z div 64 < 64"
    "x mod 4 * 16 div 16 = x mod 4" "(x mod 4 * 16 + y div 16) div 16 = x mod 4" "(x mod 4 * 16 + y div 16) mod 16 = y div 16"
    "(y mod 16 * 4 + z div 64) div 4 = y mod 16" "(y mod 16 * 4 + z div 64) mod 4 = z div 64" "y mod 16 * 4 div 4 = y mod 16"
    "y div 16 mod 16 = y div 16" "z div 64 mod 4 = z div 64"
proof -
  have b: "x mod 4 < 4" "y div 16 < 16" "y mod 16 < 16" "z div 64 < 4" using assms by auto
  show "x div 4 < 64" using assms by auto
  show "x mod 4 * 16 < 64" "x mod 4 * 16 + y div 16 < 64" "y mod 16 * 4 < 64" "y mod 16 * 4 + z div 64 < 64"
    using b by linarith+
qed (use assms in \<open>simp_all add: less_mult_imp_div_less\<close>)

lemma unb64_base64: "unb64 (base64 b) = Some b"
proof (induction b rule: base64.induct)
  case (2 a)
  show ?case
    using sextets [of "of_char a" 0 0] by (simp add: Let_def b64val_char)
next
  case (3 a b)
  show ?case
    using sextets [of "of_char a" "of_char b" 0]
    by (simp add: Let_def b64val_char b64char_plain)
next
  case (4 a b c s)
  show ?case
    using sextets [of "of_char a" "of_char b" "of_char c"] 4
    by (simp add: Let_def b64val_char b64char_plain)
qed simp

definition plain :: "char \<Rightarrow> bool" where
  "plain c \<longleftrightarrow> c \<noteq> char_of (10 :: nat) \<and> c \<noteq> char_of (13 :: nat) \<and> (of_char c :: nat) < 128"

lemma plain_char: "n < 64 \<Longrightarrow> plain (b64char n)" "plain (CHR ''='')"
  by (simp_all add: plain_def b64char_plain) (simp add: char_of_def)

lemma base64_plain: "list_all plain (base64 b)"
proof (induction b rule: base64.induct)
  case (2 a)
  show ?case using sextets [of "of_char a" 0 0] by (simp add: Let_def plain_char)
next
  case (3 a b)
  show ?case using sextets [of "of_char a" "of_char b" 0] by (simp add: Let_def plain_char)
next
  case (4 a b c s)
  then show ?case using sextets [of "of_char a" "of_char b" "of_char c"] by (simp add: Let_def plain_char)
qed simp

lemma base64Decode_base64 [simp]: "base64Decode (base64 b) = Ok b"
proof -
  have "filter (\<lambda>c. c \<noteq> char_of (10 :: nat) \<and> c \<noteq> char_of (13 :: nat)) (base64 b) = base64 b"
    by (rule filter_True) (use base64_plain in \<open>auto simp: list_all_iff plain_def\<close>)
  then show ?thesis by (simp only: base64Decode_def unb64_base64 option.case)
qed

lemma base64_valid [simp]: "valid_utf8 (base64 b)"
  by (rule ascii_valid) (use base64_plain in \<open>auto simp: list_all_iff plain_def\<close>)

lemma base64_Nil [simp]: "base64 b = [] \<longleftrightarrow> b = []"
  by (cases b rule: base64.cases) (simp_all add: Let_def)

end
