(* ===== verification/Exchange.thy ===== *)
theory Exchange
  imports Client Payments
begin

text \<open>
  The client and the server joined: the client's transport is the server itself. What the
  server answers to a request of the client is always something the client understands: an
  error of the API, or a response that verifies under the key of the VSP and echoes the request.
\<close>

section \<open>The server as a transport\<close>

text \<open>The POST routes of the API (\<open>webapi.go\<close>).\<close>

definition apiRoute :: "('s, 'x, 'f) api \<Rightarrow> httpMethod \<Rightarrow> string \<Rightarrow> 's handler list option" where
  "apiRoute W method path =
     (if method = MethodPost then
        (if path = ''/api/v3/setaltsignaddr'' then Some (routeSetAltSignAddr W)
         else if path = ''/api/v3/feeaddress'' then Some (routeFeeAddress W)
         else if path = ''/api/v3/ticketstatus'' then Some (routeTicketStatus W)
         else if path = ''/api/v3/payfee'' then Some (routePayFee W)
         else if path = ''/api/v3/setvotechoices'' then Some (routeSetVoteChoices W)
         else None)
      else None)"

fun replyOf :: "'s event list \<Rightarrow> httpResp" where
  "replyOf (Responded n b g # es) = \<lparr>rsStatus = n, rsSig = g, rsBody = Inr b\<rparr>"
| "replyOf es = \<lparr>rsStatus = 200, rsSig = [], rsBody = Inr []\<rparr>"

text \<open>The first response of the server is the one the client gets; a missing header reads as empty.\<close>

definition overHTTP :: "('s, 'x, 'f) api \<Rightarrow> string \<Rightarrow> 's transport" where
  "overHTTP W base req w =
     (case apiRoute W (rqMethod req) (drop (length base) (rqURL req)) of
        None \<Rightarrow> (Ok \<lparr>rsStatus = 404, rsSig = [], rsBody = Inr ''404 page not found''\<rparr>, w)
      | Some hs \<Rightarrow>
          (case serve hs (Inr (case rqBody req of None \<Rightarrow> [] | Some b \<Rightarrow> b)) (case rqSig req of None \<Rightarrow> [] | Some s \<Rightarrow> s) w of
             (_, w') \<Rightarrow> (Ok (replyOf (drop (length (responses w)) (responses w'))), w')))"

section \<open>The shape of the responses\<close>

text \<open>Every response is an error of the API or a success whose body satisfies \<open>J\<close>.\<close>

fun shaped :: "(bytes \<Rightarrow> bool) \<Rightarrow> 's event \<Rightarrow> bool" where
  "shaped J (Responded n b g) = ((\<exists>e m. n = HTTPStatus e \<and> b = errorJSON e m) \<or> n = 200 \<and> J b)"
| "shaped J e = True"

lemma shaped_calls: "calls (shaped J)" "reads (shaped J)" "shaped J (Asked c)" "shaped J (Wrote s)"
  by (simp_all add: calls_def reads_def)

lemma emits_get: "(\<And>v. x = Some v \<Longrightarrow> emits A (k v)) \<Longrightarrow> emits A (bindA (mustGet x) k)"
  by (cases x) (simp_all add: mustGet_def emits_def bindA_def ret_def panic_def)

lemma shaped_errors: "emits (shaped J) (sendErrorWithMsg W m e c)" "emits (shaped J) (sendError W er c)"
    "emits (shaped J) (refuse W rf c)"
  unfolding sendError_def sendErrorWithMsg_def refuse_def Let_def
  by (intro emits_intros; simp; blast)+

lemma shaped_json: "J d \<Longrightarrow> emits (shaped J) (sendJSONResponse W (Inr d) c)"
  by (simp add: sendJSONResponse_def Let_def) (intro emits_intros, simp)

lemmas shaped_quiet = emits_reads [OF shaped_calls(2)] emits_send [OF shaped_calls(1)]

lemma shaped_slot: "emits (shaped J) (freeSlot E)"
  by (rule emits_snd [OF emits_ask [of "shaped J" "Call Ctx ''broadcastSem'' []" E]])
    (auto simp: freeSlot_def split: prod.split outcome.split reply.split)

lemma shaped_retry: "emits (shaped J) (retryBroadcast n E tx)"
  by (induction n) (auto intro!: emits_intros shaped_quiet)

lemma shaped_parent: "emits (shaped J) k \<Longrightarrow> emits (shaped J) (broadcastParent W req tx h c k)"
  unfolding broadcastParent_def
  by (intro emits_intros shaped_quiet shaped_errors shaped_slot shaped_retry)

lemma shaped_middleware:
  "emits (shaped J) (vspMustBeOpen W c)" "emits (shaped J) (withMondClient W c)" "emits (shaped J) (withWalletClients W c)"
  "emits (shaped J) (broadcastTicket W c)" "emits (shaped J) (vspAuth W c)"
  unfolding vspMustBeOpen_def withMondClient_def withWalletClients_def broadcastTicket_def vspAuth_def authAddress_def Let_def
  by (intro emits_intros emits_get shaped_parent shaped_quiet shaped_errors)+

lemma shaped_canVote: "emits (shaped J) (canTicketVote l E n raw)"
  by (rule emits_canVote) (rule shaped_calls)

lemma shaped_fee: "emits (shaped J) (getCurrentFee W)" "emits (shaped J) (getNewFeeAddress W)"
  unfolding getCurrentFee_def getNewFeeAddress_def Let_def
  by (intro emits_intros shaped_quiet; simp)+

text \<open>The successes of the handlers.\<close>

lemma shaped_acknowledge: "(\<And>ts. J (ackJSON ts (base64 rb))) \<Longrightarrow> emits (shaped J) (acknowledge W rb h c)"
  unfolding acknowledge_def by (intro emits_intros shaped_json) (simp_all add: shaped_calls)

lemma shaped_feeAddress:
  assumes "cxRequestBytes c = Some rb" "\<And>ts a m x. J (feeAddressJSON ts a m x (base64 rb))"
  shows "emits (shaped J) (feeAddress W c)"
  unfolding feeAddress_def renewFee_def registerTicket_def Let_def
  by (rule emits_get emits_intros shaped_quiet shaped_errors shaped_canVote shaped_fee shaped_json
    | (use assms in \<open>simp add: shaped_calls\<close>; fail))+

lemma shaped_payFee:
  assumes "cxRequestBytes c = Some rb" "\<And>ts. J (ackJSON ts (base64 rb))"
  shows "emits (shaped J) (payFee W c)"
  unfolding payFee_def broadcastFee_def
  by (rule emits_get emits_intros shaped_quiet shaped_errors shaped_canVote shaped_acknowledge
    | (use assms in \<open>simp add: shaped_calls\<close>; fail))+

lemma shaped_setVoteChoices:
  assumes "cxRequestBytes c = Some rb" "\<And>ts. J (ackJSON ts (base64 rb))"
  shows "emits (shaped J) (setVoteChoices W c)"
  unfolding setVoteChoices_def setOnWallet_def
  by (rule emits_get emits_intros shaped_quiet shaped_errors shaped_acknowledge
    | (use assms in \<open>simp add: shaped_calls\<close>; fail))+

section \<open>Routes\<close>

lemma emits_yields:
  assumes "emits A m" "yields Q m" "\<And>a. Q a \<Longrightarrow> emits A (k a)"
  shows "emits A (bindA m k)"
  unfolding emits_def
proof
  fix w
  obtain r w1 where m: "m w = (r, w1)" by (cases "m w")
  then have t: "traced A w w1" by (rule emitsD [OF assms(1)])
  show "traced A w (snd (bindA m k w))"
  proof (cases r)
    case (Ok a)
    then have "Q a" using assms(2) m by (auto simp: yields_def)
    then have "traced A w1 (snd (k a w1))" using assms(3) by (simp add: emits_def)
    with t show ?thesis by (simp add: bindA_def m Ok traced_trans)
  qed (use t m in \<open>simp_all add: bindA_def\<close>)
qed

lemma send_stops:
  "yields (\<lambda>c'. cxAborted c' \<or> X c') (sendErrorWithMsg W m e c)" "yields (\<lambda>c'. cxAborted c' \<or> X c') (sendError W er c)"
  unfolding sendError_def sendErrorWithMsg_def Let_def by (intro yields_intros; simp)+

lemma tryA_lift: "tryA (lift (Ok a)) h k = k a"
  by (rule ext) (simp add: tryA_def lift_def)

lemma vspAuth_bytes:
  assumes "ofRequest (Inr raw) sg c"
  shows "yields (\<lambda>c'. cxAborted c' \<or> cxRequestBytes c' = Some (take 4194304 raw)) (vspAuth W c)"
proof (cases "drainAndReplaceBody c")
  case (Ok r)
  obtain rb c1 where r: "r = (rb, c1)" by (cases r)
  with drain_bytes(2) [OF assms, of rb c1] Ok have rb: "rb = take 4194304 raw" by auto
  show ?thesis
    unfolding vspAuth_def Ok r authAddress_def tryA_lift prod.case Let_def
    by (rule yields_intros send_stops | (simp add: rb; fail))+
next
  case (Fail e)
  then show ?thesis
    using send_stops(1) [of "\<lambda>c'. cxRequestBytes c' = Some (take 4194304 raw)" W "err_msg e" ErrBadRequest c]
    by (simp add: vspAuth_def tryA_def lift_def yields_def)
qed (simp add: vspAuth_def tryA_def lift_def yields_def)

lemma chain_aborted: "cxAborted c \<Longrightarrow> emits A (runChain hs c)"
  by (cases hs) (simp_all add: emits_intros)

lemma chain_shaped:
  assumes "list_all (\<lambda>m. \<forall>c. ofRequest (Inr raw) sg c \<longrightarrow> emits (shaped J) (m c) \<and> yields (ofRequest (Inr raw) sg) (m c)) ms"
    and h: "\<And>c. cxRequestBytes c = Some (take 4194304 raw) \<Longrightarrow> emits (shaped J) (h c)"
    and "ofRequest (Inr raw) sg c"
  shows "emits (shaped J) (runChain (ms @ [vspAuth W, h]) c)"
  using assms(1,3)
proof (induction ms arbitrary: c)
  case Nil
  have "emits (shaped J) (runChain [h] c')" if "cxAborted c' \<or> cxRequestBytes c' = Some (take 4194304 raw)" for c'
    using that by (auto intro!: emits_intros h)
  then have "emits (shaped J) (bindA (vspAuth W c) (runChain [h]))"
    by (rule emits_yields [OF shaped_middleware(5) vspAuth_bytes [OF Nil(2)]])
  then show ?case by (simp add: emits_intros)
next
  case (Cons m ms)
  have "emits (shaped J) (bindA (m c) (runChain (ms @ [vspAuth W, h])))"
    by (rule emits_yields [of _ _ "ofRequest (Inr raw) sg"]) (use Cons in auto)
  then show ?case by (simp add: emits_intros)
qed

text \<open>The first answer to a request is an error of the API, the expected success or an empty 500.\<close>

lemma serve_shaped:
  assumes "\<And>c. ofRequest (Inr raw) sg c \<Longrightarrow> emits (shaped J) (runChain hs c)"
    "answered W True (responses w) (runChain hs (newCtx (Inr raw) sg) w)" "serve hs (Inr raw) sg w = (r, w')"
  shows "\<exists>n b g es. drop (length (responses w)) (responses w') = Responded n b g # es \<and>
    (shaped J (Responded n b g) \<and> g = base64 (wSign W b) \<or> n = 500 \<and> b = [])"
proof -
  let ?run = "runChain hs (newCtx (Inr raw) sg) w"
  have "ofRequest (Inr raw) sg (newCtx (Inr raw) sg)" by (simp add: ofRequest_def newCtx_def)
  then have "traced (shaped J) w (snd ?run)" using assms(1) by (simp add: emits_def)
  then obtain es where es: "events (snd ?run) = events w @ es" "list_all (shaped J) es" by (auto simp: traced_def)
  have new: "responses (snd ?run) = responses w @ filter (\<lambda>e. \<not> silent e) es" by (simp add: responses_def es(1))
  have all: "shaped J e" if "e \<in> set (filter (\<lambda>e. \<not> silent e) es)" for e using es(2) that by (auto simp: list_all_iff)
  from serve_answers [OF assms(2,3)] obtain e es' where e: "responses w' = responses w @ e # es'"
      "signed W e \<and> es' = [] \<or> fst ?run = Panic \<and> (e = Responded 500 [] [] \<and> es' = [] \<or> signed W e \<and> es' = [Responded 500 [] []])"
    by blast
  have after: "responses w' = responses (snd ?run) @ (if fst ?run = Panic then [Responded 500 [] []] else [])"
    using assms(3) by (cases ?run; cases "fst ?run") (auto simp: serve_def respond_def responses_def)
  show ?thesis
  proof (cases "filter (\<lambda>e. \<not> silent e) es")
    case Nil
    then have "e # es' = (if fst ?run = Panic then [Responded 500 [] []] else [])" using e(1) after new by simp
    then show ?thesis using e(1) by (auto split: if_splits)
  next
    case (Cons x xs)
    then have "x = e" using e(1) after new by simp
    with Cons all have sh: "shaped J e" by simp
    from e(2) have "signed W e \<or> e = Responded 500 [] []" by blast
    then obtain n b g where x: "e = Responded n b g" "g = base64 (wSign W b) \<or> n = 500 \<and> b = []"
      by (auto simp: signed_def)
    then show ?thesis using sh e(1) by fastforce
  qed
qed

end
