(* ===== verification/ClientProps.thy ===== *)
theory ClientProps
  imports Exchange DemoApi
begin

text \<open>
  The properties of the client library: what a successful call guarantees whatever the transport
  delivers, and what a call to an honest server can return.
\<close>

section \<open>Reading the responses of the server\<close>

lemma sanitize_tags:
  "sanitize ''code'' = ''code''" "sanitize ''message'' = ''message''" "sanitize ''timestamp'' = ''timestamp''"
  "sanitize ''feeaddress'' = ''feeaddress''" "sanitize ''feeamount'' = ''feeamount''" "sanitize ''expiration'' = ''expiration''"
  "sanitize ''request'' = ''request''" "sanitize (base64 rb) = base64 rb"
  by (rule sanitize_valid, rule ascii_valid, simp)+ (rule sanitize_valid, rule base64_valid)

lemma json_object_value:
  assumes "json_parse bs = Some (JObj ms)"
  shows "\<exists>r. jvalue (Suc (length bs)) bs = Some (JObj ms, r)"
  using assms unfolding json_parse_def by (cases "jvalue (Suc (length bs)) bs") (auto split: if_splits simp del: jvalue.simps)

lemma error_decodes: "\<exists>x. decode_strict errorFields \<lparr>erCode = 0, erMessage = []\<rparr> (errorJSON e m) = Ok x"
proof -
  have "json_parse (errorJSON e m) = Some (JObj [(''code'', JNum (dec_of_int (sint e))), (''message'', JStr (sanitize m))])"
    unfolding errorJSON_def json_parse_object by (simp add: object_json_def sanitize_tags)
  from json_object_value [OF this] obtain r where
    "jvalue (Suc (length (errorJSON e m))) (errorJSON e m) =
       Some (JObj [(''code'', JNum (dec_of_int (sint e))), (''message'', JStr (sanitize m))], r)" ..
  then show ?thesis
    unfolding decode_strict_def by (simp add: errorFields_def field_for_def del: jvalue.simps)
qed

lemma unmarshal_ptr_object:
  "set_fields fs (object_json kvs) z True = (x, True) \<Longrightarrow> unmarshal_ptr fs z (object_text kvs) = Ok (Some x)"
  by (simp add: unmarshal_ptr_def unmarshal_object json_parse_object)

lemma feeAddress_decodes:
  "unmarshal_ptr feeAddressFields z (feeAddressJSON ts a amount x (base64 rb)) =
     Ok (Some (z\<lparr>frTimestamp := ts, frFeeAddress := sanitize a, frFeeAmount := amount, frExpiration := x, frRequest := rb\<rparr>))"
  unfolding feeAddressJSON_def
  by (rule unmarshal_ptr_object, simp only: object_json_def list.map prod.case leaf_json.simps sanitize_tags)
     (simp add: feeAddressFields_def field_for_def)

lemma ack_decodes:
  "unmarshal_ptr ackFields z (ackJSON ts (base64 rb)) = Ok (Some (z\<lparr>akTimestamp := ts, akRequest := rb\<rparr>))"
  unfolding ackJSON_def
  by (rule unmarshal_ptr_object, simp only: object_json_def list.map prod.case leaf_json.simps sanitize_tags)
     (simp add: ackFields_def field_for_def)

lemma errorJSON_not_Nil: "errorJSON e m \<noteq> []"
  by (simp add: errorJSON_def object_text_def)

lemma HTTPStatus_not_200: "HTTPStatus e \<noteq> 200"
  by (simp add: HTTPStatus_def)

section \<open>Authentic responses\<close>

text \<open>
  What a successful call has checked of the response \<open>reply\<close>: its status, its signature under the
  key of the VSP, and that the body says what is returned.
\<close>

definition authenticReply :: "client \<Rightarrow> httpResp \<Rightarrow> (bytes \<Rightarrow> 'r outcome) \<Rightarrow> 'r \<Rightarrow> bool" where
  "authenticReply C reply unmarshal x \<longleftrightarrow> rsStatus reply = 200 \<and> length (cPubKey C) = 32 \<and>
     (\<exists>raw sig. rsBody reply = Inr raw \<and> base64Decode (rsSig reply) = Ok sig \<and>
        cVerify C (cPubKey C) (take 4194304 raw) sig \<and> unmarshal (take 4194304 raw) = Ok x)"

text \<open>
  A result of a call that is vouched for: if it is a response, then the transport delivered it as the
  answer to the POST of the request, authentic, and it echoes the request.
\<close>

fun vouched :: "client \<Rightarrow> 's transport \<Rightarrow> string \<Rightarrow> (bytes \<Rightarrow> 'r option outcome) \<Rightarrow> ('r \<Rightarrow> bytes) \<Rightarrow> bytes \<Rightarrow> 's world
    \<Rightarrow> (errorResponse + 'r) outcome \<times> 's world \<Rightarrow> bool" where
  "vouched C T path unmarshal sel body w (Ok (Inr r), w') = (sel r = body \<and> (\<exists>sig reply.
     T \<lparr>rqMethod = MethodPost, rqURL = cURL C @ path, rqSig = sig, rqBody = Some body\<rparr> w = (Ok reply, w') \<and>
     authenticReply C reply unmarshal (Some r)))"
| "vouched C T path unmarshal sel body w _ = True"

lemma act_Ok:
  "bindA m k w = (Ok a, w') \<longleftrightarrow> (\<exists>x w1. m w = (Ok x, w1) \<and> k x w1 = (Ok a, w'))"
  "wrapA p n w = (Ok a, w') \<longleftrightarrow> n w = (Ok a, w')"
  "lift r w = (Ok a, w') \<longleftrightarrow> r = Ok a \<and> w' = w"
  "ret b w = (Ok a, w') \<longleftrightarrow> b = a \<and> w' = w"
  "failA e w \<noteq> (Ok a, w')" "panic w \<noteq> (Ok a, w')"
  by (auto simp: bindA_def wrapA_def tryA_def lift_def ret_def failA_def panic_def split: prod.splits outcome.splits)

lemma ValidateServerSignature_Ok:
  assumes "ValidateServerSignature C sig64 body = Ok u"
  shows "length (cPubKey C) = 32 \<and> (\<exists>sig. base64Decode sig64 = Ok sig \<and> cVerify C (cPubKey C) body sig)"
  using assms by (auto simp: ValidateServerSignature_def outcome_simps split: if_splits)

text \<open>The steps of \<open>do\<close> before and after the transport.\<close>

definition checkReply :: "client \<Rightarrow> (bytes \<Rightarrow> 'r outcome) \<Rightarrow> httpResp \<Rightarrow> (errorResponse + 'r) outcome" where
  "checkReply C unmarshal reply =
     andThen (wrapErr ''read response body'' (fromSum (map_sum id (take 4194304) (rsBody reply)))) (\<lambda>respBody.
     if rsStatus reply \<noteq> 200 then
       (if respBody = [] then Fail (Plain (''http status '' @ dec_of_nat (rsStatus reply) @ '' with no body''))
        else case decode_strict errorFields \<lparr>erCode = 0, erMessage = []\<rparr> respBody of
          Ok apiError \<Rightarrow> Ok (Inl apiError)
        | _ \<Rightarrow> Fail (Plain (''http status '' @ dec_of_nat (rsStatus reply) @ '' with body '' @ respBody)))
     else
       andThen (wrapErr ''authenticate server response'' (ValidateServerSignature C (rsSig reply) respBody)) (\<lambda>_.
       andThen (wrapErr ''unmarshal response body'' (unmarshal respBody)) (\<lambda>resp. Ok (Inr resp))))"

lemma lift_act: "wrapA p (lift r) = lift (wrapErr p r)" "bindA (lift q) (\<lambda>a. lift (f a)) = lift (andThen q f)"
  "failA e = lift (Fail e)" "ret a = lift (Ok a)"
  by (cases r; cases q; rule ext; simp add: act_defs wrapA_def tryA_def bindA_def)+

lemma checkReply_act: "bindA (wrapA ''read response body'' (lift (fromSum (map_sum id (take 4194304) (rsBody reply))))) (\<lambda>respBody.
     if rsStatus reply \<noteq> 200 then
       (if respBody = [] then failA (Plain (''http status '' @ dec_of_nat (rsStatus reply) @ '' with no body''))
        else case decode_strict errorFields \<lparr>erCode = 0, erMessage = []\<rparr> respBody of
          Ok apiError \<Rightarrow> ret (Inl apiError)
        | _ \<Rightarrow> failA (Plain (''http status '' @ dec_of_nat (rsStatus reply) @ '' with body '' @ respBody)))
     else
       bindA (wrapA ''authenticate server response'' (lift (ValidateServerSignature C (rsSig reply) respBody))) (\<lambda>_.
       bindA (wrapA ''unmarshal response body'' (lift (unmarshal respBody))) (\<lambda>resp. ret (Inr resp)))) =
   lift (checkReply C unmarshal reply)"
  unfolding checkReply_def lift_act(1,3,4) lift_act(2) [symmetric]
  by (rule arg_cong [where f = "bindA _"], rule ext) (simp add: lift_act(2) split: outcome.split)

lemma post_eq:
  assumes "cSign C body addr = Inr sig" "cParseURL C (cURL C @ path) = None"
  shows "post C T path addr unmarshal body w =
    (case T \<lparr>rqMethod = MethodPost, rqURL = cURL C @ path, rqSig = map_option base64 sig, rqBody = Some body\<rparr> w of
       (Ok reply, w') \<Rightarrow> (checkReply C unmarshal reply, w')
     | (Fail e, w') \<Rightarrow> (Fail (Wrapped ''http'' e), w')
     | (Panic, w') \<Rightarrow> (Panic, w'))"
  unfolding post_def doRequest_def checkReply_act assms(1)
  by (simp add: assms(2) bindA_def wrapA_def tryA_def lift_def ret_def failA_def split: prod.split outcome.split)

lemma post_Ok:
  assumes "post C T path addr unmarshal body w = (Ok (Inr x), w')"
  shows "\<exists>sig reply. T \<lparr>rqMethod = MethodPost, rqURL = cURL C @ path, rqSig = sig, rqBody = Some body\<rparr> w = (Ok reply, w') \<and>
    authenticReply C reply unmarshal x"
proof -
  obtain sig where sig: "cSign C body addr = Inr sig"
    using assms by (cases "cSign C body addr") (simp_all add: post_def doRequest_def bindA_def wrapA_def tryA_def lift_def failA_def)
  have url: "cParseURL C (cURL C @ path) = None"
    using assms sig by (cases "cParseURL C (cURL C @ path)")
      (simp_all add: post_def doRequest_def bindA_def wrapA_def tryA_def lift_def failA_def ret_def)
  from assms obtain reply where reply:
      "T \<lparr>rqMethod = MethodPost, rqURL = cURL C @ path, rqSig = map_option base64 sig, rqBody = Some body\<rparr> w = (Ok reply, w')"
      "checkReply C unmarshal reply = Ok (Inr x)"
    unfolding post_eq [OF sig url] by (auto split: prod.splits outcome.splits)
  then obtain respBody u where r: "fromSum (map_sum id (take 4194304) (rsBody reply)) = Ok respBody" "rsStatus reply = 200"
      "ValidateServerSignature C (rsSig reply) respBody = Ok u" "unmarshal respBody = Ok x"
    by (auto simp: checkReply_def outcome_simps split: if_splits outcome.splits)
  obtain raw where "rsBody reply = Inr raw" "respBody = take 4194304 raw"
    using r(1) by (cases "rsBody reply") auto
  then show ?thesis
    using reply(1) r ValidateServerSignature_Ok [OF r(3)] by (auto simp: authenticReply_def)
qed

lemma post_vouched: "vouched C T path unmarshal sel body w (bindA (post C T path addr unmarshal body) (echoed sel body) w)"
proof (cases "bindA (post C T path addr unmarshal body) (echoed sel body) w")
  case (Pair res w')
  show ?thesis
  proof (cases "\<exists>r. res = Ok (Inr r)")
    case True
    then obtain r where r: "res = Ok (Inr r)" ..
    with Pair obtain x w1 where x: "post C T path addr unmarshal body w = (Ok x, w1)" "echoed sel body x w1 = (Ok (Inr r), w')"
      by (auto simp: act_Ok(1))
    then have "x = Inr (Some r)" "sel r = body" "w1 = w'"
      by (auto simp: act_Ok echoed_def split: sum.splits option.splits if_splits)
    then show ?thesis using post_Ok x(1) Pair r by fastforce
  next
    case False
    then show ?thesis
      unfolding Pair by (cases "(C, T, path, unmarshal, sel, body, w, res, w')" rule: vouched.cases) auto
  qed
qed


section \<open>An honest server\<close>

text \<open>
  The client has the key of the server, with which it verifies what the server signs, a URL that
  parses, and a signer that does not fail.
\<close>

definition honest :: "('s, 'x, 'f) api \<Rightarrow> client \<Rightarrow> bool" where
  "honest W C \<longleftrightarrow> length (cPubKey C) = 32 \<and> (\<forall>b. wSign W b \<noteq> [] \<and> cVerify C (cPubKey C) b (wSign W b)) \<and>
     (\<forall>u. cParseURL C u = None) \<and> (\<forall>m a. \<exists>g. cSign C m a = Inr g)"

text \<open>Texts of at most 4 MiB are read in full, both requests and responses.\<close>

definition fits :: "'s world \<Rightarrow> 's world \<Rightarrow> bool" where
  "fits w w' \<longleftrightarrow> (\<forall>n b g. Responded n b g \<in> set (drop (length (responses w)) (responses w')) \<longrightarrow> length b \<le> 4194304)"

lemma overHTTP_route:
  assumes "apiRoute W MethodPost path = Some hs"
  shows "overHTTP W base \<lparr>rqMethod = MethodPost, rqURL = base @ path, rqSig = sig, rqBody = Some body\<rparr> w =
    (case serve hs (Inr body) (case sig of None \<Rightarrow> [] | Some s \<Rightarrow> s) w of
       (_, w') \<Rightarrow> (Ok (replyOf (drop (length (responses w)) (responses w'))), w'))"
  using assms by (simp add: overHTTP_def)

lemma dec_500: "dec_of_nat 500 = ''500''"
  by code_simp

text \<open>What the client makes of a response of the server.\<close>

lemma checkReply_shaped:
  assumes "honest W C" "length b \<le> 4194304" "shaped J (Responded n b g) \<and> g = base64 (wSign W b) \<or> n = 500 \<and> b = []"
    "\<forall>b. J b \<longrightarrow> (\<exists>x. unmarshal b = Ok x \<and> Q x)"
  shows "(\<exists>e. checkReply C unmarshal \<lparr>rsStatus = n, rsSig = g, rsBody = Inr b\<rparr> = Ok (Inl e)) \<or>
    (\<exists>x. checkReply C unmarshal \<lparr>rsStatus = n, rsSig = g, rsBody = Inr b\<rparr> = Ok (Inr x) \<and> Q x) \<or>
    checkReply C unmarshal \<lparr>rsStatus = n, rsSig = g, rsBody = Inr b\<rparr> = Fail (Plain ''http status 500 with no body'')"
proof -
  consider (err) e m where "n = HTTPStatus e" "b = errorJSON e m" | (fine) "n = 200" "J b" "g = base64 (wSign W b)"
    | (none) "n = 500" "b = []"
    using assms(3) by auto
  then show ?thesis
  proof cases
    case err
    then show ?thesis
      using error_decodes [of e m] assms(2)
      by (auto simp: checkReply_def HTTPStatus_not_200 errorJSON_not_Nil)
  next
    case fine
    then obtain x where "unmarshal b = Ok x" "Q x" using assms(4) by blast
    moreover have "ValidateServerSignature C g b = Ok ()"
      using assms(1) fine by (simp add: honest_def ValidateServerSignature_def)
    ultimately show ?thesis using fine assms(2) by (simp add: checkReply_def)
  next
    case none
    then show ?thesis by (simp add: checkReply_def dec_500)
  qed
qed

lemma route_shaped:
  assumes "ofRequest (Inr raw) sg c" "length raw \<le> 4194304"
  shows "(\<And>ts a m x. J (feeAddressJSON ts a m x (base64 raw))) \<Longrightarrow> emits (shaped J) (runChain (routeFeeAddress W) c)"
    "(\<And>ts. J (ackJSON ts (base64 raw))) \<Longrightarrow> emits (shaped J) (runChain (routePayFee W) c)"
    "(\<And>ts. J (ackJSON ts (base64 raw))) \<Longrightarrow> emits (shaped J) (runChain (routeSetVoteChoices W) c)"
proof -
  assume J: "\<And>ts a m x. J (feeAddressJSON ts a m x (base64 raw))"
  have "emits (shaped J) (runChain ([vspMustBeOpen W, withMondClient W, broadcastTicket W] @ [vspAuth W, feeAddress W]) c)"
    by (rule chain_shaped [OF _ _ assms(1)])
      (simp add: shaped_middleware middleware_yields, rule shaped_feeAddress, use assms(2) J in simp_all)
  then show "emits (shaped J) (runChain (routeFeeAddress W) c)" by (simp add: routeFeeAddress_def del: runChain.simps)
next
  assume J: "\<And>ts. J (ackJSON ts (base64 raw))"
  have "emits (shaped J) (runChain ([vspMustBeOpen W, withMondClient W] @ [vspAuth W, payFee W]) c)"
    by (rule chain_shaped [OF _ _ assms(1)])
      (simp add: shaped_middleware middleware_yields, rule shaped_payFee, use assms(2) J in simp_all)
  then show "emits (shaped J) (runChain (routePayFee W) c)" by (simp add: routePayFee_def del: runChain.simps)
  have "emits (shaped J) (runChain ([withMondClient W, withWalletClients W] @ [vspAuth W, setVoteChoices W]) c)"
    by (rule chain_shaped [OF _ _ assms(1)])
      (simp add: shaped_middleware middleware_yields, rule shaped_setVoteChoices, use assms(2) J in simp_all)
  then show "emits (shaped J) (runChain (routeSetVoteChoices W) c)" by (simp add: routeSetVoteChoices_def del: runChain.simps)
qed

text \<open>How a call may end: with an error of the API, a response that echoes the request, or the report of an empty 500.\<close>

fun answeredWell :: "('r \<Rightarrow> bytes) \<Rightarrow> bytes \<Rightarrow> (errorResponse + 'r) outcome \<Rightarrow> bool" where
  "answeredWell sel body (Ok (Inl e)) = True"
| "answeredWell sel body (Ok (Inr r)) = (sel r = body)"
| "answeredWell sel body (Fail e) = (e = Plain ''http status 500 with no body'')"
| "answeredWell sel body Panic = False"

lemma exchange:
  fixes W :: "('s, 'x, 'f) api"
  assumes h: "honest W C" and route: "apiRoute W MethodPost path = Some hs"
    and hs: "hs \<in> {routeSetAltSignAddr W, routeFeeAddress W, routeTicketStatus W, routePayFee W, routeSetVoteChoices W}"
    and shape: "\<And>sg c. ofRequest (Inr body) sg c \<Longrightarrow> emits (shaped J) (runChain hs c)"
    and J: "\<And>b. J b \<Longrightarrow> \<exists>x. unmarshal b = Ok (Some x) \<and> sel x = body"
    and run: "bindA (post C (overHTTP W (cURL C)) path addr unmarshal body) (echoed sel body) w = (r, w')" and fit: "fits w w'"
  shows "answeredWell sel body r"
proof -
  obtain g where g: "cSign C body addr = Inr g" using h unfolding honest_def by metis
  have url: "cParseURL C (cURL C @ path) = None" using h by (simp add: honest_def)
  let ?sg = "case map_option base64 g of None \<Rightarrow> [] | Some s \<Rightarrow> s"
  obtain u w1 where serve: "serve hs (Inr body) ?sg w = (u, w1)" by (cases "serve hs (Inr body) ?sg w")
  obtain n b sg es where reply: "drop (length (responses w)) (responses w1) = Responded n b sg # es"
      "shaped J (Responded n b sg) \<and> sg = base64 (wSign W b) \<or> n = 500 \<and> b = []"
    using serve_shaped [of body ?sg J hs W w u w1] shape route_answers [OF hs, of w "Inr body" ?sg] serve by blast
  have post: "post C (overHTTP W (cURL C)) path addr unmarshal body w =
      (checkReply C unmarshal \<lparr>rsStatus = n, rsSig = sg, rsBody = Inr b\<rparr>, w1)"
    unfolding post_eq [OF g url] overHTTP_route [OF route] serve prod.case outcome.case reply(1) replyOf.simps ..
  then have res: "(r, w') = (case checkReply C unmarshal \<lparr>rsStatus = n, rsSig = sg, rsBody = Inr b\<rparr> of
      Ok x \<Rightarrow> echoed sel body x w1 | Fail e \<Rightarrow> (Fail e, w1) | Panic \<Rightarrow> (Panic, w1))"
    using run by (simp add: bindA_def split: outcome.splits)
  then have "w' = w1"
    by (auto simp: echoed_def act_defs split: outcome.splits sum.splits option.splits if_splits)
  then have "length b \<le> 4194304" using fit reply(1) by (auto simp: fits_def)
  note len = this
  have good: "\<forall>b. J b \<longrightarrow> (\<exists>x. unmarshal b = Ok x \<and> (\<exists>y. x = Some y \<and> sel y = body))"
    using J by blast
  from checkReply_shaped [OF h len reply(2) good] res show ?thesis
    by (elim disjE exE conjE) (auto simp: echoed_def act_defs)
qed


text \<open>A client of the closed demonstration server.\<close>

definition demo_client :: client where
  "demo_client = \<lparr>cURL = ''http://vsp'', cPubKey = replicate 32 CHR ''k'', cSign = (\<lambda>m a. Inr (Some ''s'')),
     cVerify = (\<lambda>k b s. s = ''sig''), cParseURL = (\<lambda>u. None)\<rparr>"

definition demo_closed :: "(flat, nat, unit) api" where
  "demo_closed = demo_api\<lparr>wVspClosed := True\<rparr>"

lemma demo_honest: "honest demo_closed demo_client"
  by (simp add: honest_def demo_closed_def demo_client_def demo_api_def)

lemma closed_post:
  assumes closed: "wVspClosed W" and h: "honest W C" and route: "apiRoute W MethodPost path = Some (vspMustBeOpen W # hs)"
  shows "\<exists>e w'. post C (overHTTP W (cURL C)) path addr unmarshal body w = (Ok (Inl e), w') \<and> fits w w'"
proof -
  define b where "b = errorJSON ErrVspClosed ''vsp is closed''"
  have "length b = 36" unfolding b_def by code_simp
  then have small: "length b \<le> 4194304" by simp
  let ?w' = "w\<lparr>events := events w @ [Responded 400 b (base64 (wSign W b))]\<rparr>"
  obtain g where g: "cSign C body addr = Inr g" using h unfolding honest_def by metis
  have url: "cParseURL C (cURL C @ path) = None" using h by (simp add: honest_def)
  have new: "drop (length (responses w)) (responses ?w') = [Responded 400 b (base64 (wSign W b))]"
    by (simp add: responses_def)
  have "post C (overHTTP W (cURL C)) path addr unmarshal body w =
      (checkReply C unmarshal \<lparr>rsStatus = 400, rsSig = base64 (wSign W b), rsBody = Inr b\<rparr>, ?w')"
    unfolding post_eq [OF g url] overHTTP_route [OF route] closed_serve [OF closed, folded b_def] prod.case outcome.case new replyOf.simps ..
  moreover have "\<exists>e. checkReply C unmarshal \<lparr>rsStatus = 400, rsSig = base64 (wSign W b), rsBody = Inr b\<rparr> = Ok (Inl e)"
    using small error_decodes [of ErrVspClosed "''vsp is closed''", folded b_def] errorJSON_not_Nil [of ErrVspClosed "''vsp is closed''", folded b_def]
    by (auto simp: checkReply_def)
  ultimately show ?thesis using new small by (auto simp: fits_def)
qed

definition demo_fa :: feeAddressRequest where
  "demo_fa = \<lparr>faTimestamp = 7, faTicketHash = ''aa'', faTicketHex = ''00'', faParentHex = ''00''\<rparr>"

lemma demo_lengths:
  "length (feeAddressRequestJSON demo_fa) < 200" "length (payFeeRequestJSON demo_payReq) < 200"
  "length (setVoteChoicesRequestJSON demo_choiceReq) < 200"
  unfolding feeAddressRequestJSON_def payFeeRequestJSON_def setVoteChoicesRequestJSON_def by code_simp+

lemma demo_notNil:
  "demo_payReq\<lparr>pfVoteChoices := notNil (pfVoteChoices demo_payReq), pfTSpendPolicy := notNil (pfTSpendPolicy demo_payReq),
     pfTreasuryPolicy := notNil (pfTreasuryPolicy demo_payReq)\<rparr> = demo_payReq"
  "demo_choiceReq\<lparr>vcVoteChoices := notNil (vcVoteChoices demo_choiceReq), vcTSpendPolicy := notNil (vcTSpendPolicy demo_choiceReq),
     vcTreasuryPolicy := notNil (vcTreasuryPolicy demo_choiceReq)\<rparr> = demo_choiceReq"
  by (simp_all add: demo_payReq_def demo_choiceReq_def notNil_def entries_def)


definition demo_echo :: "flat transport" where
  "demo_echo rq w = (Ok \<lparr>rsStatus = 200, rsSig = base64 ''sig'',
     rsBody = Inr (ackJSON 7 (base64 (case rqBody rq of None \<Rightarrow> [] | Some b \<Rightarrow> b)))\<rparr>, w)"

lemma demo_echoed: "length (ackJSON 7 (base64 (payFeeRequestJSON demo_payReq))) < 400"
  unfolding payFeeRequestJSON_def ackJSON_def by code_simp


end
