(* ===== verification/RpcProps.thy ===== *)
theory RpcProps
  imports RpcLemmas "HOL-Library.Sublist"
begin

text \<open>
  Properties of the RPC layer: which answers of mond make a broadcast succeed, what a connection
  has been checked for when it is handed out, and which wallets are used.
\<close>

section \<open>Broadcasts\<close>

lemma send_cases:
  "fst (SendRawTransaction E tx w) = (case E (events w) (Call Mond ''sendrawtransaction'' [AStr tx, ABool False]) of
     Inr r \<Rightarrow> Ok ()
   | Inl e \<Rightarrow> if rpc_code e = Some (- 40) then Ok ()
       else if ErrOrphan (err_msg e) \<and> (\<exists>raw. E (events w @ [Asked (Call Mond ''sendrawtransaction'' [AStr tx, ABool False])])
                (Call Mond ''getrawtransaction'' [AStr tx, AInt 1]) = Inr (RRaw raw)) then Ok ()
       else Fail e)"
  by (auto simp: SendRawTransaction_def tryA_def bindA_def ask_def ret_def failA_def GetRawTransaction_def askRaw_def
      ErrRPCDuplicateTx_def split: sum.splits reply.splits)

section \<open>Connections\<close>

lemma dial_fresh:
  assumes "\<not> conns w t" "dial E t w = (Ok b, w')"
  shows "b" "conns w' t" "\<exists>es. events w' = events w @ es"
  using assms by (auto simp: dial_def hasConn_def bindA_def ret_def setConn_def ask_def split: sum.splits)

lemma dial_reuse:
  "conns w t \<Longrightarrow> E (events w) (Call t ''done'' []) = Inr (RBool False) \<Longrightarrow>
   dial E t w = (Ok False, w\<lparr>events := events w @ [Asked (Call t ''done'' [])]\<rparr>)"
  by (simp add: dial_def hasConn_def bindA_def ret_def ask_def)

lemma checkVersion_None:
  "checkVersion verMap key = None \<longleftrightarrow> (\<exists>ma mi pa. map_of verMap key = Some (ma, mi, pa) \<and>
     ((\<exists>v. map_of legacyMinimumVersions key = Some v \<and> semverCompatible v \<lparr>Major = ma, Minor = mi, Patch = pa\<rparr>) \<or>
      semverCompatible (case map_of minimumVersions key of Some v \<Rightarrow> v | None \<Rightarrow> \<lparr>Major = 0, Minor = 0, Patch = 0\<rparr>)
        \<lparr>Major = ma, Minor = mi, Patch = pa\<rparr>))"
  by (auto simp: checkVersion_def Let_def split: option.splits prod.splits)

lemma errorsJoin_Ok: "errorsJoin es = Ok u \<longleftrightarrow> (\<forall>e\<in>set es. e = None)"
  by (simp add: errorsJoin_def list_all_iff)

lemma checkVersions_Ok:
  assumes "checkVersions E t keys w = (Ok u, w')"
  shows "\<exists>verMap. E (events w) (Call t ''version'' []) = Inr (RVersions verMap) \<and> (\<forall>k\<in>set keys. checkVersion verMap k = None)"
    "conns w' = conns w" "events w' = events w @ [Asked (Call t ''version'' [])]"
  using assms
  by (auto simp: checkVersions_def bindA_def ask_def lift_def failA_def errorsJoin_Ok split: sum.splits reply.splits)

lemma closeConn_conns: "conns (snd (closeConn E t w)) = conns w"
  by (auto simp: closeConn_def hasConn_def bindA_def tryA_def ret_def ask_def split: sum.splits)

lemma getCurrentNet_Ok:
  assumes "getCurrentNet E t w = (Ok n, w')"
  shows "\<exists>i. E (events w) (Call t ''getcurrentnet'' []) = Inr (RInt i) \<and> n = of_int i" "conns w' = conns w"
    "events w' = events w @ [Asked (Call t ''getcurrentnet'' [])]"
  using assms
  by (auto simp: getCurrentNet_def askInt_def bindA_def ask_def ret_def failA_def split: sum.splits reply.splits)

lemma getTxIndex_Ok:
  assumes "getTxIndex E w = (Ok b, w')"
  shows "E (events w) (Call Mond ''getinfo'' []) = Inr (RBool b)" "conns w' = conns w"
    "events w' = events w @ [Asked (Call Mond ''getinfo'' [])]"
  using assms
  by (auto simp: getTxIndex_def bindA_def ask_def ret_def failA_def split: sum.splits reply.splits)

lemma NotifyBlocks_runs:
  "NotifyBlocks E w = (case E (events w) (Call Mond ''notifyblocks'' []) of
     Inl e \<Rightarrow> (Fail e, w\<lparr>events := events w @ [Asked (Call Mond ''notifyblocks'' [])]\<rparr>)
   | Inr r \<Rightarrow> (Ok (), w\<lparr>events := events w @ [Asked (Call Mond ''notifyblocks'' [])]\<rparr>))"
  by (simp add: NotifyBlocks_def askUnit_def bindA_def ask_def ret_def split: sum.split)

text \<open>A new connection passed every check.\<close>

lemma tryA_Ok: "tryA m h k w = (Ok a, w') \<longleftrightarrow> (\<exists>x w1. m w = (Ok x, w1) \<and> k x w1 = (Ok a, w'))
    \<or> (\<exists>e w1. m w = (Fail e, w1) \<and> h e w1 = (Ok a, w'))"
  by (auto simp: tryA_def split: prod.splits outcome.splits)

lemma bindA_Ok: "bindA m k w = (Ok a, w') \<longleftrightarrow> (\<exists>x w1. m w = (Ok x, w1) \<and> k x w1 = (Ok a, w'))"
  by (auto simp: bindA_def split: prod.splits outcome.splits)

lemma failing_Ok: "tryA m (\<lambda>e. failA (f e)) k w = (Ok a, w') \<longleftrightarrow> (\<exists>x w1. m w = (Ok x, w1) \<and> k x w1 = (Ok a, w'))"
  by (auto simp: tryA_def failA_def split: prod.splits outcome.splits)

lemma closed_Ok: "bindA m (\<lambda>_. failA e) w \<noteq> (Ok a, w')"
  by (auto simp: bindA_def failA_def split: prod.splits outcome.splits)

lemma closing_Ok: "tryA m (\<lambda>e. bindA (c e) (\<lambda>_. failA (f e))) k w = (Ok a, w') \<longleftrightarrow> (\<exists>x w1. m w = (Ok x, w1) \<and> k x w1 = (Ok a, w'))"
  by (auto simp: tryA_def closed_Ok split: prod.splits outcome.splits)

lemma ret_Ok: "ret a w = (Ok b, w') \<longleftrightarrow> a = b \<and> w = w'"
  by (auto simp: ret_def)

lemma failA_Ok: "failA e w \<noteq> (Ok a, w')"
  by (simp add: failA_def)

definition checked :: "'s env \<Rightarrow> network \<Rightarrow> bool \<Rightarrow> 's event list \<Rightarrow> bool" where
  "checked E net notify es \<longleftrightarrow> (\<exists>verMap i.
     E es (Call Mond ''version'' []) = Inr (RVersions verMap) \<and>
     (\<forall>k\<in>set mondKeys. checkVersion verMap k = None) \<and>
     E (es @ [Asked (Call Mond ''version'' [])]) (Call Mond ''getcurrentnet'' []) = Inr (RInt i) \<and>
     (of_int i :: int64) = of_int (netID net) \<and>
     E (es @ [Asked (Call Mond ''version'' []), Asked (Call Mond ''getcurrentnet'' [])]) (Call Mond ''getinfo'' [])
       = Inr (RBool True) \<and>
     (notify \<longrightarrow> (\<exists>r. E (es @ [Asked (Call Mond ''version'' []), Asked (Call Mond ''getcurrentnet'' []),
         Asked (Call Mond ''getinfo'' [])]) (Call Mond ''notifyblocks'' []) = Inr r)))"

lemma mondClient_checked:
  assumes fresh: "\<not> conns w Mond" and run: "mondClient E net notify w = (Ok u, w')"
  shows "conns w' Mond \<and> checked E net notify (events w @ [Asked (Call Mond ''dial'' [])])"
proof -
  obtain b w1 where dial: "dial E Mond w = (Ok b, w1)"
    and r1: "(if \<not> b then ret () else
       tryA (checkVersions E Mond mondKeys)
         (\<lambda>e. bindA (closeConn E Mond) (\<lambda>_. failA (Wrapped ''mond version check failed'' e))) (\<lambda>_.
       tryA (getCurrentNet E Mond)
         (\<lambda>e. bindA (closeConn E Mond) (\<lambda>_. failA (Wrapped ''mond getcurrentnet check failed'' e))) (\<lambda>i.
       if i \<noteq> of_int (netID net) then
         bindA (closeConn E Mond) (\<lambda>_. failA (Plain ''mond running on wrong network''))
       else
       tryA (getTxIndex E)
         (\<lambda>e. bindA (closeConn E Mond) (\<lambda>_. failA (Wrapped ''mond getinfo check failed'' e))) (\<lambda>txIndex.
       if \<not> txIndex then
         bindA (closeConn E Mond) (\<lambda>_. failA (Plain ''mond does not have transaction index enabled (--txindex)''))
       else if notify then
         tryA (NotifyBlocks E) (\<lambda>e. failA (Wrapped ''notifyblocks failed'' e)) ret
       else ret ())))) w1 = (Ok u, w')"
    using run unfolding mondClient_def failing_Ok by blast
  have d: "b" "conns w1 Mond" "events w1 = events w @ [Asked (Call Mond ''dial'' [])]"
    using dial fresh
    by (auto simp: dial_def hasConn_def bindA_def ret_def setConn_def ask_def split: sum.splits)
  obtain x w2 n w3 w4 where v: "checkVersions E Mond mondKeys w1 = (Ok x, w2)" "getCurrentNet E Mond w2 = (Ok n, w3)"
      "n = of_int (netID net)" and t: "getTxIndex E w3 = (Ok True, w4)"
    and n: "(if notify then tryA (NotifyBlocks E) (\<lambda>e. failA (Wrapped ''notifyblocks failed'' e)) ret else ret ()) w4 = (Ok u, w')"
    using r1 d(1) by (simp add: closing_Ok closed_Ok if_distribR split: if_splits)
  note cv = checkVersions_Ok [OF v(1)] and cn = getCurrentNet_Ok [OF v(2)] and ti = getTxIndex_Ok [OF t]
  have last: "conns w' Mond" "notify \<Longrightarrow> \<exists>r. E (events w4) (Call Mond ''notifyblocks'' []) = Inr r"
    using n d(2) cv(2) cn(2) ti(2)
    by (auto simp: tryA_Ok failA_Ok NotifyBlocks_runs ret_def split: if_splits sum.splits)
  from cv(1) cn(1) ti(1) last v(3) show ?thesis
    unfolding checked_def by (auto simp: ti(3) cn(3) cv(3) d(3))
qed

section \<open>Wallets\<close>

text \<open>Connecting one wallet changes no other connection, and a usable wallet is connected.\<close>

definition others :: "target \<Rightarrow> ('s, 'a) act \<Rightarrow> bool" where
  "others t m \<longleftrightarrow> (\<forall>w u. u \<noteq> t \<longrightarrow> conns (snd (m w)) u = conns w u)"

lemma others_rules:
  "others t m \<Longrightarrow> (\<And>a. others t (k a)) \<Longrightarrow> others t (bindA m k)"
  "others t m \<Longrightarrow> (\<And>e. others t (h e)) \<Longrightarrow> (\<And>a. others t (k a)) \<Longrightarrow> others t (tryA m h k)"
  "others t x \<Longrightarrow> others t y \<Longrightarrow> others t (if b then x else y)"
  "others t (ret a)" "others t (failA e)" "others t (lift r)" "others t (ask E c)" "others t (setConn t v)" "others t (hasConn u)"
  unfolding others_def bindA_def tryA_def
  by (auto simp: act_defs ask_def setConn_def hasConn_def split: prod.splits outcome.splits sum.splits) (metis snd_conv)+

lemma others_reply:
  assumes "\<And>x. others t (g x)" "others t a" "\<And>x. others t (f x)"
  shows "others t (case r of RVersions x \<Rightarrow> f x | RInt x \<Rightarrow> g x | _ \<Rightarrow> a)"
    "others t (case r of RVersions x \<Rightarrow> f x | _ \<Rightarrow> a)" "others t (case r of RInt x \<Rightarrow> g x | _ \<Rightarrow> a)"
  using assms by (cases r; simp)+

lemma others_connectWallet: "others (Wallet i) (connectWallet E net i)"
  unfolding connectWallet_def dial_def closeConn_def checkVersions_def getCurrentNet_def askInt_def
  by (intro others_rules others_reply)

lemma dial_conn: "dial E t w = (Ok b, w') \<Longrightarrow> conns w' t"
  by (auto simp: dial_def hasConn_def bindA_def ret_def setConn_def ask_def split: sum.splits if_splits)

lemma giving_Ok:
  "tryA m (\<lambda>e. bindA c (\<lambda>_. ret False)) k w = (Ok True, w') \<longleftrightarrow> (\<exists>x w1. m w = (Ok x, w1) \<and> k x w1 = (Ok True, w'))"
  "tryA m (\<lambda>e. ret False) k w = (Ok True, w') \<longleftrightarrow> (\<exists>x w1. m w = (Ok x, w1) \<and> k x w1 = (Ok True, w'))"
  "bindA c (\<lambda>_. ret False) w \<noteq> (Ok True, w')"
  by (auto simp: tryA_def bindA_def ret_def split: prod.splits outcome.splits)

lemma connectWallet_usable:
  assumes "connectWallet E net i w = (Ok True, w')"
  shows "conns w' (Wallet i)"
proof -
  obtain b w1 where d: "dial E (Wallet i) w = (Ok b, w1)"
    and r: "(if \<not> b then ret True else
       tryA (checkVersions E (Wallet i) walletKeys)
         (\<lambda>e. bindA (closeConn E (Wallet i)) (\<lambda>_. ret False)) (\<lambda>_.
       tryA (getCurrentNet E (Wallet i))
         (\<lambda>e. bindA (closeConn E (Wallet i)) (\<lambda>_. ret False)) (\<lambda>n.
       if n \<noteq> of_int (netID net) then bindA (closeConn E (Wallet i)) (\<lambda>_. ret False)
       else
       tryA (ask E (Call (Wallet i) ''walletinfo'' []))
         (\<lambda>e. bindA (closeConn E (Wallet i)) (\<lambda>_. ret False)) (\<lambda>info. ret True)))) w1 = (Ok True, w')"
    using assms unfolding connectWallet_def giving_Ok by blast
  show ?thesis
  proof (cases b)
    case False
    then show ?thesis using r dial_conn [OF d] by (simp add: ret_def)
  next
    case True
    then obtain x w2 n w3 y w4 where "checkVersions E (Wallet i) walletKeys w1 = (Ok x, w2)"
      "getCurrentNet E (Wallet i) w2 = (Ok n, w3)" "ask E (Call (Wallet i) ''walletinfo'' []) w3 = (Ok y, w4)" "w' = w4"
      using r by (auto simp: giving_Ok if_distribR ret_def split: if_splits)
    note steps = this
    show ?thesis
      using dial_conn [OF d] checkVersions_Ok(2) [OF steps(1)] getCurrentNet_Ok(2) [OF steps(2)] steps(3,4)
      by (auto simp: ask_def split: sum.splits)
  qed
qed

text \<open>Connecting a wallet neither fails nor panics: whatever goes wrong is a wallet not used.\<close>

definition noPanic :: "('s, 'a) act \<Rightarrow> bool" where
  "noPanic m \<longleftrightarrow> (\<forall>w. fst (m w) \<noteq> Panic)"

definition total :: "('s, 'a) act \<Rightarrow> bool" where
  "total m \<longleftrightarrow> (\<forall>w. \<exists>a w'. m w = (Ok a, w'))"

lemma noPanic_rules:
  "noPanic m \<Longrightarrow> (\<And>a. noPanic (k a)) \<Longrightarrow> noPanic (bindA m k)"
  "noPanic m \<Longrightarrow> (\<And>e. noPanic (h e)) \<Longrightarrow> (\<And>a. noPanic (k a)) \<Longrightarrow> noPanic (tryA m h k)"
  "noPanic x \<Longrightarrow> noPanic y \<Longrightarrow> noPanic (if b then x else y)"
  "noPanic (ret a)" "noPanic (failA e)" "noPanic (ask E c)" "noPanic (setConn t v)" "noPanic (hasConn u)"
  "r \<noteq> Panic \<Longrightarrow> noPanic (lift r)"
  unfolding noPanic_def bindA_def tryA_def
  by (auto simp: act_defs ask_def setConn_def hasConn_def split: prod.splits outcome.splits sum.splits)
     (metis fst_conv)+

lemma noPanic_typed: "noPanic (checkVersions E t ks)" "noPanic (getCurrentNet E t)"
proof -
  show "noPanic (getCurrentNet E t)"
    by (auto simp: noPanic_def getCurrentNet_def askInt_def bindA_def ask_def ret_def failA_def split: sum.splits reply.splits)
  show "noPanic (checkVersions E t ks)"
    by (auto simp: noPanic_def checkVersions_def bindA_def ask_def lift_def failA_def errorsJoin_def split: sum.splits reply.splits)
qed

lemma total_bind: "total m \<Longrightarrow> (\<And>a. total (k a)) \<Longrightarrow> total (bindA m k)"
  unfolding total_def by (metis bindA_Ok)

lemma total_try:
  assumes "noPanic m" "\<And>e. total (h e)" "\<And>a. total (k a)"
  shows "total (tryA m h k)"
  unfolding total_def
proof
  fix w
  obtain r w1 where m: "m w = (r, w1)" by (cases "m w")
  have "r \<noteq> Panic" using assms(1) m by (metis fst_conv noPanic_def)
  then show "\<exists>a w'. tryA m h k w = (Ok a, w')"
    using m assms(2,3) by (cases r) (auto simp: total_def tryA_def)
qed

lemma total_leaves: "total x \<Longrightarrow> total y \<Longrightarrow> total (if b then x else y)" "total (ret a)" "total (hasConn t)"
  by (simp_all add: total_def ret_def hasConn_def)

lemmas total_rules = total_bind total_try total_leaves

lemma total_close: "total (closeConn E t)"
  unfolding closeConn_def by (intro total_rules noPanic_rules)

lemma connectWallet_total: "\<exists>b w'. connectWallet E net i w = (Ok b, w')"
proof -
  have "total (connectWallet E net i)"
    unfolding connectWallet_def dial_def
    by (intro total_rules noPanic_rules noPanic_typed total_close)
  then show ?thesis by (simp add: total_def)
qed

text \<open>The loop: the two lists it extends, and the connections of the usable wallets.\<close>

lemma forA_Next: "body a x w = (Ok (Next y), w1) \<Longrightarrow> forA body (a # as) x w = forA body as y w1"
  by (simp add: bindA_def)

definition connectStep :: "'s env \<Rightarrow> network \<Rightarrow> nat \<Rightarrow> nat list \<times> nat list
    \<Rightarrow> ('s, (nat list \<times> nat list, nat list \<times> nat list) flow) act" where
  "connectStep E net = (\<lambda>i (clients, failed).
     bindA (connectWallet E net i) (\<lambda>ok.
     ret (Next (if ok then (clients @ [i], failed) else (clients, failed @ [i])))))"

lemma wallets_loop:
  assumes "distinct ws" "set ws \<inter> (set cs \<union> set fs) = {}" "\<forall>i\<in>set cs. conns w (Wallet i)"
  shows "\<exists>cs' fs' w'. forA (connectStep E net) ws (cs, fs) w = (Ok (Next (cs @ cs', fs @ fs')), w') \<and>
     subseq cs' ws \<and> subseq fs' ws \<and> set cs' \<union> set fs' = set ws \<and> set cs' \<inter> set fs' = {} \<and>
     (\<forall>i\<in>set (cs @ cs'). conns w' (Wallet i))"
  using assms
proof (induction ws arbitrary: cs fs w)
  case Nil
  then show ?case by (auto simp: ret_def)
next
  case (Cons i ws)
  obtain b w1 where c: "connectWallet E net i w = (Ok b, w1)" using connectWallet_total by blast
  then have step: "connectStep E net i (cs, fs) w = (Ok (Next (if b then (cs @ [i], fs) else (cs, fs @ [i]))), w1)"
    by (simp add: connectStep_def bindA_def ret_def)
  have old: "\<forall>k\<in>set cs. conns w1 (Wallet k)"
    using Cons.prems others_connectWallet [of i E net] c
    by (auto simp: others_def) (metis (no_types) disjoint_iff list.set_intros(1) snd_conv target.inject UnI1)
  show ?case
  proof (cases b)
    case True
    then have "\<forall>k\<in>set (cs @ [i]). conns w1 (Wallet k)" using old connectWallet_usable c by auto
    with Cons.IH [of "cs @ [i]" fs w1] Cons.prems
    obtain cs' fs' w' where "forA (connectStep E net) ws (cs @ [i], fs) w1 = (Ok (Next ((cs @ [i]) @ cs', fs @ fs')), w')"
      "subseq cs' ws" "subseq fs' ws" "set cs' \<union> set fs' = set ws" "set cs' \<inter> set fs' = {}"
      "\<forall>k\<in>set ((cs @ [i]) @ cs'). conns w' (Wallet k)"
      by auto
    with Cons.prems show ?thesis
      unfolding forA_Next [of "connectStep E net", OF step]
      by - (rule exI [of _ "i # cs'"], rule exI [of _ fs'], rule exI [of _ w'],
        intro conjI, (auto simp: True list_emb_Cons)+)
  next
    case False
    with Cons.IH [of cs "fs @ [i]" w1] Cons.prems old
    obtain cs' fs' w' where "forA (connectStep E net) ws (cs, fs @ [i]) w1 = (Ok (Next (cs @ cs', (fs @ [i]) @ fs')), w')"
      "subseq cs' ws" "subseq fs' ws" "set cs' \<union> set fs' = set ws" "set cs' \<inter> set fs' = {}"
      "\<forall>k\<in>set (cs @ cs'). conns w' (Wallet k)"
      by auto
    with Cons.prems show ?thesis
      unfolding forA_Next [of "connectStep E net", OF step]
      by - (rule exI [of _ cs'], rule exI [of _ "i # fs'"], rule exI [of _ w'],
        intro conjI, (auto simp: False list_emb_Cons)+)
  qed
qed

lemma walletClients_spec:
  assumes "distinct ws"
  shows "\<exists>cs fs w'. walletClients E net ws w = (Ok (cs, fs), w') \<and> subseq cs ws \<and> subseq fs ws \<and>
    set cs \<union> set fs = set ws \<and> set cs \<inter> set fs = {} \<and> (\<forall>i\<in>set cs. conns w' (Wallet i))"
proof -
  obtain cs fs w' where "forA (connectStep E net) ws ([], []) w = (Ok (Next (cs, fs)), w')"
    "subseq cs ws" "subseq fs ws" "set cs \<union> set fs = set ws" "set cs \<inter> set fs = {}" "\<forall>i\<in>set cs. conns w' (Wallet i)"
    using wallets_loop [OF assms, of "[]" "[]" w E net] by auto
  then have "walletClients E net ws w = (Ok (cs, fs), w')"
    by (simp add: walletClients_def connectStep_def [symmetric] bindA_def ret_def)
  with \<open>subseq cs ws\<close> \<open>subseq fs ws\<close> \<open>set cs \<union> set fs = set ws\<close> \<open>set cs \<inter> set fs = {}\<close> \<open>\<forall>i\<in>set cs. conns w' (Wallet i)\<close>
  show ?thesis by blast
qed

section \<open>Notifications\<close>

text \<open>
  A connection whose request for notifications failed stays open, and the next use takes it as
  it is: without notifications.
\<close>

lemma tryA_Fail: "tryA m h k w = (Fail f, w') \<longleftrightarrow> (\<exists>x w1. m w = (Ok x, w1) \<and> k x w1 = (Fail f, w'))
    \<or> (\<exists>e w1. m w = (Fail e, w1) \<and> h e w1 = (Fail f, w'))"
  by (auto simp: tryA_def split: prod.splits outcome.splits)

lemma close_Fail: "bindA (closeConn E t) (\<lambda>_. failA e) w = (Fail f, w') \<Longrightarrow> f = e"
proof -
  obtain w1 where "closeConn E t w = (Ok (), w1)" using total_close [of E t] by (auto simp: total_def)
  then show "bindA (closeConn E t) (\<lambda>_. failA e) w = (Fail f, w') \<Longrightarrow> f = e"
    by (simp add: bindA_def failA_def)
qed

text \<open>An error with another message than the one of this check comes from a later step.\<close>

lemma closing_Fail:
  assumes "tryA m (\<lambda>e. bindA (closeConn E t) (\<lambda>_. failA (Wrapped p e))) k w = (Fail (Wrapped q f), w')" "p \<noteq> q"
  obtains x w1 where "m w = (Ok x, w1)" "k x w1 = (Fail (Wrapped q f), w')"
  using assms by (auto simp: tryA_Fail dest!: close_Fail)

lemma notify_failed:
  assumes run: "mondClient E net True w = (Fail (Wrapped ''notifyblocks failed'' e), w')"
  shows "conns w' Mond"
proof -
  let ?f = "Fail (Wrapped ''notifyblocks failed'' e)"
  obtain b w1 where dial: "dial E Mond w = (Ok b, w1)" and b: "b"
    and r1: "tryA (checkVersions E Mond mondKeys)
         (\<lambda>e. bindA (closeConn E Mond) (\<lambda>_. failA (Wrapped ''mond version check failed'' e))) (\<lambda>_.
       tryA (getCurrentNet E Mond)
         (\<lambda>e. bindA (closeConn E Mond) (\<lambda>_. failA (Wrapped ''mond getcurrentnet check failed'' e))) (\<lambda>i.
       if i \<noteq> of_int (netID net) then
         bindA (closeConn E Mond) (\<lambda>_. failA (Plain ''mond running on wrong network''))
       else
       tryA (getTxIndex E)
         (\<lambda>e. bindA (closeConn E Mond) (\<lambda>_. failA (Wrapped ''mond getinfo check failed'' e))) (\<lambda>txIndex.
       if \<not> txIndex then
         bindA (closeConn E Mond) (\<lambda>_. failA (Plain ''mond does not have transaction index enabled (--txindex)''))
       else if True then tryA (NotifyBlocks E) (\<lambda>e. failA (Wrapped ''notifyblocks failed'' e)) ret else ret ()))) w1 = (?f, w')"
  proof -
    obtain b w1 where d: "dial E Mond w = (Ok b, w1)"
      using run unfolding mondClient_def tryA_Fail by (auto simp: failA_def)
    then show thesis
      using run that [of b w1] by (cases b) (simp_all add: mondClient_def tryA_def [of "dial E Mond"] ret_def)
  qed
  obtain x w2 where v: "checkVersions E Mond mondKeys w1 = (Ok x, w2)" and r2: "tryA (getCurrentNet E Mond)
         (\<lambda>e. bindA (closeConn E Mond) (\<lambda>_. failA (Wrapped ''mond getcurrentnet check failed'' e))) (\<lambda>i.
       if i \<noteq> of_int (netID net) then
         bindA (closeConn E Mond) (\<lambda>_. failA (Plain ''mond running on wrong network''))
       else
       tryA (getTxIndex E)
         (\<lambda>e. bindA (closeConn E Mond) (\<lambda>_. failA (Wrapped ''mond getinfo check failed'' e))) (\<lambda>txIndex.
       if \<not> txIndex then
         bindA (closeConn E Mond) (\<lambda>_. failA (Plain ''mond does not have transaction index enabled (--txindex)''))
       else if True then tryA (NotifyBlocks E) (\<lambda>e. failA (Wrapped ''notifyblocks failed'' e)) ret else ret ())) w2 = (?f, w')"
    by (rule closing_Fail [OF r1]) simp
  obtain n w3 where cn: "getCurrentNet E Mond w2 = (Ok n, w3)" and r3: "(if n \<noteq> of_int (netID net) then
         bindA (closeConn E Mond) (\<lambda>_. failA (Plain ''mond running on wrong network''))
       else
       tryA (getTxIndex E)
         (\<lambda>e. bindA (closeConn E Mond) (\<lambda>_. failA (Wrapped ''mond getinfo check failed'' e))) (\<lambda>txIndex.
       if \<not> txIndex then
         bindA (closeConn E Mond) (\<lambda>_. failA (Plain ''mond does not have transaction index enabled (--txindex)''))
       else if True then tryA (NotifyBlocks E) (\<lambda>e. failA (Wrapped ''notifyblocks failed'' e)) ret else ret ())) w3 = (?f, w')"
    by (rule closing_Fail [OF r2]) simp
  from r3 have "n = of_int (netID net)" by (auto split: if_splits dest!: close_Fail)
  with r3 obtain ti w4 where ti: "getTxIndex E w3 = (Ok ti, w4)" and r4: "(if \<not> ti then
         bindA (closeConn E Mond) (\<lambda>_. failA (Plain ''mond does not have transaction index enabled (--txindex)''))
       else if True then tryA (NotifyBlocks E) (\<lambda>e. failA (Wrapped ''notifyblocks failed'' e)) ret else ret ()) w4 = (?f, w')"
    by (auto elim: closing_Fail)
  from r4 have "conns w' = conns w4"
    by (auto split: if_splits sum.splits dest!: close_Fail simp: tryA_Fail NotifyBlocks_runs ret_def failA_def)
  then show ?thesis
    using dial_conn [OF dial] checkVersions_Ok(2) [OF v] getCurrentNet_Ok(2) [OF cn] getTxIndex_Ok(2) [OF ti] by simp
qed

lemma reuse_silent:
  "conns w Mond \<Longrightarrow> E (events w) (Call Mond ''done'' []) = Inr (RBool False) \<Longrightarrow>
   mondClient E net notify w = (Ok (), w\<lparr>events := events w @ [Asked (Call Mond ''done'' [])]\<rparr>)"
  by (simp add: mondClient_def tryA_def dial_reuse ret_def)

section \<open>Properties\<close>

text \<open>
  The outcome of a broadcast is decided by the answers of mond: it succeeds exactly when the
  transaction is accepted, or is reported as a duplicate, or is reported as an orphan and the
  lookup that follows finds a transaction; in every other case the caller gets the error of the
  broadcast itself, and there is never a panic.
\<close>

lemma send_outcome:
  "fst (SendRawTransaction E tx w) = (case E (events w) (Call Mond ''sendrawtransaction'' [AStr tx, ABool False]) of
     Inr r \<Rightarrow> Ok ()
   | Inl e \<Rightarrow> if rpc_code e = Some (- 40) then Ok ()
       else if ErrOrphan (err_msg e) \<and> (\<exists>raw. E (events w @ [Asked (Call Mond ''sendrawtransaction'' [AStr tx, ABool False])])
                (Call Mond ''getrawtransaction'' [AStr tx, AInt 1]) = Inr (RRaw raw)) then Ok ()
       else Fail e)"
  by (rule send_cases)

text \<open>
  The matcher of orphan errors accepts exactly the messages that contain the text of the
  regular expression \<open>orphan transaction \w+ references output \w+:\d+ of unknown or fully-spent
  transaction\<close> somewhere.
\<close>

lemma orphan_matcher:
  "ErrOrphan s \<longleftrightarrow> (\<exists>p tx out i r. tx \<noteq> [] \<and> list_all isWord tx \<and> out \<noteq> [] \<and> list_all isWord out \<and>
     i \<noteq> [] \<and> list_all is_digit i \<and>
     s = p @ ''orphan transaction '' @ tx @ '' references output '' @ out @ '':'' @ i @ '' of unknown or fully-spent transaction'' @ r)"
  unfolding ErrOrphan_iff orphanAt_iff orphanText_def by (simp only: append_assoc) blast

text \<open>
  A version is compatible exactly when it has the required major version and is not below
  the required minor version and patch in the lexicographic order.
\<close>

lemma semver_order:
  "semverCompatible required actual \<longleftrightarrow> Major required = Major actual \<and>
     (Minor required < Minor actual \<or> Minor required = Minor actual \<and> Patch required \<le> Patch actual)"
  by (rule semverCompatible_iff)


text \<open>A mond that passes every check, and one that refuses to notify.\<close>

definition friendly :: "bool \<Rightarrow> 's event list \<Rightarrow> call \<Rightarrow> err + reply" where
  "friendly notifies es c = (case c of Call t m as \<Rightarrow>
     if m = ''version'' then Inr (RVersions [(''monetarium'', 2, 1, 0), (''monetariumjsonrpcapi'', 8, 3, 0)])
     else if m = ''getcurrentnet'' then Inr (RInt 5)
     else if m = ''getinfo'' then Inr (RBool True)
     else if m = ''done'' then Inr (RBool False)
     else if m = ''notifyblocks'' \<and> \<not> notifies then Inl (Plain ''no'')
     else Inr RNone)"

definition net5 :: network where
  "net5 = \<lparr>netName = [], netID = 5, TicketMaturity = 0, TicketExpiry = 0, Deployments = [],
     DCP0005Height = 0, DCP0010Height = 0, DCP0012Height = 0\<rparr>"

definition world0 :: "unit world" where
  "world0 = \<lparr>wdb = (), events = [], conns = (\<lambda>t. False), lastIdx = 0,
     cached = \<lparr>Initialized = False, nVoting = 0, nVoted = 0, nExpired = 0, nMissed = 0, nWalletsOnline = 0,
       nTotalWallets = 0, nBlockHeight = 0,
       nNetworkProportion = 0, nExpiredProportion = 0, nMissedProportion = 0\<rparr>, scanned = 0\<rparr>"

lemma friendly_run:
  "mondClient (friendly b) net5 True world0 = ((if b then Ok () else Fail (Wrapped ''notifyblocks failed'' (Plain ''no''))),
     world0\<lparr>conns := (\<lambda>t. False)(Mond := True), events := [Asked (Call Mond ''dial'' []), Asked (Call Mond ''version'' []),
       Asked (Call Mond ''getcurrentnet'' []), Asked (Call Mond ''getinfo'' []), Asked (Call Mond ''notifyblocks'' [])]\<rparr>)"
  by (simp add: mondClient_def dial_def tryA_def bindA_def hasConn_def setConn_def ask_def ret_def failA_def friendly_def
      checkVersions_def lift_def errorsJoin_def mondKeys_def checkVersion_def minimumVersions_def legacyMinimumVersions_def
      semverCompatible_def getCurrentNet_def askInt_def getTxIndex_def NotifyBlocks_def askUnit_def net5_def world0_def Let_def)


text \<open>
  Connecting the wallets always succeeds and sorts them: every configured wallet is either
  usable, and then has a connection, or failed, in the configured order; a wallet that is down,
  outdated or on another network never stops the others from being used.
\<close>

lemma wallets_partition:
  assumes "distinct ws"
  shows "\<exists>cs fs w'. walletClients E net ws w = (Ok (cs, fs), w') \<and> subseq cs ws \<and> subseq fs ws \<and>
    set cs \<union> set fs = set ws \<and> set cs \<inter> set fs = {} \<and> (\<forall>i\<in>set cs. conns w' (Wallet i))"
  by (rule walletClients_spec [OF assms])

lemma wallets_partition_witness: "\<exists>cs fs. set cs \<union> set fs = {0, 1 :: nat} \<and> fst (walletClients (friendly True) net5 [0, 1] world0) = Ok (cs, fs)"
  using wallets_partition [of "[0, 1]" "friendly True" net5 world0] by force



end
