(* ===== verification/DaemonProps.thy ===== *)
theory DaemonProps
  imports Daemon AdminProps ClientProps RpcProps
begin

text \<open>
  What a configuration that is accepted guarantees, and what the daemon serves when it starts.
\<close>

section \<open>The configuration\<close>

lemma required_Ok: "required vs = Ok u \<longleftrightarrow> (\<forall>(n, v) \<in> set vs. v \<noteq> [])"
  by (induction vs) (auto split: if_splits)

lemma required_not_Panic: "required vs \<noteq> Panic"
  by (induction vs) (auto split: if_splits)

declare required.simps [simp del]

lemma readCerts_Ok: "readCerts S cs = Ok bs \<Longrightarrow> length bs = length cs \<and>
    (\<forall>i < length cs. syReadFile S (cleanAndExpandPath S (cs ! i)) = Inr (bs ! i))"
proof (induction cs arbitrary: bs)
  case (Cons c cs)
  then obtain b bs' where "syReadFile S (cleanAndExpandPath S c) = Inr b" "readCerts S cs = Ok bs'" "bs = b # bs'"
    by (auto simp: outcome_simps)
  then show ?case using Cons.IH by (auto simp: less_Suc_eq_0_disj)
qed simp

lemma SetupWallet_Ok:
  "length us = length as \<Longrightarrow> length ps = length as \<Longrightarrow> length cs = length as \<Longrightarrow>
   \<exists>r. SetupWallet us ps as cs = Ok r \<and> length r = length as \<and>
     (\<forall>i < length as. r ! i = setupClient (us ! i) (ps ! i) (as ! i) (cs ! i))"
proof (induction us ps as cs rule: SetupWallet.induct)
  case (2 u us p ps a as c cs)
  then obtain r where "SetupWallet us ps as cs = Ok r" "length r = length as"
      "\<forall>i < length as. r ! i = setupClient (us ! i) (ps ! i) (as ! i) (cs ! i)" by auto
  then show ?case by (auto simp: less_Suc_eq_0_disj)
qed auto

lemma checkGeneral_Ok:
  assumes "checkGeneral floorOf cfg = Ok cfg'"
  shows "30 * 1000000000 \<le> sint (cfBackupInterval cfg) \<and> validPoolFeeRate floorOf (cfVSPFee cfg) \<and> cfSupportEmail cfg \<noteq> [] \<and>
    cfAdminPass cfg \<noteq> [] \<and> cfg' = (if cfVspClosed cfg then cfg else cfg\<lparr>cfVspClosedMsg := []\<rparr>)"
  using assms by (auto simp: checkGeneral_def Let_def outcome_simps required_Ok split: if_splits)

lemma loadMond_Ok:
  assumes "loadMond S net cfg = Ok cfg'"
  shows "\<exists>cert. cfMondUser cfg \<noteq> [] \<and> cfMondPass cfg \<noteq> [] \<and>
    syReadFile S (cleanAndExpandPath S (cfMondCert cfg)) = Inr cert \<and>
    cfg' = cfg\<lparr>cfMondCert := cleanAndExpandPath S (cfMondCert cfg),
      cfMondHost := normalizeAddress (cfMondHost cfg) (MondRPCServerPort net),
      cfMondDetails := Some \<lparr>mdUser = cfMondUser cfg, mdPassword = cfMondPass cfg,
        mdHost = normalizeAddress (cfMondHost cfg) (MondRPCServerPort net), mdCert = cert\<rparr>\<rparr>"
  using assms by (auto simp: loadMond_def Let_def outcome_simps required_Ok)

text \<open>The lists of the wallets, as long as each other and not too short.\<close>

definition wallets_ok :: "netConfig \<Rightarrow> 'p system \<Rightarrow> 'p config \<Rightarrow> walletDetails \<Rightarrow> bool" where
  "wallets_ok net S cfg wd \<longleftrightarrow>
     wdUsers wd = splitAt CHR '','' (cfWalletUsers cfg) \<and> wdPasswords wd = splitAt CHR '','' (cfWalletPasswords cfg) \<and>
     wdHosts wd = map (\<lambda>h. normalizeAddress h (WalletRPCServerPort net)) (splitAt CHR '','' (cfWalletHosts cfg)) \<and>
     length (wdUsers wd) = length (wdHosts wd) \<and> length (wdPasswords wd) = length (wdHosts wd) \<and>
     length (wdCerts wd) = length (wdHosts wd) \<and> MinWallets net \<le> int (length (wdHosts wd)) \<and>
     (\<forall>i < length (wdCerts wd). syReadFile S (cleanAndExpandPath S (splitAt CHR '','' (cfWalletCerts cfg) ! i)) = Inr (wdCerts wd ! i))"

lemma wallets_ok_upd: "wallets_ok net S (c\<lparr>cfWalletDetails := x\<rparr>) wd = wallets_ok net S c wd"
  by (simp add: wallets_ok_def)

lemma loadWallets_Ok:
  assumes "loadWallets S net cfg = Ok cfg'"
  shows "\<exists>wd. cfg' = cfg\<lparr>cfWalletDetails := Some wd\<rparr> \<and> wallets_ok net S cfg wd"
proof -
  let ?certs = "splitAt CHR '','' (cfWalletCerts cfg)"
  from assms obtain bs where *: "length (splitAt CHR '','' (cfWalletUsers cfg)) = length (splitAt CHR '','' (cfWalletHosts cfg))"
      "length (splitAt CHR '','' (cfWalletPasswords cfg)) = length (splitAt CHR '','' (cfWalletHosts cfg))"
      "length ?certs = length (splitAt CHR '','' (cfWalletHosts cfg))" "readCerts S ?certs = Ok bs"
      "MinWallets net \<le> int (length (splitAt CHR '','' (cfWalletHosts cfg)))"
      "cfg' = cfg\<lparr>cfWalletDetails := Some \<lparr>wdUsers = splitAt CHR '','' (cfWalletUsers cfg),
         wdPasswords = splitAt CHR '','' (cfWalletPasswords cfg),
         wdHosts = map (\<lambda>h. normalizeAddress h (WalletRPCServerPort net)) (splitAt CHR '','' (cfWalletHosts cfg)), wdCerts = bs\<rparr>\<rparr>"
    by (auto simp: loadWallets_def Let_def outcome_simps split: if_splits)
  with readCerts_Ok [OF *(4)] show ?thesis
    by (intro exI [of _ "\<lparr>wdUsers = splitAt CHR '','' (cfWalletUsers cfg),
         wdPasswords = splitAt CHR '','' (cfWalletPasswords cfg),
         wdHosts = map (\<lambda>h. normalizeAddress h (WalletRPCServerPort net)) (splitAt CHR '','' (cfWalletHosts cfg)), wdCerts = bs\<rparr>"])
      (simp add: wallets_ok_def)
qed

lemma LoadConfig_Ok:
  assumes "LoadConfig params S floorOf defaults = Ok (Some cfg)"
  shows "\<exists>net md wd clients dbFile. cfNetwork cfg = Some net \<and> NetworkFromName params (cfNetworkName cfg) = Ok net \<and>
    30 * 1000000000 \<le> sint (cfBackupInterval cfg) \<and> validPoolFeeRate floorOf (cfVSPFee cfg) \<and>
    cfSupportEmail cfg \<noteq> [] \<and> cfAdminPass cfg \<noteq> [] \<and> (cfVspClosed cfg \<or> cfVspClosedMsg cfg = []) \<and>
    DatabaseFile cfg = Ok dbFile \<and> fileExists S dbFile \<and>
    cfMondDetails cfg = Some md \<and> mdUser md \<noteq> [] \<and> mdPassword md \<noteq> [] \<and>
    cfWalletDetails cfg = Some wd \<and> wallets_ok net S cfg wd \<and> 0 < length (wdHosts wd) \<and>
    SetupWallet (wdUsers wd) (wdPasswords wd) (wdHosts wd) (wdCerts wd) = Ok clients \<and>
    length clients = length (wdHosts wd) \<and>
    (\<forall>i < length clients. clients ! i = setupClient (wdUsers wd ! i) (wdPasswords wd ! i) (wdHosts wd ! i) (wdCerts wd ! i))"
proof -
  from assms obtain c0 net c1 c2 dbFile where c: "NetworkFromName params (cfNetworkName c0) = Ok net"
      "checkGeneral floorOf (c0\<lparr>cfNetwork := Some net\<rparr>) = Ok c1" "loadMond S net c1 = Ok c2" "loadWallets S net c2 = Ok cfg"
      "DatabaseFile cfg = Ok dbFile" "fileExists S dbFile"
    by (auto simp: LoadConfig_def outcome_simps split: option.splits if_splits)
  note g = checkGeneral_Ok [OF c(2)]
  obtain cert where m: "cfMondUser c1 \<noteq> []" "cfMondPass c1 \<noteq> []"
      "c2 = c1\<lparr>cfMondCert := cleanAndExpandPath S (cfMondCert c1), cfMondHost := normalizeAddress (cfMondHost c1) (MondRPCServerPort net),
      cfMondDetails := Some \<lparr>mdUser = cfMondUser c1, mdPassword = cfMondPass c1,
        mdHost = normalizeAddress (cfMondHost c1) (MondRPCServerPort net), mdCert = cert\<rparr>\<rparr>"
    using loadMond_Ok [OF c(3)] by blast
  obtain wd where w: "cfg = c2\<lparr>cfWalletDetails := Some wd\<rparr>" "wallets_ok net S c2 wd"
    using loadWallets_Ok [OF c(4)] by blast
  then have ok: "wallets_ok net S cfg wd" by (simp add: wallets_ok_upd)
  obtain clients where cl: "SetupWallet (wdUsers wd) (wdPasswords wd) (wdHosts wd) (wdCerts wd) = Ok clients"
      "length clients = length (wdHosts wd)"
      "\<forall>i < length (wdHosts wd). clients ! i = setupClient (wdUsers wd ! i) (wdPasswords wd ! i) (wdHosts wd ! i) (wdCerts wd ! i)"
    using SetupWallet_Ok [of "wdUsers wd" "wdHosts wd" "wdPasswords wd" "wdCerts wd"] ok by (auto simp: wallets_ok_def)
  have "0 < length (wdHosts wd)" using ok splitAt_not_Nil by (simp add: wallets_ok_def)
  then show ?thesis
    using c g m w ok cl by (intro exI [of _ net] exI [of _ "\<lparr>mdUser = cfMondUser c1, mdPassword = cfMondPass c1,
        mdHost = normalizeAddress (cfMondHost c1) (MondRPCServerPort net), mdCert = cert\<rparr>"] exI [of _ wd] exI [of _ clients] exI [of _ dbFile])
      simp
qed

text \<open>
  C18: A configuration that \<open>LoadConfig\<close> accepts is usable: it is for a known network, the backup
  interval and the fee are in range, the passwords and the support address are set, a VSP that is
  open has no closing message, the database file exists, and for each of the wallet hosts, of which
  there are at least as many as the network requires, there is a user, a password and a
  certificate that was read; so every wallet client is set up from its own entries.
\<close>

theorem config_sound:
  assumes "LoadConfig params S floorOf defaults = Ok (Some cfg)"
  shows "\<exists>net md wd clients dbFile. cfNetwork cfg = Some net \<and> NetworkFromName params (cfNetworkName cfg) = Ok net \<and>
    30 * 1000000000 \<le> sint (cfBackupInterval cfg) \<and> validPoolFeeRate floorOf (cfVSPFee cfg) \<and>
    cfSupportEmail cfg \<noteq> [] \<and> cfAdminPass cfg \<noteq> [] \<and> (cfVspClosed cfg \<or> cfVspClosedMsg cfg = []) \<and>
    DatabaseFile cfg = Ok dbFile \<and> fileExists S dbFile \<and>
    cfMondDetails cfg = Some md \<and> mdUser md \<noteq> [] \<and> mdPassword md \<noteq> [] \<and>
    cfWalletDetails cfg = Some wd \<and> wallets_ok net S cfg wd \<and> 0 < length (wdHosts wd) \<and>
    SetupWallet (wdUsers wd) (wdPasswords wd) (wdHosts wd) (wdCerts wd) = Ok clients \<and>
    length clients = length (wdHosts wd) \<and>
    (\<forall>i < length clients. clients ! i = setupClient (wdUsers wd ! i) (wdPasswords wd ! i) (wdHosts wd ! i) (wdCerts wd ! i))"
  by (rule LoadConfig_Ok [OF assms])

text \<open>A system with a configuration for one wallet on the test network.\<close>

definition demo_config :: "nat config" where
  "demo_config = (DefaultConfig 1 ''/vspm'')\<lparr>cfMondUser := ''u'', cfMondPass := ''p'', cfMondCert := ''/m.cert'',
     cfWalletUsers := ''u'', cfWalletPasswords := ''p'', cfWalletCerts := ''/w.cert'', cfSupportEmail := ''a@b'',
     cfAdminPass := ''password''\<rparr>"

definition demo_system :: "nat system" where
  "demo_system = \<lparr>syMissing = (\<lambda>f. False), syReadFile = (\<lambda>f. Inr ''cert''), syMkdirAll = (\<lambda>d. None), syExpandEnv = (\<lambda>p. p),
     syHomeDir = (\<lambda>u. Inr ''/root''), syHelp = False, syCommandLine = Inr, syIniFile = (\<lambda>f. Inr)\<rparr>"

lemma demo_loads: "case LoadConfig (\<lambda>_. demo_net) demo_system (\<lambda>f. Some 100) demo_config of Ok (Some cfg) \<Rightarrow> True | _ \<Rightarrow> False"
  by code_simp

theorem config_sound_witness:
  "\<exists>cfg wd clients. LoadConfig (\<lambda>_. demo_net) demo_system (\<lambda>f. Some 100) demo_config = Ok (Some cfg) \<and>
     cfWalletDetails cfg = Some wd \<and> SetupWallet (wdUsers wd) (wdPasswords wd) (wdHosts wd) (wdCerts wd) = Ok clients \<and> clients \<noteq> []"
proof -
  obtain cfg where "LoadConfig (\<lambda>_. demo_net) demo_system (\<lambda>f. Some 100) demo_config = Ok (Some cfg)"
    using demo_loads by (auto split: outcome.splits option.splits)
  with config_sound [OF this] show ?thesis by (metis length_greater_0_conv)
qed

section \<open>The start\<close>

text \<open>The update of the cache may fail, but it does not panic.\<close>

lemma noPanic_for:
  assumes "\<And>a x. noPanic (body a x)"
  shows "noPanic (forA body as x)"
proof (induction as arbitrary: x)
  case (Cons a as)
  have "noPanic (case f of Next x' \<Rightarrow> forA body as x' | Return r \<Rightarrow> ret (Return r))" for f
    using Cons by (cases f) (simp_all add: noPanic_rules)
  then show ?case by (simp add: noPanic_rules assms)
qed (simp add: noPanic_rules)

lemma total_noPanic: "total m \<Longrightarrow> noPanic m"
  unfolding total_def noPanic_def by (metis fst_conv outcome.distinct(3))

lemma noPanic_reply:
  "(\<And>r. noPanic (k r)) \<Longrightarrow> noPanic (bindA (ask E c) k)" "noPanic (putCache d)" "noPanic (query p) \<longleftrightarrow> (\<forall>w :: 's world. p (wdb w) \<noteq> Panic)"
  by (rule noPanic_rules(1) [OF noPanic_rules(6)]) (simp_all add: noPanic_def putCache_def query_def)

lemma noPanic_calls:
  "noPanic (closeConn E t)" "noPanic (connectWallet E net i)" "noPanic (askUnit E c)" "noPanic (askStr E c)"
  "noPanic (getTxIndex E)" "noPanic (dial E t)"
proof -
  show "noPanic (closeConn E t)" by (rule total_noPanic [OF total_close])
  show "noPanic (connectWallet E net i)" by (rule total_noPanic) (simp add: total_def connectWallet_total)
  show "noPanic (askUnit E c)" unfolding askUnit_def by (intro noPanic_rules)
  show "noPanic (askStr E c)" unfolding askStr_def by (rule noPanic_reply) (simp add: noPanic_rules split: reply.splits)
  show "noPanic (getTxIndex E)" unfolding getTxIndex_def by (rule noPanic_reply) (simp add: noPanic_rules split: reply.splits)
  show "noPanic (dial E t)" unfolding dial_def by (intro noPanic_rules)
qed

lemma mondClient_noPanic: "noPanic (mondClient E net n)"
  unfolding mondClient_def NotifyBlocks_def by (intro noPanic_rules noPanic_typed noPanic_calls)

lemma walletClients_noPanic: "noPanic (walletClients E net ws)"
proof -
  have "noPanic (bindA (connectWallet E net i) (\<lambda>ok. ret (f ok :: (nat list \<times> nat list, nat list \<times> nat list) flow)))" for i f
    by (intro noPanic_rules noPanic_calls)
  then have "noPanic (forA (\<lambda>i (clients, failed). bindA (connectWallet E net i) (\<lambda>ok.
       ret (Next (if ok then (clients @ [i], failed) else (clients, failed @ [i])) :: (nat list \<times> nat list, nat list \<times> nat list) flow))) ws x)" for x
    by (intro noPanic_for) (simp split: prod.split)
  then show ?thesis
    unfolding walletClients_def
    by (intro noPanic_rules(1)) (auto simp: noPanic_rules(4) split: flow.split)
qed

lemma cacheUpdate_noPanic:
  fixes W :: "('s, 'x, 'f) api"
  assumes "bolt_ok (wBolt W)" "disk_ok (wBolt W)" "tickets_wf (wBolt W) (wdb w)"
  shows "fst (cacheUpdate W w) \<noteq> Panic"
proof -
  have header: "noPanic (GetBestBlockHeader (wLib W) (wEnv W))"
    unfolding GetBestBlockHeader_def GetBlockHeader_def
    by (intro noPanic_rules noPanic_calls) (auto simp: hexDecodeE_def outcome_simps split: option.splits)
  have rest: "noPanic (bindA (mondClient (wEnv W) (wNet W) (wNotify W)) (\<lambda>_.
     bindA (GetBestBlockHeader (wLib W) (wEnv W)) (\<lambda>bestBlock.
     if hdPoolSize bestBlock = 0
     then failA (Plain ''dcr node reports a network ticket pool size of zero'')
     else bindA (walletClients (wEnv W) (wNet W) (wWallets W)) (\<lambda>(clients, failed). putCache (g bestBlock clients failed)))))" for g
    by (intro noPanic_rules mondClient_noPanic header walletClients_noPanic) (simp add: noPanic_reply(2) split: prod.splits)
  have "db_view (wBolt W) (\<lambda>s. Ok ()) (wdb w) = Ok ()"
    by (simp add: disk_ok_view [OF assms(2)])
  then show ?thesis
    using rest unfolding cacheUpdate_def Let_def by (simp add: bindA_def query_def CountTickets_spec [OF assms] noPanic_def)
qed

text \<open>
  The server is made when the database gives the keys and the secret and the listener opens, and
  the update of the cache in between changes neither the database nor the index it starts with.
\<close>

lemma newWebAPI_made:
  assumes "bolt_ok (exBolt X)" "disk_ok (exBolt X)" "tickets_wf (exBolt X) (wdb w)"
    "KeyPair (exBolt X) (exSign X) (wdb w) = Ok sign" "FeeXPub (exBolt X) (wdb w) = Ok x"
    "newAddressGenerator (exLib X net) x = Ok gen" "CookieSecret (exBolt X) (wdb w) = Ok cookie"
  shows "\<exists>w'. newWebAPI X net shut adminPass wallets n None w =
      (Ok (newWebsite (webAPI X net shut wallets n sign gen) (exStore X cookie) (exSha256 X) adminPass), w') \<and>
    wdb w' = wdb w \<and> lastIdx w' = lastUsedIndex gen"
proof -
  let ?upd = "cacheUpdate (webAPI X net shut wallets n sign \<lparr>external = exNoKey X, lastUsedIndex = 0, feeXPubID = 0\<rparr>)"
  have "fst (?upd w) \<noteq> Panic" by (rule cacheUpdate_noPanic) (simp_all add: assms webAPI_def)
  then obtain w1 where w1: "logged ?upd w = (Ok (), w1)"
    by (cases "?upd w"; cases "fst (?upd w)") (auto simp: logged_def tryA_def ret_def)
  have same: "keeps (\<lambda>v. mem v = mem w) (logged ?upd)" by (intro keeps_logged keeps_clients)
  have "mem w1 = mem w" using keepsD [OF same _ w1] by simp
  then have "wdb w1 = wdb w" by (simp add: mem_def)
  then show ?thesis
    using assms(4-7) w1
    by (simp add: newWebAPI_def Let_def bindA_def tryA_def query_def lift_def putIdx_def ret_def)
qed

text \<open>
  C9: The daemon starts on a new database, and it starts well. If \<open>createdatabase\<close> of the
  administration tool made the database, the configuration is accepted, the log opens, and the key
  given at creation is one of the network of the configuration, then \<open>run\<close> comes to serve: whatever
  the nodes answer, no panic and no error ends it. The database is as it was created, without
  tickets, the invariant of the whole system holds with the web server and the background task on
  this database and the same wallets, the fee addresses are derived from the external branch of
  the key, starting at index 0, and the website and the closing of the VSP are those of the accepted
  configuration.
\<close>

theorem daemon_starts_well:
  assumes "bolt_ok (exBolt X)" "disk_ok (exBolt X)" "gin_ok (exGin X)" "valid_utf8 key"
    "\<And>p. ents (exBolt X) blank p = Map.empty" "length seed = 32"
    "createDatabase S0 X None (Ok seed) random blank homeDir key net0 = Ok (wdb w)"
    "LoadConfig params S floorOf defaults = Ok (Some cfg)" "cfNetwork cfg = Some net"
    "initLogging S rotator levelOk cfg = Ok ()"
    "lbKeyFromString (exLib X net) key = Inr k" "\<not> lbIsPrivate (exLib X net) k" "lbChild (exLib X net) k 0 = Child branch"
  shows "\<exists>sv w'. runDaemon params S floorOf defaults rotator levelOk None None X w = (Ok (Serving sv), w') \<and>
    svConfig sv = cfg \<and> wdb w' = wdb w \<and> lastIdx w' = 0 \<and> sys_inv (wbApi (svSite sv)) (svVspm sv) w' \<and>
    tickets (exBolt X) (wdb w') = Map.empty \<and>
    indexed (exBolt X) (feeXPubID (wAddrGen (wbApi (svSite sv)))) (wdb w', lastIdx w') \<and>
    external (wAddrGen (wbApi (svSite sv))) = branch \<and>
    wWallets (wbApi (svSite sv)) = vWallets (svVspm sv) \<and> length (vWallets (svVspm sv)) = length (svWallets sv) \<and>
    svWallets sv \<noteq> [] \<and> wVspClosed (wbApi (svSite sv)) = cfVspClosed cfg \<and>
    wbAdminPass (svSite sv) = cfAdminPass cfg"
proof -
  let ?B = "exBolt X" and ?x = "\<lparr>xID = 0, xKey = key, xLastUsedIdx = 0, xRetired = 0\<rparr>"
  have "CreateNew ?B None (Ok seed) random key blank = Ok (wdb w)"
    using assms(7) by (auto simp: createDatabase_def Let_def outcome_simps split: option.splits if_splits)
  note new = CreateNew_Ok [OF assms(1,2,5,4) this, where f = "exSign X"]
  have parts: "tickets_wf ?B (wdb w)" "KeyPair ?B (exSign X) (wdb w) = Ok (exSign X seed)"
    and cookie: "CookieSecret ?B (wdb w) = Ok (Some random)"
    and keys: "xpubs_wf ?B (wdb w)" "xpubs ?B (wdb w) = [0 \<mapsto> ?x]"
    using new assms(6) by simp_all
  obtain y where "FeeXPub ?B (wdb w) = Ok y" "xpubs ?B (wdb w) (xID y) = Some y"
    by (rule FeeXPub_Ok [OF assms(1,2) keys(1)])
  then have x: "FeeXPub ?B (wdb w) = Ok ?x" unfolding keys(2) by (simp split: if_splits)
  define gen where "gen = \<lparr>external = branch, lastUsedIndex = 0, feeXPubID = 0\<rparr>"
  have gen: "newAddressGenerator (exLib X net) ?x = Ok gen"
    using assms(11-13) by (simp add: newAddressGenerator_def gen_def)
  from LoadConfig_Ok [OF assms(8)] obtain md wd clients dbFile where c: "DatabaseFile cfg = Ok dbFile"
      "fileExists S dbFile" "cfMondDetails cfg = Some md" "cfWalletDetails cfg = Some wd" "0 < length (wdHosts wd)"
      "SetupWallet (wdUsers wd) (wdPasswords wd) (wdHosts wd) (wdCerts wd) = Ok clients" "length clients = length (wdHosts wd)"
    by blast
  let ?W = "webAPI X net (cfVspClosed cfg) [0..<length clients] maxVoteChangeRecords (exSign X seed) gen"
  obtain w' where w': "newWebAPI X net (cfVspClosed cfg) (cfAdminPass cfg) [0..<length clients] maxVoteChangeRecords None w =
      (Ok (newWebsite ?W (exStore X (Some random)) (exSha256 X) (cfAdminPass cfg)), w')" "wdb w' = wdb w" "lastIdx w' = 0"
    using newWebAPI_made [OF assms(1,2) parts x gen cookie, of "cfVspClosed cfg" "cfAdminPass cfg" "[0..<length clients]" maxVoteChangeRecords]
    by (auto simp: gen_def)
  have open_new: "openDb ?B True None w = (Ok (), w)"
    using new by (simp add: openDb_def Open_def Upgrade_def version_defs)
  define sv where "sv = \<lparr>svConfig = cfg, svSite = newWebsite ?W (exStore X (Some random)) (exSha256 X) (cfAdminPass cfg),
    svVspm = \<lparr>vBolt = ?B, vEnv = exEnv X, vLib = exLib X net, vNet = ncParams net, vWallets = [0..<length clients]\<rparr>,
    svMond = SetupMond md, svWallets = clients\<rparr>"
  have run: "runDaemon params S floorOf defaults rotator levelOk None None X w = (Ok (Serving sv), w')"
    by (simp add: runDaemon_def assms(8,9,10) c(1,2,3,4,6) mustGet_def bindA_def tryA_def lift_def ret_def open_new w'(1) sv_def)
  have inv: "db_wf ?B (wdb w)" "tickets_inv ?B (wdb w)" using new by (auto simp: db_wf_def tickets_inv_def)
  have "clients \<noteq> []" using c(5,7) by auto
  then show ?thesis
    using run w'(2,3) inv new assms(1,3) c(7)
    by (intro exI [of _ sv] exI [of _ w']) (simp add: sv_def newWebsite_def webAPI_def sys_inv_def api_ok_def indexed_def gen_def)
qed

text \<open>The parts outside the repository, for the database \<open>demo_db\<close>.\<close>

definition demo_externals :: "(flat, nat, unit) externals" where
  "demo_externals = \<lparr>exBolt = ref_bolt, exEnv = demo_env, exLib = (\<lambda>_. demo_lib), exGin = demo_gin, exSign = (\<lambda>k b. ''sig''),
     exStore = (\<lambda>_. demo_store), exSha256 = (\<lambda>s. s), exNoKey = 0\<rparr>"


lemma demo_creates:
  "createDatabase (demo_system\<lparr>syMissing := \<lambda>_. True\<rparr>) demo_externals None (Ok demo_seed) ''secret'' [] ''/vspm'' ''xpub0''
     (TestNet3 (\<lambda>_. demo_net)) = Ok demo_db"
  using demo_created by (simp add: createDatabase_def Let_def fileExists_def demo_system_def demo_externals_def validatePubkey_def demo_lib_def)


theorem daemon_starts_well_witness:
  "\<exists>sv w'. runDaemon (\<lambda>_. demo_net) demo_system (\<lambda>f. Some 100) demo_config (\<lambda>f n k. None) (\<lambda>l. True) None None demo_externals
      (demo_world demo_db) = (Ok (Serving sv), w') \<and> wdb w' = demo_db \<and> svWallets sv \<noteq> []"
proof -
  obtain cfg where cfg: "LoadConfig (\<lambda>_. demo_net) demo_system (\<lambda>f. Some 100) demo_config = Ok (Some cfg)"
    using demo_loads by (auto split: outcome.splits option.splits)
  then obtain net where net: "cfNetwork cfg = Some net" using LoadConfig_Ok by blast
  have log: "initLogging demo_system (\<lambda>f n k. None) (\<lambda>l. True) cfg = Ok ()"
    using net by (simp add: initLogging_def LogDir_def newLogBackend_def demo_system_def)
  have fields: "bolt_ok (exBolt demo_externals)" "disk_ok (exBolt demo_externals)" "gin_ok (exGin demo_externals)"
      "ents (exBolt demo_externals) [] p = Map.empty" "length demo_seed = 32"
      "wdb (demo_world demo_db) = demo_db" "lbKeyFromString (exLib demo_externals net) ''xpub0'' = Inr 0"
      "\<not> lbIsPrivate (exLib demo_externals net) 0" "lbChild (exLib demo_externals net) 0 0 = Child 1" for p
    using ref_bolt_ok ref_disk_ok demo_gin_ok flat_empty
    by (simp_all add: demo_externals_def demo_lib_def demo_seed_def demo_world_def)
  have creates: "createDatabase (demo_system\<lparr>syMissing := \<lambda>_. True\<rparr>) demo_externals None (Ok demo_seed) ''secret'' [] ''/vspm'' ''xpub0''
     (TestNet3 (\<lambda>_. demo_net)) = Ok (wdb (demo_world demo_db))" by (simp only: fields(6) demo_creates)
  show ?thesis
    using daemon_starts_well [OF fields(1-3) demo_valid fields(4,5) creates cfg net log fields(7-9)]
    by (simp only: fields(6)) blast
qed

end
