(* ===== verification/Validator.thy ===== *)
theory Validator
  imports Client Helpers OpenDb TicketQueries
begin

text \<open>
  \<open>cmd/vote-validator\<close>: the tool compares the votes that the tickets of the database cast on
  chain, which it asks of the block explorer, with the choices their owners asked for. Decoding
  the explorer's JSON, which has floating-point members, is a parameter; log messages are left
  out. A Go map is visited in an arbitrary order, the argument \<open>order\<close> of the definitions.
\<close>

section \<open>\<open>explorer.go\<close>\<close>

text \<open>What the tool reads of a transaction: the spending transaction and the script of each output.\<close>

record dataVout =
  dvSpend :: "string option"
  dvScript :: string

record dataTx =
  dtTxID :: string
  dtVout :: "dataVout list"

fun stringsText :: "string list \<Rightarrow> string" where
  "stringsText [] = []"
| "stringsText [s] = quote s"
| "stringsText (s # ss) = quote s @ CHR '','' # stringsText ss"

definition txnsJSON :: "string list \<Rightarrow> bytes" where
  "txnsJSON hs = ''{'' @ quote ''transactions'' @ '':['' @ stringsText hs @ '']}''"

definition txns :: "'s transport \<Rightarrow> (bytes \<Rightarrow> dataTx list outcome) \<Rightarrow> string \<Rightarrow> string list \<Rightarrow> bool \<Rightarrow> ('s, dataTx list) act" where
  "txns T unmarshal url txnHashes spends =
     bindA (T \<lparr>rqMethod = MethodPost, rqURL = url @ ''/api/txs?spends='' @ (if spends then ''true'' else ''false''),
            rqSig = None, rqBody = Some (txnsJSON txnHashes)\<rparr>) (\<lambda>resp.
     if rsStatus resp \<noteq> 200 then failA (Plain (''mondata response: '' @ dec_of_nat (rsStatus resp)))
     else bindA (lift (fromSum (rsBody resp))) (\<lambda>body. lift (unmarshal body)))"

section \<open>Votes\<close>

record votedTicket =
  vdTicket :: ticket
  voteHeight :: uint32
  voteVersion :: uint32
  vdVote :: "(string \<times> string) list"

text \<open>An agenda of the consensus deployments: its mask, and the bits of each choice.\<close>

record agenda =
  agId :: string
  agMask :: uint16
  agChoices :: "(string \<times> uint16) list"

text \<open>\<open>script[lo:hi]\<close> of a slice without spare capacity.\<close>

definition sliceOf :: "bytes \<Rightarrow> nat \<Rightarrow> nat \<Rightarrow> bytes outcome" where
  "sliceOf b lo hi = (if hi \<le> length b then Ok (take (hi - lo) (drop lo b)) else Panic)"

definition leWord :: "bytes \<Rightarrow> 'w::len word" where
  "leWord b = of_nat (le_nat b)"

text \<open>The choices that the vote bits select.\<close>

definition actualVotes :: "agenda list \<Rightarrow> uint16 \<Rightarrow> (string \<times> string) list" where
  "actualVotes ads votebits =
     fold (\<lambda>a. fold (\<lambda>(c, bits) votes. if and votebits (agMask a) = bits then assign (agId a) c votes else votes)
       (agChoices a)) ads []"

text \<open>The map from ticket hashes to tickets, whose entries are pointers.\<close>

type_synonym votedMap = "(string \<times> votedTicket) list"

definition setVote :: "string \<Rightarrow> uint32 \<Rightarrow> uint32 \<Rightarrow> (string \<times> string) list \<Rightarrow> votedMap \<Rightarrow> votedMap outcome" where
  "setVote h height version votes m = (case map_of m h of
     None \<Rightarrow> Panic
   | Some t \<Rightarrow> Ok (assign h (t\<lparr>voteHeight := height, voteVersion := version, vdVote := votes\<rparr>) m))"

text \<open>The transactions that spend the tickets: the hash of each, and the ticket it belongs to.\<close>

fun spenders :: "dataTx list \<Rightarrow> string list \<Rightarrow> (string \<times> string) list \<Rightarrow> (string list \<times> (string \<times> string) list) outcome" where
  "spenders [] hashes m = Ok (hashes, m)"
| "spenders (txn # ts) hashes m =
     andThen (index (dtVout txn) 0) (\<lambda>out.
     case dvSpend out of
       None \<Rightarrow> Panic
     | Some h \<Rightarrow> spenders ts (hashes @ [h]) (assign h (dtTxID txn) m))"

definition recordVote :: "agenda list \<Rightarrow> (string \<times> string) list \<Rightarrow> dataTx \<Rightarrow> votedMap \<Rightarrow> votedMap outcome" where
  "recordVote ads mapSpenderToTicket tx m =
     andThen (index (dtVout tx) 0) (\<lambda>out0.
     andThen (hexDecodeE (dvScript out0)) (\<lambda>vOut0Script.
     andThen (sliceOf vOut0Script 34 38) (\<lambda>height.
     andThen (index (dtVout tx) 1) (\<lambda>out1.
     andThen (hexDecodeE (dvScript out1)) (\<lambda>vOut1Script.
     andThen (sliceOf vOut1Script 4 8) (\<lambda>version.
     andThen (sliceOf vOut1Script 2 4) (\<lambda>bits.
     setVote (case map_of mapSpenderToTicket (dtTxID tx) of None \<Rightarrow> [] | Some h \<Rightarrow> h)
       (leWord height) (leWord version) (actualVotes ads (leWord bits)) m)))))))"

definition chunkSize :: nat where
  "chunkSize = 2000"

text \<open>
  The loop over the chunks. The exit code ends the program: 0 after a shutdown, 1 after an error.
\<close>

function voteChunks :: "'s env \<Rightarrow> (string list \<Rightarrow> bool \<Rightarrow> ('s, dataTx list) act) \<Rightarrow> agenda list \<Rightarrow> string list \<Rightarrow> votedMap
    \<Rightarrow> ('s, (votedMap, int) flow) act" where
  "voteChunks E fetch ads hashes m =
     (if hashes = [] then ret (Next m) else
      bindA (canceled E) (\<lambda>stop. if stop then ret (Return 0) else
      let failed = (\<lambda>e. ret (Return (if is_canceled e then 0 else 1))) in
      tryA (fetch (take chunkSize hashes) True) failed (\<lambda>ticketTxns.
      bindA (lift (spenders ticketTxns [] [])) (\<lambda>(spenderHashes, mapSpenderToTicket).
      tryA (fetch spenderHashes False) failed (\<lambda>spenderTxns.
      tryA (lift (runAll (recordVote ads mapSpenderToTicket) spenderTxns m)) (\<lambda>_. ret (Return 1)) (\<lambda>m'.
      voteChunks E fetch ads (drop chunkSize hashes) m'))))))"
  by pat_completeness auto
termination by (relation "measure (\<lambda>(E, f, a, hs, m). length hs)") (auto simp: chunkSize_def)

declare voteChunks.simps [simp del]

section \<open>The checks\<close>

record results =
  badVotes :: "votedTicket list"
  noPreferences :: "votedTicket list"
  wrongVersion :: "votedTicket list"

text \<open>
  Whether some agenda of the vote differs from the choice asked for, "abstain" if there is none.
\<close>

definition badVote :: "votedTicket \<Rightarrow> bool" where
  "badVote t \<longleftrightarrow> list_ex (\<lambda>(agenda, actualChoice). actualChoice \<noteq>
     (case lookup (VoteChoices (vdTicket t)) agenda of None \<Rightarrow> ''abstain'' | Some c \<Rightarrow> c)) (vdVote t)"

definition checkVote :: "uint32 \<Rightarrow> votedTicket \<Rightarrow> results \<Rightarrow> results" where
  "checkVote latest t r =
     (if voteVersion t \<noteq> latest then r\<lparr>wrongVersion := wrongVersion r @ [t]\<rparr>
      else
        let r1 = (if entries (VoteChoices (vdTicket t)) = [] then r\<lparr>noPreferences := noPreferences r @ [t]\<rparr> else r) in
        if badVote t then r1\<lparr>badVotes := badVotes r1 @ [t]\<rparr> else r1)"

text \<open>
  \<open>sorted[0:n]\<close> of a slice of pointers with room for \<open>spare\<close> more: the elements beyond its length are nil.
\<close>

definition firstOf :: "int64 \<Rightarrow> nat \<Rightarrow> 'a list \<Rightarrow> 'a option list outcome" where
  "firstOf n spare xs =
     (if sint n < 0 \<or> sint n > int (length xs + spare) then Panic
      else Ok (take (nat (sint n)) (map Some xs @ replicate spare None)))"

fun checkVotes :: "'s env \<Rightarrow> uint32 \<Rightarrow> votedTicket option list \<Rightarrow> results \<Rightarrow> ('s, (results, int) flow) act" where
  "checkVotes E latest [] r = ret (Next r)"
| "checkVotes E latest (t # ts) r =
     bindA (canceled E) (\<lambda>stop. if stop then ret (Return 0) else
     case t of None \<Rightarrow> panic | Some t \<Rightarrow> checkVotes E latest ts (checkVote latest t r))"

text \<open>The most recent votes first. \<open>sort.Slice\<close> does not keep the order of equals, which is arbitrary.\<close>

definition byHeight :: "votedTicket list \<Rightarrow> votedTicket list" where
  "byHeight ts = sort_key (\<lambda>t. - uint (voteHeight t)) ts"

section \<open>\<open>results.go\<close>\<close>

text \<open>The text of a map printed with \<open>%v\<close>: the entries sorted by key.\<close>

fun spaced :: "string list \<Rightarrow> string" where
  "spaced [] = []"
| "spaced [s] = s"
| "spaced (s # ss) = s @ CHR '' '' # spaced ss"

definition mapText :: "(string \<times> string) list \<Rightarrow> string" where
  "mapText m = ''map['' @ spaced (map (\<lambda>(k, v). k @ CHR '':'' # v) (sort_key fst m)) @ '']''"

abbreviation newline :: char where
  "newline \<equiv> char_of (10 :: nat)"

definition badVoteLine :: "votedTicket \<Rightarrow> string" where
  "badVoteLine t = ''Hash: '' @ Hash (vdTicket t) @ '' VoteHeight: '' @ dec_of_nat (unat (voteHeight t)) @
     '' ExpectedVote: '' @ mapText (entries (VoteChoices (vdTicket t))) @ '' ActualVote: '' @ mapText (vdVote t)"

definition hashLine :: "votedTicket \<Rightarrow> string" where
  "hashLine t = ''Hash: '' @ Hash (vdTicket t)"

text \<open>The writes of one part of the report, each of them a line.\<close>

definition part :: "string \<Rightarrow> (votedTicket \<Rightarrow> string) \<Rightarrow> votedTicket list \<Rightarrow> string list" where
  "part title line ts = (if ts = [] then [] else map (\<lambda>l. l @ [newline]) (title # map line ts @ [[newline]]))"

definition reportLines :: "results \<Rightarrow> string list" where
  "reportLines r = part ''Tickets with bad votes:'' badVoteLine (badVotes r) @
     part ''Tickets with the wrong vote version:'' hashLine (wrongVersion r) @
     part ''Tickets with no user set vote preferences:'' hashLine (noPreferences r)"

text \<open>The file the report is written to: how creating it, each write after a given text, and closing it turn out.\<close>

record reportFile =
  rfCreate :: "err option"
  rfWrite :: "string \<Rightarrow> string \<Rightarrow> bool"
  rfClose :: "err option"

text \<open>A failed write panics. The result has the text that the file holds, None if it is not created.\<close>

fun writeLines :: "reportFile \<Rightarrow> string list \<Rightarrow> string \<Rightarrow> unit outcome \<times> string" where
  "writeLines F [] text = (Ok (), text)"
| "writeLines F (l # ls) text = (if rfWrite F text l then writeLines F ls (text @ l) else (Panic, text))"

definition writeFile :: "reportFile \<Rightarrow> results \<Rightarrow> bool outcome \<times> string option" where
  "writeFile F r =
     (if badVotes r = [] \<and> noPreferences r = [] \<and> wrongVersion r = [] then (Ok False, None)
      else case rfCreate F of
        Some e \<Rightarrow> (Fail (Wrapped ''opening log file failed'' e), None)
      | None \<Rightarrow> (case writeLines F (reportLines r) [] of
          (Ok _, text) \<Rightarrow> ((case rfClose F of Some e \<Rightarrow> Fail (Wrapped ''closing log file failed'' e) | None \<Rightarrow> Ok True), Some text)
        | (_, text) \<Rightarrow> (Panic, Some text)))"

section \<open>\<open>main.go\<close>\<close>

definition newVoted :: "ticket \<Rightarrow> votedTicket" where
  "newVoted t = \<lparr>vdTicket = t, voteHeight = 0, voteVersion = 0, vdVote = []\<rparr>"

text \<open>The run after the options are parsed: the exit code, and the text of the report.\<close>

definition validate :: "'s bolt \<Rightarrow> 's env \<Rightarrow> (string list \<Rightarrow> bool \<Rightarrow> ('s, dataTx list) act) \<Rightarrow> network \<Rightarrow> (uint32 \<Rightarrow> agenda list)
    \<Rightarrow> (votedTicket list \<Rightarrow> votedTicket list) \<Rightarrow> (nat \<Rightarrow> nat) \<Rightarrow> reportFile \<Rightarrow> bool \<Rightarrow> err option \<Rightarrow> int64
    \<Rightarrow> ('s, int \<times> string option) act" where
  "validate B E fetch net deployments order spare F exists openErr toCheck =
     (let latest = CurrentVoteVersion net in
      tryA (openDb B exists openErr) (\<lambda>_. ret (1, None)) (\<lambda>_.
      tryA (query (GetVotedTickets B)) (\<lambda>_. ret (1, None)) (\<lambda>dbTickets.
      let ticketMap = fold (\<lambda>t. assign (Hash t) (newVoted t)) dbTickets [] in
      bindA (voteChunks E fetch (deployments latest) (map Hash dbTickets) ticketMap) (\<lambda>f. case f of
        Return code \<Rightarrow> ret (code, None)
      | Next m \<Rightarrow>
          let sorted = byHeight (order (map snd m)) in
          bindA (lift (firstOf toCheck (spare (length sorted)) sorted)) (\<lambda>chosen.
          bindA (checkVotes E latest chosen \<lparr>badVotes = [], noPreferences = [], wrongVersion = []\<rparr>) (\<lambda>g. case g of
            Return code \<Rightarrow> ret (code, None)
          | Next r \<Rightarrow> (case writeFile F r of
              (Ok written, text) \<Rightarrow> ret (0, text)
            | (Fail e, text) \<Rightarrow> ret (1, text)
            | (Panic, text) \<Rightarrow> panic)))))))"

section \<open>What the checks report\<close>

lemma checkVotes_results:
  assumes "checkVotes E latest ts r w = (Ok (Next r'), w')"
  shows "\<exists>us. ts = map Some us \<and> wrongVersion r' = wrongVersion r @ filter (\<lambda>t. voteVersion t \<noteq> latest) us \<and>
    noPreferences r' = noPreferences r @ filter (\<lambda>t. voteVersion t = latest \<and> entries (VoteChoices (vdTicket t)) = []) us \<and>
    badVotes r' = badVotes r @ filter (\<lambda>t. voteVersion t = latest \<and> badVote t) us"
  using assms
proof (induction ts arbitrary: r w)
  case Nil
  then show ?case by (simp add: ret_def)
next
  case (Cons t ts)
  obtain stop w1 where stop: "canceled E w = (Ok stop, w1)" using canceled_Ok by blast
  with Cons.prems obtain u where t: "t = Some u" "\<not> stop" by (auto simp: bindA_def ret_def panic_def split: if_splits option.splits)
  with Cons.prems stop have "checkVotes E latest ts (checkVote latest u r) w1 = (Ok (Next r'), w')" by (simp add: bindA_def)
  from Cons.IH [OF this] obtain us where us: "ts = map Some us" 
     "wrongVersion r' = wrongVersion (checkVote latest u r) @ filter (\<lambda>t. voteVersion t \<noteq> latest) us"
     "noPreferences r' = noPreferences (checkVote latest u r) @ filter (\<lambda>t. voteVersion t = latest \<and> entries (VoteChoices (vdTicket t)) = []) us"
     "badVotes r' = badVotes (checkVote latest u r) @ filter (\<lambda>t. voteVersion t = latest \<and> badVote t) us"
    by blast
  show ?case
    by (rule exI [of _ "u # us"]) (simp add: t us(1) us(2-) checkVote_def Let_def)
qed

lemma firstOf_some:
  assumes "firstOf n spare xs = Ok (map Some us)"
  shows "0 \<le> sint n \<and> sint n \<le> int (length xs) \<and> us = take (nat (sint n)) xs"
proof -
  from assms have n: "0 \<le> sint n" "take (nat (sint n)) (map Some xs @ replicate spare None) = map Some us" "sint n \<le> int (length xs + spare)"
    by (auto simp: firstOf_def split: if_splits)
  have "nat (sint n) \<le> length xs"
  proof (rule ccontr)
    assume "\<not> ?thesis"
    then have len: "length xs < nat (sint n)" "length xs < length (map Some us)"
      using n by (simp_all flip: n(2))
    then have "map Some us ! length xs = None"
      unfolding n(2) [symmetric] using n(3) by (simp add: nth_append)
    with len show False by simp
  qed
  with n show ?thesis by (auto simp: take_map inj_map_eq_map [OF inj_Some])
qed

text \<open>The n most recent votes of the tickets.\<close>

definition mostRecent :: "int64 \<Rightarrow> votedTicket list \<Rightarrow> votedTicket list" where
  "mostRecent n ts = take (nat (sint n)) (byHeight ts)"


text \<open>Two voted tickets: one voted as asked for, the other did not.\<close>

definition demo_ballot :: "uint32 \<Rightarrow> string \<Rightarrow> votedTicket" where
  "demo_ballot h choice = \<lparr>vdTicket = zeroTicket\<lparr>VoteChoices := Some [(''agenda'', ''yes'')]\<rparr>, voteHeight = h, voteVersion = 9,
     vdVote = [(''agenda'', choice)]\<rparr>"

definition demo_steady :: "nat env" where
  "demo_steady es c = Inr (RBool False)"


end
