(* ===== verification/Notifs.thy ===== *)
theory Notifs
  imports Vspm JsonDoc
begin

text \<open>
  \<open>rpc/notifs.go\<close>: the notifications of mond. A notification never makes the client fail: what is
  not the header of a connected block is dropped, and a header goes to the channel of the background
  task, which runs an update for it.
\<close>

section \<open>Decoding\<close>

text \<open>\<open>json.Unmarshal\<close> into a slice of strings: a null element leaves the empty string.\<close>

fun stringElem :: "json \<Rightarrow> string option" where
  "stringElem (JStr s) = Some s"
| "stringElem JNull = Some []"
| "stringElem _ = None"

definition unmarshalStrings :: "bytes \<Rightarrow> string list outcome" where
  "unmarshalStrings msg = (case json_parse msg of
     Some JNull \<Rightarrow> Ok []
   | Some (JArr es) \<Rightarrow> (case those (map stringElem es) of Some xs \<Rightarrow> Ok xs | None \<Rightarrow> Fail badReply)
   | Some _ \<Rightarrow> Fail badReply
   | None \<Rightarrow> Fail (Plain ''invalid JSON''))"

text \<open>
  What a reader gets from \<open>hex.NewDecoder\<close>: the bytes up to the first pair that is not hexadecimal.
  Deserializing takes as many of them as a header has, and fails if there are fewer.
\<close>

fun hexPrefix :: "string \<Rightarrow> bytes" where
  "hexPrefix (a # b # s) = (case (hexVal a, hexVal b) of (Some x, Some y) \<Rightarrow> char_of (16 * x + y) # hexPrefix s | _ \<Rightarrow> [])"
| "hexPrefix _ = []"

definition parseBlockConnected :: "('x, 'f) lib \<Rightarrow> bytes \<Rightarrow> header outcome" where
  "parseBlockConnected l msg =
     andThen (wrapErr ''json unmarshal error'' (unmarshalStrings msg)) (\<lambda>notif. case notif of
       [] \<Rightarrow> Fail (Plain ''notification is empty'')
     | n # _ \<Rightarrow> wrapErr ''error creating block header from bytes'' (fromSum (lbHeader l (hexPrefix n))))"

text \<open>The header that is sent on the channel, if any; the notifier itself returns no error.\<close>

definition Notify :: "('x, 'f) lib \<Rightarrow> string \<Rightarrow> bytes \<Rightarrow> header option" where
  "Notify l meth msg =
     (if meth \<noteq> ''blockconnected'' then None
      else case parseBlockConnected l msg of Ok h \<Rightarrow> Some h | _ \<Rightarrow> None)"

text \<open>The signals the background task receives for a sequence of notifications.\<close>

fun notified :: "('x, 'f) lib \<Rightarrow> (string \<times> bytes) list \<Rightarrow> signal list" where
  "notified l [] = []"
| "notified l ((meth, msg) # ns) =
     (case Notify l meth msg of None \<Rightarrow> notified l ns | Some _ \<Rightarrow> BlockConnected # notified l ns)"

section \<open>What mond sends\<close>

text \<open>An array of strings and nulls, and the hexadecimal text of bytes.\<close>

fun optText :: "string option \<Rightarrow> string" where
  "optText None = ''null''"
| "optText (Some s) = quote s"

fun optsText :: "string option list \<Rightarrow> string" where
  "optsText [] = []"
| "optsText [x] = optText x"
| "optsText (x # y # xs) = optText x @ CHR '','' # optsText (y # xs)"

fun optJson :: "string option \<Rightarrow> json" where
  "optJson None = JNull"
| "optJson (Some s) = JStr (sanitize s)"

definition hexText :: "bytes \<Rightarrow> string" where
  "hexText bs = concat (map (\<lambda>b. [hex_digit (of_char b div 16), hex_digit (of_char b mod 16)]) bs)"

lemma jvalue_opt: "jvalue (Suc n) (optText x @ c # r) = Some (optJson x, c # r)"
proof (cases x)
  case None
  have "\<not> is_ws (CHR ''n'')" "CHR ''n'' \<noteq> byte 0x22" by code_simp+
  with None show ?thesis by (simp add: skip_ws_def scan_literal_def)
next
  case (Some s)
  have "\<not> is_ws (byte 0x22)" by code_simp
  with Some show ?thesis
    using unquote_quote_body [of s "c # r"] by (simp add: quote_def skip_ws_def byte_eq)
qed

lemma optText_head: "\<exists>d t. optText x = d # t \<and> \<not> is_ws d \<and> d \<noteq> CHR '']''"
proof (cases x)
  case None
  have "\<not> is_ws (CHR ''n'')" by code_simp
  with None show ?thesis by simp
next
  case (Some s)
  have "\<not> is_ws (byte 0x22)" "byte 0x22 \<noteq> CHR '']''" by code_simp+
  with Some show ?thesis by (simp add: quote_def)
qed

lemma jelems_opts:
  "xs \<noteq> [] \<Longrightarrow> Suc (length xs) \<le> n \<Longrightarrow> jelems n (optsText xs @ CHR '']'' # r) = Some (map optJson xs, r)"
proof (induction xs arbitrary: n rule: optsText.induct)
  case (2 x)
  then obtain m where n: "n = Suc (Suc m)" by (cases n; cases "n - 1") auto
  have ws: "\<not> is_ws (CHR '']'')" by code_simp
  have val: "jvalue (Suc m) (optText x @ CHR '']'' # r) = Some (optJson x, CHR '']'' # r)"
    by (rule jvalue_opt)
  have unfold: "optsText [x] @ CHR '']'' # r = optText x @ CHR '']'' # r" by simp
  show ?case
    unfolding unfold n jelems.simps(2) [of "Suc m"] val using ws by (simp add: skip_ws_def)
next
  case (3 x y xs)
  then obtain m where n: "n = Suc (Suc m)" by (cases n; cases "n - 1") auto
  let ?t = "optsText (y # xs) @ CHR '']'' # r"
  have ws: "\<not> is_ws (CHR '','')" by code_simp
  have val: "jvalue (Suc m) (optText x @ CHR '','' # ?t) = Some (optJson x, CHR '','' # ?t)"
    by (rule jvalue_opt)
  have rest: "jelems (Suc m) ?t = Some (map optJson (y # xs), r)"
    using 3 n by (intro "3.IH") auto
  have unfold: "optsText (x # y # xs) @ CHR '']'' # r = optText x @ CHR '','' # ?t" by simp
  show ?case
    unfolding unfold n jelems.simps(2) [of "Suc m"] val using rest ws
    by (simp add: skip_ws_def del: jelems.simps optsText.simps)
qed simp

text \<open>The text of an array is read back.\<close>

lemma unmarshal_opts:
  assumes "xs \<noteq> []"
  shows "unmarshalStrings (CHR ''['' # optsText xs @ '']'') = Ok (map (\<lambda>x. case x of None \<Rightarrow> [] | Some s \<Rightarrow> sanitize s) xs)"
proof -
  let ?t = "optsText xs @ '']''"
  have len: "length xs \<le> length (optsText xs)"
    proof (induction xs rule: optsText.induct)
    case (2 x)
    then show ?case by (cases x) (simp_all add: quote_def)
  qed simp_all
  have elems: "jelems (Suc (length ?t)) ?t = Some (map optJson xs, [])"
    using jelems_opts [OF assms, of "Suc (length ?t)" "[]"] len by simp
  obtain d t where d: "optsText xs = d # t" "\<not> is_ws d" "d \<noteq> CHR '']''"
  proof (cases xs rule: optsText.cases)
    case (2 x)
    then show thesis using that optText_head [of x] by auto
  next
    case (3 x y zs)
    then show thesis using that optText_head [of x] by auto
  qed (use assms in simp)
  have ws: "\<not> is_ws (CHR ''['')" by code_simp
  have "json_parse (CHR ''['' # ?t) = Some (JArr (map optJson xs))"
    using elems d(2,3) by (simp add: json_parse_def skip_ws_def ws d(1))
  moreover have "those (map stringElem (map optJson xs)) = Some (map (\<lambda>x. case x of None \<Rightarrow> [] | Some s \<Rightarrow> sanitize s) xs)"
    by (induction xs) (auto split: option.splits)
  ultimately show ?thesis by (simp add: unmarshalStrings_def del: map_map)
qed

lemma hexVal_hex_digit: "n < 16 \<Longrightarrow> hexVal (hex_digit n) = Some n"
  by (simp add: hexVal_def hex_digit_def Let_def)

lemma hexPrefix_hexText: "hexPrefix (hexText bs) = bs"
  by (induction bs) (auto simp: hexText_def hexVal_hex_digit less_mult_imp_div_less nat_of_char_less_256)

lemma valid_hexText: "valid_utf8 (hexText bs)"
proof (rule ascii_valid)
  have "(of_char (hex_digit n) :: nat) < 0x80" if "n < 16" for n
    using that by (simp add: hex_digit_def)
  then show "list_all (\<lambda>c. (of_char c :: nat) < 0x80) (hexText bs)"
    by (induction bs) (auto simp: hexText_def less_mult_imp_div_less nat_of_char_less_256)
qed

text \<open>
  C28: A notification of mond is understood: an array whose first element is the hexadecimal text of
  the serialized header, followed by any strings and nulls, makes the notifier send exactly this
  header to the background task, and nothing if the bytes are no header.
\<close>

theorem block_notified:
  "Notify l ''blockconnected'' (CHR ''['' # optsText (Some (hexText raw) # rest) @ '']'') =
    (case lbHeader l raw of Inr h \<Rightarrow> Some h | Inl e \<Rightarrow> None)"
  by (simp add: Notify_def parseBlockConnected_def unmarshal_opts sanitize_valid valid_hexText hexPrefix_hexText
      split: sum.split)

end
