(* ===== verification/FloatText.thy ===== *)
theory FloatText
  imports Floats JsonDoc
begin

text \<open>
  Floating-point numbers in JSON, as \<open>encoding/json\<close> writes and reads them: the shortest decimal
  that reads back as the number. Reading what was written gives the number again.
\<close>

section \<open>The shortest decimal\<close>

text \<open>The decimal exponent of a positive number.\<close>

definition decExp :: "rat \<Rightarrow> int" where
  "decExp x = (if 1 \<le> x then int (length (dec_of_nat (nat \<lfloor>x\<rfloor>))) - 1
     else - int (length (dec_of_nat (nat (\<lceil>1 / x\<rceil> - 1)))))"

text \<open>
  The shortest decimal: with \<open>n\<close> digits, the two multiples of the last place around the number
  are tried, the nearer one first. The result is the digits as a number and their last place.
\<close>

definition candidates :: "rat \<Rightarrow> int list" where
  "candidates q = (let c = roundEven q in if c = \<lfloor>q\<rfloor> then [\<lfloor>q\<rfloor>, \<lceil>q\<rceil>] else [\<lceil>q\<rceil>, \<lfloor>q\<rfloor>])"

fun shortest :: "ieee \<Rightarrow> rat \<Rightarrow> nat \<Rightarrow> nat \<Rightarrow> (int \<times> int) option" where
  "shortest F x n 0 = None"
| "shortest F x n (Suc k) =
     (let e = decExp x - int n in
      case find (\<lambda>c. fl F (of_int c * 10 powi e) = x) (candidates (x / 10 powi e)) of
        Some c \<Rightarrow> Some (if n = 0 \<and> c = 10 then (1, e + 1) else (c, e))
      | None \<Rightarrow> shortest F x (Suc n) k)"


text \<open>
  \<open>strconv.AppendFloat\<close> with the format that \<open>encoding/json\<close> chooses: a number that is very small or
  very large has an exponent, without the padding that is cleaned up.
\<close>

definition decimal :: "string \<Rightarrow> int \<Rightarrow> string" where
  "decimal ds dp =
     (if 0 < dp then take (nat dp) ds @ replicate (nat dp - length ds) (CHR ''0'') else ''0'') @
     (if dp < int (length ds) then CHR ''.'' # replicate (nat (- dp)) (CHR ''0'') @ drop (nat dp) ds else [])"

definition scientific :: "string \<Rightarrow> int \<Rightarrow> string" where
  "scientific ds dp = take 1 ds @ (if 1 < length ds then CHR ''.'' # drop 1 ds else []) @
     CHR ''e'' # (if dp - 1 < 0 then CHR ''-'' else CHR ''+'') # dec_of_nat (nat \<bar>dp - 1\<bar>)"

definition floatDigits :: nat where "floatDigits = 17"

definition positiveText :: "ieee \<Rightarrow> rat \<Rightarrow> string" where
  "positiveText F x = (case shortest F x 0 floatDigits of
     None \<Rightarrow> []
   | Some (c, e) \<Rightarrow> let ds = dec_of_nat (nat c); dp = int (length ds) + e in
       if x < fl F (1 / 10 ^ 6) \<or> fl F (10 ^ 21) \<le> x then scientific ds dp else decimal ds dp)"

definition floatText :: "ieee \<Rightarrow> rat \<Rightarrow> string" where
  "floatText F x = (if x = 0 then ''0'' else if x < 0 then CHR ''-'' # positiveText F (- x) else positiveText F x)"

text \<open>\<open>strconv.ParseFloat\<close> of a JSON number; one that is too large is an error.\<close>

definition unsignedValue :: "string \<Rightarrow> rat" where
  "unsignedValue s =
     (let ip = takeWhile is_digit s; r = dropWhile is_digit s;
          fp = (if hasPrefix r ''.'' then takeWhile is_digit (drop 1 r) else []);
          r2 = (if hasPrefix r ''.'' then dropWhile is_digit (drop 1 r) else r);
          ex = (if r2 = [] then 0
                else if hasPrefix (drop 1 r2) ''-'' then - int (nat_of_dec (drop 2 r2))
                else if hasPrefix (drop 1 r2) ''+'' then int (nat_of_dec (drop 2 r2))
                else int (nat_of_dec (drop 1 r2)))
      in of_nat (nat_of_dec (ip @ fp)) * 10 powi (ex - int (length fp)))"

definition parseFloat :: "ieee \<Rightarrow> string \<Rightarrow> rat option" where
  "parseFloat F s =
     (let x = fl F (if hasPrefix s ''-'' then - unsignedValue (drop 1 s) else unsignedValue s) in
      if \<bar>x\<bar> < 2 powi maxExp F then Some x else None)"


section \<open>Digits\<close>

lemma nat_of_dec_append: "nat_of_dec (a @ b) = nat_of_dec a * 10 ^ length b + nat_of_dec b"
proof -
  have "foldl (\<lambda>n c. 10 * n + digit_val c) m b = m * 10 ^ length b + foldl (\<lambda>n c. 10 * n + digit_val c) 0 b" for m
  proof (induction b arbitrary: m)
    case (Cons c b)
    let ?f = "\<lambda>n c. 10 * n + digit_val c"
    have "foldl ?f m (c # b) = foldl ?f (10 * m + digit_val c) b" by simp
    also have "\<dots> = (10 * m + digit_val c) * 10 ^ length b + foldl ?f 0 b" by (rule Cons)
    also have "\<dots> = m * 10 ^ length (c # b) + (digit_val c * 10 ^ length b + foldl ?f 0 b)" by (simp add: distrib_right)
    also have "digit_val c * 10 ^ length b + foldl ?f 0 b = foldl ?f (digit_val c) b" by (rule Cons [symmetric])
    also have "\<dots> = foldl ?f 0 (c # b)" by simp
    finally show ?case .
  qed simp
  then show ?thesis unfolding nat_of_dec_def foldl_append .
qed

lemma nat_of_dec_zeros [simp]: "nat_of_dec (replicate n (CHR ''0'')) = 0"
proof (induction n)
  case (Suc n)
  then show ?case using nat_of_dec_append [of "[CHR ''0'']" "replicate n (CHR ''0'')"]
    by (simp add: nat_of_dec_def digit_val_def)
qed (simp add: nat_of_dec_def)

lemma length_dec_of_nat: "0 < n \<Longrightarrow> 10 ^ (length (dec_of_nat n) - 1) \<le> n \<and> n < 10 ^ length (dec_of_nat n)"
proof (induction n rule: dec_of_nat.induct)
  case (1 n)
  show ?case
  proof (cases "n < 10")
    case True
    then show ?thesis using "1.prems" by (simp add: dec_of_nat.simps [of n])
  next
    case False
    then have IH: "10 ^ (length (dec_of_nat (n div 10)) - 1) \<le> n div 10" "n div 10 < 10 ^ length (dec_of_nat (n div 10))"
      using 1 by auto
    obtain k where k: "length (dec_of_nat (n div 10)) = Suc k" by (metis length_Suc_conv neq_Nil_conv dec_of_nat_not_Nil)
    have "length (dec_of_nat n) = Suc (Suc k)" using False k by (simp add: dec_of_nat.simps [of n])
    then show ?thesis using IH k by auto
  qed
qed

lemma powi10_less: "(10 :: rat) powi i < 10 powi j \<longleftrightarrow> i < j"
  using power_int_strict_increasing [of i j "10 :: rat"] power_int_increasing [of j i "10 :: rat"]
  by (cases "i < j") auto

lemma decExp:
  assumes "0 < x"
  shows "10 powi decExp x \<le> x" "x < 10 powi (decExp x + 1)"
proof -
  have "10 powi decExp x \<le> x \<and> x < 10 powi (decExp x + 1)"
  proof (cases "1 \<le> x")
    case True
    define n where "n = nat \<lfloor>x\<rfloor>"
    obtain k where k: "length (dec_of_nat n) = Suc k" by (metis length_Suc_conv neq_Nil_conv dec_of_nat_not_Nil)
    have n: "0 < n" "of_nat n = (of_int \<lfloor>x\<rfloor> :: rat)" using True by (auto simp: n_def of_nat_nat le_floor_iff)
    have b: "10 ^ k \<le> n" "n + 1 \<le> 10 ^ Suc k" using length_dec_of_nat [OF n(1)] k by auto
    have "(10 :: rat) ^ k \<le> of_nat n" using b(1) of_nat_le_iff [where 'a = rat, of "10 ^ k" n] by simp
    moreover have "(of_nat n + 1 :: rat) \<le> 10 ^ Suc k"
      using b(2) of_nat_le_iff [where 'a = rat, of "n + 1" "10 ^ Suc k"] by simp
    moreover have "of_int \<lfloor>x\<rfloor> \<le> x" "x < of_int \<lfloor>x\<rfloor> + 1" by linarith+
    ultimately have "10 ^ k \<le> x" "x < 10 ^ Suc k" using n(2) by linarith+
    moreover have "decExp x = int k" using True k by (simp add: decExp_def n_def)
    ultimately show ?thesis by (simp add: power_int_add)
  next
    case False
    define n where "n = nat (\<lceil>1 / x\<rceil> - 1)"
    obtain k where k: "length (dec_of_nat n) = Suc k" by (metis length_Suc_conv neq_Nil_conv dec_of_nat_not_Nil)
    have "1 < 1 / x" using False assms by (simp add: less_divide_eq)
    then have "of_int 1 < (of_int \<lceil>1 / x\<rceil> :: rat)" using le_of_int_ceiling [of "1 / x"] by linarith
    then have z: "1 < \<lceil>1 / x\<rceil>" by (simp only: of_int_less_iff)
    have n: "0 < n" unfolding n_def using z by linarith
    have "int n = \<lceil>1 / x\<rceil> - 1" unfolding n_def using z by linarith
    then have "of_int (int n) = (of_int (\<lceil>1 / x\<rceil> - 1) :: rat)" by (rule arg_cong)
    then have n: "0 < n" "of_nat n + 1 = (of_int \<lceil>1 / x\<rceil> :: rat)" using n by simp_all
    have b: "10 ^ k \<le> n" "n + 1 \<le> 10 ^ Suc k" using length_dec_of_nat [OF n(1)] k by auto
    have "(10 :: rat) ^ k \<le> of_nat n" using b(1) of_nat_le_iff [where 'a = rat, of "10 ^ k" n] by simp
    moreover have "(of_nat n + 1 :: rat) \<le> 10 ^ Suc k"
      using b(2) of_nat_le_iff [where 'a = rat, of "n + 1" "10 ^ Suc k"] by simp
    moreover have "1 / x \<le> of_int \<lceil>1 / x\<rceil>" "of_int \<lceil>1 / x\<rceil> < 1 / x + 1" by linarith+
    ultimately have "10 ^ k < 1 / x" "1 / x \<le> 10 ^ Suc k" using n(2) by linarith+
    then have "x < 1 / 10 ^ k" "1 / 10 ^ Suc k \<le> x" using assms by (simp_all add: field_simps)
    moreover have "decExp x = - int (Suc k)" using False k by (simp add: decExp_def n_def)
    moreover have "- int (Suc k) + 1 = - int k" by simp
    ultimately show ?thesis by (simp only: power_int_minus_divide power_int_of_nat)
  qed
  then show "10 powi decExp x \<le> x" "x < 10 powi (decExp x + 1)" by auto
qed

lemma candidates: "roundEven q \<in> set (candidates q)" "c \<in> set (candidates q) \<Longrightarrow> \<lfloor>q\<rfloor> \<le> c"
proof -
  show "roundEven q \<in> set (candidates q)"
  proof (cases "q = of_int \<lfloor>q\<rfloor>")
    case True
    then have "roundEven q = \<lfloor>q\<rfloor>" using roundEven_int [of "\<lfloor>q\<rfloor>"] by simp
    then show ?thesis by (simp add: candidates_def)
  next
    case False
    then show ?thesis by (cases q rule: roundEven_cases) (auto simp: candidates_def Let_def ceiling_altdef)
  qed
  show "\<lfloor>q\<rfloor> \<le> c" if "c \<in> set (candidates q)"
    using that floor_le_ceiling [of q] by (auto simp: candidates_def Let_def split: if_splits)
qed

text \<open>What is found reads back as the number.\<close>

lemma shortest_sound:
  assumes "shortest F x n k = Some (c, e)" "0 < x"
  shows "fl F (of_int c * 10 powi e) = x" "0 < c"
proof -
  have "fl F (of_int c * 10 powi e) = x \<and> 0 < c"
    using assms(1)
  proof (induction k arbitrary: n)
    case (Suc k)
    let ?e = "decExp x - int n"
    show ?case
    proof (cases "find (\<lambda>c. fl F (of_int c * 10 powi ?e) = x) (candidates (x / 10 powi ?e))")
      case None
      then show ?thesis using Suc by (simp add: Let_def)
    next
      case (Some d)
      then have d: "fl F (of_int d * 10 powi ?e) = x" "d \<in> set (candidates (x / 10 powi ?e))"
        by (auto simp: find_Some_iff)
      have "10 powi ?e \<le> x" using decExp(1) [OF assms(2)] power_int_increasing [of ?e "decExp x" "10 :: rat"] by simp
      then have "1 \<le> \<lfloor>x / 10 powi ?e\<rfloor>" by (simp add: le_floor_iff le_divide_eq)
      then have "0 < d" using candidates(2) [OF d(2)] by linarith
      then show ?thesis
        using Suc.prems Some d(1) by (auto simp: Let_def power_int_add mult.commute split: if_splits)
    qed
  qed simp
  then show "fl F (of_int c * 10 powi e) = x" "0 < c" by auto
qed

text \<open>Nine digits are enough for 24 bits, and seventeen for 53.\<close>

lemma shortest_found:
  assumes "isFloat F x" "0 < x" "0 < prec F" "2 ^ prec F < (10 :: rat) ^ N" "n \<le> N" "N < n + k"
  shows "\<exists>c e. shortest F x n k = Some (c, e)"
  using assms(5,6)
proof (induction k arbitrary: n)
  case (Suc k)
  let ?e = "decExp x - int n" and ?P = "\<lambda>n c. fl F (of_int c * 10 powi (decExp x - int n)) = x"
  show ?case
  proof (cases "find (?P n) (candidates (x / 10 powi ?e))")
    case (Some c)
    then show ?thesis by (auto simp: Let_def)
  next
    case None
    have "n \<noteq> N"
    proof
      assume n: "n = N"
      let ?c = "roundEven (x / 10 powi ?e)"
      have "of_int ?c * 10 powi ?e - x = (of_int ?c - x / 10 powi ?e) * 10 powi ?e" by (simp add: left_diff_distrib)
      then have "\<bar>of_int ?c * 10 powi ?e - x\<bar> = \<bar>of_int ?c - x / 10 powi ?e\<bar> * 10 powi ?e" by (simp only: abs_mult abs_of_pos [OF zero_less_power_int] zero_less_numeral)
      also have "\<dots> \<le> 1 / 2 * 10 powi ?e" using roundEven_close by (intro mult_right_mono) auto
      also have "\<dots> = 10 powi decExp x / 10 ^ N / 2" by (simp add: n power_int_diff)
      also have "\<dots> \<le> x / 10 ^ N / 2" using decExp(1) [OF assms(2)] by (intro divide_right_mono) auto
      also have "\<dots> < x / 2 ^ prec F / 2"
        using assms(2,4) by (intro divide_strict_right_mono divide_strict_left_mono) auto
      also have "\<dots> = x / 2 ^ Suc (prec F)" by simp
      finally have "?P n ?c" using assms(1-3) by (intro fl_near)
      then show False using None candidates(1) by (auto simp: find_None_iff)
    qed
    then have "\<exists>c e. shortest F x (Suc n) k = Some (c, e)" using Suc by simp
    then show ?thesis using None by (simp add: Let_def)
  qed
qed simp


section \<open>Reading the text\<close>

lemma not_digit [simp]: "\<not> is_digit (CHR ''.'')" "\<not> is_digit (CHR ''e'')"
  by (simp_all add: is_digit_def)

lemma digit_not_minus: "is_digit c \<Longrightarrow> c \<noteq> CHR ''-'' \<and> c \<noteq> CHR ''+'' \<and> c \<noteq> CHR ''.''"
  by (auto simp: is_digit_def)

text \<open>The three parts of a number, the last two of which may be missing.\<close>

definition fracPart :: "string \<Rightarrow> string" where
  "fracPart fp = (if fp = [] then [] else CHR ''.'' # fp)"

definition expPart :: "int \<Rightarrow> string" where
  "expPart i = CHR ''e'' # (if i < 0 then CHR ''-'' else CHR ''+'') # dec_of_nat (nat \<bar>i\<bar>)"

lemma span_digits:
  assumes "list_all is_digit ds" "r = [] \<or> \<not> is_digit (hd r)"
  shows "takeWhile is_digit (ds @ r) = ds \<and> dropWhile is_digit (ds @ r) = r"
  using assms by (induction ds) (cases r; simp)+

lemma unsignedValue_parts:
  assumes "list_all is_digit ip" "list_all is_digit fp"
  shows "unsignedValue (ip @ fracPart fp) = of_nat (nat_of_dec (ip @ fp)) / 10 ^ length fp"
    and "unsignedValue (ip @ fracPart fp @ expPart i) = of_nat (nat_of_dec (ip @ fp)) * 10 powi (i - int (length fp))"
proof -
  note span = span_digits [OF assms(1)] span_digits [OF assms(2)]
  have nil: "takeWhile is_digit ip = ip" "dropWhile is_digit ip = []" "takeWhile is_digit fp = fp" "dropWhile is_digit fp = []"
    using span [of "[]"] by simp_all
  have i: "(if i < 0 then - int (nat \<bar>i\<bar>) else int (nat \<bar>i\<bar>)) = i" by simp
  show "unsignedValue (ip @ fracPart fp) = of_nat (nat_of_dec (ip @ fp)) / 10 ^ length fp"
    using span(1) [of "CHR ''.'' # fp"]
    by (cases "fp = []") (simp_all add: nil unsignedValue_def fracPart_def power_int_minus_divide Let_def)
  show "unsignedValue (ip @ fracPart fp @ expPart i) = of_nat (nat_of_dec (ip @ fp)) * 10 powi (i - int (length fp))"
    using span(1) [of "CHR ''.'' # fp @ expPart i"] span [of "expPart i"]
    by (cases "fp = []") (auto simp: unsignedValue_def fracPart_def expPart_def nat_of_dec_dec_of_nat Let_def)
qed

lemma scientific_parts: "scientific ds dp = take 1 ds @ fracPart (drop 1 ds) @ expPart (dp - 1)"
  by (auto simp: scientific_def fracPart_def expPart_def)

definition intPart :: "string \<Rightarrow> int \<Rightarrow> string" where
  "intPart ds dp = (if 0 < dp then take (nat dp) ds @ replicate (nat dp - length ds) (CHR ''0'') else ''0'')"

definition restPart :: "string \<Rightarrow> int \<Rightarrow> string" where
  "restPart ds dp = (if dp < int (length ds) then replicate (nat (- dp)) (CHR ''0'') @ drop (nat dp) ds else [])"

lemma decimal_parts: "ds \<noteq> [] \<Longrightarrow> decimal ds dp = intPart ds dp @ fracPart (restPart ds dp)"
  by (auto simp: decimal_def fracPart_def intPart_def restPart_def)

lemma decimal_digits:
  assumes "list_all is_digit ds"
  shows "list_all is_digit (intPart ds dp)" "list_all is_digit (restPart ds dp)"
  using assms by (auto simp: intPart_def restPart_def list_all_iff is_digit_def dest: in_set_takeD in_set_dropD)

lemma decimal_value:
  assumes "list_all is_digit ds" "ds \<noteq> []"
  shows "unsignedValue (decimal ds dp) = of_nat (nat_of_dec ds) * 10 powi (dp - int (length ds))"
proof -
  let ?ip = "intPart ds dp" and ?fp = "restPart ds dp"
  have val: "unsignedValue (decimal ds dp) = of_nat (nat_of_dec (?ip @ ?fp)) / 10 ^ length ?fp"
    using unsignedValue_parts(1) [OF decimal_digits [OF assms(1)]] by (simp add: decimal_parts [OF assms(2)])
  consider "dp \<le> 0" | "0 < dp" "dp < int (length ds)" | "int (length ds) \<le> dp" by linarith
  then show ?thesis
  proof cases
    case 1
    have "0 < length ds" using assms(2) by simp
    then have l: "dp < int (length ds)" using 1 by linarith
    have p: "?ip = ''0''" "?fp = replicate (nat (- dp)) (CHR ''0'') @ ds" "dp - int (length ds) = - int (length ?fp)"
      using 1 l by (auto simp: intPart_def restPart_def)
    have "?ip @ ?fp = replicate (Suc (nat (- dp))) (CHR ''0'') @ ds" by (simp add: p)
    then have "nat_of_dec (?ip @ ?fp) = nat_of_dec ds" by (simp only: nat_of_dec_append nat_of_dec_zeros)
    then show ?thesis unfolding val p(3) power_int_minus_divide power_int_of_nat by simp
  next
    case 2
    then have p: "?ip @ ?fp = ds" "dp - int (length ds) = - int (length ?fp)"
      by (auto simp: intPart_def restPart_def)
    then show ?thesis unfolding val p power_int_minus_divide power_int_of_nat by simp
  next
    case 3
    have "0 < length ds" using assms(2) by simp
    then have "0 < dp" using 3 by linarith
    then have p: "?ip = ds @ replicate (nat dp - length ds) (CHR ''0'')" "?fp = []" "dp - int (length ds) = int (nat dp - length ds)"
      using 3 by (auto simp: intPart_def restPart_def)
    then show ?thesis unfolding val p power_int_of_nat by (simp add: nat_of_dec_append)
  qed
qed

lemma scientific_value:
  assumes "list_all is_digit ds" "ds \<noteq> []"
  shows "unsignedValue (scientific ds dp) = of_nat (nat_of_dec ds) * 10 powi (dp - int (length ds))"
proof -
  have d: "list_all is_digit (take 1 ds)" "list_all is_digit (drop 1 ds)"
    using assms(1) by (auto simp: list_all_iff dest: in_set_takeD in_set_dropD)
  have "dp - 1 - int (length (drop 1 ds)) = dp - int (length ds)" using assms(2) by (cases ds) auto
  then show ?thesis
    using unsignedValue_parts(2) [OF d] by (simp only: scientific_parts append_take_drop_id)
qed


lemma text_head:
  assumes "list_all is_digit ds" "ds \<noteq> []" "s \<in> {decimal ds dp, scientific ds dp}"
  shows "\<exists>c r. s = c # r \<and> is_digit c"
proof -
  obtain d ds' where ds: "ds = d # ds'" "is_digit d" using assms(1,2) by (cases ds) auto
  have z: "is_digit (CHR ''0'')" by (simp add: is_digit_def)
  consider "s = scientific ds dp" | "s = decimal ds dp" "0 < dp" | "s = decimal ds dp" "dp \<le> 0" using assms(3) by fastforce
  then show ?thesis
  proof cases
    case 2
    then obtain k where "nat dp = Suc k" by (metis gr0_conv_Suc zero_less_nat_eq)
    with 2 show ?thesis by (simp add: decimal_def ds)
  qed (use ds z in \<open>simp_all add: decimal_def scientific_def\<close>)
qed

text \<open>The text of a number: its parts, and what it reads back as.\<close>

lemma positiveText:
  assumes "isFloat F x" "0 < x" "F \<in> {binary32, binary64}"
  shows "\<exists>ds e. positiveText F x \<in> {decimal ds (int (length ds) + e), scientific ds (int (length ds) + e)} \<and>
    list_all is_digit ds \<and> ds \<noteq> [] \<and> hd ds \<noteq> CHR ''0'' \<and> fl F (of_nat (nat_of_dec ds) * 10 powi e) = x"
proof -
  have F: "0 < prec F" "2 ^ prec F < (10 :: rat) ^ 16" using assms(3) by (auto simp: binary32_def binary64_def)
  have "(0 :: nat) \<le> 16" "(16 :: nat) < 0 + floatDigits" by (simp_all add: floatDigits_def)
  from shortest_found [OF assms(1,2) F this]
  obtain c e where s: "shortest F x 0 floatDigits = Some (c, e)" by auto
  note c = shortest_sound [OF s assms(2)]
  let ?ds = "dec_of_nat (nat c)"
  have "hd ?ds \<noteq> CHR ''0''" using dec_of_nat_zero [of "nat c"] c(2) by auto
  moreover have "fl F (of_nat (nat_of_dec ?ds) * 10 powi e) = x" using c by (simp add: nat_of_dec_dec_of_nat)
  ultimately have "positiveText F x \<in> {decimal ?ds (int (length ?ds) + e), scientific ?ds (int (length ?ds) + e)} \<and>
      list_all is_digit ?ds \<and> ?ds \<noteq> [] \<and> hd ?ds \<noteq> CHR ''0'' \<and> fl F (of_nat (nat_of_dec ?ds) * 10 powi e) = x"
    by (simp add: positiveText_def s Let_def dec_of_nat_digits)
  then show ?thesis by blast
qed

text \<open>A number is read back from its text.\<close>

lemma parse_floatText:
  assumes "isFloat F x" "0 \<le> x" "x < 2 powi maxExp F" "F \<in> {binary32, binary64}"
  shows "parseFloat F (floatText F x) = Some x"
proof (cases "x = 0")
  case True
  then show ?thesis using assms(4) nat_of_dec_zeros [of 1]
    by (auto simp: floatText_def parseFloat_def unsignedValue_def fl_def is_digit_def)
next
  case False
  then have pos: "0 < x" using assms(2) by simp
  from positiveText [OF assms(1) pos assms(4)] obtain ds e where
      t: "positiveText F x \<in> {decimal ds (int (length ds) + e), scientific ds (int (length ds) + e)}"
      "list_all is_digit ds" "ds \<noteq> []" "hd ds \<noteq> CHR ''0''" "fl F (of_nat (nat_of_dec ds) * 10 powi e) = x" by blast
  have v: "unsignedValue (positiveText F x) = of_nat (nat_of_dec ds) * 10 powi e"
    using t(1) decimal_value [OF t(2,3)] scientific_value [OF t(2,3)] by auto
  have "\<not> hasPrefix (positiveText F x) ''-''"
    using text_head [OF t(2,3,1)] by (auto dest: digit_not_minus)
  then show ?thesis using v t(5) pos assms(3) by (simp add: floatText_def parseFloat_def Let_def)
qed


section \<open>In a document\<close>

text \<open>A JSON number: an integer part without a leading zero, a fraction, an exponent.\<close>

lemma scan_int_part:
  assumes "list_all is_digit ip" "ip \<noteq> []" "hd ip \<noteq> CHR ''0'' \<or> ip = ''0''" "r = [] \<or> \<not> is_digit (hd r)"
  shows "scan_int (ip @ r) = Some (ip, r)"
  using span_digits [OF assms(1,4)] assms(2,3) by (auto simp: scan_int_def Let_def)

lemma scan_frac_part:
  assumes "list_all is_digit fp" "r = [] \<or> \<not> is_digit (hd r) \<and> hd r \<noteq> CHR ''.''"
  shows "scan_frac (fracPart fp @ r) = Some (fracPart fp, r)"
proof (cases "fp = []")
  case True
  then show ?thesis using assms(2) by (cases r) (simp_all add: scan_frac_def fracPart_def)
next
  case False
  have "takeWhile is_digit (fp @ r) = fp" using span_digits [OF assms(1)] assms(2) by blast
  with False show ?thesis by (simp add: scan_frac_def fracPart_def)
qed

lemma scan_exp_part:
  assumes "ends_number c"
  shows "scan_exp (expPart i @ c # r) = Some (expPart i, c # r)" "scan_exp (c # r) = Some ([], c # r)"
proof -
  have "takeWhile is_digit (dec_of_nat n @ c # r) = dec_of_nat n" for n
    using span_digits [OF dec_of_nat_digits, of "c # r"] ends_number_not [OF assms] by simp
  then show "scan_exp (expPart i @ c # r) = Some (expPart i, c # r)" "scan_exp (c # r) = Some ([], c # r)"
    using ends_number_not [OF assms] by (simp_all add: scan_exp_def expPart_def Let_def)
qed

lemma scan_parts:
  assumes "list_all is_digit ip" "ip \<noteq> []" "hd ip \<noteq> CHR ''0'' \<or> ip = ''0''" "list_all is_digit fp" "ends_number c"
  shows "scan_num (ip @ fracPart fp @ c # r) = Some (ip @ fracPart fp, c # r)"
    and "scan_num (ip @ fracPart fp @ expPart i @ c # r) = Some (ip @ fracPart fp @ expPart i, c # r)"
proof -
  note e = ends_number_not [OF assms(5)]
  have m: "scan_sign (ip @ s) = ([], ip @ s)" for s
    using assms(1,2) by (cases ip) (auto simp: scan_sign_def dest: digit_not_minus)
  have "fracPart fp @ c # r = [] \<or> \<not> is_digit (hd (fracPart fp @ c # r))" "expPart i @ c # r = [] \<or> \<not> is_digit (hd (expPart i @ c # r))"
    "fracPart fp @ expPart i @ c # r = [] \<or> \<not> is_digit (hd (fracPart fp @ expPart i @ c # r))"
    using e by (auto simp: fracPart_def expPart_def)
  note ip = scan_int_part [OF assms(1-3) this(1)] scan_int_part [OF assms(1-3) this(3)]
  have "scan_frac (fracPart fp @ c # r) = Some (fracPart fp, c # r)"
    "scan_frac (fracPart fp @ expPart i @ c # r) = Some (fracPart fp, expPart i @ c # r)"
    using e by (auto intro!: scan_frac_part [OF assms(4)] simp: expPart_def)
  then show "scan_num (ip @ fracPart fp @ c # r) = Some (ip @ fracPart fp, c # r)"
    "scan_num (ip @ fracPart fp @ expPart i @ c # r) = Some (ip @ fracPart fp @ expPart i, c # r)"
    using scan_exp_part [OF assms(5)] by (simp_all add: scan_num_def m ip)
qed

lemma scan_positive:
  assumes "list_all is_digit ds" "ds \<noteq> []" "hd ds \<noteq> CHR ''0''" "s \<in> {decimal ds dp, scientific ds dp}" "ends_number c"
  shows "scan_num (s @ c # r) = Some (s, c # r)"
proof (cases "s = decimal ds dp")
  case True
  note d = decimal_digits [OF assms(1), of dp]
  have "intPart ds dp \<noteq> []" "hd (intPart ds dp) \<noteq> CHR ''0'' \<or> intPart ds dp = ''0''"
    using assms(2,3) by (auto simp: intPart_def hd_append hd_take)
  then show ?thesis
    using scan_parts(1) [OF d(1) _ _ d(2) assms(5), of r] by (simp add: True decimal_parts [OF assms(2)])
next
  case False
  have d: "list_all is_digit (take 1 ds)" "list_all is_digit (drop 1 ds)"
    using assms(1) by (auto simp: list_all_iff dest: in_set_takeD in_set_dropD)
  then show ?thesis
    using False scan_parts(2) [OF d(1) _ _ d(2) assms(5), of "dp - 1" r] assms(2-4)
    by (simp add: scientific_parts hd_take)
qed

text \<open>A number in a document is the literal of its text.\<close>

lemma jvalue_float:
  assumes "isFloat F x" "0 \<le> x" "F \<in> {binary32, binary64}" "ends_number c"
  shows "jvalue (Suc n) (floatText F x @ c # r) = Some (JNum (floatText F x), c # r)"
proof -
  have "scan_num (floatText F x @ c # r) = Some (floatText F x, c # r) \<and> (\<exists>d s. floatText F x = d # s \<and> is_digit d)"
  proof (cases "x = 0")
    case True
    have "list_all is_digit ''0''" by (simp add: is_digit_def)
    then show ?thesis using scan_parts(1) [of "''0''" "[]" c r] assms(4) True by (simp add: floatText_def fracPart_def)
  next
    case False
    then have pos: "0 < x" using assms(2) by simp
    from positiveText [OF assms(1) pos assms(3)] obtain ds e where t:
        "positiveText F x \<in> {decimal ds (int (length ds) + e), scientific ds (int (length ds) + e)}"
        "list_all is_digit ds" "ds \<noteq> []" "hd ds \<noteq> CHR ''0''" by blast
    then show ?thesis
      using scan_positive [OF t(2-4,1) assms(4)] text_head [OF t(2,3,1)] pos by (auto simp: floatText_def)
  qed
  then obtain d s where t: "scan_num (floatText F x @ c # r) = Some (floatText F x, c # r)" "floatText F x = d # s" "is_digit d" by blast
  then show ?thesis
    using is_digit_not [OF t(3)] by (simp add: skip_ws_def scan_literal_def)
qed

end
