(* ===== verification/Version.thy ===== *)
theory Version
  imports Prelude
begin

text \<open>The version of the program (\<open>internal/version/version.go\<close>); what the linker and the build set are arguments.\<close>

definition semverAlphabet :: string where
  "semverAlphabet = ''0123456789ABCDEFGHIJKLMNOPQRSTUVWXYZabcdefghijklmnopqrstuvwxyz-.''"

text \<open>The runes of the alphabet are single bytes, which no other rune contains.\<close>

definition normalizeVerString :: "string \<Rightarrow> string" where
  "normalizeVerString s = filter (\<lambda>r. r \<in> set semverAlphabet) s"

text \<open>The settings of the build information, if there is any; a later one overrides.\<close>

fun setting :: "string \<Rightarrow> (string \<times> string) list \<Rightarrow> string \<Rightarrow> string" where
  "setting key [] v = v"
| "setting key ((k, x) # bs) v = setting key bs (if k = key then x else v)"

definition vcsCommitID :: "(string \<times> string) list option \<Rightarrow> string" where
  "vcsCommitID bi = (case bi of None \<Rightarrow> [] | Some settings \<Rightarrow>
     let vcs = setting ''vcs'' settings []; revision = setting ''vcs.revision'' settings [] in
     if vcs = [] then []
     else if vcs = ''git'' \<and> length revision > 9 then take 9 revision
     else revision)"

definition major :: nat where "major = 1"
definition minor :: nat where "minor = 5"
definition patch :: nat where "patch = 0"

definition IsPreRelease :: "string \<Rightarrow> bool" where "IsPreRelease preRelease \<longleftrightarrow> preRelease \<noteq> []"

definition versionString :: "string \<Rightarrow> (string \<times> string) list option \<Rightarrow> string" where
  "versionString preRelease bi =
     (let version = dec_of_nat major @ ''.'' @ dec_of_nat minor @ ''.'' @ dec_of_nat patch;
          preRelease = normalizeVerString preRelease;
          version = (if preRelease \<noteq> [] then version @ ''-'' @ preRelease else version);
          buildMetadata = normalizeVerString (vcsCommitID bi)
      in if buildMetadata \<noteq> [] then version @ ''+'' @ buildMetadata else version)"

text \<open>A version consists of characters that versions may contain, whatever the build says.\<close>

lemma normalizeVerString_idem: "normalizeVerString (normalizeVerString s) = normalizeVerString s"
  by (simp add: normalizeVerString_def)

lemma version_alphabet: "set (versionString pre bi) \<subseteq> insert (CHR ''+'') (set semverAlphabet)"
proof -
  have "set (normalizeVerString s) \<subseteq> set semverAlphabet" for s by (auto simp: normalizeVerString_def)
  moreover have "set (dec_of_nat major @ ''.'' @ dec_of_nat minor @ ''.'' @ dec_of_nat patch) \<subseteq> set semverAlphabet"
    and "CHR ''-'' \<in> set semverAlphabet"
    by code_simp+
  ultimately show ?thesis by (auto simp: versionString_def Let_def)
qed

end
