(* ===== verification/VspInfo.thy ===== *)
theory VspInfo
  imports FloatText Version VoteHandlers Client
begin

text \<open>
  \<open>internal/webapi/vspinfo.go\<close>: what the VSP says about itself, from the cached statistics and the
  configuration, with \<open>VspInfo\<close> of \<open>client/client.go\<close>, which asks for it.
\<close>

section \<open>The response\<close>

text \<open>The members of the configuration and the build that only this handler reads.\<close>

record infoConfig =
  ifPubKey :: bytes
  ifFee :: rat
  ifClosedMsg :: string
  ifPreRelease :: string
  ifBuild :: "(string \<times> string) list option"

record vspInfoResponse =
  viAPIVersions :: "int64 list"
  viTimestamp :: int64
  viPubKey :: bytes
  viFeePercentage :: rat
  viVspClosed :: bool
  viVspClosedMsg :: string
  viNetwork :: string
  viVspmVersion :: string
  viVoting :: int64
  viVoted :: int64
  viTotalVotingWallets :: int64
  viVotingWalletsOnline :: int64
  viExpired :: int64
  viMissed :: int64
  viBlockHeight :: uint32
  viNetworkProportion :: rat

text \<open>\<open>json.Marshal\<close> of an array of integers and of the response.\<close>

fun elemsText :: "int list \<Rightarrow> string" where
  "elemsText [] = []"
| "elemsText [i] = dec_of_int i"
| "elemsText (i # is) = dec_of_int i @ CHR '','' # elemsText is"

definition boolText :: "bool \<Rightarrow> string" where
  "boolText b = (if b then ''true'' else ''false'')"

definition vspInfoMembers :: "vspInfoResponse \<Rightarrow> (string \<times> string) list" where
  "vspInfoMembers r =
     [(''apiversions'', CHR ''['' # elemsText (map sint (viAPIVersions r)) @ '']''),
      (''timestamp'', dec_of_int (sint (viTimestamp r))), (''pubkey'', quote (base64 (viPubKey r))),
      (''feepercentage'', floatText binary64 (viFeePercentage r)), (''vspclosed'', boolText (viVspClosed r)),
      (''vspclosedmsg'', quote (viVspClosedMsg r)), (''network'', quote (viNetwork r)),
      (''vspdversion'', quote (viVspmVersion r)), (''voting'', dec_of_int (sint (viVoting r))),
      (''voted'', dec_of_int (sint (viVoted r))), (''totalvotingwallets'', dec_of_int (sint (viTotalVotingWallets r))),
      (''votingwalletsonline'', dec_of_int (sint (viVotingWalletsOnline r))), (''expired'', dec_of_int (sint (viExpired r))),
      (''missed'', dec_of_int (sint (viMissed r))), (''blockheight'', dec_of_int (uint (viBlockHeight r))),
      (''estimatednetworkproportion'', floatText binary32 (viNetworkProportion r))]"

definition vspInfoJSON :: "vspInfoResponse \<Rightarrow> bytes" where
  "vspInfoJSON r = CHR ''{'' # raw_members (vspInfoMembers r) @ ''}''"

section \<open>The handler\<close>

definition infoOf :: "('s, 'x, 'f) api \<Rightarrow> infoConfig \<Rightarrow> int64 \<Rightarrow> cacheData \<Rightarrow> vspInfoResponse" where
  "infoOf W I timestamp cachedStats = \<lparr>viAPIVersions = [3], viTimestamp = timestamp, viPubKey = ifPubKey I,
     viFeePercentage = ifFee I, viVspClosed = wVspClosed W, viVspClosedMsg = ifClosedMsg I, viNetwork = netName (wNet W),
     viVspmVersion = versionString (ifPreRelease I) (ifBuild I), viVoting = nVoting cachedStats, viVoted = nVoted cachedStats,
     viTotalVotingWallets = nTotalWallets cachedStats, viVotingWalletsOnline = nWalletsOnline cachedStats,
     viExpired = nExpired cachedStats, viMissed = nMissed cachedStats, viBlockHeight = nBlockHeight cachedStats,
     viNetworkProportion = nNetworkProportion cachedStats\<rparr>"

definition vspInfo :: "('s, 'x, 'f) api \<Rightarrow> infoConfig \<Rightarrow> 's handler" where
  "vspInfo W I c =
     bindA (mustGet (cxCache c)) (\<lambda>cachedStats.
     bindA (now (wEnv W)) (\<lambda>n.
     bindA (sendJSONResponse W (Inr (vspInfoJSON (infoOf W I (unixOf n) cachedStats))) c) (\<lambda>(c', _). ret c')))"

definition routeVspInfo :: "('s, 'x, 'f) api \<Rightarrow> infoConfig \<Rightarrow> 's handler list" where
  "routeVspInfo W I = [requireWebCache W, vspInfo W I]"

section \<open>The client\<close>

text \<open>A floating-point member, and a slice of integers: an element that is null is a zero.\<close>

fun float_field :: "ieee \<Rightarrow> (rat \<Rightarrow> 'a \<Rightarrow> 'a) \<Rightarrow> json \<Rightarrow> 'a \<Rightarrow> 'a option" where
  "float_field F upd (JNum t) x = map_option (\<lambda>v. upd v x) (parseFloat F t)"
| "float_field F upd JNull x = Some x"
| "float_field F upd _ x = None"

fun intElems :: "json list \<Rightarrow> int64 list option" where
  "intElems [] = Some []"
| "intElems (v # vs) = (case int64_field (\<lambda>i _. i) v 0 of
     None \<Rightarrow> None | Some i \<Rightarrow> map_option ((#) i) (intElems vs))"

fun ints_field :: "(int64 list \<Rightarrow> 'a \<Rightarrow> 'a) \<Rightarrow> json \<Rightarrow> 'a \<Rightarrow> 'a option" where
  "ints_field upd (JArr vs) x = map_option (\<lambda>is. upd is x) (intElems vs)"
| "ints_field upd JNull x = Some (upd [] x)"
| "ints_field upd _ x = None"

definition vspInfoFields :: "vspInfoResponse field list" where
  "vspInfoFields = [(''apiversions'', ints_field (\<lambda>v r. r\<lparr>viAPIVersions := v\<rparr>)),
     (''timestamp'', int64_field (\<lambda>v r. r\<lparr>viTimestamp := v\<rparr>)), (''pubkey'', bytes_field (\<lambda>v r. r\<lparr>viPubKey := v\<rparr>)),
     (''feepercentage'', float_field binary64 (\<lambda>v r. r\<lparr>viFeePercentage := v\<rparr>)),
     (''vspclosed'', bool_field (\<lambda>v r. r\<lparr>viVspClosed := v\<rparr>)), (''vspclosedmsg'', str_field (\<lambda>v r. r\<lparr>viVspClosedMsg := v\<rparr>)),
     (''network'', str_field (\<lambda>v r. r\<lparr>viNetwork := v\<rparr>)), (''vspdversion'', str_field (\<lambda>v r. r\<lparr>viVspmVersion := v\<rparr>)),
     (''voting'', int64_field (\<lambda>v r. r\<lparr>viVoting := v\<rparr>)), (''voted'', int64_field (\<lambda>v r. r\<lparr>viVoted := v\<rparr>)),
     (''totalvotingwallets'', int64_field (\<lambda>v r. r\<lparr>viTotalVotingWallets := v\<rparr>)),
     (''votingwalletsonline'', int64_field (\<lambda>v r. r\<lparr>viVotingWalletsOnline := v\<rparr>)),
     (''expired'', int64_field (\<lambda>v r. r\<lparr>viExpired := v\<rparr>)), (''missed'', int64_field (\<lambda>v r. r\<lparr>viMissed := v\<rparr>)),
     (''blockheight'', uint32_field (\<lambda>v r. r\<lparr>viBlockHeight := v\<rparr>)),
     (''estimatednetworkproportion'', float_field binary32 (\<lambda>v r. r\<lparr>viNetworkProportion := v\<rparr>))]"

definition zeroVspInfo :: vspInfoResponse where
  "zeroVspInfo = \<lparr>viAPIVersions = [], viTimestamp = 0, viPubKey = [], viFeePercentage = 0, viVspClosed = False,
     viVspClosedMsg = [], viNetwork = [], viVspmVersion = [], viVoting = 0, viVoted = 0, viTotalVotingWallets = 0,
     viVotingWalletsOnline = 0, viExpired = 0, viMissed = 0, viBlockHeight = 0, viNetworkProportion = 0\<rparr>"

definition get :: "client \<Rightarrow> 's transport \<Rightarrow> string \<Rightarrow> (bytes \<Rightarrow> 'r outcome) \<Rightarrow> ('s, errorResponse + 'r) act" where
  "get C T path unmarshal = doRequest C T MethodGet path [] unmarshal []"

text \<open>The result is a pointer, nil if the server sent null.\<close>

definition clientVspInfo :: "client \<Rightarrow> 's transport \<Rightarrow> ('s, errorResponse + vspInfoResponse option) act" where
  "clientVspInfo C T = get C T ''/api/v3/vspinfo'' (unmarshal_ptr vspInfoFields zeroVspInfo)"

end
