(* ===== verification/V3Tool.thy ===== *)
theory V3Tool
  imports ClientProps Notifs Config VspInfo
begin

text \<open>
  \<open>cmd/v3tool\<close>: a tool that takes every ticket of a wallet through the whole API with the client:
  fee address, fee payment, status, vote choices, status. Logging and sleeping are left out.
\<close>

section \<open>\<open>monwallet.go\<close>\<close>

text \<open>
  The parts outside the repository: the environment with the wallet, the chain library, the HTTP
  transport, what the client needs beside the key of the VSP, and the addresses of a script (None if it is not
  standard).
\<close>

record ('s, 'x, 'f) tool =
  tlEnv :: "'s env"
  tlLib :: "('x, 'f) lib"
  tlNet :: network
  tlHTTP :: "'s transport"
  tlClient :: client
  tlScriptAddrs :: "bytes \<Rightarrow> string list option"

definition newWalletRPC :: "'s env \<Rightarrow> ('s, unit) act" where
  "newWalletRPC E = askUnit E (Call (Wallet 0) ''dial'' [])"

text \<open>\<open>tx.Deserialize\<close> of a hexadecimal text.\<close>

definition deserialize :: "('x, 'f) lib \<Rightarrow> string \<Rightarrow> msgTx outcome" where
  "deserialize l s = fromSum (lbFromBytes l (hexPrefix s))"

definition createFeeTx :: "'s env \<Rightarrow> ('x, 'f) lib \<Rightarrow> string \<Rightarrow> int64 \<Rightarrow> ('s, string) act" where
  "createFeeTx E l addr fee =
     bindA (askStr E (Call (Wallet 0) ''createrawtransaction'' [AStr addr, AInt (sint fee)])) (\<lambda>msgtxstr.
     bindA (askStr E (Call (Wallet 0) ''fundrawtransaction'' [AStr msgtxstr, AStr ''default'', AInt 0])) (\<lambda>fundTx.
     bindA (lift (deserialize l fundTx)) (\<lambda>tx.
     let transactions = map (\<lambda>v. lbHashStr l (prevHash v) @ '':'' @ dec_of_nat (unat (prevIndex v))) (txIns tx) in
     bindA (ask E (Call (Wallet 0) ''lockunspent'' [ABool False, AStrs transactions])) (\<lambda>r. case r of
       RBool locked \<Rightarrow>
         if \<not> locked then failA (Plain ''unspent output not locked'')
         else bindA (ask E (Call (Wallet 0) ''signrawtransaction'' [AStr fundTx])) (\<lambda>r. case r of
           RSigned signedTx isComplete \<Rightarrow>
             if \<not> isComplete then failA (Plain ''not all signed'') else ret signedTx
         | _ \<Rightarrow> failA badReply)
     | _ \<Rightarrow> failA badReply))))"

text \<open>\<open>SignMessage\<close> of an answer of the wallet; it is the signer of the client.\<close>

definition SignMessage :: "err + string \<Rightarrow> bytes outcome" where
  "SignMessage answer = andThen (fromSum answer) (\<lambda>signature. base64Decode signature)"

definition dumpPrivKey :: "'s env \<Rightarrow> string \<Rightarrow> ('s, string) act" where
  "dumpPrivKey E addr = askStr E (Call (Wallet 0) ''dumpprivkey'' [AStr addr])"

definition getTickets :: "'s env \<Rightarrow> ('s, string list) act" where
  "getTickets E = bindA (ask E (Call (Wallet 0) ''gettickets'' [ABool True])) (\<lambda>r. case r of
     RTickets ts \<Rightarrow> ret (map wtHash ts) | _ \<Rightarrow> failA badReply)"

definition getTicketDetails :: "('s, 'x, 'f) tool \<Rightarrow> string \<Rightarrow> ('s, string \<times> string \<times> string) act" where
  "getTicketDetails V ticketHash =
     bindA (askStr (tlEnv V) (Call (Wallet 0) ''gettransaction'' [AStr ticketHash, ABool False])) (\<lambda>txHex.
     bindA (lift (deserialize (tlLib V) txHex)) (\<lambda>msgTx. case txOuts msgTx of
       out0 # out1 # _ \<Rightarrow>
         (case tlScriptAddrs V (outPkScript out0) of
            None \<Rightarrow> failA (Plain ''invalid script version 0'')
          | Some [submissionAddr] \<Rightarrow>
              bindA (lift (fromSum (lbCommitmentAddr (tlLib V) (outPkScript out1)))) (\<lambda>addr.
              bindA (dumpPrivKey (tlEnv V) submissionAddr) (\<lambda>privKeyStr.
              ret (txHex, privKeyStr, addr)))
          | Some _ \<Rightarrow> failA (Plain ''submissionAddr != 1''))
     | _ \<Rightarrow> failA (Plain ''msgTx.TxOut < 2'')))"

section \<open>\<open>main.go\<close>\<close>

definition vspmURL :: string where "vspmURL = ''http://localhost:8800''"

text \<open>The key of the VSP is taken from a response that is signed with it; the status is not looked at.\<close>

definition getVspPubKey :: "('s, 'x, 'f) tool \<Rightarrow> string \<Rightarrow> ('s, bytes) act" where
  "getVspPubKey V url =
     bindA (tlHTTP V \<lparr>rqMethod = MethodGet, rqURL = url @ ''/api/v3/vspinfo'', rqSig = None, rqBody = None\<rparr>) (\<lambda>resp.
     bindA (lift (fromSum (rsBody resp))) (\<lambda>b.
     bindA (lift (unmarshal_struct vspInfoFields zeroVspInfo b)) (\<lambda>j.
     bindA (lift (ValidateServerSignature ((tlClient V)\<lparr>cPubKey := viPubKey j\<rparr>) (rsSig resp) b)) (\<lambda>_. ret (viPubKey j)))))"

text \<open>\<open>errors.Is(err, context.Canceled)\<close> ends the program without an error.\<close>

definition exitCode :: "err \<Rightarrow> int" where
  "exitCode e = (if is_canceled e then 0 else 1)"

definition tspendDemo :: gomap where
  "tspendDemo = Some [(''6c78690fa2fa31803df0376897725704e9dc19ecbdf80061e79b69de93ca1360'', ''no''),
     (''abb86660dda1f1b66544bab24a823a22e9213ada48649f0d913623f49e17dacb'', ''yes'')]"

definition treasuryDemo :: gomap where
  "treasuryDemo = Some [(''03f6e7041f1cf51ee10e0a01cd2b0385ce3cd9debaabb2296f7e9dee9329da946c'', ''no''),
     (''0319a37405cb4d1691971847d7719cfce70857c0f6e97d7c9174a3998cf0ab86dd'', ''yes'')]"

text \<open>The first agenda of the current vote version; there is none if the version has no agendas.\<close>

definition firstAgenda :: "network \<Rightarrow> string outcome" where
  "firstAgenda n = andThen (index (case map_of (Deployments n) (CurrentVoteVersion n) of None \<Rightarrow> [] | Some as \<Rightarrow> as) 0)
     (\<lambda>agenda. Ok (fst agenda))"

text \<open>
  A call of the client in the loop: an error of the API counts as an error that is not a
  cancellation. The result of a ticket is the exit code, None to go on with the next ticket.
\<close>

definition callOr :: "('s, errorResponse + 'r) act \<Rightarrow> ('s, int option) act \<Rightarrow> ('r \<Rightarrow> ('s, int option) act) \<Rightarrow> ('s, int option) act" where
  "callOr call failed k =
     tryA call (\<lambda>e. if is_canceled e then ret (Some 0) else failed) (\<lambda>r. case r of Inl _ \<Rightarrow> failed | Inr resp \<Rightarrow> k resp)"

definition payTicket :: "('s, 'x, 'f) tool \<Rightarrow> client \<Rightarrow> string \<Rightarrow> string \<Rightarrow> string \<Rightarrow> feeAddressResponse \<Rightarrow> ('s, int option) act" where
  "payTicket V vClient ticketHash privKeyStr commitmentAddr feeAddrResp =
     tryA (createFeeTx (tlEnv V) (tlLib V) (frFeeAddress feeAddrResp) (frFeeAmount feeAddrResp))
       (\<lambda>e. ret (Some (exitCode e))) (\<lambda>feeTx.
     bindA (lift (firstAgenda (tlNet V))) (\<lambda>agendaID.
     bindA (now (tlEnv V)) (\<lambda>n.
     callOr (clientPayFee vClient (tlHTTP V) \<lparr>pfTimestamp = unixOf n, pfTicketHash = ticketHash, pfFeeTx = feeTx,
         pfVotingKey = privKeyStr, pfVoteChoices = Some [(agendaID, ''no'')], pfTSpendPolicy = tspendDemo,
         pfTreasuryPolicy = treasuryDemo\<rparr> commitmentAddr) (ret None) (\<lambda>_.
     callOr (clientTicketStatus vClient (tlHTTP V) ticketHash commitmentAddr) (ret (Some 1)) (\<lambda>_.
     bindA (now (tlEnv V)) (\<lambda>n.
     callOr (clientSetVoteChoices vClient (tlHTTP V) \<lparr>vcTimestamp = unixOf n, vcTicketHash = ticketHash,
         vcVoteChoices = Some [(agendaID, ''yes'')], vcTSpendPolicy = tspendDemo, vcTreasuryPolicy = treasuryDemo\<rparr>
         commitmentAddr) (ret (Some 1)) (\<lambda>_.
     callOr (clientTicketStatus vClient (tlHTTP V) ticketHash commitmentAddr) (ret (Some 1)) (\<lambda>_. ret None))))))))"

definition processTicket :: "('s, 'x, 'f) tool \<Rightarrow> client \<Rightarrow> string \<Rightarrow> ('s, int option) act" where
  "processTicket V vClient ticketHash =
     tryA (getTicketDetails V ticketHash) (\<lambda>e. ret (Some (exitCode e))) (\<lambda>(txHex, privKeyStr, commitmentAddr).
     bindA (now (tlEnv V)) (\<lambda>n.
     tryA (clientFeeAddress vClient (tlHTTP V) \<lparr>faTimestamp = unixOf n, faTicketHash = ticketHash, faTicketHex = txHex,
         faParentHex = txHex\<rparr> commitmentAddr) (\<lambda>e. ret (Some (exitCode e))) (\<lambda>r. case r of
       Inl apiErr \<Rightarrow> if erCode apiErr = ErrFeeAlreadyReceived then ret None else ret (Some 1)
     | Inr feeAddrResp \<Rightarrow> payTicket V vClient ticketHash privKeyStr commitmentAddr feeAddrResp)))"

fun processAll :: "('s, 'x, 'f) tool \<Rightarrow> client \<Rightarrow> string list \<Rightarrow> ('s, int) act" where
  "processAll V vClient [] = ret 0"
| "processAll V vClient (ticketHash # hs) =
     bindA (canceled (tlEnv V)) (\<lambda>c. if c then ret 0 else
     bindA (processTicket V vClient ticketHash) (\<lambda>r. case r of Some code \<Rightarrow> ret code | None \<Rightarrow> processAll V vClient hs))"

definition runTool :: "('s, 'x, 'f) tool \<Rightarrow> ('s, int) act" where
  "runTool V =
     tryA (newWalletRPC (tlEnv V)) (\<lambda>e. ret (exitCode e)) (\<lambda>_.
     tryA (getVspPubKey V vspmURL) (\<lambda>e. ret 1) (\<lambda>pubKey.
     tryA (getTickets (tlEnv V)) (\<lambda>e. ret (exitCode e)) (\<lambda>hashes.
     if hashes = [] then ret 1
     else processAll V ((tlClient V)\<lparr>cURL := vspmURL, cPubKey := pubKey\<rparr>) hashes)))"

section \<open>Quoted fees\<close>

text \<open>
  The wallet is asked for a fee transaction only to the address and with the amount of a response
  that is authentic under the key and echoes a request for a fee address.
\<close>

definition feeQuote :: "client \<Rightarrow> feeAddressResponse \<Rightarrow> bool" where
  "feeQuote C resp \<longleftrightarrow> (\<exists>reply req. authenticReply C reply
       (unmarshal_ptr feeAddressFields \<lparr>frTimestamp = 0, frFeeAddress = [], frFeeAmount = 0, frExpiration = 0, frRequest = []\<rparr>)
       (Some resp) \<and> frRequest resp = feeAddressRequestJSON req)"

definition quoted :: "client \<Rightarrow> 's event \<Rightarrow> bool" where
  "quoted C e \<longleftrightarrow> (\<forall>i as. e = Asked (Call (Wallet i) ''createrawtransaction'' as) \<longrightarrow>
     (\<exists>resp. feeQuote C resp \<and> as = [AStr (frFeeAddress resp), AInt (sint (frFeeAmount resp))]))"

definition asksNothing :: "'s event \<Rightarrow> bool" where
  "asksNothing e \<longleftrightarrow> (\<forall>i as. e \<noteq> Asked (Call (Wallet i) ''createrawtransaction'' as))"

lemma quoted_calls [simp]:
  "m \<noteq> ''createrawtransaction'' \<Longrightarrow> quoted C (Asked (Call t m as))" "quoted C (Asked (Call Clock m as))" "quoted C (Asked (Call Ctx m as))"
  by (simp_all add: quoted_def)

lemma emits_tryYields:
  assumes "emits A m" "yields Q m" "\<And>e. emits A (h e)" "\<And>a. Q a \<Longrightarrow> emits A (k a)"
  shows "emits A (tryA m h k)"
  unfolding emits_def
proof
  fix w
  obtain r w1 where m: "m w = (r, w1)" by (cases "m w")
  then have "traced A w w1" by (rule emitsD [OF assms(1)])
  moreover have "Q a" if "r = Ok a" for a using assms(2) m that by (auto simp: yields_def)
  then have "traced A w1 (snd (tryA m h k w))"
    using m assms(3,4) by (cases r) (auto simp: tryA_def emits_def)
  ultimately show "traced A w (snd (tryA m h k w))" by (rule traced_trans)
qed

lemma feeAddress_yields:
  "yields (\<lambda>r. case r of Inl e \<Rightarrow> True | Inr resp \<Rightarrow> feeQuote C resp) (clientFeeAddress C T req addr)"
  unfolding yields_def
proof (intro allI impI)
  fix w r w' assume run: "clientFeeAddress C T req addr w = (Ok r, w')"
  let ?u = "unmarshal_ptr feeAddressFields \<lparr>frTimestamp = 0, frFeeAddress = [], frFeeAmount = 0, frExpiration = 0, frRequest = []\<rparr>"
  have "vouched C T ''/api/v3/feeaddress'' ?u frRequest (feeAddressRequestJSON req) w (clientFeeAddress C T req addr w)"
    unfolding clientFeeAddress_def Let_def by (rule post_vouched)
  then show "case r of Inl e \<Rightarrow> True | Inr resp \<Rightarrow> feeQuote C resp"
    unfolding run by (cases r) (auto simp: feeQuote_def)
qed

text \<open>The client only asks the transport.\<close>

lemma emits_post:
  assumes "\<And>rq. emits A (T rq)"
  shows "emits A (post C T path addr u body)"
  unfolding post_def doRequest_def checkReply_act by (intro emits_intros assms)

lemma emits_echoed: "emits A (echoed sel body r)"
  unfolding echoed_def by (intro emits_intros)

lemma emits_client:
  assumes "\<And>rq. emits A (T rq)"
  shows "emits A (clientFeeAddress C T fa addr)" "emits A (clientPayFee C T pf addr)"
    "emits A (clientTicketStatus C T h addr)" "emits A (clientSetVoteChoices C T vc addr)"
  unfolding clientFeeAddress_def clientPayFee_def clientTicketStatus_def clientSetVoteChoices_def Let_def
  by (intro emits_intros emits_post emits_echoed assms)+

lemma emits_callOr: "emits A call \<Longrightarrow> emits A failed \<Longrightarrow> (\<And>r. emits A (k r)) \<Longrightarrow> emits A (callOr call failed k)"
  unfolding callOr_def by (intro emits_intros)

lemma http_quoted: "(\<And>rq. emits asksNothing (tlHTTP V rq)) \<Longrightarrow> emits (quoted C) (tlHTTP V rq)"
  by (rule emits_mono [of asksNothing]) (simp_all add: quoted_def asksNothing_def)

lemma emits_list: "emits A n \<Longrightarrow> (\<And>a as. emits A (f a as)) \<Longrightarrow> emits A (case xs of [] \<Rightarrow> n | a # as \<Rightarrow> f a as)"
  by (cases xs) simp_all

lemma createFeeTx_quoted: "feeQuote C resp \<Longrightarrow> emits (quoted C) (createFeeTx E l (frFeeAddress resp) (frFeeAmount resp))"
  unfolding createFeeTx_def Let_def
  by (intro emits_intros emits_typed) (auto simp: quoted_def)

lemma payTicket_quoted:
  assumes "\<And>rq. emits asksNothing (tlHTTP V rq)" "feeQuote C resp"
  shows "emits (quoted C) (payTicket V C h key addr resp)"
proof -
  note calls = emits_client [where T = "tlHTTP V" and A = "quoted C", OF http_quoted [OF assms(1)]]
  show ?thesis
    unfolding payTicket_def
    by (intro emits_intros emits_callOr calls createFeeTx_quoted assms(2) quoted_calls)
qed

lemma processTicket_quoted:
  assumes "\<And>rq. emits asksNothing (tlHTTP V rq)"
  shows "emits (quoted C) (processTicket V C h)"
proof -
  note calls = emits_client [where T = "tlHTTP V" and A = "quoted C", OF http_quoted [OF assms]]
  have "emits (quoted C) (getTicketDetails V h)"
    unfolding getTicketDetails_def dumpPrivKey_def
    by (intro emits_intros emits_typed emits_list quoted_calls) simp_all
  moreover have "emits (quoted C) (case r of Inl apiErr \<Rightarrow> if erCode apiErr = ErrFeeAlreadyReceived then ret None else ret (Some 1)
      | Inr resp \<Rightarrow> payTicket V C h key addr resp)"
    if "case r of Inl e \<Rightarrow> True | Inr resp \<Rightarrow> feeQuote C resp" for r key addr
    using that payTicket_quoted [OF assms] by (cases r) (auto intro!: emits_intros)
  ultimately show ?thesis
    unfolding processTicket_def
    by (intro emits_try emits_case emits_bind emits_now quoted_calls emits_tryYields [OF calls(1) feeAddress_yields] emits_leaves)
qed

lemma processAll_quoted:
  assumes "\<And>rq. emits asksNothing (tlHTTP V rq)"
  shows "emits (quoted C) (processAll V C hs)"
  by (induction hs) (auto intro!: emits_intros processTicket_quoted assms)

text \<open>The first steps ask for no fee transaction, so they fit every key.\<close>

definition someKey :: "(client \<Rightarrow> bool) \<Rightarrow> ('s, 'a) act \<Rightarrow> bool" where
  "someKey P m \<longleftrightarrow> (\<forall>w. \<exists>C. P C \<and> traced (quoted C) w (snd (m w)))"

lemma someKey_emits: "P C \<Longrightarrow> emits (quoted C) m \<Longrightarrow> someKey P m"
  by (auto simp: someKey_def emits_def)

lemma someKey_try:
  assumes "\<And>C. emits (quoted C) m" "\<And>e. someKey P (h e)" "\<And>a. someKey P (k a)" "P D"
  shows "someKey P (tryA m h k)"
  unfolding someKey_def
proof
  fix w
  obtain r w1 where m: "m w = (r, w1)" by (cases "m w")
  have t: "traced (quoted C) w w1" for C using m by (rule emitsD [OF assms(1)])
  have "\<exists>C. P C \<and> traced (quoted C) w1 (snd (tryA m h k w))"
    using m assms(2-4) by (cases r) (auto simp: tryA_def someKey_def)
  then show "\<exists>C. P C \<and> traced (quoted C) w (snd (tryA m h k w))"
    using t by (meson traced_trans)
qed

text \<open>The exit codes.\<close>

lemma yields_more: "yields Q (lift r) \<longleftrightarrow> (\<forall>a. r = Ok a \<longrightarrow> Q a)"
  "(\<And>a. yields Q (f a)) \<Longrightarrow> (\<And>b. yields Q (g b)) \<Longrightarrow> yields Q (case v of Inl a \<Rightarrow> f a | Inr b \<Rightarrow> g b)"
  by (auto simp: yields_def lift_def split: sum.split)

lemma callOr_yields: "yields Q failed \<Longrightarrow> Q (Some 0) \<Longrightarrow> (\<And>r. yields Q (k r)) \<Longrightarrow> yields Q (callOr call failed k)"
  unfolding callOr_def by (intro yields_intros yields_more(2))

lemma processTicket_code: "yields (\<lambda>r. r \<in> {None, Some 0, Some 1}) (processTicket V C h)"
  unfolding processTicket_def payTicket_def
  by (intro yields_intros yields_more(2) callOr_yields; simp add: exitCode_def)

lemma processAll_code: "yields (\<lambda>c. c \<in> {0, 1}) (processAll V C hs)"
proof (induction hs)
  case (Cons h hs)
  have "yields (\<lambda>c. c \<in> {0, 1}) (bindA (processTicket V C h) (\<lambda>r. case r of Some code \<Rightarrow> ret code | None \<Rightarrow> processAll V C hs))"
    using processTicket_code [of V C h] Cons unfolding yields_def
    by (fastforce simp: bindA_def ret_def split: prod.splits outcome.splits option.splits)
  then show ?case by (auto intro!: yields_intros)
qed (simp add: yields_def ret_def)

lemma runTool_code: "yields (\<lambda>c. c \<in> {0, 1}) (runTool V)"
  unfolding runTool_def by (intro yields_intros processAll_code; simp add: exitCode_def)


text \<open>A wallet with one ticket that refuses to create the transaction, and a VSP that quotes a fee.\<close>

definition demo_wallet :: "flat env" where
  "demo_wallet es c = (case c of Call t m as \<Rightarrow>
     if m = ''dial'' then Inr RNone
     else if m = ''gettickets'' then Inr (RTickets [\<lparr>wtHash = ''aa'', wtChoices = []\<rparr>])
     else if m = ''gettransaction'' then Inr (RStr ''00'')
     else if m = ''dumpprivkey'' then Inr (RStr ''wif'')
     else if m = ''now'' then Inr (RInt 7000000000)
     else if m = ''err'' then Inr (RBool False)
     else Inl (Plain ''no''))"

text \<open>The body that tells the key.\<close>

definition demo_key :: bytes where
  "demo_key = object_text [(''pubkey'', LStr (base64 (replicate 32 CHR ''k'')))]"

lemma demo_key_read: "unmarshal_struct vspInfoFields zeroVspInfo demo_key = Ok (zeroVspInfo\<lparr>viPubKey := replicate 32 CHR ''k''\<rparr>)"
proof -
  have "sanitize ''pubkey'' = ''pubkey''" by (rule sanitize_valid, rule ascii_valid, simp)
  then show ?thesis
    unfolding demo_key_def
    by (intro unmarshal_object) (simp add: object_json_def sanitize_tags(8) vspInfoFields_def field_for_def del: base64.simps replicate.simps)
qed

definition demo_quote :: "flat transport" where
  "demo_quote rq w = (Ok \<lparr>rsStatus = 200, rsSig = base64 ''sig'', rsBody = Inr (case rqBody rq of
     None \<Rightarrow> demo_key | Some b \<Rightarrow> feeAddressJSON 7 ''addr'' 100 9 (base64 b))\<rparr>, w)"

definition demo_tool :: "(flat, nat, unit) tool" where
  "demo_tool = \<lparr>tlEnv = demo_wallet, tlLib = demo_lib\<lparr>lbFromBytes := \<lambda>b. Inr (demo_tx\<lparr>txOuts := [demo_out, demo_out]\<rparr>)\<rparr>,
     tlNet = demo_net, tlHTTP = demo_quote, tlClient = demo_client, tlScriptAddrs = (\<lambda>b. Some [''s''])\<rparr>"

lemma demo_validates: "ValidateServerSignature (demo_client\<lparr>cURL := u, cPubKey := replicate 32 CHR ''k''\<rparr>) (base64 ''sig'') b = Ok ()"
  "ValidateServerSignature (demo_client\<lparr>cPubKey := replicate 32 CHR ''k''\<rparr>) (base64 ''sig'') b = Ok ()"
  by (simp_all only: ValidateServerSignature_def base64_Nil base64Decode_base64 wrapErr.simps andThen.simps) (simp_all add: demo_client_def)

lemma demo_quotes:
  assumes "fa = \<lparr>faTimestamp = 7, faTicketHash = ''aa'', faTicketHex = ''00'', faParentHex = ''00''\<rparr>"
  shows "clientFeeAddress (demo_client\<lparr>cURL := u, cPubKey := replicate 32 CHR ''k''\<rparr>) demo_quote fa addr w =
    (Ok (Inr \<lparr>frTimestamp = 7, frFeeAddress = ''addr'', frFeeAmount = 100, frExpiration = 9, frRequest = feeAddressRequestJSON fa\<rparr>), w)"
proof -
  let ?C = "demo_client\<lparr>cURL := u, cPubKey := replicate 32 CHR ''k''\<rparr>"
  let ?b = "feeAddressJSON 7 ''addr'' 100 9 (base64 (feeAddressRequestJSON fa))"
  let ?z = "\<lparr>frTimestamp = 0, frFeeAddress = [], frFeeAmount = 0, frExpiration = 0, frRequest = []\<rparr> :: feeAddressResponse"
  have sign: "cSign ?C (feeAddressRequestJSON fa) addr = Inr (Some ''s'')" "cParseURL ?C (cURL ?C @ ''/api/v3/feeaddress'') = None"
    by (simp_all add: demo_client_def)
  have "length ?b < 500" unfolding assms feeAddressRequestJSON_def feeAddressJSON_def by code_simp
  moreover have "sanitize ''addr'' = ''addr''" by (rule sanitize_valid) (rule ascii_valid, simp)
  ultimately have "checkReply ?C (unmarshal_ptr feeAddressFields ?z) \<lparr>rsStatus = 200, rsSig = base64 ''sig'', rsBody = Inr ?b\<rparr> =
      Ok (Inr (Some \<lparr>frTimestamp = 7, frFeeAddress = ''addr'', frFeeAmount = 100, frExpiration = 9, frRequest = feeAddressRequestJSON fa\<rparr>))"
    by (simp add: checkReply_def feeAddress_decodes demo_validates del: base64.simps)
  then show ?thesis
    unfolding clientFeeAddress_def Let_def by (simp add: bindA_def post_eq [OF sign] demo_quote_def echoed_def ret_def del: base64.simps)
qed

lemma demo_tool_runs:
  "\<exists>w'. runTool demo_tool (demo_world demo_db) = (Ok 1, w') \<and>
     Asked (Call (Wallet 0) ''createrawtransaction'' [AStr ''addr'', AInt 100]) \<in> set (events w')"
proof -
  let ?C = "demo_client\<lparr>cURL := vspmURL, cPubKey := replicate 32 CHR ''k''\<rparr>"
  have key: "getVspPubKey demo_tool vspmURL w = (Ok (replicate 32 CHR ''k''), w)" for w
    by (simp add: getVspPubKey_def demo_tool_def demo_quote_def bindA_def lift_def demo_key_read demo_validates ret_def del: base64.simps)
  have ticket: "\<exists>w'. processTicket demo_tool ?C ''aa'' w = (Ok (Some 1), w') \<and>
     Asked (Call (Wallet 0) ''createrawtransaction'' [AStr ''addr'', AInt 100]) \<in> set (events w')" for w
    by (simp add: processTicket_def getTicketDetails_def dumpPrivKey_def askStr_def ask_def bindA_def tryA_def lift_def ret_def failA_def
        demo_tool_def demo_wallet_def deserialize_def demo_lib_def now_def unixOf_def demo_quotes payTicket_def createFeeTx_def
        exitCode_def del: base64.simps)
  have tool: "tlEnv demo_tool = demo_wallet" "tlClient demo_tool = demo_client" by (simp_all add: demo_tool_def)
  let ?w = "(demo_world demo_db)\<lparr>events := [Asked (Call (Wallet 0) ''dial'' []), Asked (Call (Wallet 0) ''gettickets'' [ABool True]),
    Asked (Call Ctx ''err'' [])]\<rparr>"
  obtain w' where w': "processTicket demo_tool ?C ''aa'' ?w = (Ok (Some 1), w')"
      "Asked (Call (Wallet 0) ''createrawtransaction'' [AStr ''addr'', AInt 100]) \<in> set (events w')"
    using ticket by blast
  have "runTool demo_tool (demo_world demo_db) = (Ok 1, w')"
    using w'(1) by (simp add: runTool_def newWalletRPC_def askUnit_def getTickets_def key tryA_def bindA_def ask_def ret_def canceled_def
        tool demo_wallet_def demo_world_def)
  with w'(2) show ?thesis by blast
qed


end
