(* ===== verification/Backup.thy ===== *)
theory Backup
  imports Prelude
begin

text \<open>
  The backup file of the database: \<open>WriteHotBackupFile\<close> and \<open>Close\<close> of \<open>database/database.go\<close> with the
  timer of \<open>cmd/vspm/main.go\<close>. Both write a temporary file and rename it. Every call may fail, and
  a copy that fails leaves part of the data behind, so a crash at any point leaves the files as one
  of these failures does. The mutex makes the writes of one backup a single step.
\<close>

section \<open>Files\<close>

text \<open>The content of the files that exist, by path.\<close>

type_synonym files = "string \<Rightarrow> bytes option"

text \<open>\<open>os.Rename\<close> replaces its target.\<close>

definition rename :: "string \<Rightarrow> string \<Rightarrow> files \<Rightarrow> files" where
  "rename old new fs = (fs(new := fs old))(old := None)"

text \<open>Writing from the start of a file that is opened without being truncated.\<close>

definition overwrite :: "bytes \<Rightarrow> bytes \<Rightarrow> bytes" where
  "overwrite data old = data @ drop (length data) old"

definition backupPath :: "string \<Rightarrow> string" where "backupPath dbPath = dbPath @ ''-backup''"

definition tempPath :: "string \<Rightarrow> string" where "tempPath dbPath = backupPath dbPath @ ''~''"

section \<open>While the database is open\<close>

text \<open>
  \<open>tx.CopyFile\<close> belongs to the database library: it reports an error or None, and leaves the files
  changed. When it succeeds the file is the image of the transaction.
\<close>

type_synonym copier = "string \<Rightarrow> files \<Rightarrow> err option \<times> files"

definition copies :: "bytes \<Rightarrow> copier \<Rightarrow> bool" where
  "copies snapshot copyFile \<longleftrightarrow> (\<forall>path fs. (\<forall>p. p \<noteq> path \<longrightarrow> snd (copyFile path fs) p = fs p) \<and>
     (fst (copyFile path fs) = None \<longrightarrow> snd (copyFile path fs) path = Some snapshot))"

definition WriteHotBackupFile :: "err option \<Rightarrow> copier \<Rightarrow> err option \<Rightarrow> string \<Rightarrow> files \<Rightarrow> files \<times> unit outcome" where
  "WriteHotBackupFile viewErr copyFile renameErr dbPath fs =
     (case (case viewErr of Some e \<Rightarrow> (Some e, fs) | None \<Rightarrow> copyFile (tempPath dbPath) fs) of
        (Some e, fs1) \<Rightarrow> (fs1, Fail (Wrapped ''tx.CopyFile'' e))
      | (None, fs1) \<Rightarrow> (case renameErr of
          Some e \<Rightarrow> (fs1, Fail (Wrapped ''os.Rename'' e))
        | None \<Rightarrow> (rename (tempPath dbPath) (backupPath dbPath) fs1, Ok ())))"

text \<open>The timer of the daemon: an error is logged, and the next tick tries again.\<close>

record tick =
  tkView :: "err option"
  tkCopy :: copier
  tkRename :: "err option"

fun backupTimer :: "string \<Rightarrow> tick list \<Rightarrow> files \<Rightarrow> files" where
  "backupTimer dbPath [] fs = fs"
| "backupTimer dbPath (t # ts) fs =
     backupTimer dbPath ts (fst (WriteHotBackupFile (tkView t) (tkCopy t) (tkRename t) dbPath fs))"

section \<open>At the end\<close>

text \<open>
  How the calls of \<open>Close\<close> turn out: \<open>clCopied\<close> is the number of bytes a failing \<open>io.Copy\<close> wrote. The
  temporary file is opened with \<open>O_CREATE\<close> but without \<open>O_TRUNC\<close>.
\<close>

record closing =
  clClose :: "err option"
  clOpen :: "err option"
  clOpenFile :: "err option"
  clCopied :: "nat option"
  clRename :: "err option"

definition stale :: "bytes option \<Rightarrow> bytes" where
  "stale content = (case content of None \<Rightarrow> [] | Some b \<Rightarrow> b)"

definition closeDb :: "closing \<Rightarrow> bool \<Rightarrow> string \<Rightarrow> files \<Rightarrow> files" where
  "closeDb D writeBackup dbPath fs =
     (if clClose D \<noteq> None \<or> \<not> writeBackup \<or> clOpen D \<noteq> None then fs
      else case fs dbPath of None \<Rightarrow> fs | Some content \<Rightarrow>
        if clOpenFile D \<noteq> None then fs
        else
          let old = stale (fs (tempPath dbPath)) in
          case clCopied D of
            Some n \<Rightarrow> fs(tempPath dbPath \<mapsto> overwrite (take n content) old)
          | None \<Rightarrow>
              let fs1 = fs(tempPath dbPath \<mapsto> overwrite content old) in
              if clRename D \<noteq> None then fs1 else rename (tempPath dbPath) (backupPath dbPath) fs1)"

section \<open>Facts\<close>

lemma paths_differ [simp]:
  "backupPath p \<noteq> p" "p \<noteq> backupPath p" "tempPath p \<noteq> p" "p \<noteq> tempPath p"
  "tempPath p \<noteq> backupPath p" "backupPath p \<noteq> tempPath p"
  by (simp_all add: backupPath_def tempPath_def)

lemma overwrite_whole: "length old \<le> length data \<Longrightarrow> overwrite data old = data"
  by (simp add: overwrite_def)

text \<open>One hot backup: the backup file stays or becomes the image, and only two files change.\<close>

lemma hot_backup_cases:
  assumes "copies snapshot copyFile" "fst (WriteHotBackupFile v copyFile r path fs) = fs'"
  obtains fs1 where "\<forall>p. p \<noteq> tempPath path \<longrightarrow> fs1 p = fs p"
    "fs' = fs1 \<or> fs1 (tempPath path) = Some snapshot \<and> fs' = rename (tempPath path) (backupPath path) fs1"
proof -
  obtain e fs1 where copy: "copyFile (tempPath path) fs = (e, fs1)" by (cases "copyFile (tempPath path) fs")
  have fs1: "\<forall>p. p \<noteq> tempPath path \<longrightarrow> fs1 p = fs p"
    using assms(1) copy by (metis copies_def snd_conv)
  have ok: "e = None \<Longrightarrow> fs1 (tempPath path) = Some snapshot"
    using assms(1) copy by (metis copies_def fst_conv snd_conv)
  show thesis
  proof (cases v)
    case None
    then show thesis
      using assms(2) fs1 ok copy that [of fs1] by (cases e; cases r) (simp_all add: WriteHotBackupFile_def)
  next
    case (Some x)
    then show thesis using assms(2) that [of fs] by (simp add: WriteHotBackupFile_def)
  qed
qed

lemma hot_backup_step:
  assumes "copies snapshot copyFile"
  shows "fst (WriteHotBackupFile v copyFile r path fs) (backupPath path) \<in> {fs (backupPath path), Some snapshot}"
    and "p \<noteq> backupPath path \<Longrightarrow> p \<noteq> tempPath path \<Longrightarrow> fst (WriteHotBackupFile v copyFile r path fs) p = fs p"
  by (rule hot_backup_cases [OF assms refl, where v = v and r = r and path = path and fs = fs]; auto simp: rename_def)+

lemma timer_untouched:
  "\<forall>t\<in>set ts. copies (img t) (tkCopy t) \<Longrightarrow> p \<noteq> backupPath path \<Longrightarrow> p \<noteq> tempPath path \<Longrightarrow> backupTimer path ts fs p = fs p"
proof (induction ts arbitrary: fs)
  case (Cons t ts)
  then have "copies (img t) (tkCopy t)" by simp
  from hot_backup_step(2) [OF this] Cons show ?case by simp
qed simp

lemma timer_backup:
  "\<forall>t\<in>set ts. copies (img t) (tkCopy t) \<Longrightarrow> backupTimer path ts fs (backupPath path) = fs (backupPath path) \<or>
    (\<exists>t\<in>set ts. backupTimer path ts fs (backupPath path) = Some (img t))"
proof (induction ts arbitrary: fs)
  case (Cons t ts)
  let ?fs = "fst (WriteHotBackupFile (tkView t) (tkCopy t) (tkRename t) path fs)"
  have "?fs (backupPath path) \<in> {fs (backupPath path), Some (img t)}"
    using Cons.prems by (intro hot_backup_step(1)) simp
  then show ?case using Cons.IH [of ?fs] Cons.prems by auto
qed simp

lemma closeDb_files:
  "closeDb D b path fs (backupPath path) = fs (backupPath path) \<or>
   (\<exists>content. fs path = Some content \<and>
      closeDb D b path fs (backupPath path) = Some (overwrite content (stale (fs (tempPath path)))))"
  "p \<noteq> backupPath path \<Longrightarrow> p \<noteq> tempPath path \<Longrightarrow> closeDb D b path fs p = fs p"
  by (auto simp: closeDb_def rename_def Let_def split: option.splits)

text \<open>
  A longer temporary file that is left over spoils the backup: its tail stays behind the copy.
\<close>

lemma stale_temp_spoils:
  assumes "fs path = Some content" "fs (tempPath path) = Some old" "length content < length old"
  shows "closeDb \<lparr>clClose = None, clOpen = None, clOpenFile = None, clCopied = None, clRename = None\<rparr> True path fs
      (backupPath path) = Some (content @ drop (length content) old)"
    and "content @ drop (length content) old \<noteq> content"
  using assms by (simp_all add: closeDb_def rename_def Let_def stale_def overwrite_def)

text \<open>
  C26: The backup is never torn. Through any number of backups while the database is open and the
  one at the end, whichever of their calls fail and wherever the process is stopped, the database
  file is not touched, and the backup file is the one there was, the complete image of one of the
  transactions that were copied, or, after the end, the database file; in the last case it is an exact
  copy if no longer temporary file was left over, and else keeps that file's tail.
\<close>

theorem backup_whole:
  assumes "\<forall>t\<in>set ticks. copies (img t) (tkCopy t)"
    and "open_files = backupTimer path ticks fs" and "files = closeDb D writeBackup path open_files"
  shows "files path = fs path \<and>
    (files (backupPath path) = fs (backupPath path) \<or>
     (\<exists>t\<in>set ticks. files (backupPath path) = Some (img t)) \<or>
     (\<exists>content. fs path = Some content \<and>
        files (backupPath path) = Some (overwrite content (stale (open_files (tempPath path)))) \<and>
        (length (stale (open_files (tempPath path))) \<le> length content \<longrightarrow> files (backupPath path) = Some content)))"
proof -
  have keep: "open_files path = fs path" using timer_untouched [OF assms(1)] by (simp add: assms(2))
  show ?thesis
    using closeDb_files(1) [of D writeBackup path open_files] timer_backup [OF assms(1), of path fs]
      closeDb_files(2) [of path path D writeBackup open_files] keep
    by (auto simp: assms(2,3) overwrite_whole)
qed

text \<open>A hot backup of which the rename fails, then the end.\<close>

definition demo_copier :: "bytes \<Rightarrow> copier" where
  "demo_copier snapshot path fs = (None, fs(path \<mapsto> snapshot))"

theorem backup_whole_witness:
  "\<exists>files. files = closeDb \<lparr>clClose = None, clOpen = None, clOpenFile = None, clCopied = None, clRename = None\<rparr> True ''db''
      (backupTimer ''db'' [\<lparr>tkView = None, tkCopy = demo_copier ''abc'', tkRename = Some (Plain ''e'')\<rparr>] [''db'' \<mapsto> ''abcd'']) \<and>
    files ''db'' = Some ''abcd'' \<and> files (backupPath ''db'') = Some ''abcd''"
  using backup_whole [of "[\<lparr>tkView = None, tkCopy = demo_copier ''abc'', tkRename = Some (Plain ''e'')\<rparr>]" "\<lambda>t. ''abc''" _ "''db''" "[''db'' \<mapsto> ''abcd'']"
      _ "\<lparr>clClose = None, clOpen = None, clOpenFile = None, clCopied = None, clRename = None\<rparr>" True, OF _ refl refl]
  by (simp add: copies_def demo_copier_def) (simp add: closeDb_def WriteHotBackupFile_def demo_copier_def rename_def Let_def stale_def overwrite_def)

end
