(* ===== verification/VspInfoProps.thy ===== *)
theory VspInfoProps
  imports VspInfo ClientProps
begin

text \<open>
  What the client learns from \<open>vspinfo\<close> is what the server has: the response, with its
  floating-point members, is read back as it was.
\<close>

section \<open>Texts of values\<close>

text \<open>A text that the parser reads as a value wherever it stands in a document.\<close>

definition reads_as :: "string \<Rightarrow> json \<Rightarrow> bool" where
  "reads_as t v \<longleftrightarrow> (\<forall>n c r. 3 \<le> n \<longrightarrow> ends_number c \<longrightarrow> jvalue n (t @ c # r) = Some (v, c # r))"

lemma reads_leaf: "reads_as (quote s) (JStr (sanitize s))" "reads_as (dec_of_int i) (JNum (dec_of_int i))"
proof -
  have "reads_as (leaf_text l) (leaf_json l)" for l
    unfolding reads_as_def
  proof (intro allI impI)
    fix n :: nat and c r assume "3 \<le> n" "ends_number c"
    moreover obtain m where "n = Suc m" using \<open>3 \<le> n\<close> by (cases n) auto
    ultimately show "jvalue n (leaf_text l @ c # r) = Some (leaf_json l, c # r)" using jvalue_leaf by blast
  qed
  from this [of "LStr s"] this [of "LInt i"]
  show "reads_as (quote s) (JStr (sanitize s))" "reads_as (dec_of_int i) (JNum (dec_of_int i))" by simp_all
qed

lemma reads_bool: "reads_as (boolText b) (JBool b)"
  unfolding reads_as_def
proof (intro allI impI)
  fix n :: nat and c r assume "3 \<le> n" "ends_number c"
  then obtain m where "n = Suc m" by (cases n) auto
  then show "jvalue n (boolText b @ c # r) = Some (JBool b, c # r)"
    by (simp add: boolText_def skip_ws_def is_ws_def byte_inject scan_literal_def)
qed

lemma reads_float:
  assumes "isFloat F x" "0 \<le> x" "F \<in> {binary32, binary64}"
  shows "reads_as (floatText F x) (JNum (floatText F x))"
  unfolding reads_as_def
proof (intro allI impI)
  fix n :: nat and c r assume "3 \<le> n" "ends_number c"
  moreover obtain m where "n = Suc m" using \<open>3 \<le> n\<close> by (cases n) auto
  ultimately show "jvalue n (floatText F x @ c # r) = Some (JNum (floatText F x), c # r)"
    using jvalue_float [OF assms] by simp
qed

text \<open>The only version of the API.\<close>

lemma reads_versions: "reads_as (CHR ''['' # elemsText [3] @ '']'') (JArr [JNum (dec_of_int 3)])"
  unfolding reads_as_def
proof (intro allI impI)
  fix n :: nat and c r assume n: "3 \<le> n"
  then obtain m where m: "n = Suc (Suc (Suc m))" by (metis Suc_le_D numeral_3_eq_3 Suc_le_mono)
  have three: "dec_of_int 3 = ''3''" by (simp add: dec_of_int_def dec_of_nat.simps) code_simp
  show "jvalue n ((CHR ''['' # elemsText [3] @ '']'') @ c # r) = Some (JArr [JNum (dec_of_int 3)], c # r)"
    by (simp add: m three skip_ws_def is_ws_def byte_inject scan_literal_def scan_num_def scan_sign_def scan_int_def scan_frac_def
        scan_exp_def is_digit_def Let_def)
qed

lemma jmembers_raw:
  assumes "kvs \<noteq> []" "list_all (\<lambda>(k, t, v). reads_as t v) kvs" "length kvs + 3 \<le> n"
  shows "jmembers n (raw_members (map (\<lambda>(k, t, v). (k, t)) kvs) @ CHR ''}'' # r) =
    Some (map (\<lambda>(k, t, v). (sanitize k, v)) kvs, r)"
  using assms
proof (induction kvs arbitrary: n)
  case (Cons kv kvs)
  obtain k t v where kv: "kv = (k, t, v)" by (cases kv)
  obtain m where n: "n = Suc m" "3 \<le> m" using Cons.prems(3) by (cases n) auto
  have ws: "\<not> is_ws (byte 0x22)" "\<not> is_ws (CHR '':'')" "\<not> is_ws (CHR '','')" "\<not> is_ws (CHR ''}'')"
    by (auto simp: is_ws_def byte_inject)
  have val: "jvalue m (t @ c # s) = Some (v, c # s)" if "ends_number c" for c s
    using Cons.prems(2) kv n(2) that by (simp add: reads_as_def)
  show ?case
  proof (cases "kvs = []")
    case True
    show ?thesis
      using unquote_quote_body [of k "CHR '':'' # t @ CHR ''}'' # r"] ws val [of "CHR ''}''" r]
      by (simp add: kv True n quote_def skip_ws_def ends_number_def del: jvalue.simps)
  next
    case False
    then obtain kv2 kvs2 where tl: "kvs = kv2 # kvs2" by (cases kvs) auto
    let ?after = "raw_members (map (\<lambda>(k, t, v). (k, t)) kvs) @ CHR ''}'' # r"
    have rest: "jmembers m ?after = Some (map (\<lambda>(k, t, v). (sanitize k, v)) kvs, r)"
      using Cons.IH Cons.prems n tl by simp
    have unfold: "raw_members (map (\<lambda>(k, t, v). (k, t)) (kv # kvs)) @ CHR ''}'' # r =
        byte 0x22 # quote_body k @ byte 0x22 # CHR '':'' # t @ CHR '','' # ?after"
      by (cases kv2) (simp add: tl kv quote_def)
    show ?thesis
      using unquote_quote_body [of k "CHR '':'' # t @ CHR '','' # ?after"] ws val [of "CHR '',''" ?after] rest
      unfolding unfold by (simp add: kv n(1) skip_ws_def ends_number_def del: jvalue.simps)
  qed
qed simp

lemma length_raw: "2 * length kts \<le> length (raw_members kts)"
  by (induction kts rule: raw_members.induct) (auto simp: quote_def)

lemma json_parse_raw:
  assumes "3 \<le> length kvs" "list_all (\<lambda>(k, t, v). reads_as t v) kvs"
  shows "json_parse (CHR ''{'' # raw_members (map (\<lambda>(k, t, v). (k, t)) kvs) @ ''}'') =
    Some (JObj (map (\<lambda>(k, t, v). (sanitize k, v)) kvs))"
proof -
  let ?kts = "map (\<lambda>(k, t, v). (k, t)) kvs"
  let ?n = "Suc (length (raw_members ?kts))"
  have ne: "kvs \<noteq> []" using assms(1) by auto
  have "length kvs + 3 \<le> Suc ?n" using length_raw [of ?kts] assms(1) by simp
  from jmembers_raw [OF ne assms(2) this, of "[]"]
  have "jmembers (Suc ?n) (raw_members ?kts @ ''}'') = Some (map (\<lambda>(k, t, v). (sanitize k, v)) kvs, [])" .
  moreover obtain s where "raw_members ?kts = byte 0x22 # s"
    using ne by (cases kvs; cases "tl kvs") (auto simp: quote_def)
  moreover have "\<not> is_ws (CHR ''{'')" "\<not> is_ws (byte 0x22)" "byte 0x22 \<noteq> CHR ''}''"
    by (auto simp: is_ws_def byte_inject byte_eq)
  ultimately show ?thesis by (simp add: json_parse_def skip_ws_def)
qed

section \<open>Reading the response\<close>

text \<open>A response as the server makes it: floating-point members of their formats.\<close>

definition infoOk :: "vspInfoResponse \<Rightarrow> bool" where
  "infoOk r \<longleftrightarrow> viAPIVersions r = [3] \<and> isFloat binary64 (viFeePercentage r) \<and> 0 \<le> viFeePercentage r \<and>
     viFeePercentage r < 2 powi maxExp binary64 \<and> isFloat binary32 (viNetworkProportion r) \<and> 0 \<le> viNetworkProportion r \<and>
     viNetworkProportion r < 2 powi maxExp binary32"

text \<open>The texts, if they are not UTF-8, are read with replacement characters.\<close>

definition cleaned :: "vspInfoResponse \<Rightarrow> vspInfoResponse" where
  "cleaned r = r\<lparr>viVspClosedMsg := sanitize (viVspClosedMsg r), viNetwork := sanitize (viNetwork r),
     viVspmVersion := sanitize (viVspmVersion r)\<rparr>"

lemma info_tags:
  "sanitize ''apiversions'' = ''apiversions''" "sanitize ''timestamp'' = ''timestamp''" "sanitize ''pubkey'' = ''pubkey''"
  "sanitize ''feepercentage'' = ''feepercentage''" "sanitize ''vspclosed'' = ''vspclosed''"
  "sanitize ''vspclosedmsg'' = ''vspclosedmsg''" "sanitize ''network'' = ''network''"
  "sanitize ''vspdversion'' = ''vspdversion''" "sanitize ''voting'' = ''voting''" "sanitize ''voted'' = ''voted''"
  "sanitize ''totalvotingwallets'' = ''totalvotingwallets''" "sanitize ''votingwalletsonline'' = ''votingwalletsonline''"
  "sanitize ''expired'' = ''expired''" "sanitize ''missed'' = ''missed''" "sanitize ''blockheight'' = ''blockheight''"
  "sanitize ''estimatednetworkproportion'' = ''estimatednetworkproportion''"
  by (rule sanitize_valid, rule ascii_valid, simp)+

text \<open>The members with the values their texts are read as.\<close>

definition vspInfoValues :: "vspInfoResponse \<Rightarrow> (string \<times> string \<times> json) list" where
  "vspInfoValues r = map2 (\<lambda>(k, t) v. (k, t, v)) (vspInfoMembers r)
     [JArr [JNum (dec_of_int 3)], JNum (dec_of_int (sint (viTimestamp r))), JStr (sanitize (base64 (viPubKey r))),
      JNum (floatText binary64 (viFeePercentage r)), JBool (viVspClosed r), JStr (sanitize (viVspClosedMsg r)),
      JStr (sanitize (viNetwork r)), JStr (sanitize (viVspmVersion r)), JNum (dec_of_int (sint (viVoting r))),
      JNum (dec_of_int (sint (viVoted r))), JNum (dec_of_int (sint (viTotalVotingWallets r))),
      JNum (dec_of_int (sint (viVotingWalletsOnline r))), JNum (dec_of_int (sint (viExpired r))),
      JNum (dec_of_int (sint (viMissed r))), JNum (dec_of_int (uint (viBlockHeight r))),
      JNum (floatText binary32 (viNetworkProportion r))]"

lemma vspInfo_parsed:
  assumes "infoOk r"
  shows "json_parse (vspInfoJSON r) = Some (JObj (map (\<lambda>(k, t, v). (sanitize k, v)) (vspInfoValues r)))"
proof -
  have kts: "vspInfoMembers r = map (\<lambda>(k, t, v). (k, t)) (vspInfoValues r)" and len: "3 \<le> length (vspInfoValues r)"
    by (simp_all add: vspInfoValues_def vspInfoMembers_def)
  have "reads_as (floatText binary64 (viFeePercentage r)) (JNum (floatText binary64 (viFeePercentage r)))"
    "reads_as (floatText binary32 (viNetworkProportion r)) (JNum (floatText binary32 (viNetworkProportion r)))"
    using assms by (auto simp: infoOk_def intro!: reads_float)
  then have "list_all (\<lambda>(k, t, v). reads_as t v) (vspInfoValues r)"
    using assms reads_leaf reads_bool reads_versions
    by (simp add: vspInfoValues_def vspInfoMembers_def infoOk_def del: elemsText.simps append.simps base64.simps)
  from json_parse_raw [OF len this] show ?thesis by (simp only: vspInfoJSON_def kts)
qed

lemma vspInfo_decodes:
  assumes "infoOk r"
  shows "unmarshal_ptr vspInfoFields zeroVspInfo (vspInfoJSON r) = Ok (Some (cleaned r))"
proof -
  have fee: "parseFloat binary64 (floatText binary64 (viFeePercentage r)) = Some (viFeePercentage r)"
    and share: "parseFloat binary32 (floatText binary32 (viNetworkProportion r)) = Some (viNetworkProportion r)"
    using assms by (auto simp: infoOk_def intro!: parse_floatText)
  have three: "int64_field (\<lambda>i _. i) (JNum (dec_of_int 3)) 0 = Some 3"
    using int64_field_literal [of "\<lambda>i _. i" 3 0] by simp
  have "set_fields vspInfoFields (map (\<lambda>(k, t, v). (sanitize k, v)) (vspInfoValues r)) zeroVspInfo True = (cleaned r, True)"
    using assms fee share three
    by (simp add: vspInfoValues_def vspInfoMembers_def info_tags sanitize_tags(8) vspInfoFields_def field_for_def zeroVspInfo_def cleaned_def infoOk_def
        del: base64.simps)
  then show ?thesis
    by (simp add: unmarshal_ptr_def unmarshal_struct_def vspInfo_parsed [OF assms])
qed


section \<open>The cache\<close>

text \<open>The proportions of the cache are numbers of \<open>float32\<close>, two of them parts of a whole.\<close>

definition cacheSound :: "cacheData \<Rightarrow> bool" where
  "cacheSound d \<longleftrightarrow> isFloat binary32 (nNetworkProportion d) \<and> 0 \<le> nNetworkProportion d \<and>
     nNetworkProportion d < 2 powi maxExp binary32 \<and> 0 \<le> nExpiredProportion d \<and> nExpiredProportion d \<le> 1 \<and>
     0 \<le> nMissedProportion d \<and> nMissedProportion d \<le> 1"

lemma sint_small: "n < 2 ^ 63 \<Longrightarrow> sint (of_nat n :: int64) = int n"
  by (simp add: signed_of_nat signed_take_bit_int_eq_self)

lemma tallies_sint:
  assumes "length ts < 2 ^ 63"
  shows "0 \<le> sint (cVoting (tallies ts)) \<and> 0 \<le> sint (cVoted (tallies ts)) \<and> 0 \<le> sint (cExpired (tallies ts)) \<and>
    0 \<le> sint (cMissed (tallies ts)) \<and> sint (cVoted (tallies ts) + cExpired (tallies ts) + cMissed (tallies ts)) =
       sint (cVoted (tallies ts)) + sint (cExpired (tallies ts)) + sint (cMissed (tallies ts))"
proof -
  let ?n = "\<lambda>P. length (filter P ts)"
  let ?a = "\<lambda>t. feePaidUp t \<and> Outcome t = Voted" and ?b = "\<lambda>t. feePaidUp t \<and> Outcome t \<in> {Expired, Revoked}"
    and ?c = "\<lambda>t. feePaidUp t \<and> Outcome t = Missed"
  have one: "?n P < 2 ^ 63" for P by (rule le_less_trans [OF length_filter_le assms])
  have "?n ?a + ?n ?b + ?n ?c \<le> length ts"
    by (induction ts) (auto simp: outcome_defs)
  then have "?n ?a + ?n ?b + ?n ?c < 2 ^ 63" using assms by simp
  from sint_small [OF this] show ?thesis
    using sint_small [OF one] by (simp add: tallies_def tally_def)
qed

text \<open>A quotient of counts stays below the bound of the format.\<close>

lemma ratio_range:
  assumes "0 \<le> a" "a < 2 ^ 63" "0 < b"
  shows "isFloat binary32 (ratio a b) \<and> 0 \<le> ratio a b \<and> ratio a b < 2 powi maxExp binary32"
proof -
  let ?A = "fl binary32 (of_int a) :: rat" and ?B = "fl binary32 (of_int b) :: rat"
  have p: "0 < prec binary32" and one: "fl binary32 1 = 1" by (simp_all add: binary32_def fl_one)
  have top: "fl binary32 (2 ^ 63) = (2 ^ 63 :: rat)"
    by (intro fl_float isFloatI [of _ 1 63]) (simp_all add: binary32_def)
  have "(of_int a :: rat) \<le> of_int (2 ^ 63)" by (subst of_int_le_iff) (use assms(2) in simp)
  then have le: "(of_int a :: rat) \<le> 2 ^ 63" by simp
  have nn: "(0 :: rat) \<le> of_int a" using assms(1) by simp
  have A: "0 \<le> ?A" "?A \<le> 2 ^ 63" using fl_nonneg [OF nn] fl_mono [OF nn le p] top by simp_all
  have "(1 :: rat) \<le> of_int b" using assms(3) by simp
  then have B: "1 \<le> ?B" using fl_mono [of 1 "of_int b" binary32] p one by simp
  have q: "0 \<le> ?A / ?B" "?A / ?B \<le> 2 ^ 63"
    using A B divide_left_mono [of 1 ?B ?A] by auto
  have "ratio a b \<le> 2 ^ 63" using fl_mono [OF q p] top by (simp add: ratio_def)
  moreover have "(2 :: rat) ^ 63 < 2 powi maxExp binary32" by (simp add: binary32_def)
  ultimately show ?thesis using fl_isFloat [OF q(1) p] fl_nonneg [OF q(1)] by (auto simp: ratio_def)
qed

text \<open>No call of the update but the last changes the cache.\<close>

lemma cache_calls:
  "keeps (\<lambda>w. cached w = d) (ask E c)" "keeps (\<lambda>w. cached w = d) (setConn t b)"
  by (auto simp: keeps_def ask_def setConn_def split: sum.splits)

lemma cache_typed:
  "keeps (\<lambda>w. cached w = d) (askUnit E c)" "keeps (\<lambda>w. cached w = d) (askStr E c)"
  "keeps (\<lambda>w. cached w = d) (askInt E c)" "keeps (\<lambda>w. cached w = d) (askRaw E c)" "keeps (\<lambda>w. cached w = d) (canceled E)"
  using cache_calls(1) [of d E "Call Ctx ''err'' []"]
  unfolding ask_typed_defs by (auto intro!: keeps_intros cache_calls split: reply.splits)
    (auto simp: keeps_def canceled_def split: prod.splits outcome.splits reply.splits)

lemma cache_conns:
  "keeps (\<lambda>w. cached w = d) (dial E t)" "keeps (\<lambda>w. cached w = d) (closeConn E t)"
  "keeps (\<lambda>w. cached w = d) (checkVersions E t ks)" "keeps (\<lambda>w. cached w = d) (getCurrentNet E t)"
  unfolding dial_def closeConn_def checkVersions_def getCurrentNet_def
  by (auto intro!: keeps_intros cache_calls cache_typed split: reply.splits)

lemma cache_clients:
  "keeps (\<lambda>w. cached w = d) (mondClient E net n)" "keeps (\<lambda>w. cached w = d) (GetBestBlockHeader l E)"
  "keeps (\<lambda>w. cached w = d) (walletClients E net ws)"
  unfolding mondClient_def GetBestBlockHeader_def GetBlockHeader_def getTxIndex_def NotifyBlocks_def walletClients_def connectWallet_def
  by (auto intro!: keeps_intros cache_calls cache_typed cache_conns split: reply.splits flow.splits prod.splits)


section \<open>The exchange\<close>

text \<open>The server as a transport of GET requests.\<close>

definition infoOverHTTP :: "('s, 'x, 'f) api \<Rightarrow> infoConfig \<Rightarrow> string \<Rightarrow> 's transport" where
  "infoOverHTTP W I base req w =
     (if rqMethod req = MethodGet \<and> rqURL req = base @ ''/api/v3/vspinfo'' then
        (case serve (routeVspInfo W I) (Inr []) (case rqSig req of None \<Rightarrow> [] | Some s \<Rightarrow> s) w of
           (_, w') \<Rightarrow> (Ok (replyOf (drop (length (responses w)) (responses w'))), w'))
      else overHTTP W base req w)"

lemma now_quiet: "\<exists>n w1. now E w = (Ok n, w1) \<and> cached w1 = cached w \<and> responses w1 = responses w"
  by (auto simp: now_def ask_def responses_def split: sum.split reply.split)

lemma serve_vspInfo:
  assumes "Initialized (cached w)"
  shows "\<exists>n w'. serve (routeVspInfo W I) body sig w = (Ok (), w') \<and> cached w' = cached w \<and>
    responses w' = responses w @ [Responded 200 (vspInfoJSON (infoOf W I (unixOf n) (cached w)))
      (base64 (wSign W (vspInfoJSON (infoOf W I (unixOf n) (cached w)))))]"
proof -
  obtain n w1 where n: "now (wEnv W) w = (Ok n, w1)" "cached w1 = cached w" "responses w1 = responses w"
    using now_quiet by blast
  have "requireWebCache W (newCtx body sig) w = (Ok ((newCtx body sig)\<lparr>cxCache := Some (cached w)\<rparr>), w)"
    using assms by (simp add: requireWebCache_def peek_def bindA_def tryA_def ret_def)
  then show ?thesis
    using n by (simp add: serve_def routeVspInfo_def bindA_def newCtx_def vspInfo_def mustGet_def ret_def sendJSONResponse_def Let_def
        respond_def responses_def exI [of _ n] del: base64.simps)
qed

lemma get_eq:
  assumes "cParseURL C (cURL C @ path) = None"
  shows "get C T path unmarshal w =
    (case T \<lparr>rqMethod = MethodGet, rqURL = cURL C @ path, rqSig = None, rqBody = None\<rparr> w of
       (Ok reply, w') \<Rightarrow> (checkReply C unmarshal reply, w')
     | (Fail e, w') \<Rightarrow> (Fail (Wrapped ''http'' e), w')
     | (Panic, w') \<Rightarrow> (Panic, w'))"
  unfolding get_def doRequest_def checkReply_act
  by (simp add: assms bindA_def wrapA_def tryA_def lift_def ret_def failA_def split: prod.split outcome.split)

text \<open>
  C29: What \<open>VspInfo\<close> of the client returns over an honest server with an initialized cache is what
  the server has: its configuration and its cached statistics, the fee and the network proportion
  bit by bit. Only texts that are not UTF-8 are cleaned.
\<close>

theorem vspinfo_exchange:
  assumes "honest W C" "Initialized (cached w)" "cacheSound (cached w)"
    "isFloat binary64 (ifFee I)" "0 \<le> ifFee I" "ifFee I < 2 powi maxExp binary64"
    "\<And>n. length (vspInfoJSON (infoOf W I n (cached w))) \<le> 4194304"
  shows "\<exists>n w'. clientVspInfo C (infoOverHTTP W I (cURL C)) w = (Ok (Inr (Some (cleaned (infoOf W I n (cached w))))), w')"
proof -
  obtain n w' where s: "serve (routeVspInfo W I) (Inr []) [] w = (Ok (), w')"
      "responses w' = responses w @ [Responded 200 (vspInfoJSON (infoOf W I (unixOf n) (cached w)))
        (base64 (wSign W (vspInfoJSON (infoOf W I (unixOf n) (cached w)))))]"
    using serve_vspInfo [OF assms(2)] by blast
  let ?r = "infoOf W I (unixOf n) (cached w)"
  have "infoOk ?r" using assms(3-6) by (simp add: infoOk_def infoOf_def cacheSound_def)
  note decoded = vspInfo_decodes [OF this]
  have "ValidateServerSignature C (base64 (wSign W (vspInfoJSON ?r))) (vspInfoJSON ?r) = Ok ()"
    using assms(1) by (simp add: honest_def ValidateServerSignature_def del: base64.simps)
  then have check: "checkReply C (unmarshal_ptr vspInfoFields zeroVspInfo)
      \<lparr>rsStatus = 200, rsSig = base64 (wSign W (vspInfoJSON ?r)), rsBody = Inr (vspInfoJSON ?r)\<rparr> = Ok (Inr (Some (cleaned ?r)))"
    using assms(7) by (simp add: checkReply_def decoded del: base64.simps)
  have url: "cParseURL C (cURL C @ ''/api/v3/vspinfo'') = None" using assms(1) by (simp add: honest_def)
  have "clientVspInfo C (infoOverHTTP W I (cURL C)) w = (Ok (Inr (Some (cleaned ?r))), w')"
    unfolding clientVspInfo_def get_eq [OF url] by (simp add: infoOverHTTP_def s check del: base64.simps)
  then show ?thesis by blast
qed


section \<open>Witnesses\<close>

text \<open>A mond that reports its best block; the pool of \<open>demo_header\<close> has one ticket.\<close>

definition demo_pool :: "(flat, nat, unit) api" where
  "demo_pool = demo_api\<lparr>wEnv := (\<lambda>es c. case c of Call t m as \<Rightarrow>
     if m = ''getbestblockhash'' then Inr (RStr ''aa'') else if m = ''getblockheader'' then Inr (RStr []) else demo_env es c)\<rparr>"

lemma demo_none: "allTickets ref_bolt demo_db = []"
  using set_allTickets [OF ref_bolt_ok demo_wf(1)] by (simp add: demo_wf)

lemma demo_pool_updates: "\<exists>w'. cacheUpdate demo_pool (demo_world demo_db) = (Ok (), w')"
proof -
  have count: "CountTickets ref_bolt demo_db = Ok (tallies [])"
    using CountTickets_spec [OF ref_bolt_ok ref_disk_ok demo_wf(1)] by (simp add: demo_none)
  show ?thesis
    by (simp add: cacheUpdate_def demo_pool_def demo_api_def bindA_def query_def disk_ok_view count mondClient_def dial_def hasConn_def setConn_def
        demo_world_def tryA_def ask_def demo_env_def ret_def failA_def GetBestBlockHeader_def GetBlockHeader_def askStr_def lift_def
        hexDecodeE_def demo_lib_def demo_header_def walletClients_def connectWallet_def putCache_def Let_def)
qed


text \<open>A closed VSP with a fee of three percent and half of the network's tickets.\<close>

definition demo_info :: infoConfig where
  "demo_info = \<lparr>ifPubKey = replicate 32 CHR ''k'', ifFee = 3, ifClosedMsg = ''closed'', ifPreRelease = ''pre'', ifBuild = None\<rparr>"

definition demo_half :: "flat world" where
  "demo_half = (demo_world demo_db)\<lparr>cached := \<lparr>Initialized = True, nVoting = 1, nVoted = 0, nExpired = 0, nMissed = 0,
     nWalletsOnline = 1, nTotalWallets = 1, nBlockHeight = 9, nNetworkProportion = 1 / 2, nExpiredProportion = 0,
     nMissedProportion = 0\<rparr>\<rparr>"

lemma length_dec_small: "length (dec_of_int (sint (n :: int64))) \<le> 20"
proof -
  have L: "length (dec_of_nat m) \<le> 19" if "m \<le> 2 ^ 63" for m
  proof (cases "m = 0")
    case False
    then have "(10 :: nat) ^ (length (dec_of_nat m) - 1) \<le> 2 ^ 63" using length_dec_of_nat [of m] that by auto
    also have "(2 :: nat) ^ 63 < 10 ^ 19" by simp
    finally have "length (dec_of_nat m) - 1 < 19" by (simp only: power_strict_increasing_iff)
    then show ?thesis by simp
  qed (simp add: dec_of_nat.simps)
  have "- (2 ^ 63) \<le> sint n" "sint n < 2 ^ 63" using sint_range_size [of n] by (simp_all add: word_size)
  then have "nat (- sint n) \<le> 2 ^ 63" "nat (sint n) \<le> 2 ^ 63" by (simp_all add: nat_le_iff)
  then show ?thesis using L by (fastforce simp: dec_of_int_def)
qed

lemma demo_floats: "isFloat binary32 (1 / 2)" "isFloat binary64 3"
  by (rule isFloatI [of _ 1 "-1"] isFloatI [of _ 3 0]; simp add: binary32_def binary64_def)+

lemma plain_decimal:
  assumes "isFloat F x" "1 / 10 ^ 6 \<le> x" "x < 10" "0 < prec F" "isFloat F 10" "shortest F x 0 floatDigits = Some (c, e)"
  shows "floatText F x = (let ds = dec_of_nat (nat c) in decimal ds (int (length ds) + e))"
proof -
  have x: "0 < x" using assms(2) by (rule less_le_trans [rotated]) simp
  have "fl F (1 / 10 ^ 6) \<le> fl F x" using assms(2,4) by (intro fl_mono) auto
  moreover have "fl F 10 \<le> fl F (10 ^ 21)" using assms(4) by (intro fl_mono) auto
  ultimately show ?thesis
    using x assms(3,6) fl_float [OF assms(1)] fl_float [OF assms(5)] by (simp add: floatText_def positiveText_def Let_def)
qed

lemma demo_floatTexts: "floatText binary64 3 = ''3''" "floatText binary32 (1 / 2) = ''0.5''"
proof -
  have ten: "isFloat binary64 10" "isFloat binary32 10"
    by (rule isFloatI [of _ 10 0]; simp add: binary32_def binary64_def)+
  have digit: "dec_of_nat 1 = ''1''" "dec_of_nat 3 = ''3''" "dec_of_nat 5 = ''5''" by code_simp+
  have "shortest binary64 3 0 floatDigits = Some (3, 0)"
    using fl_float [OF demo_floats(2)] roundEven_int [of 3] digit
    by (simp add: floatDigits_def eval_nat_numeral decExp_def candidates_def Let_def)
  from plain_decimal [OF demo_floats(2) _ _ _ ten(1) this]
  show "floatText binary64 3 = ''3''" using digit by (simp add: decimal_def binary64_def)
  have "shortest binary32 (1 / 2) 0 floatDigits = Some (5, - 1)"
    using fl_float [OF demo_floats(1)] roundEven_int [of 5] digit
    by (simp add: floatDigits_def eval_nat_numeral decExp_def candidates_def Let_def power_int_minus_divide)
  from plain_decimal [OF demo_floats(1) _ _ _ ten(2) this]
  show "floatText binary32 (1 / 2) = ''0.5''" using digit by (simp add: decimal_def binary32_def)
qed

theorem vspinfo_exchange_witness:
  "\<exists>n w'. clientVspInfo demo_client (infoOverHTTP demo_closed demo_info (cURL demo_client)) demo_half =
     (Ok (Inr (Some (cleaned (infoOf demo_closed demo_info n (cached demo_half))))), w')"
proof -
  have sound: "cacheSound (cached demo_half)"
    using demo_floats(1) by (simp add: cacheSound_def demo_half_def) (simp add: binary32_def)
  have texts: "length (quote (base64 (replicate 32 CHR ''k''))) \<le> 100" "length (quote ''closed'') \<le> 100"
    "length (quote ''testnet'') \<le> 100" "length (quote (versionString ''pre'' None)) \<le> 100" "length (dec_of_int 9) = 1"
    "length (dec_of_int 0) = 1" "length (dec_of_int 1) = 1" "length (dec_of_int 3) = 1"
    by code_simp+
  have tags: "list_all (\<lambda>s. length (quote s) \<le> 40) [''apiversions'', ''timestamp'', ''pubkey'', ''feepercentage'', ''vspclosed'',
      ''vspclosedmsg'', ''network'', ''vspdversion'', ''voting'', ''voted'', ''totalvotingwallets'', ''votingwalletsonline'',
      ''expired'', ''missed'', ''blockheight'', ''estimatednetworkproportion'']"
    by code_simp
  have zero: "length (vspInfoJSON (infoOf demo_closed demo_info 0 (cached demo_half))) \<le> 2000"
    using texts tags by (simp add: vspInfoJSON_def vspInfoMembers_def infoOf_def demo_info_def demo_half_def demo_floatTexts demo_closed_def
      demo_net_def boolText_def del: base64.simps)
  have "length (vspInfoJSON (infoOf demo_closed demo_info n (cached demo_half))) + 1 =
      length (vspInfoJSON (infoOf demo_closed demo_info 0 (cached demo_half))) + length (dec_of_int (sint n))" for n
    by (simp add: vspInfoJSON_def vspInfoMembers_def infoOf_def dec_of_int_def dec_of_nat.simps [of 0])
  note grow = this
  have "length (vspInfoJSON (infoOf demo_closed demo_info n (cached demo_half))) \<le> 4194304" for n
    using grow [of n] zero length_dec_small [of n] by linarith
  from vspinfo_exchange [OF demo_honest _ sound _ _ _ this] demo_floats(2)
  show ?thesis by (simp add: demo_info_def demo_half_def binary64_def)
qed

end
