(* ===== verification/Texts.thy ===== *)
theory Texts
  imports Daemon
begin

text \<open>
  The texts of the website (\<open>internal/webapi/formatting.go\<close>). Dates and amounts are
  formatted by libraries and are left out.
\<close>

section \<open>Strings\<close>

definition trimPrefix :: "string \<Rightarrow> string \<Rightarrow> string" where
  "trimPrefix s p = (if hasPrefix s p then drop (length p) s else s)"

definition trimSuffix :: "string \<Rightarrow> string \<Rightarrow> string" where
  "trimSuffix s p = rev (trimPrefix (rev s) (rev p))"

text \<open>\<open>strings.ReplaceAll\<close> of a text that is not empty.\<close>

function replaceAll :: "string \<Rightarrow> string \<Rightarrow> string \<Rightarrow> string" where
  "replaceAll [] old new = []"
| "replaceAll (c # s) old new =
     (if old \<noteq> [] \<and> hasPrefix (c # s) old then new @ replaceAll (drop (length old) (c # s)) old new
      else c # replaceAll s old new)"
  by pat_completeness auto
termination
  by (relation "measure (\<lambda>(s, _). length s)") auto

section \<open>\<open>formatting.go\<close>\<close>

definition supportURL :: "string \<Rightarrow> string" where
  "supportURL contact =
     (if contains contact ''://'' then contact
      else if contains contact ''@'' then ''mailto:'' @ contact
      else contact)"

definition supportLabel :: "string \<Rightarrow> string" where
  "supportLabel contact = trimSuffix (trimPrefix (trimPrefix contact ''https://'') ''http://'') ''/''"

definition addressURL :: "string \<Rightarrow> string \<Rightarrow> string" where
  "addressURL blockExplorerURL addr = blockExplorerURL @ ''/address/'' @ addr"

definition txURL :: "string \<Rightarrow> string \<Rightarrow> string" where
  "txURL blockExplorerURL txID = blockExplorerURL @ ''/tx/'' @ txID"

definition blockURL :: "string \<Rightarrow> int64 \<Rightarrow> string" where
  "blockURL blockExplorerURL height = blockExplorerURL @ ''/block/'' @ dec_of_int (sint height)"

definition stripWss :: "string \<Rightarrow> string" where
  "stripWss input = replaceAll (replaceAll input ''wss://'' []) ''/ws'' []"

definition pluralizeNoun :: "int64 \<Rightarrow> string \<Rightarrow> string" where
  "pluralizeNoun n noun = dec_of_int (sint n) @ '' '' @ (if n \<noteq> 1 then noun @ ''s'' else noun)"

text \<open>\<open>%.2f\<close>: two decimals of the exact value, rounded to even. The product is one of \<open>float32\<close>.\<close>

definition fixed2 :: "rat \<Rightarrow> string" where
  "fixed2 y = (let n = nat (roundEven (y * 100)) in
     dec_of_nat (n div 100) @ CHR ''.'' # dec_of_nat (n div 10 mod 10) @ dec_of_nat (n mod 10))"

definition float32ToPercent :: "rat \<Rightarrow> string" where
  "float32ToPercent input =
     (let y = fl binary32 (input * 100) in (if y < 0 then CHR ''-'' # fixed2 (- y) else fixed2 y) @ ''%'')"

text \<open>
  \<open>json.Indent\<close> of a valid document: whitespace outside of strings is replaced, but not the one at
  the end. \<open>needIndent\<close> holds after an opening bracket.
\<close>

definition indentNewline :: "nat \<Rightarrow> string" where
  "indentNewline depth = byte 10 # concat (replicate depth ''    '')"

fun indentLoop :: "bool \<Rightarrow> bool \<Rightarrow> bool \<Rightarrow> nat \<Rightarrow> string \<Rightarrow> string" where
  "indentLoop inString escaped needIndent depth [] = []"
| "indentLoop inString escaped needIndent depth (c # cs) =
     (if inString then c # indentLoop (escaped \<or> c \<noteq> byte 0x22) (\<not> escaped \<and> c = byte 0x5C) needIndent depth cs
      else if is_ws c then indentLoop False False needIndent depth cs
      else if c = CHR ''}'' \<or> c = CHR '']'' then
        (if needIndent then c # indentLoop False False False depth cs
         else indentNewline (depth - 1) @ c # indentLoop False False False (depth - 1) cs)
      else let depth' = (if needIndent then Suc depth else depth) in
        (if needIndent then indentNewline depth' else []) @ c #
        (if c = CHR ''{'' \<or> c = CHR ''['' then indentLoop False False True depth' cs
         else if c = CHR '','' then indentNewline depth' @ indentLoop False False False depth' cs
         else if c = CHR '':'' then CHR '' '' # indentLoop False False False depth' cs
         else indentLoop (c = byte 0x22) False False depth' cs))"

definition indentJSON :: "string \<Rightarrow> string" where
  "indentJSON input = (case json_parse input of
     None \<Rightarrow> input
   | Some _ \<Rightarrow> let end = takeWhile is_ws (rev input) in
       indentLoop False False False 0 (take (length input - length end) input) @ rev end)"

section \<open>Facts\<close>

text \<open>Indentation changes nothing but whitespace outside of strings.\<close>

fun compacted :: "bool \<Rightarrow> bool \<Rightarrow> string \<Rightarrow> string" where
  "compacted inString escaped [] = []"
| "compacted inString escaped (c # cs) =
     (if inString then c # compacted (escaped \<or> c \<noteq> byte 0x22) (\<not> escaped \<and> c = byte 0x5C) cs
      else if is_ws c then compacted False False cs
      else c # compacted (c = byte 0x22) False cs)"

lemma compact_outside: "compacted False e s = compacted False False s"
  by (cases s) simp_all

lemma compact_white: "list_all is_ws ws \<Longrightarrow> compacted False e (ws @ s) = compacted False False s"
  by (induction ws arbitrary: e) (auto intro: compact_outside)

lemma blank [simp]: "is_ws (CHR '' '')" "is_ws (byte 10)"
  by (simp_all add: is_ws_def byte_inject)

lemma indentNewline_white: "list_all is_ws (indentNewline n)"
  by (induction n) (auto simp: indentNewline_def)

lemmas compact_newline [simp] = compact_white [OF indentNewline_white]

lemma compact_indentLoop: "compacted i e (indentLoop i e n d s @ t) = compacted i e (s @ t)"
proof (induction i e n d s rule: indentLoop.induct)
  case (2 i e n d c cs)
  have open_ws: "\<not> is_ws (CHR ''}'')" "\<not> is_ws (CHR '']'')" "\<not> is_ws (CHR ''{'')" "\<not> is_ws (CHR ''['')" "\<not> is_ws (CHR '','')"
    "\<not> is_ws (CHR '':'')" "CHR ''}'' \<noteq> byte 0x22" "CHR '']'' \<noteq> byte 0x22" "CHR ''{'' \<noteq> byte 0x22" "CHR ''['' \<noteq> byte 0x22"
    "CHR '','' \<noteq> byte 0x22" "CHR '':'' \<noteq> byte 0x22"
    by (simp_all add: is_ws_def byte_inject)
  consider "i" | "\<not> i" "is_ws c" | "\<not> i" "\<not> is_ws c" by blast
  then show ?case
  proof cases
    case 2
    with "2.IH" show ?thesis using compact_outside [of e] by simp
  next
    case 3
    with 2 show ?thesis by (auto simp: Let_def open_ws)
  qed (use 2 in auto)
qed simp

lemma indentJSON_compact: "compacted False False (indentJSON s) = compacted False False s"
proof -
  have split: "take (length s - length (takeWhile P (rev s))) s @ rev (takeWhile P (rev s)) = s" for P
  proof -
    have "rev s = takeWhile P (rev s) @ dropWhile P (rev s)" by simp
    then have s: "s = rev (dropWhile P (rev s)) @ rev (takeWhile P (rev s))" by (metis rev_append rev_rev_ident)
    then have "length s = length (dropWhile P (rev s)) + length (takeWhile P (rev s))" by (metis length_append length_rev)
    with s show ?thesis by (metis add_diff_cancel_right' append_eq_conv_conj length_rev)
  qed
  show ?thesis by (simp add: indentJSON_def Let_def compact_indentLoop split split: option.split)
qed

lemma percent_whole: "float32ToPercent 1 = ''100.00%''" "float32ToPercent 0 = ''0.00%''"
proof -
  have "fl binary32 100 = 100" by (intro fl_float isFloatI [of _ 100 0]) (simp_all add: binary32_def)
  moreover have "roundEven 10000 = 10000" using roundEven_int [of 10000] by simp
  moreover have "fl binary32 0 = 0" "roundEven 0 = 0" using roundEven_int [of 0] by (simp_all add: fl_def)
  moreover have "dec_of_nat 100 = ''100''" "dec_of_nat 0 = ''0''" by code_simp+
  ultimately show "float32ToPercent 1 = ''100.00%''" "float32ToPercent 0 = ''0.00%''"
    by (simp_all add: float32ToPercent_def fixed2_def)
qed

lemma replaceAll_none: "\<not> contains s old \<Longrightarrow> replaceAll s old new = s"
  by (induction s old new rule: replaceAll.induct) (auto split: if_splits)

lemma hasPrefix_append: "hasPrefix (p @ s) p"
  by (simp add: hasPrefix_iff)

text \<open>The address of an RPC client is shown as the host it was configured with.\<close>

lemma stripWss_client:
  assumes "CHR ''/'' \<notin> set host"
  shows "stripWss (rcAddr (setupClient user pass host cert)) = host"
proof -
  have one: "replaceAll (''wss://'' @ s) ''wss://'' [] = replaceAll s ''wss://'' []" for s
    using hasPrefix_append [of "''wss://''" s] by simp
  have "\<not> contains (host @ ''/ws'') ''wss://''"
  proof
    assume "contains (host @ ''/ws'') ''wss://''"
    then obtain p r where "host @ ''/ws'' = p @ ''wss://'' @ r" by (auto simp: contains_iff)
    then have "count_list (host @ ''/ws'') (CHR ''/'') = count_list (p @ ''wss://'' @ r) (CHR ''/'')" by (rule arg_cong)
    then show False using assms by (simp add: count_list_0_iff)
  qed
  then have "replaceAll (''wss://'' @ host @ ''/ws'') ''wss://'' [] = host @ ''/ws''"
    unfolding one by (rule replaceAll_none)
  moreover have "replaceAll (host @ ''/ws'') ''/ws'' [] = host"
    using assms by (induction host) auto
  ultimately show ?thesis by (simp add: stripWss_def setupClient_def del: replaceAll.simps)
qed

end
