(* ===== verification/Recovery.thy ===== *)
theory Recovery
  imports Texts VoteHandlers
begin

text \<open>
  The recovery middleware (\<open>internal/webapi/recovery.go\<close>): what is answered and logged when a handler
  panics. The stack is the list of frames that \<open>runtime.Caller\<close> returns; \<open>readFile\<close> reads a source file.
\<close>

section \<open>Broken connections\<close>

text \<open>
  \<open>strings.ToLower\<close> as far as the searched texts, which are ASCII, can tell: besides the ASCII letters
  only the Kelvin sign (E2 84 AA) and the dotted capital I (C4 B0) have lower-case letters in ASCII.
\<close>

definition lowerChar :: "char \<Rightarrow> char" where
  "lowerChar c = (if 65 \<le> (of_char c :: nat) \<and> (of_char c :: nat) \<le> 90 then char_of (of_char c + 32 :: nat) else c)"

fun toLower :: "string \<Rightarrow> string" where
  "toLower [] = []"
| "toLower (c # cs) =
     (if hasPrefix (c # cs) [byte 0xE2, byte 0x84, byte 0xAA] then CHR ''k'' # toLower (drop 2 cs)
      else if hasPrefix (c # cs) [byte 0xC4, byte 0xB0] then CHR ''i'' # toLower (drop 1 cs)
      else lowerChar c # toLower cs)"

text \<open>What a handler panicked with: an error or another value, each with the text \<open>%s\<close> prints.\<close>

datatype panicked = PanicError string | PanicValue string

fun panicText :: "panicked \<Rightarrow> string" where
  "panicText (PanicError e) = e"
| "panicText (PanicValue v) = v"

fun brokenPipe :: "panicked \<Rightarrow> bool" where
  "brokenPipe (PanicError e) =
     (let errMsg = toLower e in
      contains errMsg ''broken pipe'' \<or> contains errMsg ''connection reset by peer'' \<or> contains errMsg ''net/http: abort handler'')"
| "brokenPipe (PanicValue v) = False"

section \<open>The stack\<close>

record frame =
  frPC :: nat
  frFile :: string
  frLine :: int
  frName :: "string option"

text \<open>\<open>bytes.TrimSpace\<close>.\<close>

definition spaces :: "string list" where
  "spaces = map encode_rune ([9, 10, 11, 12, 13, 32, 0x85, 0xA0, 0x1680] @ [0x2000..<0x200B] @ [0x2028, 0x2029, 0x202F, 0x205F, 0x3000])"

function trimLeft :: "string list \<Rightarrow> string \<Rightarrow> string" where
  "trimLeft ws s = (case find (\<lambda>w. w \<noteq> [] \<and> hasPrefix s w) ws of
     None \<Rightarrow> s | Some w \<Rightarrow> trimLeft ws (drop (length w) s))"
  by pat_completeness auto
termination
  by (relation "measure (\<lambda>(ws, s). length s)") (auto simp: find_Some_iff hasPrefix_iff)

declare trimLeft.simps [simp del]

definition trimSpace :: "string \<Rightarrow> string" where
  "trimSpace s = rev (trimLeft (map rev spaces) (rev (trimLeft spaces s)))"

text \<open>\<open>source\<close>: the trimmed line \<open>n\<close> of a file; lines are counted from 1.\<close>

definition sourceLine :: "string list \<Rightarrow> int \<Rightarrow> string" where
  "sourceLine lines n =
     (let n = n - 1 in if n < 0 \<or> int (length lines) \<le> n then ''???'' else trimSpace (lines ! nat n))"

text \<open>\<open>function\<close>: the name without the path of its package, with points for center dots.\<close>

definition functionName :: "string option \<Rightarrow> string" where
  "functionName fn = (case fn of
     None \<Rightarrow> ''???''
   | Some name \<Rightarrow>
       let name = (if CHR ''/'' \<in> set name then rev (takeWhile (\<lambda>c. c \<noteq> CHR ''/'') (rev name)) else name);
           name = (if CHR ''.'' \<in> set name then drop 1 (dropWhile (\<lambda>c. c \<noteq> CHR ''.'') name) else name)
       in replaceAll name [byte 0xC2, byte 0xB7] ''.'')"

fun hexText :: "nat \<Rightarrow> string" where
  "hexText n = (if n < 16 then [hex_digit n] else hexText (n div 16) @ [hex_digit (n mod 16)])"

declare hexText.simps [simp del]

text \<open>\<open>bytes.Split\<close> at line breaks.\<close>

fun splitLines :: "string \<Rightarrow> string list" where
  "splitLines [] = [[]]"
| "splitLines (c # cs) = (if c = byte 10 then [] # splitLines cs
     else case splitLines cs of [] \<Rightarrow> [[c]] | l # ls \<Rightarrow> (c # l) # ls)"

text \<open>The loop over the frames, with the lines of the file that was read last.\<close>

fun stackLoop :: "(string \<Rightarrow> bytes option) \<Rightarrow> frame list \<Rightarrow> string list \<Rightarrow> string \<Rightarrow> string" where
  "stackLoop readFile [] lines lastFile = []"
| "stackLoop readFile (f # fs) lines lastFile =
     (let head = frFile f @ '':'' @ dec_of_int (frLine f) @ '' (0x'' @ hexText (frPC f) @ '')'' @ [byte 10];
          body = (\<lambda>ls. [byte 9] @ functionName (frName f) @ '': '' @ sourceLine ls (frLine f) @ [byte 10])
      in head @
        (if frFile f = lastFile then body lines @ stackLoop readFile fs lines lastFile
         else case readFile (frFile f) of
           None \<Rightarrow> stackLoop readFile fs lines lastFile
         | Some file \<Rightarrow> body (splitLines file) @ stackLoop readFile fs (splitLines file) (frFile f)))"

definition formattedStack :: "(string \<Rightarrow> bytes option) \<Rightarrow> frame list \<Rightarrow> string" where
  "formattedStack readFile callers = stackLoop readFile callers [] []"

section \<open>The middleware\<close>

definition recoveryLog :: "panicked \<Rightarrow> string \<Rightarrow> string \<Rightarrow> string" where
  "recoveryLog p stack httpRequest =
     (if brokenPipe p then panicText p @ [byte 10] @ httpRequest
      else ''panic recovered: '' @ panicText p @ [byte 10, byte 10] @ stack @ [byte 10, byte 10] @ httpRequest)"

text \<open>A dead connection gets no status.\<close>

definition recovery :: "panicked \<Rightarrow> ('s, unit) act" where
  "recovery p = (if brokenPipe p then ret () else respond 500 [] [])"

section \<open>Facts\<close>

text \<open>A run-time panic of the code is answered as \<open>serve\<close> answers it.\<close>

lemma recovery_serve:
  assumes "runChain hs (newCtx body sig) w = (Panic, w')" "\<not> brokenPipe p"
  shows "serve hs body sig w = recovery p w'"
  using assms by (simp add: serve_def recovery_def)

lemma trimLeft_done: "find (\<lambda>w. w \<noteq> [] \<and> hasPrefix (trimLeft ws s) w) ws = None"
proof (induction ws s rule: trimLeft.induct)
  case (1 ws s)
  then show ?case
    by (cases "find (\<lambda>w. w \<noteq> [] \<and> hasPrefix s w) ws") (simp_all add: trimLeft.simps [of ws s])
qed

lemma splitLines_join: "concat (map (\<lambda>l. l @ [byte 10]) (splitLines s)) = s @ [byte 10]"
  by (induction s) (auto split: list.splits)

text \<open>Every frame is printed, whatever files can be read.\<close>

lemma stack_frames: "length (filter (\<lambda>c. c = byte 10) (formattedStack (\<lambda>_. None) fs)) \<ge> length fs"
  unfolding formattedStack_def by (induction fs) (auto simp: Let_def)

end
