(* ===== verification/Shutdown.thy ===== *)
theory Shutdown
  imports Prelude
begin

text \<open>
  The end of the daemon: the signals that cancel its context (\<open>internal/signal\<close>), the goroutines of
  \<open>Run\<close> in \<open>internal/webapi/webapi.go\<close> and of \<open>cmd/vspm/main.go\<close>, and the deferred calls. A step is
  one event of one goroutine, so every interleaving is a run of the step relation.
\<close>

section \<open>Signals\<close>

definition interruptSignals :: "string list" where
  "interruptSignals = [''interrupt''] @ [''terminated'', ''hangup'']"

text \<open>
  \<open>ShutdownListener\<close> on the signals sent to the process: whether the context is canceled, and what is
  logged. Other signals are not delivered to it; of those that come at once some may get lost.
\<close>

fun listen :: "bool \<Rightarrow> string list \<Rightarrow> bool \<times> string list" where
  "listen isCanceled [] = (isCanceled, [])"
| "listen isCanceled (sig # sigs) =
     (if sig \<notin> set interruptSignals then listen isCanceled sigs
      else map_prod id ((#) (''Received signal ('' @ sig @ (if isCanceled then ''). Already shutting down...'' else ''). Shutting down...'')))
        (listen True sigs))"

definition ShutdownListener :: "string list \<Rightarrow> bool \<times> string list" where
  "ShutdownListener sigs = listen False sigs"

lemma listener_cancels: "fst (ShutdownListener sigs) \<longleftrightarrow> (\<exists>s\<in>set sigs. s \<in> set interruptSignals)"
proof -
  have "fst (listen c sigs) \<longleftrightarrow> c \<or> (\<exists>s\<in>set sigs. s \<in> set interruptSignals)" for c
    by (induction sigs arbitrary: c) auto
  then show ?thesis by (simp add: ShutdownListener_def)
qed

section \<open>Goroutines\<close>

text \<open>
  \<open>lfAccepting\<close>: \<open>Serve\<close> runs. \<open>lfRequests\<close>: the requests being handled. \<open>lfGraceful\<close>: the goroutine that
  calls \<open>Shutdown\<close>. \<open>lfRefresh\<close>, \<open>lfTask\<close>, \<open>lfTimer\<close>: the loops that refresh the cache, run the
  background task and write backups are running. \<open>lfDeferred\<close>: the deferred calls that have run, which
  close the wallets, mond and the database and log the end. \<open>lfTimedOut\<close> records that \<open>Shutdown\<close> gave up
  after ten seconds.
\<close>

datatype graceful = Waiting | Draining | Returned

record life =
  lfCanceled :: bool
  lfAccepting :: bool
  lfRequests :: nat
  lfGraceful :: graceful
  lfTimedOut :: bool
  lfRefresh :: bool
  lfTask :: bool
  lfTimer :: bool
  lfDeferred :: nat

definition started :: life where
  "started = \<lparr>lfCanceled = False, lfAccepting = True, lfRequests = 0, lfGraceful = Waiting, lfTimedOut = False,
     lfRefresh = True, lfTask = True, lfTimer = True, lfDeferred = 0\<rparr>"

text \<open>\<open>wg.Wait()\<close> of \<open>webapi.go\<close> and of \<open>main.go\<close> return.\<close>

definition apiEnded :: "life \<Rightarrow> bool" where
  "apiEnded s \<longleftrightarrow> \<not> lfAccepting s \<and> lfGraceful s = Returned \<and> \<not> lfRefresh s"

definition allEnded :: "life \<Rightarrow> bool" where
  "allEnded s \<longleftrightarrow> apiEnded s \<and> \<not> lfTask s \<and> \<not> lfTimer s"

definition deferredCalls :: "string list" where
  "deferredCalls = [''wallets.Close'', ''mond.Close'', ''db.Close'', ''Shutdown complete'']"

definition databaseClosed :: "life \<Rightarrow> bool" where
  "databaseClosed s \<longleftrightarrow> ''db.Close'' \<in> set (take (lfDeferred s) deferredCalls)"

inductive life_step :: "life \<Rightarrow> life \<Rightarrow> bool" where
  interrupt: "life_step s (s\<lparr>lfCanceled := True\<rparr>)"
| accept: "lfAccepting s \<Longrightarrow> life_step s (s\<lparr>lfRequests := Suc (lfRequests s)\<rparr>)"
| answer: "0 < lfRequests s \<Longrightarrow> life_step s (s\<lparr>lfRequests := lfRequests s - 1\<rparr>)"
| serve_fails: "lfAccepting s \<Longrightarrow> life_step s (s\<lparr>lfAccepting := False\<rparr>)"
| shutdown: "lfCanceled s \<Longrightarrow> lfGraceful s = Waiting \<Longrightarrow> life_step s (s\<lparr>lfAccepting := False, lfGraceful := Draining\<rparr>)"
| drained: "lfGraceful s = Draining \<Longrightarrow> lfRequests s = 0 \<Longrightarrow> life_step s (s\<lparr>lfGraceful := Returned\<rparr>)"
| gives_up: "lfGraceful s = Draining \<Longrightarrow> 0 < lfRequests s \<Longrightarrow> life_step s (s\<lparr>lfGraceful := Returned, lfTimedOut := True\<rparr>)"
| refresh_ends: "lfCanceled s \<Longrightarrow> lfRefresh s \<Longrightarrow> life_step s (s\<lparr>lfRefresh := False\<rparr>)"
| task_ends: "lfCanceled s \<Longrightarrow> lfTask s \<Longrightarrow> life_step s (s\<lparr>lfTask := False\<rparr>)"
| timer_ends: "lfCanceled s \<Longrightarrow> lfTimer s \<Longrightarrow> life_step s (s\<lparr>lfTimer := False\<rparr>)"
| deferred: "allEnded s \<Longrightarrow> lfDeferred s < length deferredCalls \<Longrightarrow> life_step s (s\<lparr>lfDeferred := Suc (lfDeferred s)\<rparr>)"

inductive_cases life_stepE: "life_step s s'"

section \<open>Invariant\<close>

definition life_inv :: "life \<Rightarrow> bool" where
  "life_inv s \<longleftrightarrow> (lfGraceful s \<noteq> Waiting \<longrightarrow> lfCanceled s \<and> \<not> lfAccepting s) \<and>
     (\<not> lfRefresh s \<or> \<not> lfTask s \<or> \<not> lfTimer s \<longrightarrow> lfCanceled s) \<and>
     (lfGraceful s = Returned \<and> \<not> lfTimedOut s \<longrightarrow> lfRequests s = 0) \<and>
     (0 < lfDeferred s \<longrightarrow> allEnded s) \<and> lfDeferred s \<le> length deferredCalls"

lemma life_inv_step: "life_inv s \<Longrightarrow> life_step s s' \<Longrightarrow> life_inv s'"
  by (erule life_stepE; clarsimp simp: life_inv_def allEnded_def apiEnded_def; fail)

lemma life_inv_run: "life_step\<^sup>*\<^sup>* started s \<Longrightarrow> life_inv s"
proof (induction rule: rtranclp_induct)
  case base
  show ?case by (simp add: life_inv_def started_def)
next
  case (step s s')
  then show ?case by (blast intro: life_inv_step)
qed

text \<open>What is left to do until the end.\<close>

definition remaining :: "life \<Rightarrow> nat" where
  "remaining s = lfRequests s + (length deferredCalls - lfDeferred s) + (case lfGraceful s of Waiting \<Rightarrow> 2 | Draining \<Rightarrow> 1 | Returned \<Rightarrow> 0) +
     (if lfAccepting s then 1 else 0) + (if lfRefresh s then 1 else 0) + (if lfTask s then 1 else 0) + (if lfTimer s then 1 else 0)"

lemma remaining_step:
  assumes "life_inv s" "lfCanceled s" "life_step s s'"
  shows "s' = s \<or> remaining s' < remaining s \<or> lfAccepting s \<and> s' = s\<lparr>lfRequests := Suc (lfRequests s)\<rparr>"
  using assms(3)
proof (cases rule: life_step.cases)
  case interrupt
  then show ?thesis using assms(2) by (cases s) simp
next
  case shutdown
  then show ?thesis by (auto simp: remaining_def)
qed (auto simp: remaining_def)

lemma remaining_progress:
  assumes "life_inv s" "lfCanceled s" "lfDeferred s < length deferredCalls"
  shows "\<exists>s'. life_step s s' \<and> remaining s' < remaining s"
proof -
  have fall: "\<lbrakk>life_step s s'; remaining s' < remaining s\<rbrakk> \<Longrightarrow> ?thesis" for s' by blast
  consider "lfAccepting s" | "lfGraceful s = Waiting" "\<not> lfAccepting s" | "lfGraceful s = Draining" "lfRequests s = 0"
    | "lfGraceful s = Draining" "0 < lfRequests s" | "lfRefresh s" | "lfTask s" | "lfTimer s" | "allEnded s"
    by (cases "lfGraceful s"; auto simp: allEnded_def apiEnded_def)
  then show ?thesis
  proof cases
    case 1
    then show ?thesis by (intro fall [OF serve_fails]) (auto simp: remaining_def)
  next
    case 2
    then show ?thesis using assms(2) by (intro fall [OF shutdown]) (auto simp: remaining_def)
  next
    case 3
    then show ?thesis by (intro fall [OF drained]) (auto simp: remaining_def)
  next
    case 4
    then show ?thesis by (intro fall [OF gives_up]) (auto simp: remaining_def)
  next
    case 5
    then show ?thesis using assms(2) by (intro fall [OF refresh_ends]) (auto simp: remaining_def)
  next
    case 6
    then show ?thesis using assms(2) by (intro fall [OF task_ends]) (auto simp: remaining_def)
  next
    case 7
    then show ?thesis using assms(2) by (intro fall [OF timer_ends]) (auto simp: remaining_def)
  next
    case 8
    then show ?thesis using assms(3) by (intro fall [OF deferred]) (auto simp: remaining_def)
  qed
qed


text \<open>A run in which a request is slower than the graceful shutdown: it outlives the database.\<close>

definition outlived :: life where
  "outlived = \<lparr>lfCanceled = True, lfAccepting = False, lfRequests = 1, lfGraceful = Returned, lfTimedOut = True,
     lfRefresh = False, lfTask = False, lfTimer = False, lfDeferred = 3\<rparr>"

lemma request_outlives: "life_step\<^sup>*\<^sup>* started outlived" "databaseClosed outlived" "0 < lfRequests outlived"
proof -
  let ?s = "\<lparr>lfCanceled = True, lfAccepting = False, lfRequests = 1, lfGraceful = Returned, lfTimedOut = True,
     lfRefresh = False, lfTask = False, lfTimer = False, lfDeferred = 0\<rparr>"
  note go = converse_rtranclp_into_rtranclp
  have "life_step\<^sup>*\<^sup>* started ?s"
    unfolding started_def
    apply (rule go, rule accept, simp)
    apply (rule go, rule interrupt)
    apply (rule go, rule shutdown, simp, simp)
    apply (rule go, rule gives_up, simp, simp)
    apply (rule go, rule refresh_ends, simp, simp)
    apply (rule go, rule task_ends, simp, simp)
    apply (rule go, rule timer_ends, simp, simp)
    by simp
  moreover have "life_step\<^sup>*\<^sup>* ?s outlived"
    unfolding outlived_def
    apply (rule go, rule deferred, simp add: allEnded_def apiEnded_def, simp add: deferredCalls_def)
    apply (rule go, rule deferred, simp add: allEnded_def apiEnded_def, simp add: deferredCalls_def)
    apply (rule go, rule deferred, simp add: allEnded_def apiEnded_def, simp add: deferredCalls_def)
    by (simp add: numeral_3_eq_3)
  ultimately show "life_step\<^sup>*\<^sup>* started outlived" by (rule rtranclp_trans)
  show "databaseClosed outlived" "0 < lfRequests outlived" by (simp_all add: databaseClosed_def deferredCalls_def outlived_def)
qed


end
